(* ===== verification/Prelude.thy ===== *)
theory Prelude
  imports Main "HOL-Library.AList" "HOL-Library.List_Lexorder" "HOL-Library.Char_ord"
begin

text \<open>
  What every component of the development shares: the exceptions of the Python code as values,
  sequencing of fallible computations, insertion-ordered dictionaries as association lists with
  the operations of \<open>HOL-Library.AList\<close>, the interface of a keyed table as a locale,
  and the decimal rendering of numbers. Strings are lists of \<^typ>\<open>char\<close>, that is
  Python strings over the code points 0 to 255, ordered by code point.
\<close>

named_theorems result_simps \<open>sequencing of fallible computations\<close>
named_theorems dict_simps \<open>lookups in updated dictionaries\<close>

section \<open>Exceptions as values\<close>

text \<open>
  The exception classes the source raises or lets through. A \<open>ServiceError\<close> carries its
  HTTP-like status; message texts are diagnostics and are left out.
\<close>

datatype exn =
    ServiceError int
  | KeyError
  | AmbiguousToolName
  | ValueError
  | TypeError
  | AttributeError
  | AssertionError
  | ArgsNotHashable
  | SchemaValidationError
  | SchemaTooNewError
  | OperationalError
  | IntegrityError
  | JSONDecodeError
  | UnsupportedAlgorithm
  | UnicodeDecodeError
  | OverflowError
  | IndexError
  | OSError
  | McpDiscoveryError string
  | OpenAPISpecError string
  | HTTPException
  | ToolConnectUnavailable
  | ToolConnectDenied
  | GrantRedeemDenied
  | SystemExit

type_synonym 'a result = "exn + 'a"

fun bind_result :: "'e + 'a \<Rightarrow> ('a \<Rightarrow> 'e + 'b) \<Rightarrow> 'e + 'b" where
  "bind_result (Inl e) f = Inl e"
| "bind_result (Inr a) f = f a"

lemma bind_result_Inr [result_simps]:
  "bind_result r f = Inr b \<longleftrightarrow> (\<exists>a. r = Inr a \<and> f a = Inr b)"
  by (cases r) auto

lemma bind_result_Inl [result_simps]:
  "bind_result r f = Inl e \<longleftrightarrow> r = Inl e \<or> (\<exists>a. r = Inr a \<and> f a = Inl e)"
  by (cases r) auto

text \<open>A \<open>for\<close> loop whose body may raise: the first exception ends it.\<close>

fun map_result :: "('a \<Rightarrow> 'e + 'b) \<Rightarrow> 'a list \<Rightarrow> 'e + 'b list" where
  "map_result f [] = Inr []"
| "map_result f (x # xs) = bind_result (f x) (\<lambda>y. bind_result (map_result f xs) (\<lambda>ys. Inr (y # ys)))"

lemma map_result_Inr_iff:
  "map_result f xs = Inr ys \<longleftrightarrow> list_all2 (\<lambda>x y. f x = Inr y) xs ys"
proof (induction xs arbitrary: ys)
  case Nil
  then show ?case by auto
next
  case (Cons x xs)
  then show ?case by (cases ys) (auto simp: result_simps)
qed

lemma map_result_pure: "map_result (\<lambda>x. Inr (f x)) xs = Inr (map f xs)"
  by (induction xs) auto

section \<open>Dictionaries\<close>

text \<open>
  A Python \<open>dict\<close> keeps insertion order and overwrites in place: an association list with
  distinct keys, read by \<^const>\<open>map_of\<close> and written by \<^const>\<open>AList.update\<close>.
\<close>

type_synonym ('k, 'v) dict = "('k \<times> 'v) list"

abbreviation dict_get :: "('k, 'v) dict \<Rightarrow> 'k \<Rightarrow> 'v option" where
  "dict_get d k \<equiv> map_of d k"

abbreviation dict_set :: "'k \<Rightarrow> 'v \<Rightarrow> ('k, 'v) dict \<Rightarrow> ('k, 'v) dict" where
  "dict_set k v d \<equiv> AList.update k v d"

abbreviation dict_keys :: "('k, 'v) dict \<Rightarrow> 'k list" where
  "dict_keys d \<equiv> map fst d"

definition wf_dict :: "('k, 'v) dict \<Rightarrow> bool" where
  "wf_dict d \<longleftrightarrow> distinct (dict_keys d)"

lemma dict_get_set [dict_simps]:
  "dict_get (dict_set k v d) k' = (if k' = k then Some v else dict_get d k')"
  by (simp add: update_conv')

lemma wf_dict_Nil [simp]: "wf_dict []"
  by (simp add: wf_dict_def)

lemma wf_dict_set [simp, intro]: "wf_dict d \<Longrightarrow> wf_dict (dict_set k v d)"
  by (simp add: wf_dict_def distinct_update)

lemma dict_keys_set: "set (dict_keys (dict_set k v d)) = insert k (set (dict_keys d))"
  by (metis dom_map_of_conv_image_fst dom_update image_set Un_insert_right sup_bot.right_neutral
      insert_is_Un sup_commute set_map)

text \<open>
  The contract of a keyed table, met by dictionaries and by every SQL table that is written with
  \<open>INSERT ... ON CONFLICT DO UPDATE\<close>: what a read returns after a write.
\<close>

locale keyed_table =
  fixes get :: "'t \<Rightarrow> 'k \<Rightarrow> 'v option"
    and put :: "'k \<Rightarrow> 'v \<Rightarrow> 't \<Rightarrow> 't"
  assumes get_put: "get (put k v t) k' = (if k' = k then Some v else get t k')"
begin

lemma get_put_same: "get (put k v t) k = Some v"
  by (simp add: get_put)

lemma get_put_other: "k' \<noteq> k \<Longrightarrow> get (put k v t) k' = get t k'"
  by (simp add: get_put)

lemma put_put: "get (put k w (put k v t)) = get (put k w t)"
  by (rule ext) (simp add: get_put)

lemma put_commute: "k \<noteq> k' \<Longrightarrow> get (put k v (put k' w t)) = get (put k' w (put k v t))"
  by (rule ext) (simp add: get_put)

lemma fold_put_get:
  "get (fold (\<lambda>(k, v). put k v) kvs t) k =
     (case map_of (rev kvs) k of Some v \<Rightarrow> Some v | None \<Rightarrow> get t k)"
proof (induction kvs arbitrary: t)
  case Nil
  then show ?case by simp
next
  case (Cons kv kvs)
  then show ?case
    by (cases kv) (auto simp: get_put map_add_def split: option.split)
qed

end

interpretation dict: keyed_table map_of AList.update
  by unfold_locales (simp add: dict_simps)

section \<open>Sorted output\<close>

text \<open>\<open>sorted(s)\<close> of a set: its elements in ascending order, once each.\<close>

definition py_sorted_set :: "'a::linorder list \<Rightarrow> 'a list" where
  "py_sorted_set xs = sort (remdups xs)"

lemma py_sorted_set_props:
  "set (py_sorted_set xs) = set xs" "sorted (py_sorted_set xs)" "distinct (py_sorted_set xs)"
  by (simp_all add: py_sorted_set_def)

lemma py_sorted_set_eq: "py_sorted_set xs = sorted_list_of_set (set xs)"
  by (simp add: py_sorted_set_def sorted_list_of_set_sort_remdups)

lemma py_sorted_set_cong: "set xs = set ys \<Longrightarrow> py_sorted_set xs = py_sorted_set ys"
  by (simp add: py_sorted_set_eq)

section \<open>Decimal digits\<close>

definition digit_char :: "nat \<Rightarrow> char" where
  "digit_char n = char_of (48 + n)"

definition digit_val :: "char \<Rightarrow> nat" where
  "digit_val c = of_char c - 48"

definition is_digit :: "char \<Rightarrow> bool" where
  "is_digit c \<longleftrightarrow> (48::nat) \<le> of_char c \<and> of_char c \<le> (57::nat)"

lemma of_digit_char: "n < 10 \<Longrightarrow> of_char (digit_char n) = 48 + n"
  by (simp add: digit_char_def)

lemma digit_val_char [simp]: "n < 10 \<Longrightarrow> digit_val (digit_char n) = n"
  by (simp add: digit_val_def of_digit_char)

lemma is_digit_char [simp]: "n < 10 \<Longrightarrow> is_digit (digit_char n)"
  by (simp add: is_digit_def of_digit_char)

fun show_nat :: "nat \<Rightarrow> string" where
  "show_nat n = (if n < 10 then [digit_char n] else show_nat (n div 10) @ [digit_char (n mod 10)])"

declare show_nat.simps [simp del]

fun read_digits :: "nat \<Rightarrow> string \<Rightarrow> nat" where
  "read_digits acc [] = acc"
| "read_digits acc (c # cs) = read_digits (10 * acc + digit_val c) cs"

abbreviation read_nat :: "string \<Rightarrow> nat" where
  "read_nat \<equiv> read_digits 0"

lemma read_digits_append: "read_digits a (xs @ ys) = read_digits (read_digits a xs) ys"
  by (induction xs arbitrary: a) auto

lemma show_nat_digits: "\<forall>c \<in> set (show_nat n). is_digit c"
proof (induction n rule: show_nat.induct)
  case (1 n)
  then show ?case by (cases "n < 10") (auto simp: show_nat.simps [of n])
qed

lemma show_nat_nonempty [simp]: "show_nat n \<noteq> []"
  by (subst show_nat.simps) simp

lemma length_show_nat_pos [simp]: "0 < length (show_nat n)"
  by simp

lemma read_show_nat [simp]: "read_nat (show_nat n) = n"
proof (induction n rule: show_nat.induct)
  case (1 n)
  then show ?case by (cases "n < 10") (auto simp: show_nat.simps [of n] read_digits_append)
qed

lemma show_nat_inj [simp]: "show_nat m = show_nat n \<longleftrightarrow> m = n"
  using read_show_nat by metis

lemma read_digits_acc: "read_digits a xs = a * 10 ^ length xs + read_nat xs"
proof (induction xs arbitrary: a)
  case Nil
  then show ?case by simp
next
  case (Cons c cs)
  show ?case
    using Cons [of "10 * a + digit_val c"] Cons [of "digit_val c"] by (simp add: algebra_simps)
qed

lemma digit_val_zero [simp]: "digit_val (CHR ''0'') = 0"
  by (simp add: digit_val_def)

lemma read_nat_zeros [simp]: "read_digits a (replicate k (CHR ''0'')) = a * 10 ^ k"
  by (induction k arbitrary: a) auto

definition show_int :: "int \<Rightarrow> string" where
  "show_int i = (if i < 0 then CHR ''-'' # show_nat (nat (- i)) else show_nat (nat i))"

definition read_int :: "string \<Rightarrow> int" where
  "read_int s = (case s of c # cs \<Rightarrow> if c = CHR ''-'' then - int (read_nat cs) else int (read_nat s)
                         | [] \<Rightarrow> 0)"

lemma show_nat_no_minus: "show_nat n = c # cs \<Longrightarrow> c \<noteq> CHR ''-''"
  using show_nat_digits [of n] by (auto simp: is_digit_def)

lemma read_show_int [simp]: "read_int (show_int i) = i"
proof (cases "i < 0")
  case True
  then show ?thesis by (simp add: show_int_def read_int_def)
next
  case False
  then have i: "show_int i = show_nat (nat i)"
    by (simp add: show_int_def)
  obtain c cs where s: "show_nat (nat i) = c # cs"
    using show_nat_nonempty by (cases "show_nat (nat i)") auto
  from False s show ?thesis
    using show_nat_no_minus [OF s] read_show_nat [of "nat i"]
    by (simp add: i read_int_def)
qed

lemma show_int_inj [simp]: "show_int i = show_int j \<longleftrightarrow> i = j"
  using read_show_int by metis

fun join :: "string \<Rightarrow> string list \<Rightarrow> string" where
  "join sep [] = []"
| "join sep [x] = x"
| "join sep (x # y # xs) = x @ sep @ join sep (y # xs)"

end
