(* ===== verification/Sha256.thy ===== *)
theory Sha256
  imports Prelude "HOL-Library.Word"
begin

unbundle bit_operations_syntax

text \<open>
  The part of Python's standard library the source hashes with: \<open>str.encode("utf-8")\<close> and
  \<open>hashlib.sha256\<close> (FIPS 180-4) with its \<open>digest\<close> and \<open>hexdigest\<close>. The
  function is written out on 32-bit words, so that every definition that hashes is about SHA-256
  itself and no theorem has to assume that a hash has no collisions: a security statement names the
  collision that would be needed instead.
\<close>

section \<open>UTF-8\<close>

definition utf8_char :: "char \<Rightarrow> 8 word list" where
  "utf8_char c =
     (let n = (of_char c :: nat) in
      if n < 128 then [of_nat n] else [of_nat (192 + n div 64), of_nat (128 + n mod 64)])"

definition utf8_encode :: "string \<Rightarrow> 8 word list" where
  "utf8_encode s = concat (map utf8_char s)"

section \<open>Padding and blocks\<close>

definition be_bytes :: "nat \<Rightarrow> nat \<Rightarrow> 8 word list" where
  "be_bytes k n = map (\<lambda>i. of_nat (n div 256 ^ i)) (rev [0..<k])"

text \<open>The zero bytes bring the message to 56 bytes modulo 64; the length in bits follows.\<close>

definition sha_pad :: "8 word list \<Rightarrow> 8 word list" where
  "sha_pad m = m @ [128] @ replicate ((119 - length m mod 64) mod 64) 0 @ be_bytes 8 (8 * length m)"

fun be_words :: "8 word list \<Rightarrow> 32 word list" where
  "be_words (a # b # c # d # bs) =
     (ucast a * 16777216 + ucast b * 65536 + ucast c * 256 + ucast d) # be_words bs"
| "be_words _ = []"

fun chunks16 :: "32 word list \<Rightarrow> 32 word list list" where
  "chunks16 [] = []"
| "chunks16 (w # ws) = take 16 (w # ws) # chunks16 (drop 15 ws)"

section \<open>The compression function\<close>

definition rotr :: "nat \<Rightarrow> 32 word \<Rightarrow> 32 word" where
  "rotr n x = drop_bit n x OR push_bit (32 - n) x"

definition sha_k :: "32 word list" where
  "sha_k = [
   1116352408, 1899447441, 3049323471, 3921009573, 961987163, 1508970993, 2453635748, 2870763221,
   3624381080, 310598401, 607225278, 1426881987, 1925078388, 2162078206, 2614888103, 3248222580,
   3835390401, 4022224774, 264347078, 604807628, 770255983, 1249150122, 1555081692, 1996064986,
   2554220882, 2821834349, 2952996808, 3210313671, 3336571891, 3584528711, 113926993, 338241895,
   666307205, 773529912, 1294757372, 1396182291, 1695183700, 1986661051, 2177026350, 2456956037,
   2730485921, 2820302411, 3259730800, 3345764771, 3516065817, 3600352804, 4094571909, 275423344,
   430227734, 506948616, 659060556, 883997877, 958139571, 1322822218, 1537002063, 1747873779,
   1955562222, 2024104815, 2227730452, 2361852424, 2428436474, 2756734187, 3204031479, 3329325298]"

definition sha_iv :: "32 word list" where
  "sha_iv = [
   1779033703, 3144134277, 1013904242, 2773480762, 1359893119, 2600822924, 528734635, 1541459225]"

text \<open>The message schedule: 48 further words, each from words 2, 7, 15 and 16 places before it.\<close>

fun sha_schedule :: "nat \<Rightarrow> 32 word list \<Rightarrow> 32 word list" where
  "sha_schedule 0 ws = ws"
| "sha_schedule (Suc n) ws =
     (let i = length ws; w15 = ws ! (i - 15); w2 = ws ! (i - 2);
          s0 = rotr 7 w15 XOR rotr 18 w15 XOR drop_bit 3 w15;
          s1 = rotr 17 w2 XOR rotr 19 w2 XOR drop_bit 10 w2
      in sha_schedule n (ws @ [ws ! (i - 16) + s0 + ws ! (i - 7) + s1]))"

type_synonym sha_state =
  "32 word \<times> 32 word \<times> 32 word \<times> 32 word \<times> 32 word \<times> 32 word \<times> 32 word \<times> 32 word"

fun sha_round :: "32 word \<times> 32 word \<Rightarrow> sha_state \<Rightarrow> sha_state" where
  "sha_round (k, w) (a, b, c, d, e, f, g, h) =
     (let s1 = rotr 6 e XOR rotr 11 e XOR rotr 25 e;
          ch = (e AND f) XOR (NOT e AND g);
          t1 = h + s1 + ch + k + w;
          s0 = rotr 2 a XOR rotr 13 a XOR rotr 22 a;
          maj = (a AND b) XOR (a AND c) XOR (b AND c)
      in (t1 + (s0 + maj), a, b, c, d + t1, e, f, g))"

fun sha_block :: "32 word list \<Rightarrow> sha_state \<Rightarrow> sha_state" where
  "sha_block ws (a, b, c, d, e, f, g, h) =
     (case fold sha_round (zip sha_k (sha_schedule 48 ws)) (a, b, c, d, e, f, g, h) of
        (a', b', c', d', e', f', g', h') \<Rightarrow>
          (a + a', b + b', c + c', d + d', e + e', f + f', g + g', h + h'))"

fun sha_words :: "sha_state \<Rightarrow> 32 word list" where
  "sha_words (a, b, c, d, e, f, g, h) = [a, b, c, d, e, f, g, h]"

definition sha_init :: sha_state where
  "sha_init = (sha_iv ! 0, sha_iv ! 1, sha_iv ! 2, sha_iv ! 3,
               sha_iv ! 4, sha_iv ! 5, sha_iv ! 6, sha_iv ! 7)"

definition sha256 :: "8 word list \<Rightarrow> 32 word list" where
  "sha256 m = sha_words (fold sha_block (chunks16 (be_words (sha_pad m))) sha_init)"

section \<open>Digests\<close>

definition hex_digit :: "nat \<Rightarrow> char" where
  "hex_digit n = (if n < 10 then char_of (48 + n) else char_of (87 + n))"

text \<open>\<open>hex_fixed k n\<close> is \<open>f"{n:0kx}"\<close> for \<open>n < 16 ^ k\<close>: exactly \<open>k\<close> lower-case digits.\<close>

fun hex_fixed :: "nat \<Rightarrow> nat \<Rightarrow> string" where
  "hex_fixed 0 n = []"
| "hex_fixed (Suc k) n = hex_fixed k (n div 16) @ [hex_digit (n mod 16)]"

definition sha256_hexdigest :: "string \<Rightarrow> string" where
  "sha256_hexdigest s = concat (map (\<lambda>w. hex_fixed 8 (unat w)) (sha256 (utf8_encode s)))"

text \<open>\<open>int.from_bytes(sha256(...).digest()[:8], "big")\<close>: the first two words, big endian.\<close>

definition sha256_prefix64 :: "string \<Rightarrow> nat" where
  "sha256_prefix64 s =
     (case sha256 (utf8_encode s) of
        a # b # _ \<Rightarrow> unat a * 2 ^ 32 + unat b
      | _ \<Rightarrow> 0)"

lemma length_hex_fixed [simp]: "length (hex_fixed k n) = k"
  by (induction k arbitrary: n) auto

lemma length_sha_words [simp]: "length (sha_words s) = 8"
  by (cases s) auto

lemma length_sha256 [simp]: "length (sha256 m) = 8"
  by (simp add: sha256_def)

lemma length_hexdigest [simp]: "length (sha256_hexdigest s) = 64"
proof -
  have "length (concat (map (\<lambda>w. hex_fixed 8 (unat w)) ws)) = 8 * length ws" for ws :: "32 word list"
    by (induction ws) auto
  then show ?thesis by (simp add: sha256_hexdigest_def)
qed

lemma sha256_prefix64_bound: "sha256_prefix64 s < 2 ^ 64"
proof -
  have bound: "unat a * 2 ^ 32 + unat b < 2 ^ 64" for a b :: "32 word"
  proof -
    have "unat a < 2 ^ 32" "unat b < 2 ^ 32"
      using unsigned_less [of a] unsigned_less [of b] by simp_all
    then show ?thesis by simp
  qed
  then show ?thesis by (auto simp: sha256_prefix64_def split: list.split)
qed

lemma hex_digit_plain: "n < 16 \<Longrightarrow> 48 \<le> (of_char (hex_digit n) :: nat) \<and> (of_char (hex_digit n) :: nat) \<le> 102"
  by (auto simp: hex_digit_def)

lemma hex_fixed_plain: "c \<in> set (hex_fixed k n) \<Longrightarrow> 48 \<le> (of_char c :: nat) \<and> (of_char c :: nat) \<le> 102"
  by (induction k arbitrary: n) (auto dest: hex_digit_plain [rotated] simp: hex_digit_plain)

text \<open>The digest of a text never contains the unit separator the audit chain joins fields with.\<close>

lemma hexdigest_plain: "c \<in> set (sha256_hexdigest s) \<Longrightarrow> 48 \<le> (of_char c :: nat)"
  by (auto simp: sha256_hexdigest_def dest: hex_fixed_plain)

end
