(* ===== verification/Json_Reader.thy ===== *)
theory Json_Reader
  imports Json
begin

text \<open>
  \<open>json.loads\<close> on the texts this program writes itself (audit bodies and canonical
  arguments, all produced by \<open>json.dumps\<close> with compact separators): the reader accepts exactly
  the texts \<^const>\<open>dumps\<close> emits for well-formed values and answers every other text with
  \<^const>\<open>JSONDecodeError\<close>. The round trip gives injectivity of the canonical rendering.
\<close>

section \<open>Reading numbers\<close>

definition num_char :: "char \<Rightarrow> bool" where
  "num_char c \<longleftrightarrow> is_digit c \<or> c \<in> set ''-+.e''"

fun strip_zeros :: "nat \<Rightarrow> int \<Rightarrow> nat \<times> int" where
  "strip_zeros d e = (if d \<noteq> 0 \<and> d mod 10 = 0 then strip_zeros (d div 10) (e + 1) else (d, e))"

declare strip_zeros.simps [simp del]

definition norm_float :: "bool \<Rightarrow> nat \<Rightarrow> int \<Rightarrow> pyfloat" where
  "norm_float neg d e =
     (if d = 0 then FFin neg 0 0 else (case strip_zeros d e of (d', e') \<Rightarrow> FFin neg d' e'))"

definition before :: "char \<Rightarrow> string \<Rightarrow> string" where
  "before c s = takeWhile (\<lambda>x. x \<noteq> c) s"

definition after :: "char \<Rightarrow> string \<Rightarrow> string" where
  "after c s = tl (dropWhile (\<lambda>x. x \<noteq> c) s)"

definition read_exp :: "string \<Rightarrow> int" where
  "read_exp s = (case s of [] \<Rightarrow> 0
     | c # cs \<Rightarrow> if c = CHR ''-'' then - int (read_nat cs) else int (read_nat cs))"

definition read_ufloat :: "bool \<Rightarrow> string \<Rightarrow> pyfloat" where
  "read_ufloat neg s =
     (let m = before (CHR ''e'') s; ip = before (CHR ''.'') m; fp = after (CHR ''.'') m
      in norm_float neg (read_nat (ip @ fp)) (read_exp (after (CHR ''e'') s) - int (length fp)))"

definition read_float :: "string \<Rightarrow> pyfloat" where
  "read_float s =
     (case s of [] \<Rightarrow> FNan
      | c # cs \<Rightarrow> if c = CHR ''-'' then read_ufloat True cs else read_ufloat False s)"

definition read_num :: "string \<Rightarrow> (json \<times> string) option" where
  "read_num s =
     (let t = takeWhile num_char s; r = dropWhile num_char s
      in if t = [] then None
         else if CHR ''.'' \<in> set t \<or> CHR ''e'' \<in> set t then Some (JFloat (read_float t), r)
         else Some (JInt (read_int t), r))"

section \<open>Reading strings\<close>

definition hex_val :: "char \<Rightarrow> nat" where
  "hex_val c = (if is_digit c then of_char c - 48 else of_char c - 87)"

definition unescape :: "char \<Rightarrow> char" where
  "unescape c =
     (if c = CHR ''n'' then CHR 0x0A else if c = CHR ''r'' then CHR 0x0D
      else if c = CHR ''t'' then CHR 0x09 else if c = CHR ''f'' then CHR 0x0C
      else if c = CHR ''b'' then CHR 0x08 else c)"

definition push_char :: "char \<Rightarrow> (string \<times> string) option \<Rightarrow> (string \<times> string) option" where
  "push_char c r = map_option (map_prod (Cons c) id) r"

fun read_chars :: "string \<Rightarrow> (string \<times> string) option" where
  "read_chars [] = None"
| "read_chars (c # cs) =
     (if c = CHR 0x22 then Some ([], cs)
      else if c = CHR 0x5C then
        (case cs of
           [] \<Rightarrow> None
         | d # ds \<Rightarrow>
             if d = CHR ''u'' then
               (case ds of
                  h3 # h2 # h1 # h0 # es \<Rightarrow>
                    push_char (char_of (4096 * hex_val h3 + 256 * hex_val h2 + 16 * hex_val h1 + hex_val h0))
                      (read_chars es)
                | _ \<Rightarrow> None)
             else push_char (unescape d) (read_chars ds))
      else push_char c (read_chars cs))"

section \<open>Reading values\<close>

fun read_lit :: "string \<Rightarrow> json \<Rightarrow> string \<Rightarrow> (json \<times> string) option" where
  "read_lit [] v s = Some (v, s)"
| "read_lit (c # cs) v (d # ds) = (if c = d then read_lit cs v ds else None)"
| "read_lit (c # cs) v [] = None"

fun read_val :: "nat \<Rightarrow> string \<Rightarrow> (json \<times> string) option"
  and read_elems :: "nat \<Rightarrow> string \<Rightarrow> (json list \<times> string) option"
  and read_items :: "nat \<Rightarrow> string \<Rightarrow> ((string \<times> json) list \<times> string) option" where
  "read_val 0 s = None"
| "read_val (Suc n) [] = None"
| "read_val (Suc n) (c # cs) =
     (if c = CHR 0x22 then map_option (map_prod JStr id) (read_chars cs)
      else if c = CHR ''['' then
        (if cs \<noteq> [] \<and> hd cs = CHR '']'' then Some (JList [], tl cs)
         else map_option (map_prod JList id) (read_elems n cs))
      else if c = CHR ''{'' then
        (if cs \<noteq> [] \<and> hd cs = CHR ''}'' then Some (JDict [], tl cs)
         else map_option (map_prod JDict id) (read_items n cs))
      else if c = CHR ''n'' then read_lit ''null'' JNull (c # cs)
      else if c = CHR ''t'' then read_lit ''true'' (JBool True) (c # cs)
      else if c = CHR ''f'' then read_lit ''false'' (JBool False) (c # cs)
      else if c = CHR ''N'' then read_lit ''NaN'' (JFloat FNan) (c # cs)
      else if c = CHR ''I'' then read_lit ''Infinity'' (JFloat (FInf False)) (c # cs)
      else if c = CHR ''-'' \<and> cs \<noteq> [] \<and> hd cs = CHR ''I''
        then read_lit ''-Infinity'' (JFloat (FInf True)) (c # cs)
      else read_num (c # cs))"
| "read_elems 0 s = None"
| "read_elems (Suc n) s =
     (case read_val n s of
        Some (v, c # r) \<Rightarrow>
          if c = CHR '','' then map_option (map_prod (Cons v) id) (read_elems n r)
          else if c = CHR '']'' then Some ([v], r) else None
      | _ \<Rightarrow> None)"
| "read_items 0 s = None"
| "read_items (Suc n) s =
     (case s of
        q # s' \<Rightarrow>
          if q \<noteq> CHR 0x22 then None else
          (case read_chars s' of
             Some (k, d # r) \<Rightarrow>
               if d \<noteq> CHR '':'' then None else
               (case read_val n r of
                  Some (v, c # r') \<Rightarrow>
                    if c = CHR '','' then map_option (map_prod (Cons (k, v)) id) (read_items n r')
                    else if c = CHR ''}'' then Some ([(k, v)], r') else None
                | _ \<Rightarrow> None)
           | _ \<Rightarrow> None)
      | [] \<Rightarrow> None)"

definition json_loads :: "string \<Rightarrow> json result" where
  "json_loads s =
     (case read_val (length s) s of
        Some (v, []) \<Rightarrow> if wf_json v \<and> dumps v = s then Inr v else Inl JSONDecodeError
      | _ \<Rightarrow> Inl JSONDecodeError)"

section \<open>Round trip of strings\<close>

lemma hex_val_digit [simp]: "n < 16 \<Longrightarrow> hex_val (hex_digit n) = n"
  by (auto simp: hex_val_def hex_digit_def is_digit_def)

lemma hex_fixed_4:
  assumes "n < 256"
  shows "hex_fixed 4 n = [hex_digit 0, hex_digit 0, hex_digit (n div 16), hex_digit (n mod 16)]"
proof -
  have four: "(4::nat) = Suc (Suc (Suc (Suc 0)))" by simp
  have "n div 16 < 16" using assms by (simp add: less_mult_imp_div_less)
  then show ?thesis unfolding four by simp
qed

lemma read_escape: "read_chars (escape_char c @ rest) = push_char c (read_chars rest)"
proof (cases "escape_char c = [CHR 0x5C, CHR ''u''] @ hex_fixed 4 (of_char c)")
  case True
  have "(of_char c :: nat) div 16 < 16"
    by (rule less_mult_imp_div_less) simp
  then show ?thesis using True by (simp add: hex_fixed_4)
next
  case False
  then show ?thesis
    by (auto simp: escape_char_def unescape_def split: if_splits)
qed

lemma read_chars_escaped:
  "read_chars (concat (map escape_char s) @ CHR 0x22 # rest) = Some (s, rest)"
  by (induction s) (simp_all add: read_escape push_char_def)

section \<open>Round trip of numbers\<close>

lemma num_char_digit: "is_digit c \<Longrightarrow> num_char c"
  by (simp add: num_char_def)

lemma is_digit_plain: "is_digit c \<Longrightarrow> c \<noteq> CHR ''.'' \<and> c \<noteq> CHR ''e'' \<and> c \<noteq> CHR ''-''"
  by (auto simp: is_digit_def)

lemma before_append: "c \<notin> set xs \<Longrightarrow> before c (xs @ c # ys) = xs"
  unfolding before_def by (subst takeWhile_append2) auto

lemma before_none: "c \<notin> set xs \<Longrightarrow> before c xs = xs"
  unfolding before_def by (rule takeWhile_eq_all_conv [THEN iffD2]) auto

lemma after_append: "c \<notin> set xs \<Longrightarrow> after c (xs @ c # ys) = ys"
  unfolding after_def by (subst dropWhile_append2) auto

lemma after_none: "c \<notin> set xs \<Longrightarrow> after c xs = []"
proof -
  assume "c \<notin> set xs"
  then have "dropWhile (\<lambda>x. x \<noteq> c) xs = []" by (auto simp: dropWhile_eq_Nil_conv)
  then show ?thesis unfolding after_def by (metis list.sel(2))
qed

lemmas split_at = before_append before_none after_append after_none

lemma strip_zeros_pow:
  "d mod 10 \<noteq> 0 \<Longrightarrow> strip_zeros (d * 10 ^ k) e = (d, e + int k)"
proof (induction k arbitrary: e)
  case 0
  then show ?case by (simp add: strip_zeros.simps)
next
  case (Suc k)
  then have "d \<noteq> 0" by (metis mod_0)
  with Suc show ?case by (subst strip_zeros.simps) simp
qed

lemma norm_float_pow:
  assumes "wf_float (FFin neg d e)"
  shows "norm_float neg (d * 10 ^ k) (e - int k) = FFin neg d e"
  using assms strip_zeros_pow [of d k "e - int k"] by (auto simp: norm_float_def split: if_splits)

lemma norm_float_id: "wf_float (FFin neg d e) \<Longrightarrow> norm_float neg d e = FFin neg d e"
  using norm_float_pow [of neg d e 0] by simp

lemma read_show_exp2: "read_exp (show_exp2 e) = e"
  by (auto simp: read_exp_def show_exp2_def Let_def)

lemma show_exp2_chars: "c \<in> set (show_exp2 e) \<Longrightarrow> num_char c \<and> c \<noteq> CHR ''e'' \<and> c \<noteq> CHR ''.''"
proof -
  assume c: "c \<in> set (show_exp2 e)"
  then have "c \<in> set ''-+0'' \<or> c \<in> set (show_nat (nat \<bar>e\<bar>))"
    by (auto simp: show_exp2_def Let_def split: if_splits)
  then show ?thesis
  proof
    assume "c \<in> set ''-+0''"
    then show ?thesis by (auto simp: num_char_def is_digit_def)
  next
    assume "c \<in> set (show_nat (nat \<bar>e\<bar>))"
    then have "is_digit c" using show_nat_digits by blast
    then show ?thesis using is_digit_plain num_char_digit by blast
  qed
qed

lemma digits_free:
  assumes "\<forall>c \<in> set ds. is_digit c"
  shows "CHR ''.'' \<notin> set ds" "CHR ''e'' \<notin> set ds" "CHR ''-'' \<notin> set ds"
    "CHR ''.'' \<notin> set (take n ds)" "CHR ''e'' \<notin> set (take n ds)"
    "CHR ''.'' \<notin> set (drop n ds)" "CHR ''e'' \<notin> set (drop n ds)"
  using assms is_digit_plain by (blast dest: in_set_takeD in_set_dropD)+

lemma read_ufloat_split:
  assumes "CHR ''e'' \<notin> set ip" "CHR ''.'' \<notin> set ip" "CHR ''e'' \<notin> set fp" "CHR ''.'' \<notin> set fp"
  shows "read_ufloat neg (ip @ CHR ''.'' # fp) =
           norm_float neg (read_nat (ip @ fp)) (- int (length fp))"
    and "read_ufloat neg ((ip @ CHR ''.'' # fp) @ CHR ''e'' # ex) =
           norm_float neg (read_nat (ip @ fp)) (read_exp ex - int (length fp))"
    and "read_ufloat neg (ip @ CHR ''e'' # ex) = norm_float neg (read_nat ip) (read_exp ex)"
proof -
  have m: "CHR ''e'' \<notin> set (ip @ CHR ''.'' # fp)" using assms by simp
  show "read_ufloat neg (ip @ CHR ''.'' # fp) =
      norm_float neg (read_nat (ip @ fp)) (- int (length fp))"
    unfolding read_ufloat_def Let_def before_none [OF m] after_none [OF m]
      before_append [OF assms(2)] after_append [OF assms(2)] by (simp add: read_exp_def)
  show "read_ufloat neg ((ip @ CHR ''.'' # fp) @ CHR ''e'' # ex) =
      norm_float neg (read_nat (ip @ fp)) (read_exp ex - int (length fp))"
    unfolding read_ufloat_def Let_def before_append [OF m] after_append [OF m]
      before_append [OF assms(2)] after_append [OF assms(2)] by simp
  show "read_ufloat neg (ip @ CHR ''e'' # ex) = norm_float neg (read_nat ip) (read_exp ex)"
    unfolding read_ufloat_def Let_def before_append [OF assms(1)] after_append [OF assms(1)]
      before_none [OF assms(2)] after_none [OF assms(2)] by simp
qed

lemma read_show_digits:
  fixes d :: nat and e :: int
  defines "ds \<equiv> show_nat d"
  assumes wf: "wf_float (FFin neg d e)"
  shows "read_ufloat neg (show_digits ds (int (length ds) + e)) = FFin neg d e"
proof -
  let ?p = "int (length ds) + e"
  have dig: "\<forall>c \<in> set ds. is_digit c" and val: "read_nat ds = d" and ne: "ds \<noteq> []"
    using show_nat_digits by (simp_all add: ds_def)
  note free = digits_free [OF dig]
  consider "?p \<le> -4 \<or> ?p > 16" | "-4 < ?p" "?p \<le> 0" | "0 < ?p" "?p \<le> 16" "nat ?p < length ds"
    | "0 < ?p" "?p \<le> 16" "length ds \<le> nat ?p" by linarith
  then show ?thesis
  proof cases
    case 1
    show ?thesis
    proof (cases "length ds = 1")
      case True
      then have "take 1 ds = ds" by simp
      with 1 True have "show_digits ds ?p = ds @ CHR ''e'' # show_exp2 (?p - 1)"
        by (simp add: show_digits_def)
      then show ?thesis
        using read_ufloat_split(3) [OF free(2) free(1) free(2) free(1)] True
        by (simp add: read_show_exp2 val norm_float_id [OF wf])
    next
      case False
      with 1 have "show_digits ds ?p =
          (take 1 ds @ CHR ''.'' # drop 1 ds) @ CHR ''e'' # show_exp2 (?p - 1)"
        by (simp add: show_digits_def)
      moreover have "take 1 ds @ drop 1 ds = ds" by simp
      moreover have "?p - 1 - int (length (drop 1 ds)) = e" using ne by (cases ds) auto
      ultimately show ?thesis
        using read_ufloat_split(2) [OF free(5) free(4) free(7) free(6)]
        by (simp only: read_show_exp2 val norm_float_id [OF wf])
    qed
  next
    case 2
    define z where "z = replicate (nat (- ?p)) (CHR ''0'')"
    from 2 have s: "show_digits ds ?p = ''0'' @ CHR ''.'' # z @ ds"
      by (simp add: show_digits_def z_def)
    have z: "CHR ''e'' \<notin> set (z @ ds)" "CHR ''.'' \<notin> set (z @ ds)"
      using free by (auto simp: z_def)
    have "read_nat (''0'' @ z @ ds) = d"
      using val by (simp add: read_digits_append z_def)
    moreover have "- int (length (z @ ds)) = e" using 2 by (simp add: z_def)
    ultimately show ?thesis
      unfolding s using read_ufloat_split(1) [of "''0''", OF _ _ z] norm_float_id [OF wf] by simp
  next
    case 3
    then have s: "show_digits ds ?p = take (nat ?p) ds @ CHR ''.'' # drop (nat ?p) ds"
      by (simp add: show_digits_def)
    have e: "- int (length (drop (nat ?p) ds)) = e" using 3 by auto
    show ?thesis
      unfolding s read_ufloat_split(1) [OF free(5) free(4) free(7) free(6)] e append_take_drop_id val
      by (rule norm_float_id [OF wf])
  next
    case 4
    define z where "z = replicate (nat ?p - length ds) (CHR ''0'')"
    have lz: "int (length z) = e" using 4 by (auto simp: z_def)
    have s: "show_digits ds ?p = (ds @ z) @ CHR ''.'' # ''0''"
      using 4 by (auto simp: show_digits_def z_def)
    have z: "CHR ''e'' \<notin> set (ds @ z)" "CHR ''.'' \<notin> set (ds @ z)"
      using free by (auto simp: z_def)
    have "read_nat ((ds @ z) @ ''0'') = d * 10 ^ Suc (length z)"
      using val by (simp add: read_digits_append z_def)
    then show ?thesis
      unfolding s using read_ufloat_split(1) [OF z, of "''0''"]
        norm_float_pow [OF wf, of "Suc (length z)"] lz by simp
  qed
qed

lemma show_digits_shape:
  assumes dig: "\<forall>c \<in> set ds. is_digit c" and ne: "ds \<noteq> []"
  shows "\<forall>c \<in> set (show_digits ds p). num_char c"
    and "CHR ''.'' \<in> set (show_digits ds p) \<or> CHR ''e'' \<in> set (show_digits ds p)"
    and "\<exists>c cs. show_digits ds p = c # cs \<and> is_digit c"
proof -
  have num: "c \<in> set ds \<Longrightarrow> num_char c" for c using dig num_char_digit by blast
  have marks: "num_char (CHR ''.'')" "num_char (CHR ''e'')" "num_char (CHR ''0'')"
    by (simp_all add: num_char_def is_digit_def)
  have "c \<in> set (show_digits ds p) \<Longrightarrow>
      c \<in> set ds \<or> c \<in> set ''.e0'' \<or> c \<in> set (show_exp2 (p - 1))" for c
    by (auto simp: show_digits_def split: if_splits dest: in_set_takeD in_set_dropD)
  then show "\<forall>c \<in> set (show_digits ds p). num_char c"
    using num marks show_exp2_chars by fastforce
  show "CHR ''.'' \<in> set (show_digits ds p) \<or> CHR ''e'' \<in> set (show_digits ds p)"
    by (auto simp: show_digits_def)
  obtain c cs where ds: "ds = c # cs" using ne by (cases ds) auto
  then have "is_digit c" "is_digit (CHR ''0'')" using dig by (auto simp: is_digit_def)
  then show "\<exists>c cs. show_digits ds p = c # cs \<and> is_digit c"
    using ds by (auto simp: show_digits_def take_Cons split: nat.split)
qed

lemmas repr_shape = show_digits_shape [OF show_nat_digits show_nat_nonempty]

lemma float_repr_token:
  shows "\<forall>c \<in> set (float_repr (FFin neg d e)). num_char c"
    and "CHR ''.'' \<in> set (float_repr (FFin neg d e)) \<or> CHR ''e'' \<in> set (float_repr (FFin neg d e))"
    and "\<exists>c cs. float_repr (FFin neg d e) = c # cs \<and> (is_digit c \<or> c = CHR ''-'' \<and> cs \<noteq> [] \<and> is_digit (hd cs))"
proof -
  let ?p = "int (length (show_nat d)) + e"
  note shape = repr_shape [of d ?p]
  show "\<forall>c \<in> set (float_repr (FFin neg d e)). num_char c"
    using shape(1) by (auto simp: num_char_def)
  show "CHR ''.'' \<in> set (float_repr (FFin neg d e)) \<or> CHR ''e'' \<in> set (float_repr (FFin neg d e))"
    using shape(2) by auto
  show "\<exists>c cs. float_repr (FFin neg d e) = c # cs \<and> (is_digit c \<or> c = CHR ''-'' \<and> cs \<noteq> [] \<and> is_digit (hd cs))"
    using shape(3) by auto
qed

lemma read_float_repr:
  assumes "wf_float (FFin neg d e)"
  shows "read_float (float_repr (FFin neg d e)) = FFin neg d e"
proof -
  let ?s = "show_digits (show_nat d) (int (length (show_nat d)) + e)"
  obtain c cs where s: "?s = c # cs" "is_digit c"
    using repr_shape(3) by blast
  then have "c \<noteq> CHR ''-''" using is_digit_plain by blast
  with s show ?thesis
    using read_show_digits [OF assms] by (cases neg) (simp_all add: read_float_def)
qed

definition delim :: "string \<Rightarrow> bool" where
  "delim r \<longleftrightarrow> r = [] \<or> hd r \<in> {CHR '','', CHR '']'', CHR ''}''}"

lemma read_token:
  assumes "\<forall>c \<in> set t. num_char c" "delim r"
  shows "takeWhile num_char (t @ r) = t" "dropWhile num_char (t @ r) = r"
proof -
  have "r = [] \<or> \<not> num_char (hd r)"
    using assms(2) by (auto simp: delim_def num_char_def is_digit_def)
  then have "takeWhile num_char r = []" "dropWhile num_char r = r"
    by (cases r; simp)+
  then show "takeWhile num_char (t @ r) = t" "dropWhile num_char (t @ r) = r"
    using assms(1) by (simp_all add: takeWhile_append2 dropWhile_append2)
qed

lemma show_int_token:
  shows "\<forall>c \<in> set (show_int i). num_char c \<and> c \<noteq> CHR ''.'' \<and> c \<noteq> CHR ''e''"
    and "\<exists>c cs. show_int i = c # cs \<and> (is_digit c \<or> c = CHR ''-'' \<and> cs \<noteq> [] \<and> is_digit (hd cs))"
proof -
  have dig: "c \<in> set (show_nat n) \<Longrightarrow> num_char c \<and> c \<noteq> CHR ''.'' \<and> c \<noteq> CHR ''e''" for c n
    using show_nat_digits is_digit_plain num_char_digit by blast
  then show "\<forall>c \<in> set (show_int i). num_char c \<and> c \<noteq> CHR ''.'' \<and> c \<noteq> CHR ''e''"
    by (auto simp: show_int_def num_char_def)
  have "\<exists>c cs. show_nat n = c # cs \<and> is_digit c" for n
    using show_nat_digits [of n] show_nat_nonempty [of n] by (cases "show_nat n") auto
  then obtain c cs c' cs' where
    "show_nat (nat i) = c # cs" "is_digit c" "show_nat (nat (- i)) = c' # cs'" "is_digit c'"
    by metis
  then show "\<exists>c cs. show_int i = c # cs \<and> (is_digit c \<or> c = CHR ''-'' \<and> cs \<noteq> [] \<and> is_digit (hd cs))"
    by (cases "i < 0") (simp_all add: show_int_def)
qed

lemma show_int_nonempty: "show_int i \<noteq> []"
  by (simp add: show_int_def)

lemma float_repr_nonempty: "float_repr f \<noteq> []"
proof (cases f)
  case (FFin neg d e)
  then show ?thesis using float_repr_token(3) [of neg d e] by force
qed simp_all

lemma read_num_token:
  assumes "\<forall>c \<in> set t. num_char c" "t \<noteq> []" "delim r"
  shows "read_num (t @ r) =
    Some (if CHR ''.'' \<in> set t \<or> CHR ''e'' \<in> set t then JFloat (read_float t) else JInt (read_int t), r)"
  unfolding read_num_def Let_def read_token [OF assms(1,3)] using assms(2) by simp

lemma read_num_int:
  assumes "delim r"
  shows "read_num (show_int i @ r) = Some (JInt i, r)"
proof -
  have "\<forall>c \<in> set (show_int i). num_char c"
    "CHR ''.'' \<notin> set (show_int i)" "CHR ''e'' \<notin> set (show_int i)"
    using show_int_token(1) [of i] by blast+
  then show ?thesis using read_num_token [OF _ show_int_nonempty assms] by simp
qed

lemma read_num_float:
  assumes "wf_float (FFin neg d e)" "delim r"
  shows "read_num (float_repr (FFin neg d e) @ r) = Some (JFloat (FFin neg d e), r)"
proof -
  show ?thesis
    unfolding read_num_token [OF float_repr_token(1) float_repr_nonempty assms(2)] read_float_repr [OF assms(1)]
    by (simp only: float_repr_token(2) [of neg d e] if_True)
qed

lemma read_val_number:
  assumes "\<exists>c cs. t = c # cs \<and> (is_digit c \<or> c = CHR ''-'' \<and> cs \<noteq> [] \<and> is_digit (hd cs))"
  shows "read_val (Suc n) (t @ r) = read_num (t @ r)"
proof -
  obtain c cs where t: "t = c # cs" and c: "is_digit c \<or> c = CHR ''-'' \<and> cs \<noteq> [] \<and> is_digit (hd cs)"
    using assms by blast
  have plain: "c \<notin> set [CHR 0x22, CHR ''['', CHR ''{'', CHR ''n'', CHR ''t'', CHR ''f'', CHR ''N'', CHR ''I'']"
    using c by (auto simp: is_digit_def)
  have minus: "\<not> (c = CHR ''-'' \<and> cs @ r \<noteq> [] \<and> hd (cs @ r) = CHR ''I'')"
    using c by (auto simp: is_digit_def)
  show ?thesis
    unfolding t append_Cons read_val.simps if_not_P [OF minus] using plain by simp
qed

section \<open>Round trip of values\<close>

text \<open>The fuel a value needs, and that the length of its text is enough.\<close>

primrec read_fuel :: "json \<Rightarrow> nat" where
  "read_fuel JNull = 1"
| "read_fuel (JBool b) = 1"
| "read_fuel (JInt i) = 1"
| "read_fuel (JFloat f) = 1"
| "read_fuel (JStr s) = 1"
| "read_fuel (JList vs) = Suc (sum_list (map Suc (map read_fuel vs)))"
| "read_fuel (JDict kvs) = Suc (sum_list (map (\<lambda>(k, n). Suc n) (map (map_prod id read_fuel) kvs)))"

lemma length_join:
  "xs \<noteq> [] \<Longrightarrow> Suc (length (join '','' xs)) = sum_list (map Suc (map length xs))"
  by (induction "'',''" xs rule: join.induct) auto

lemma sum_list_Suc_mono:
  "(\<And>x. x \<in> set xs \<Longrightarrow> f x \<le> g x) \<Longrightarrow> sum_list (map Suc (map f xs)) \<le> sum_list (map Suc (map g xs))"
  by (induction xs) (auto simp: add_mono)

lemma read_fuel_le: "read_fuel v \<le> length (dumps v)"
proof (induction v)
  case (JFloat f)
  show ?case using float_repr_nonempty [of f] by (cases f) (auto simp: Suc_le_eq)
next
  case (JInt i)
  show ?case using show_int_nonempty [of i] by (simp add: Suc_le_eq)
next
  case (JList vs)
  then show ?case
  proof (cases "vs = []")
    case False
    then show ?thesis
      using sum_list_Suc_mono [of vs read_fuel "\<lambda>v. length (dumps v)"] JList
        length_join [of "map dumps vs"] by (simp add: comp_def)
  qed simp
next
  case (JDict kvs)
  then show ?case
  proof (cases "kvs = []")
    case False
    have "sum_list (map Suc (map (\<lambda>kv. read_fuel (snd kv)) kvs))
        \<le> sum_list (map Suc (map (\<lambda>kv. length (dumps_item (map_prod id dumps kv))) kvs))"
    proof (rule sum_list_Suc_mono)
      fix kv assume "kv \<in> set kvs"
      then have "read_fuel (snd kv) \<le> length (dumps (snd kv))"
        using JDict [of kv "snd kv"] by (cases kv) (auto simp: snds.simps)
      then show "read_fuel (snd kv) \<le> length (dumps_item (map_prod id dumps kv))"
        by (simp add: dumps_item_def)
    qed
    then show ?thesis
      using False length_join [of "map dumps_item (map (map_prod id dumps) kvs)"]
      by (simp add: comp_def case_prod_beta)
  qed simp
qed (auto simp: dumps_str_def)

lemma read_lit_append: "read_lit t v (t @ r) = Some (v, r)"
  by (induction t) auto

text \<open>No rendered value starts with a closing bracket.\<close>

lemma dumps_head: "\<exists>c cs. dumps v = c # cs \<and> c \<noteq> CHR '']'' \<and> c \<noteq> CHR ''}''"
proof (cases v)
  case (JInt i)
  obtain c cs where "show_int i = c # cs" "is_digit c \<or> c = CHR ''-''"
    using show_int_token(2) [of i] by blast
  then show ?thesis using JInt by (auto simp: is_digit_def)
next
  case (JFloat f)
  show ?thesis
  proof (cases f)
    case (FFin neg d e)
    obtain c cs where "float_repr (FFin neg d e) = c # cs" "is_digit c \<or> c = CHR ''-''"
      using float_repr_token(3) [of neg d e] by blast
    then show ?thesis using JFloat FFin by (auto simp: is_digit_def)
  qed (use JFloat in auto)
qed (auto simp: dumps_str_def)

definition reads_back :: "json \<Rightarrow> bool" where
  "reads_back v \<longleftrightarrow>
     (\<forall>n r. read_fuel v \<le> n \<longrightarrow> delim r \<longrightarrow> read_val n (dumps v @ r) = Some (v, r))"

lemma read_fuel_pos: "0 < read_fuel v"
  by (cases v) auto

lemma reads_backI:
  assumes "\<And>n r. read_fuel v \<le> Suc n \<Longrightarrow> delim r \<Longrightarrow> read_val (Suc n) (dumps v @ r) = Some (v, r)"
  shows "reads_back v"
  unfolding reads_back_def
proof (intro allI impI)
  fix n r assume "read_fuel v \<le> n" "delim r"
  then show "read_val n (dumps v @ r) = Some (v, r)"
    using assms read_fuel_pos [of v] by (cases n) auto
qed

lemma reads_backD: "reads_back v \<Longrightarrow> read_fuel v \<le> n \<Longrightarrow> delim r \<Longrightarrow> read_val n (dumps v @ r) = Some (v, r)"
  by (simp add: reads_back_def)

lemma delim_closers [simp]: "delim (CHR '','' # r)" "delim (CHR '']'' # r)" "delim (CHR ''}'' # r)" "delim []"
  by (simp_all add: delim_def)

lemma read_elems_join:
  assumes "vs \<noteq> []" "\<forall>v \<in> set vs. reads_back v" "sum_list (map Suc (map read_fuel vs)) \<le> n"
  shows "read_elems n (join '','' (map dumps vs) @ CHR '']'' # r) = Some (vs, r)"
  using assms
proof (induction vs arbitrary: n rule: list_nonempty_induct)
  case (single v)
  then obtain m where n: "n = Suc m" "read_fuel v \<le> m" by (cases n) auto
  with single show ?case by (simp add: reads_back_def)
next
  case (cons v vs)
  then obtain m where n: "n = Suc m" "read_fuel v \<le> m" "sum_list (map Suc (map read_fuel vs)) \<le> m"
    by (cases n) auto
  have j: "join '','' (map dumps (v # vs)) = dumps v @ CHR '','' # join '','' (map dumps vs)"
    using cons(1) by (cases vs) auto
  have "read_val m (dumps v @ CHR '','' # join '','' (map dumps vs) @ CHR '']'' # r)
      = Some (v, CHR '','' # join '','' (map dumps vs) @ CHR '']'' # r)"
    using cons(3) n(2) by (simp add: reads_back_def)
  moreover have "read_elems m (join '','' (map dumps vs) @ CHR '']'' # r) = Some (vs, r)"
    using cons n by simp
  ultimately show ?case unfolding n(1) j by simp
qed

lemma read_items_join:
  assumes "kvs \<noteq> []" "\<forall>kv \<in> set kvs. reads_back (snd kv)"
    "sum_list (map Suc (map (\<lambda>kv. read_fuel (snd kv)) kvs)) \<le> n"
  shows "read_items n (join '','' (map (\<lambda>kv. dumps_item (fst kv, dumps (snd kv))) kvs) @ CHR ''}'' # r)
           = Some (kvs, r)"
  using assms
proof (induction kvs arbitrary: n rule: list_nonempty_induct)
  case (single kv)
  then obtain m where n: "n = Suc m" "read_fuel (snd kv) \<le> m" by (cases n) auto
  with single show ?case
    by (cases kv) (simp add: reads_back_def dumps_item_def dumps_str_def read_chars_escaped)
next
  case (cons kv kvs)
  let ?rest = "join '','' (map (\<lambda>kv. dumps_item (fst kv, dumps (snd kv))) kvs)"
  from cons obtain m where n: "n = Suc m" "read_fuel (snd kv) \<le> m"
    "sum_list (map Suc (map (\<lambda>kv. read_fuel (snd kv)) kvs)) \<le> m"
    by (cases n) auto
  have j: "join '','' (map (\<lambda>kv. dumps_item (fst kv, dumps (snd kv))) (kv # kvs))
      = dumps_item (fst kv, dumps (snd kv)) @ CHR '','' # ?rest"
    using cons(1) by (cases kvs) auto
  have "read_val m (dumps (snd kv) @ CHR '','' # ?rest @ CHR ''}'' # r)
      = Some (snd kv, CHR '','' # ?rest @ CHR ''}'' # r)"
    using cons(3) n(2) by (simp add: reads_back_def)
  moreover have "read_items m (?rest @ CHR ''}'' # r) = Some (kvs, r)"
    using cons n by simp
  moreover have "dumps_item (fst kv, dumps (snd kv)) =
      CHR 0x22 # concat (map escape_char (fst kv)) @ CHR 0x22 # CHR '':'' # dumps (snd kv)"
    by (simp add: dumps_item_def dumps_str_def)
  ultimately show ?case
    unfolding n(1) j by (simp add: read_chars_escaped)
qed

lemma join_head:
  assumes "xs \<noteq> []" "hd xs \<noteq> []"
  shows "join sep xs \<noteq> [] \<and> hd (join sep xs) = hd (hd xs)"
  using assms by (induction sep xs rule: join.induct) auto

lemma reads_back_JList:
  assumes "\<forall>v \<in> set vs. reads_back v"
  shows "reads_back (JList vs)"
proof (rule reads_backI)
  fix n r assume fuel: "read_fuel (JList vs) \<le> Suc n"
  show "read_val (Suc n) (dumps (JList vs) @ r) = Some (JList vs, r)"
  proof (cases "vs = []")
    case False
    let ?j = "join '','' (map dumps vs)"
    have "?j \<noteq> []" "hd ?j \<noteq> CHR '']''"
      using join_head [of "map dumps vs" "'',''"] False dumps_head [of "hd vs"] by (auto simp: hd_map)
    then have "hd (?j @ CHR '']'' # r) \<noteq> CHR '']''" by simp
    moreover have "read_elems n (?j @ CHR '']'' # r) = Some (vs, r)"
      using fuel by (intro read_elems_join [OF False assms]) simp
    ultimately show ?thesis by simp
  qed simp
qed

lemma reads_back_JDict:
  assumes "\<forall>kv \<in> set kvs. reads_back (snd kv)"
  shows "reads_back (JDict kvs)"
proof (rule reads_backI)
  fix n r assume fuel: "read_fuel (JDict kvs) \<le> Suc n"
  show "read_val (Suc n) (dumps (JDict kvs) @ r) = Some (JDict kvs, r)"
  proof (cases "kvs = []")
    case False
    let ?xs = "map (\<lambda>kv. dumps_item (fst kv, dumps (snd kv))) kvs"
    have xs: "map dumps_item (map (map_prod id dumps) kvs) = ?xs"
      by (simp add: map_prod_def case_prod_beta)
    have "join '','' ?xs \<noteq> []" "hd (join '','' ?xs) \<noteq> CHR ''}''"
      using join_head [of ?xs "'',''"] False by (auto simp: hd_map dumps_item_def dumps_str_def)
    then have "hd (join '','' ?xs @ CHR ''}'' # r) \<noteq> CHR ''}''" by simp
    moreover have "read_items n (join '','' ?xs @ CHR ''}'' # r) = Some (kvs, r)"
      using fuel by (intro read_items_join [OF False assms]) (simp add: comp_def case_prod_beta)
    ultimately show ?thesis unfolding dumps.simps xs by simp
  qed simp
qed

lemma dumps_reads_back: "wf_json v \<Longrightarrow> reads_back v"
proof (induction v)
  case JNull
  show ?case by (rule reads_backI) simp
next
  case (JBool b)
  show ?case by (rule reads_backI) simp
next
  case (JInt i)
  show ?case
    using read_val_number [OF show_int_token(2) [of i]] read_num_int [of _ i]
    by (intro reads_backI) (simp del: read_val.simps)
next
  case (JFloat f)
  show ?case
  proof (cases f)
    case (FFin neg d e)
    with JFloat have wf: "wf_float (FFin neg d e)" by simp
    show ?thesis
      unfolding FFin using read_val_number [OF float_repr_token(3) [of neg d e]] read_num_float [OF wf]
      by (intro reads_backI) (simp del: float_repr.simps read_val.simps)
  next
    case (FInf neg)
    then show ?thesis by (intro reads_backI) simp
  next
    case FNan
    then show ?thesis by (intro reads_backI) simp
  qed
next
  case (JStr s)
  show ?case by (rule reads_backI) (simp add: dumps_str_def read_chars_escaped)
next
  case (JList vs)
  then show ?case by (intro reads_back_JList) (auto simp: list_all_iff)
next
  case (JDict kvs)
  have "reads_back (snd kv)" if "kv \<in> set kvs" for kv
    using JDict(1) [OF that, of "snd kv"] JDict(2) that
    by (cases kv) (auto simp: list_all_iff snds.simps)
  then show ?case by (intro reads_back_JDict) blast
qed

theorem loads_dumps: "wf_json v \<Longrightarrow> json_loads (dumps v) = Inr v"
  using reads_backD [OF dumps_reads_back read_fuel_le, of v "[]"] by (simp add: json_loads_def)

lemma loads_sound: "json_loads s = Inr v \<Longrightarrow> wf_json v \<and> dumps v = s"
  by (auto simp: json_loads_def split: option.splits list.splits if_splits)

lemma dumps_inj: "wf_json v \<Longrightarrow> wf_json w \<Longrightarrow> dumps v = dumps w \<Longrightarrow> v = w"
  by (metis Inr_inject loads_dumps)

section \<open>Key order\<close>

lemma wf_dict_map_prod [simp]: "wf_dict (map (map_prod id f) kvs) \<longleftrightarrow> wf_dict kvs"
  by (simp add: wf_dict_def comp_def)

lemma wf_json_JDict: "wf_json (JDict kvs) \<longleftrightarrow> wf_dict kvs \<and> (\<forall>(k, v) \<in> set kvs. wf_json v)"
  by (auto simp: list_all_iff)

lemma wf_json_JList: "wf_json (JList vs) \<longleftrightarrow> (\<forall>v \<in> set vs. wf_json v)"
  by (auto simp: list_all_iff)

lemma wf_dict_sort_key [simp]: "wf_dict (sort_key f kvs) \<longleftrightarrow> wf_dict kvs"
  by (auto simp: wf_dict_def distinct_map)

lemma wf_sort_keys: "wf_json v \<Longrightarrow> wf_json (sort_keys v)"
proof (induction v)
  case (JDict kvs)
  then show ?case
    by (simp only: sort_keys.simps wf_json_JDict) fastforce
qed (auto simp: list_all_iff)

lemma wf_dict_inj: "wf_dict xs \<Longrightarrow> inj_on fst (set xs)"
  by (simp add: wf_dict_def distinct_map)

lemma sort_key_dict_eq_iff:
  assumes "wf_dict xs" "wf_dict ys"
  shows "sort_key fst xs = sort_key fst ys \<longleftrightarrow> set xs = set ys"
proof
  assume "sort_key fst xs = sort_key fst ys"
  then show "set xs = set ys" by (metis set_sort)
next
  assume s: "set xs = set ys"
  show "sort_key fst xs = sort_key fst ys"
  proof (rule map_sorted_distinct_set_unique [where f = fst])
    show "inj_on fst (set (sort_key fst xs) \<union> set (sort_key fst ys))"
      using wf_dict_inj [OF assms(2)] s by simp
  qed (use assms s wf_dict_sort_key in \<open>auto simp: wf_dict_def distinct_map\<close>)
qed

text \<open>
  The same value up to the order of object keys: scalars are equal (so \<open>1\<close>, \<open>1.0\<close> and
  \<open>true\<close> all differ), lists agree position by position, dictionaries as mappings.
\<close>

function same_value :: "json \<Rightarrow> json \<Rightarrow> bool" where
  "same_value (JList xs) b =
     (case b of JList ys \<Rightarrow> length xs = length ys \<and> (\<forall>(x, y) \<in> set (zip xs ys). same_value x y)
              | _ \<Rightarrow> False)"
| "same_value (JDict xs) b =
     (case b of JDict ys \<Rightarrow>
          length xs = length ys \<and>
          (\<forall>(k, x) \<in> set xs. case dict_get ys k of None \<Rightarrow> False | Some y \<Rightarrow> same_value x y)
        | _ \<Rightarrow> False)"
| "same_value JNull b = (b = JNull)"
| "same_value (JStr s) b = (b = JStr s)"
| "same_value (JBool x) b = (b = JBool x)"
| "same_value (JInt i) b = (b = JInt i)"
| "same_value (JFloat f) b = (b = JFloat f)"
  by pat_completeness auto
termination
proof (relation "measure (size \<circ> fst)", goal_cases)
  case 1
  show ?case by simp
next
  case (2 xs b ys z x y)
  then have "fst z \<in> set xs" by (auto dest: set_zip_leftD)
  then show ?case using 2 by (auto dest: size_JList_elem)
next
  case (3 xs b ys z k x y)
  then show ?case by (auto dest: size_JDict_elem)
qed

lemma wf_dict_map_of: "wf_dict kvs \<Longrightarrow> map_of kvs k = Some v \<longleftrightarrow> (k, v) \<in> set kvs"
  by (simp add: wf_dict_def)

lemma wf_dict_subset_eq:
  assumes "wf_dict xs" "wf_dict ys" "length xs = length ys" "set xs \<subseteq> set ys"
  shows "set xs = set ys"
proof -
  have "card (set xs) = length xs" "card (set ys) = length ys"
    using assms(1,2) by (auto simp: wf_dict_def distinct_map intro: distinct_card)
  with assms(3,4) show ?thesis by (simp add: card_subset_eq)
qed

lemma sort_keys_eq_JDict:
  assumes "wf_dict xs" "wf_dict ys"
  shows "sort_keys (JDict xs) = sort_keys (JDict ys) \<longleftrightarrow>
         length xs = length ys \<and>
         (\<forall>(k, x) \<in> set xs. case map_of ys k of None \<Rightarrow> False | Some y \<Rightarrow> sort_keys x = sort_keys y)"
    (is "_ \<longleftrightarrow> ?R")
proof -
  let ?m = "map (map_prod id sort_keys)"
  have "sort_keys (JDict xs) = sort_keys (JDict ys) \<longleftrightarrow> set (?m xs) = set (?m ys)"
    using assms by (simp add: sort_key_dict_eq_iff del: set_map)
  also have "\<dots> \<longleftrightarrow> ?R"
  proof
    assume eq: "set (?m xs) = set (?m ys)"
    then have "card (set (?m xs)) = card (set (?m ys))" by simp
    moreover have "distinct (?m zs)" if "wf_dict zs" for zs
      using that by (metis wf_dict_map_prod wf_dict_def distinct_map)
    ultimately have "length xs = length ys"
      using assms by (metis distinct_card length_map)
    moreover have "case map_of ys k of None \<Rightarrow> False | Some y \<Rightarrow> sort_keys x = sort_keys y"
      if "(k, x) \<in> set xs" for k x
    proof -
      have "(k, sort_keys x) \<in> set (?m ys)"
        using that eq by force
      then obtain y where "(k, y) \<in> set ys" "sort_keys y = sort_keys x" by auto
      then show ?thesis using assms(2) by (simp add: wf_dict_map_of [symmetric])
    qed
    ultimately show ?R by blast
  next
    assume R: ?R
    have "set (?m xs) \<subseteq> set (?m ys)"
    proof
      fix p assume "p \<in> set (?m xs)"
      then obtain k x where p: "p = (k, sort_keys x)" "(k, x) \<in> set xs" by auto
      with R have "case map_of ys k of None \<Rightarrow> False | Some y \<Rightarrow> sort_keys x = sort_keys y" by blast
      then obtain y where "(k, y) \<in> set ys" "sort_keys x = sort_keys y"
        by (auto split: option.splits dest: map_of_SomeD)
      then show "p \<in> set (?m ys)" using p by force
    qed
    then show "set (?m xs) = set (?m ys)"
      using R assms by (intro wf_dict_subset_eq) auto
  qed
  finally show ?thesis .
qed

lemma sort_keys_eq_iff: "wf_json a \<Longrightarrow> wf_json b \<Longrightarrow> sort_keys a = sort_keys b \<longleftrightarrow> same_value a b"
proof (induction a b rule: same_value.induct)
  case (1 xs b)
  show ?case
  proof (cases b)
    case (JList ys)
    have "sort_keys x = sort_keys y \<longleftrightarrow> same_value x y" if z: "(x, y) \<in> set (zip xs ys)" for x y
    proof -
      have "wf_json x" "wf_json y"
        using 1(2) 1(3) [unfolded JList] z unfolding wf_json_JList by (auto dest: set_zip_leftD set_zip_rightD)
      then show ?thesis using 1(1) [OF JList z refl] by simp
    qed
    then have "map sort_keys xs = map sort_keys ys \<longleftrightarrow>
        length xs = length ys \<and> (\<forall>(x, y) \<in> set (zip xs ys). same_value x y)"
      by (subst list_all2_eq) (auto simp: list_all2_iff zip_map_map)
    then show ?thesis using JList by simp
  qed auto
next
  case (2 xs b)
  show ?case
  proof (cases b)
    case (JDict ys)
    have wf: "wf_dict xs" "wf_dict ys" using 2 JDict by auto
    have "sort_keys x = sort_keys y \<longleftrightarrow> same_value x y"
      if "(k, x) \<in> set xs" "map_of ys k = Some y" for k x y
    proof -
      have "wf_json x" "wf_json y"
        using 2(2) 2(3) [unfolded JDict] that unfolding wf_json_JDict by (auto dest: map_of_SomeD)
      then show ?thesis using 2(1) [OF JDict that(1) refl that(2)] by simp
    qed
    then show ?thesis
      using sort_keys_eq_JDict [OF wf] JDict
      by (auto simp del: sort_keys.simps split: option.splits)
  qed auto
qed (case_tac b; auto)+

theorem dumps_sorted_eq_iff:
  "wf_json a \<Longrightarrow> wf_json b \<Longrightarrow> dumps_sorted a = dumps_sorted b \<longleftrightarrow> same_value a b"
  by (metis dumps_sorted_def dumps_inj wf_sort_keys sort_keys_eq_iff)

end
