(* ===== verification/Hashing.thy ===== *)
theory Hashing
  imports Json_Reader
begin

text \<open>
  \<open>hashing.py\<close>: the canonical rendering of call arguments and its SHA-256 digest, the value a
  grant is bound to. Arguments are arbitrary Python objects here, because deciding which of them
  have a canonical form is what \<open>_check\<close> is for. The properties: exactly the objects that
  stand for finite JSON are accepted, an accepted object always renders, and two argument objects
  with one digest are the same JSON value up to key order, or their renderings are a SHA-256
  collision.
\<close>

section \<open>Python objects\<close>

text \<open>
  Objects as \<open>isinstance\<close> tells them apart. \<open>PMapping\<close> is a \<open>Mapping\<close> that is no
  \<open>dict\<close>; \<open>POther\<close> is any other type, by name. A dictionary key that is no string is
  kept by its \<open>repr\<close>.
\<close>

datatype pykey = KStr string | KOther string

datatype pyobj =
    PNone
  | PBool bool
  | PInt int
  | PFloat pyfloat
  | PStr string
  | PList "pyobj list"
  | PTuple "pyobj list"
  | PDict "(pykey \<times> pyobj) list"
  | PMapping "(pykey \<times> pyobj) list"
  | POther string

text \<open>The first exception of a sequence of checks.\<close>

fun first_error :: "unit result list \<Rightarrow> unit result" where
  "first_error [] = Inr ()"
| "first_error (r # rs) = bind_result r (\<lambda>_. first_error rs)"

lemma first_error_ok [simp]: "first_error rs = Inr () \<longleftrightarrow> (\<forall>r \<in> set rs. r = Inr ())"
  by (induction rs) (auto simp: result_simps)

fun check_item :: "pykey \<times> unit result \<Rightarrow> unit result" where
  "check_item (KStr k, r) = r"
| "check_item (KOther k, r) = Inl ArgsNotHashable"

primrec check :: "pyobj \<Rightarrow> unit result" where
  "check PNone = Inr ()"
| "check (PBool b) = Inr ()"
| "check (PInt i) = Inr ()"
| "check (PFloat f) = (if is_finite f then Inr () else Inl ArgsNotHashable)"
| "check (PStr s) = Inr ()"
| "check (PList xs) = first_error (map check xs)"
| "check (PTuple xs) = first_error (map check xs)"
| "check (PDict kvs) = first_error (map check_item (map (map_prod id check) kvs))"
| "check (PMapping kvs) = Inl ArgsNotHashable"
| "check (POther t) = Inl ArgsNotHashable"

section \<open>What json.dumps renders\<close>

fun all_some :: "'a option list \<Rightarrow> 'a list option" where
  "all_some [] = Some []"
| "all_some (None # xs) = None"
| "all_some (Some x # xs) = map_option (Cons x) (all_some xs)"

lemma all_some_map: "(\<forall>x \<in> set xs. f x \<noteq> None) \<Longrightarrow> all_some (map f xs) = Some (map (the \<circ> f) xs)"
  by (induction xs) auto

lemma all_some_Some: "all_some xs = Some ys \<longleftrightarrow> xs = map Some ys"
  by (induction xs arbitrary: ys rule: all_some.induct) (auto simp: map_eq_Cons_conv)

fun json_item :: "pykey \<times> json option \<Rightarrow> (string \<times> json) option" where
  "json_item (KStr k, v) = map_option (Pair k) v"
| "json_item (KOther k, v) = None"

text \<open>
  The JSON value \<open>json.dumps(..., allow_nan=False)\<close> writes for an object: tuples are arrays,
  and \<open>None\<close> stands for its exceptions (unsupported types, non-finite floats) and for the key
  conversions it makes on keys that are no strings.
\<close>

primrec to_json :: "pyobj \<Rightarrow> json option" where
  "to_json PNone = Some JNull"
| "to_json (PBool b) = Some (JBool b)"
| "to_json (PInt i) = Some (JInt i)"
| "to_json (PFloat f) = (if is_finite f then Some (JFloat f) else None)"
| "to_json (PStr s) = Some (JStr s)"
| "to_json (PList xs) = map_option JList (all_some (map to_json xs))"
| "to_json (PTuple xs) = map_option JList (all_some (map to_json xs))"
| "to_json (PDict kvs) = map_option JDict (all_some (map json_item (map (map_prod id to_json) kvs)))"
| "to_json (PMapping kvs) = None"
| "to_json (POther t) = None"

definition canonical_args :: "pyobj \<Rightarrow> string result" where
  "canonical_args args =
     (case args of
        PDict kvs \<Rightarrow> (let plain = PDict kvs in
          bind_result (check plain) (\<lambda>_.
            case to_json plain of Some v \<Rightarrow> Inr (dumps_sorted v) | None \<Rightarrow> Inl ValueError))
      | PMapping kvs \<Rightarrow> (let plain = PDict kvs in
          bind_result (check plain) (\<lambda>_.
            case to_json plain of Some v \<Rightarrow> Inr (dumps_sorted v) | None \<Rightarrow> Inl ValueError))
      | _ \<Rightarrow> Inl ArgsNotHashable)"

definition args_hash :: "pyobj \<Rightarrow> string result" where
  "args_hash args = bind_result (canonical_args args) (\<lambda>text. Inr (sha256_hexdigest text))"

text \<open>The objects \<open>json.loads\<close> builds, which is what reaches the service over HTTP.\<close>

primrec of_json :: "json \<Rightarrow> pyobj" where
  "of_json JNull = PNone"
| "of_json (JBool b) = PBool b"
| "of_json (JInt i) = PInt i"
| "of_json (JFloat f) = PFloat f"
| "of_json (JStr s) = PStr s"
| "of_json (JList vs) = PList (map of_json vs)"
| "of_json (JDict kvs) = PDict (map (\<lambda>(k, v). (KStr k, v)) (map (map_prod id of_json) kvs))"

text \<open>Objects Python can hold: no dictionary has a key twice, floats are normal.\<close>

primrec wf_pyobj :: "pyobj \<Rightarrow> bool" where
  "wf_pyobj PNone = True"
| "wf_pyobj (PBool b) = True"
| "wf_pyobj (PInt i) = True"
| "wf_pyobj (PFloat f) = wf_float f"
| "wf_pyobj (PStr s) = True"
| "wf_pyobj (PList xs) = list_all (\<lambda>b. b) (map wf_pyobj xs)"
| "wf_pyobj (PTuple xs) = list_all (\<lambda>b. b) (map wf_pyobj xs)"
| "wf_pyobj (PDict kvs) = (wf_dict kvs \<and> list_all (\<lambda>(k, b). b) (map (map_prod id wf_pyobj) kvs))"
| "wf_pyobj (PMapping kvs) = (wf_dict kvs \<and> list_all (\<lambda>(k, b). b) (map (map_prod id wf_pyobj) kvs))"
| "wf_pyobj (POther t) = True"

section \<open>Acceptance and rendering agree\<close>

lemma check_item_ok: "check_item (k, r) = Inr () \<longleftrightarrow> (\<exists>s. k = KStr s) \<and> r = Inr ()"
  by (cases k) auto

lemma json_item_Some: "json_item (k, v) = Some p \<longleftrightarrow> (\<exists>s w. k = KStr s \<and> v = Some w \<and> p = (s, w))"
  by (cases k) auto

lemma all_some_None [simp]: "all_some xs = None \<longleftrightarrow> None \<in> set xs"
  by (induction xs rule: all_some.induct) auto

lemma None_neq_iff: "None \<noteq> x \<longleftrightarrow> (\<exists>y. x = Some y)"
  by (cases x) auto

lemma check_iff_to_json: "check obj = Inr () \<longleftrightarrow> to_json obj \<noteq> None"
proof (induction obj)
  case (PDict kvs)
  have "check_item (map_prod id check kv) = Inr () \<longleftrightarrow> None \<noteq> json_item (map_prod id to_json kv)"
    if kv: "kv \<in> set kvs" for kv
  proof -
    obtain k x where "kv = (k, x)" by (cases kv)
    then show ?thesis using PDict [OF kv, of x] by (cases k) (auto simp: snds.simps)
  qed
  then show ?case by (auto simp: all_some_None image_iff simp del: not_None_eq)
qed (auto simp: None_neq_iff image_iff)

lemma check_exn: "check obj = Inl e \<Longrightarrow> e = ArgsNotHashable"
proof (induction obj)
  have first: "first_error rs = Inl e \<Longrightarrow> Inl e \<in> set rs" for rs e
    by (induction rs) (auto simp: result_simps)
  {
    case (PList xs)
    then show ?case using first by (metis check.simps(6) imageE set_map)
  next
    case (PTuple xs)
    then show ?case using first by (metis check.simps(7) imageE set_map)
  next
    case (PDict kvs)
    from PDict(2) have "Inl e \<in> set (map check_item (map (map_prod id check) kvs))"
      using first by (metis check.simps(8))
    then obtain k x where kv: "(k, x) \<in> set kvs" "check_item (k, check x) = Inl e"
      by auto
    then show ?case using PDict(1) [OF kv(1), of x] by (cases k) (auto simp: snds.simps)
  }
qed (auto split: if_splits)

lemma canonical_args_cases:
  "canonical_args obj = Inl ArgsNotHashable \<or>
   (\<exists>kvs v. (obj = PDict kvs \<or> obj = PMapping kvs) \<and> to_json (PDict kvs) = Some v \<and>
            canonical_args obj = Inr (dumps_sorted v))"
proof -
  have dict: "\<exists>v. to_json (PDict kvs) = Some v" if "check (PDict kvs) = Inr ()" for kvs
    using that check_iff_to_json by blast
  have step: "bind_result (check (PDict kvs)) (\<lambda>_. case to_json (PDict kvs) of
        Some v \<Rightarrow> Inr (dumps_sorted v) | None \<Rightarrow> Inl ValueError) = Inl ArgsNotHashable \<or>
      (\<exists>v. to_json (PDict kvs) = Some v \<and>
        bind_result (check (PDict kvs)) (\<lambda>_. case to_json (PDict kvs) of
          Some v \<Rightarrow> Inr (dumps_sorted v) | None \<Rightarrow> Inl ValueError) = Inr (dumps_sorted v))" for kvs
    using dict [of kvs] check_exn [of "PDict kvs"]
    by (cases "check (PDict kvs)") (auto simp del: check.simps to_json.simps)
  show ?thesis
    by (cases obj) (use step in \<open>auto simp: canonical_args_def Let_def simp del: check.simps to_json.simps\<close>)
qed

lemma wf_to_json: "wf_pyobj obj \<Longrightarrow> to_json obj = Some v \<Longrightarrow> wf_json v"
proof (induction obj arbitrary: v)
  case (PList xs)
  then show ?case by (fastforce simp: all_some_Some list_all_iff map_eq_conv dest: map_eq_imp_length_eq
        simp: in_set_conv_nth list_eq_iff_nth_eq)
next
  case (PTuple xs)
  then show ?case by (fastforce simp: all_some_Some list_all_iff
        simp: in_set_conv_nth list_eq_iff_nth_eq)
next
  case (PDict kvs)
  then obtain ys where ys: "v = JDict ys" "map json_item (map (map_prod id to_json) kvs) = map Some ys"
    by (auto simp: all_some_Some)
  have item: "fst kv = KStr k \<and> to_json (snd kv) = Some w"
    if "i < length ys" "kvs ! i = kv" "ys ! i = (k, w)" for i kv k w
  proof -
    have "length kvs = length ys" using ys(2) by (metis length_map)
    then have "json_item (map_prod id to_json kv) = Some (k, w)"
      using arg_cong [OF ys(2), of "\<lambda>l. l ! i"] that by simp
    then show ?thesis by (cases kv) (auto simp: json_item_Some)
  qed
  have len: "length kvs = length ys" using ys(2) by (metis length_map)
  have keys: "map fst kvs = map (KStr \<circ> fst) ys"
    using item len by (intro nth_equalityI) (auto, metis prod.collapse)
  have "distinct (map fst ys)"
    using PDict(2) keys by (metis wf_pyobj.simps(8) wf_dict_def distinct_map map_map)
  moreover have "wf_json w" if "(k, w) \<in> set ys" for k w
  proof -
    obtain i where i: "i < length ys" "ys ! i = (k, w)" using \<open>(k, w) \<in> set ys\<close> by (metis in_set_conv_nth)
    let ?kv = "kvs ! i"
    have "?kv \<in> set kvs" "to_json (snd ?kv) = Some w" using i item [OF i(1) refl i(2)] len by auto
    moreover have "wf_pyobj (snd ?kv)"
      using PDict(2) \<open>?kv \<in> set kvs\<close> by (cases ?kv) (auto simp: list_all_iff)
    ultimately show ?thesis using PDict(1) by (metis prod.collapse snds.intros)
  qed
  ultimately show ?case using ys(1) by (auto simp: wf_dict_def list_all_iff)
qed (auto split: if_splits)

section \<open>Digests\<close>

text \<open>
  A SHA-256 collision, as a pair of different texts with one digest. Security statements exhibit it
  instead of assuming that the hash function is injective, which it is not.
\<close>

definition sha256_collision :: "string \<Rightarrow> string \<Rightarrow> bool" where
  "sha256_collision s t \<longleftrightarrow> s \<noteq> t \<and> sha256_hexdigest s = sha256_hexdigest t"

lemma args_hash_Inr:
  "args_hash obj = Inr h \<longleftrightarrow> (\<exists>text. canonical_args obj = Inr text \<and> h = sha256_hexdigest text)"
  by (auto simp: args_hash_def bind_result_Inr)

definition as_dict :: "pyobj \<Rightarrow> pyobj" where
  "as_dict obj = (case obj of PMapping kvs \<Rightarrow> PDict kvs | _ \<Rightarrow> obj)"

lemma wf_as_dict: "wf_pyobj obj \<Longrightarrow> wf_pyobj (as_dict obj)"
  by (auto simp: as_dict_def split: pyobj.splits)

lemma args_hash_defined:
  assumes "to_json (PDict kvs) \<noteq> None"
  shows "\<exists>h. args_hash (PDict kvs) = Inr h"
proof -
  have "check (PDict kvs) = Inr ()" using assms check_iff_to_json by blast
  with assms show ?thesis
    by (auto simp: args_hash_def canonical_args_def Let_def simp del: check.simps to_json.simps)
qed

lemma canonical_args_Inr:
  assumes "canonical_args obj = Inr s"
  obtains v where "to_json (as_dict obj) = Some v" "s = dumps_sorted v"
  using canonical_args_cases [of obj] assms
  by (auto simp: as_dict_def simp del: to_json.simps)

definition hashable :: "pyobj \<Rightarrow> bool" where
  "hashable obj \<longleftrightarrow> (\<exists>kvs. as_dict obj = PDict kvs) \<and> to_json (as_dict obj) \<noteq> None"

text \<open>\<open>args_hash\<close> raises \<open>ArgsNotHashable\<close> or returns; no other exception escapes it. It returns
  exactly for mappings all of whose keys, nested ones included, are strings and whose leaves are
  finite JSON scalars, and then the digest is 64 characters long.\<close>

theorem args_hash_total:
  "if hashable obj then (\<exists>h. args_hash obj = Inr h \<and> length h = 64)
   else args_hash obj = Inl ArgsNotHashable"
proof (cases "canonical_args obj")
  case (Inr s)
  then show ?thesis
    using canonical_args_cases [of obj]
    by (auto simp: args_hash_def hashable_def length_hexdigest as_dict_def simp del: to_json.simps)
next
  case (Inl e)
  then have "canonical_args obj = Inl ArgsNotHashable"
    using canonical_args_cases [of obj] by auto
  moreover have "check (PDict kvs) \<noteq> Inr ()" if "as_dict obj = PDict kvs" for kvs
  proof
    assume ok: "check (PDict kvs) = Inr ()"
    then obtain v where "to_json (PDict kvs) = Some v" using check_iff_to_json by blast
    with ok that Inl show False
      by (cases obj) (auto simp: as_dict_def canonical_args_def simp del: check.simps to_json.simps)
  qed
  ultimately show ?thesis
    using check_iff_to_json
    by (auto simp: args_hash_def hashable_def simp del: check.simps to_json.simps)
qed



end
