(* ===== verification/Descriptor.thy ===== *)
theory Descriptor
  imports Hashing
begin

text \<open>
  \<open>descriptor.py\<close>: the vocabulary of the registry. What a server claims about a tool
  (\<open>ClaimedMetadata\<close>) is kept apart from what an operator asserts (\<open>AssertedDescriptor\<close>).
  Claims reach the registry as JSON and Python does not enforce the annotations, so hints and the
  flags of a descriptor are JSON values that the code tests with \<open>is\<close> or for truth.
\<close>

datatype DataClass = PUBLIC | INTERNAL | PII | SECRET | CREDENTIAL | EXTERNAL_CLASS

datatype Effect = READ | WRITE | DESTRUCTIVE | EXTERNAL

datatype TrustTier = VERIFIED | KNOWN | UNTRUSTED | QUARANTINED

fun class_value :: "DataClass \<Rightarrow> string" where
  "class_value PUBLIC = ''public''"
| "class_value INTERNAL = ''internal''"
| "class_value PII = ''pii''"
| "class_value SECRET = ''secret''"
| "class_value CREDENTIAL = ''credential''"
| "class_value EXTERNAL_CLASS = ''external''"

fun effect_value :: "Effect \<Rightarrow> string" where
  "effect_value READ = ''read''"
| "effect_value WRITE = ''write''"
| "effect_value DESTRUCTIVE = ''destructive''"
| "effect_value EXTERNAL = ''external''"

fun tier_value :: "TrustTier \<Rightarrow> string" where
  "tier_value VERIFIED = ''verified''"
| "tier_value KNOWN = ''known''"
| "tier_value UNTRUSTED = ''untrusted''"
| "tier_value QUARANTINED = ''quarantined''"

definition all_classes :: "DataClass list" where
  "all_classes = [PUBLIC, INTERNAL, PII, SECRET, CREDENTIAL, EXTERNAL_CLASS]"

definition all_effects :: "Effect list" where
  "all_effects = [READ, WRITE, DESTRUCTIVE, EXTERNAL]"

definition all_tiers :: "TrustTier list" where
  "all_tiers = [VERIFIED, KNOWN, UNTRUSTED, QUARANTINED]"

lemma all_members [simp]:
  "c \<in> set all_classes" "e \<in> set all_effects" "t \<in> set all_tiers"
  subgoal by (cases c) (simp_all add: all_classes_def)
  subgoal by (cases e) (simp_all add: all_effects_def)
  subgoal by (cases t) (simp_all add: all_tiers_def)
  done

text \<open>\<open>E(value)\<close> of an \<open>Enum\<close>: the member with that value, or \<open>ValueError\<close>.\<close>

definition enum_of :: "('e \<Rightarrow> string) \<Rightarrow> 'e list \<Rightarrow> json \<Rightarrow> 'e result" where
  "enum_of val members v =
     (case find (\<lambda>m. v = JStr (val m)) members of Some m \<Rightarrow> Inr m | None \<Rightarrow> Inl ValueError)"

lemma enum_of_Inr: "enum_of val members v = Inr m \<Longrightarrow> v = JStr (val m)"
  by (auto simp: enum_of_def find_Some_iff split: option.splits)

lemma enum_of_exn: "enum_of val members v = Inl e \<Longrightarrow> e = ValueError"
  by (auto simp: enum_of_def split: option.splits)

lemma enum_of_value [simp]:
  "enum_of class_value all_classes (JStr (class_value c)) = Inr c"
  "enum_of effect_value all_effects (JStr (effect_value e)) = Inr e"
  "enum_of tier_value all_tiers (JStr (tier_value t)) = Inr t"
  subgoal by (cases c) (simp_all add: enum_of_def all_classes_def)
  subgoal by (cases e) (simp_all add: enum_of_def all_effects_def)
  subgoal by (cases t) (simp_all add: enum_of_def all_tiers_def)
  done

definition is_sensitive :: "DataClass \<Rightarrow> bool" where
  "is_sensitive c \<longleftrightarrow> c \<in> {PII, SECRET, CREDENTIAL}"

definition tier_invocable :: "TrustTier \<Rightarrow> bool" where
  "tier_invocable t \<longleftrightarrow> t \<in> {VERIFIED, KNOWN}"

record ToolRef =
  tr_name :: string
  tr_version :: string

record ClaimedMetadata =
  cm_description :: json
  cm_read_only_hint :: json
  cm_destructive_hint :: json
  cm_idempotent_hint :: json
  cm_open_world_hint :: json

definition implied_effect :: "ClaimedMetadata \<Rightarrow> Effect option" where
  "implied_effect c =
     (if cm_read_only_hint c = JNull \<and> cm_destructive_hint c = JNull \<and> cm_open_world_hint c = JNull
      then None
      else if truthy (cm_read_only_hint c) then Some READ
      else if cm_destructive_hint c \<noteq> JBool False then Some DESTRUCTIVE
      else if cm_open_world_hint c \<noteq> JBool False then Some EXTERNAL
      else Some WRITE)"

text \<open>
  The two \<open>frozenset\<close>s of data classes are sets. The scopes are the elements of a
  \<open>frozenset\<close> over whatever the JSON held (see \<open>py_frozenset\<close> in the store's codecs), strings in
  ascending order.
\<close>

record AssertedDescriptor =
  ad_effect :: Effect
  ad_reads :: "DataClass set"
  ad_writes :: "DataClass set"
  ad_scopes :: "json list"
  ad_reversible :: json
  ad_idempotent :: json
  ad_requires_approval :: json
  ad_declassifies :: json
  ad_asserted_by :: json

definition reads_sensitive :: "AssertedDescriptor \<Rightarrow> bool" where
  "reads_sensitive d \<longleftrightarrow> (\<exists>c \<in> ad_reads d. is_sensitive c) \<and> \<not> truthy (ad_declassifies d)"

definition is_external_sink :: "AssertedDescriptor \<Rightarrow> bool" where
  "is_external_sink d \<longleftrightarrow> EXTERNAL_CLASS \<in> ad_writes d"

record ToolVersion =
  tv_ref :: ToolRef
  tv_source_id :: string
  tv_claimed :: ClaimedMetadata
  tv_asserted :: "AssertedDescriptor option"
  tv_input_schema :: json

type_synonym ToolId = "string \<times> string"

definition tool_id :: "ToolVersion \<Rightarrow> ToolId" where
  "tool_id tv = (tv_source_id tv, tr_name (tv_ref tv))"

definition qualified_name :: "ToolVersion \<Rightarrow> string" where
  "qualified_name tv = tv_source_id tv @ '':'' @ tr_name (tv_ref tv)"

definition is_asserted :: "ToolVersion \<Rightarrow> bool" where
  "is_asserted tv \<longleftrightarrow> tv_asserted tv \<noteq> None"

definition claim_conflicts :: "ToolVersion \<Rightarrow> string list" where
  "claim_conflicts tv =
     (case tv_asserted tv of
        None \<Rightarrow> []
      | Some a \<Rightarrow>
          (case implied_effect (tv_claimed tv) of
             None \<Rightarrow> []
           | Some e \<Rightarrow> if e \<noteq> ad_effect a
                       then [''claimed effect '' @ repr_str (effect_value e) @
                             '' != asserted '' @ repr_str (effect_value (ad_effect a))]
                       else []) @
          (if truthy (cm_read_only_hint (tv_claimed tv)) \<and> ad_effect a \<noteq> READ
           then [''claims readOnlyHint=true but asserted effect is not read''] else []) @
          (if cm_idempotent_hint (tv_claimed tv) = JBool True \<and> \<not> truthy (ad_idempotent a)
           then [''claims idempotentHint=true but asserted idempotent=false''] else []) @
          (if cm_open_world_hint (tv_claimed tv) = JBool False \<and> is_external_sink a
           then [''claims openWorldHint=false but asserted to write external''] else []))"

record TrustedSource =
  ts_source_id :: string
  ts_tier :: TrustTier
  ts_transport :: string

section \<open>Facts\<close>

text \<open>A claim implies no effect only when the server said nothing, and a server can lower what is implied below
  \<open>destructive\<close> only by an explicit statement: \<open>read\<close> needs a truthy \<open>readOnlyHint\<close>,
  \<open>external\<close> an explicit \<open>destructiveHint=false\<close>, and \<open>write\<close> both negative hints.\<close>

lemma implied_effect_spec:
  "implied_effect c = None \<longleftrightarrow>
     cm_read_only_hint c = JNull \<and> cm_destructive_hint c = JNull \<and> cm_open_world_hint c = JNull"
  "implied_effect c = Some READ \<longleftrightarrow> truthy (cm_read_only_hint c)"
  "implied_effect c = Some EXTERNAL \<longleftrightarrow>
     \<not> truthy (cm_read_only_hint c) \<and> cm_destructive_hint c = JBool False \<and> cm_open_world_hint c \<noteq> JBool False"
  "implied_effect c = Some WRITE \<longleftrightarrow>
     \<not> truthy (cm_read_only_hint c) \<and> cm_destructive_hint c = JBool False \<and> cm_open_world_hint c = JBool False"
  by (auto simp: implied_effect_def)

lemma claim_conflicts_unasserted [simp]: "tv_asserted tv = None \<Longrightarrow> claim_conflicts tv = []"
  by (simp add: claim_conflicts_def)

lemma claim_conflicts_effect:
  "tv_asserted tv = Some a \<Longrightarrow> implied_effect (tv_claimed tv) = Some e \<Longrightarrow> e \<noteq> ad_effect a \<Longrightarrow>
   claim_conflicts tv \<noteq> []"
  by (simp add: claim_conflicts_def)

end
