(* ===== verification/Flow.thy ===== *)
theory Flow
  imports Descriptor
begin

text \<open>
  \<open>flow.py\<close>: which data classes a set of tools can move out of the trust boundary. The report
  is compared with a declarative reading of it: a pair of a reader and an external sink exists in
  the toolset for a tracked class the operator has not accepted.
\<close>

record FlowFinding =
  ff_source_class :: DataClass
  ff_sink_class :: DataClass
  ff_readers :: "string list"
  ff_sinks :: "string list"

definition path_count :: "FlowFinding \<Rightarrow> nat" where
  "path_count f = length (ff_readers f) * length (ff_sinks f)"

definition flow_describe :: "FlowFinding \<Rightarrow> string" where
  "flow_describe f =
     class_value (ff_source_class f) @ '' -> '' @ class_value (ff_sink_class f) @ '': '' @
     show_nat (length (ff_readers f)) @ '' reader(s) x '' @
     show_nat (length (ff_sinks f)) @ '' sink(s) = '' @ show_nat (path_count f) @ '' path(s)''"

record FlowReport =
  fr_findings :: "FlowFinding list"
  fr_pairwise_paths :: "(string \<times> string) list"
  fr_unlabeled :: "string list"

definition has_exfiltration_path :: "FlowReport \<Rightarrow> bool" where
  "has_exfiltration_path r \<longleftrightarrow> fr_findings r \<noteq> []"

definition tracked_sources :: "DataClass list" where
  "tracked_sources = [SECRET, CREDENTIAL, PII]"

definition tool_names :: "ToolVersion list \<Rightarrow> string list" where
  "tool_names ts = sort (map (\<lambda>t. tr_name (tv_ref t)) ts)"

definition reads_class :: "DataClass \<Rightarrow> ToolVersion \<Rightarrow> bool" where
  "reads_class c t \<longleftrightarrow>
     (case tv_asserted t of None \<Rightarrow> False | Some a \<Rightarrow> c \<in> ad_reads a \<and> \<not> truthy (ad_declassifies a))"

definition sinks_external :: "ToolVersion \<Rightarrow> bool" where
  "sinks_external t \<longleftrightarrow> (case tv_asserted t of None \<Rightarrow> False | Some a \<Rightarrow> is_external_sink a)"

text \<open>The body of the loop over the tracked classes; \<open>None\<close> is its \<open>continue\<close>.\<close>

definition class_finding ::
  "ToolVersion list \<Rightarrow> (DataClass \<times> DataClass) set \<Rightarrow> ToolVersion list \<Rightarrow> DataClass \<Rightarrow> FlowFinding option" where
  "class_finding labeled accepted sinks c =
     (if (c, EXTERNAL_CLASS) \<in> accepted then None
      else let readers = filter (reads_class c) labeled
           in if readers = [] \<or> sinks = [] then None
              else Some \<lparr>ff_source_class = c, ff_sink_class = EXTERNAL_CLASS,
                         ff_readers = tool_names readers, ff_sinks = tool_names sinks\<rparr>)"

definition finding_paths :: "FlowFinding \<Rightarrow> (string \<times> string) list" where
  "finding_paths f = List.product (ff_readers f) (ff_sinks f)"

definition analyze_toolset :: "ToolVersion list \<Rightarrow> (DataClass \<times> DataClass) set \<Rightarrow> FlowReport" where
  "analyze_toolset tools accepted =
     (let labeled = filter is_asserted tools;
          unlabeled = tool_names (filter (\<lambda>t. \<not> is_asserted t) tools);
          sinks = filter sinks_external labeled;
          findings = List.map_filter (class_finding labeled accepted sinks) tracked_sources
      in \<lparr>fr_findings = findings, fr_pairwise_paths = concat (map finding_paths findings),
         fr_unlabeled = unlabeled\<rparr>)"

section \<open>What a report says\<close>

lemma set_tool_names [simp]: "set (tool_names ts) = (\<lambda>t. tr_name (tv_ref t)) ` set ts"
  by (simp add: tool_names_def)

lemma length_tool_names [simp]: "length (tool_names ts) = length ts"
  by (simp add: tool_names_def)

lemma tool_names_Nil [simp]: "tool_names ts = [] \<longleftrightarrow> ts = []"
  by (metis length_0_conv length_tool_names)

lemma reads_class_labeled: "reads_class c t \<Longrightarrow> is_asserted t"
  by (auto simp: reads_class_def is_asserted_def split: option.splits)

lemma sinks_external_labeled: "sinks_external t \<Longrightarrow> is_asserted t"
  by (auto simp: sinks_external_def is_asserted_def split: option.splits)

lemma filter_labeled [simp]:
  "filter (reads_class c) (filter is_asserted ts) = filter (reads_class c) ts"
  "filter sinks_external (filter is_asserted ts) = filter sinks_external ts"
  by (auto intro!: filter_cong dest: reads_class_labeled sinks_external_labeled)

lemma tracked_iff: "c \<in> set tracked_sources \<longleftrightarrow> is_sensitive c"
  by (auto simp: tracked_sources_def is_sensitive_def)

lemma finding_iff:
  "f \<in> set (fr_findings (analyze_toolset tools accepted)) \<longleftrightarrow>
     (\<exists>c. is_sensitive c \<and>
          class_finding (filter is_asserted tools) accepted
            (filter sinks_external (filter is_asserted tools)) c = Some f)"
  by (auto simp: analyze_toolset_def Let_def List.map_filter_def tracked_iff image_iff)

lemma finding_exists:
  "class_finding (filter is_asserted tools) accepted (filter sinks_external (filter is_asserted tools)) c \<noteq> None
   \<longleftrightarrow> (c, EXTERNAL_CLASS) \<notin> accepted \<and>
       (\<exists>r \<in> set tools. reads_class c r) \<and> (\<exists>s \<in> set tools. sinks_external s)"
  by (auto simp: class_finding_def Let_def filter_empty_conv dest: reads_class_labeled sinks_external_labeled)


lemma finding_of_class:
  assumes "class_finding labeled accepted sinks c = Some f"
  shows "ff_readers f = tool_names (filter (reads_class c) labeled)" "ff_sinks f = tool_names sinks"
  using assms by (auto simp: class_finding_def Let_def split: if_splits)

text \<open>The pairwise paths are the full product behind the findings, none dropped or repeated
  beyond it: their number is the sum of the findings' path counts, and a pair is listed exactly
  when some unaccepted sensitive class connects a reader of the one name to a sink of the other.\<close>

theorem pairwise_paths_exact:
  "length (fr_pairwise_paths (analyze_toolset tools accepted)) =
     sum_list (map path_count (fr_findings (analyze_toolset tools accepted)))
   \<and> set (fr_pairwise_paths (analyze_toolset tools accepted)) =
     {(tr_name (tv_ref r), tr_name (tv_ref s)) | c r s.
        is_sensitive c \<and> (c, EXTERNAL_CLASS) \<notin> accepted \<and>
        r \<in> set tools \<and> reads_class c r \<and> s \<in> set tools \<and> sinks_external s}"
proof
  let ?rep = "analyze_toolset tools accepted"
  have paths: "fr_pairwise_paths ?rep = concat (map finding_paths (fr_findings ?rep))"
    by (simp add: analyze_toolset_def Let_def)
  show "length (fr_pairwise_paths ?rep) = sum_list (map path_count (fr_findings ?rep))"
    unfolding paths by (simp add: length_concat comp_def finding_paths_def path_count_def [abs_def])
  let ?cf = "class_finding (filter is_asserted tools) accepted (filter sinks_external (filter is_asserted tools))"
  have "p \<in> set (fr_pairwise_paths ?rep) \<longleftrightarrow>
      (\<exists>c r s. is_sensitive c \<and> (c, EXTERNAL_CLASS) \<notin> accepted \<and> r \<in> set tools \<and> reads_class c r \<and>
        s \<in> set tools \<and> sinks_external s \<and> p = (tr_name (tv_ref r), tr_name (tv_ref s)))" for p
  proof -
    have "p \<in> set (fr_pairwise_paths ?rep) \<longleftrightarrow>
        (\<exists>f \<in> set (fr_findings ?rep). p \<in> set (ff_readers f) \<times> set (ff_sinks f))"
      unfolding paths by (auto simp: finding_paths_def)
    also have "\<dots> \<longleftrightarrow> (\<exists>c f. is_sensitive c \<and> ?cf c = Some f \<and> p \<in> set (ff_readers f) \<times> set (ff_sinks f))"
      unfolding Bex_def finding_iff by blast
    also have "\<dots> \<longleftrightarrow> (\<exists>c. is_sensitive c \<and> ?cf c \<noteq> None \<and>
        p \<in> set (tool_names (filter (reads_class c) (filter is_asserted tools))) \<times>
            set (tool_names (filter sinks_external (filter is_asserted tools))))"
      using finding_of_class by fastforce
    finally show ?thesis
      unfolding finding_exists unfolding filter_labeled set_tool_names set_filter by blast
  qed
  then show "set (fr_pairwise_paths ?rep) =
     {(tr_name (tv_ref r), tr_name (tv_ref s)) | c r s.
        is_sensitive c \<and> (c, EXTERNAL_CLASS) \<notin> accepted \<and>
        r \<in> set tools \<and> reads_class c r \<and> s \<in> set tools \<and> sinks_external s}"
    by blast
qed

end
