(* ===== verification/Schema.thy ===== *)
theory Schema
  imports Descriptor
begin

text \<open>
  \<open>schema.py\<close>: the structural check of a declared \<open>input_schema\<close> that guards the moment an
  operator vouches for a tool. It is a chain of early raises; the property states the shape of
  the schemas it lets through.
\<close>

definition JSON_SCHEMA_TYPES :: "string set" where
  "JSON_SCHEMA_TYPES =
     {''object'', ''array'', ''string'', ''number'', ''integer'', ''boolean'', ''null''}"

definition known_type :: "json \<Rightarrow> bool" where
  "known_type t \<longleftrightarrow> (case t of JStr s \<Rightarrow> s \<in> JSON_SCHEMA_TYPES | _ \<Rightarrow> False)"

definition check_type :: "json \<Rightarrow> unit result" where
  "check_type stype =
     (if stype = JNull then Inr ()
      else let types = (case stype of JList ts \<Rightarrow> ts | t \<Rightarrow> [t])
           in if list_all known_type types then Inr () else Inl SchemaValidationError)"

definition check_properties :: "json \<Rightarrow> unit result" where
  "check_properties props =
     (if props \<noteq> JNull \<and> \<not> is_dict props then Inl SchemaValidationError
      else case props of
             JDict ps \<Rightarrow> if list_all (\<lambda>(name, subschema). is_dict subschema) ps then Inr ()
                         else Inl SchemaValidationError
           | _ \<Rightarrow> Inr ())"

definition check_required :: "json \<Rightarrow> json \<Rightarrow> unit result" where
  "check_required props required =
     (if required = JNull then Inr ()
      else case required of
             JList rs \<Rightarrow>
               if \<not> list_all is_str rs then Inl SchemaValidationError
               else let declared = (case props of JDict ps \<Rightarrow> dict_keys ps | _ \<Rightarrow> [])
                    in if declared \<noteq> [] \<and> filter (\<lambda>r. r \<notin> JStr ` set declared) rs \<noteq> []
                       then Inl SchemaValidationError else Inr ()
           | _ \<Rightarrow> Inl SchemaValidationError)"

definition validate_input_schema :: "json \<Rightarrow> unit result" where
  "validate_input_schema schema =
     (case schema of
        JDict kvs \<Rightarrow>
          if kvs = [] then Inr ()
          else bind_result (check_type (get_or_null kvs ''type'')) (\<lambda>_.
               bind_result (check_properties (get_or_null kvs ''properties'')) (\<lambda>_.
               check_required (get_or_null kvs ''properties'') (get_or_null kvs ''required'')))
      | _ \<Rightarrow> Inl SchemaValidationError)"

text \<open>The schemas an operator may vouch for, clause by clause.\<close>

definition coherent_type :: "json \<Rightarrow> bool" where
  "coherent_type t \<longleftrightarrow> t = JNull \<or> known_type t \<or> (\<exists>ts. t = JList ts \<and> (\<forall>x \<in> set ts. known_type x))"

definition coherent_properties :: "json \<Rightarrow> bool" where
  "coherent_properties p \<longleftrightarrow> p = JNull \<or> (\<exists>ps. p = JDict ps \<and> (\<forall>(name, s) \<in> set ps. \<exists>kvs. s = JDict kvs))"

definition coherent_required :: "json \<Rightarrow> json \<Rightarrow> bool" where
  "coherent_required p r \<longleftrightarrow>
     r = JNull \<or>
     (\<exists>names. r = JList (map JStr names) \<and>
        (\<forall>ps. p = JDict ps \<longrightarrow> ps \<noteq> [] \<longrightarrow> set names \<subseteq> set (dict_keys ps)))"

definition coherent_schema :: "json \<Rightarrow> bool" where
  "coherent_schema schema \<longleftrightarrow>
     (\<exists>kvs. schema = JDict kvs \<and> coherent_type (get_or_null kvs ''type'') \<and>
        coherent_properties (get_or_null kvs ''properties'') \<and>
        coherent_required (get_or_null kvs ''properties'') (get_or_null kvs ''required''))"

section \<open>Facts\<close>

lemma check_type_iff: "check_type t = Inr () \<longleftrightarrow> coherent_type t"
  by (cases t) (auto simp: check_type_def coherent_type_def known_type_def list_all_iff)

lemma is_dict_iff: "is_dict v \<longleftrightarrow> (\<exists>kvs. v = JDict kvs)"
  by (cases v) auto

lemma check_properties_iff: "check_properties p = Inr () \<longleftrightarrow> coherent_properties p"
  unfolding check_properties_def coherent_properties_def list_all_iff is_dict_iff
  by (cases p) simp_all

lemma all_str_iff: "list_all is_str rs \<longleftrightarrow> (\<exists>names. rs = map JStr names)"
proof (induction rs)
  case (Cons r rs)
  then show ?case
    by (cases r) (auto simp: Cons_eq_map_conv)
qed simp

lemma check_required_iff: "check_required p r = Inr () \<longleftrightarrow> coherent_required p r"
proof (cases r)
  case (JList rs)
  show ?thesis
  proof (cases "list_all is_str rs")
    case True
    then obtain names where n: "rs = map JStr names" using all_str_iff by blast
    have inj: "map JStr names = map JStr xs \<longleftrightarrow> names = xs" for xs
      by (simp add: inj_on_def inj_map_eq_map)
    show ?thesis using JList n True
      by (cases p) (auto simp: check_required_def coherent_required_def inj filter_empty_conv)
  next
    case False
    then have "\<nexists>names. rs = map JStr names" using all_str_iff by blast
    with False JList show ?thesis by (auto simp: check_required_def coherent_required_def)
  qed
qed (auto simp: check_required_def coherent_required_def)

lemma check_exns:
  "check_type t = Inl e \<Longrightarrow> e = SchemaValidationError"
  "check_properties p = Inl e \<Longrightarrow> e = SchemaValidationError"
  "check_required p r = Inl e \<Longrightarrow> e = SchemaValidationError"
  by (auto simp: check_type_def check_properties_def check_required_def Let_def
      split: if_splits json.splits)

text \<open>The schema gate accepts exactly the coherent schemas (an object whose \<open>type\<close> names JSON Schema
  types, whose \<open>properties\<close> map to objects and whose \<open>required\<close> lists declared names), and its only
  exception is \<open>SchemaValidationError\<close>.\<close>

theorem validate_input_schema_exact:
  "validate_input_schema schema =
     (if coherent_schema schema then Inr () else Inl SchemaValidationError)"
proof (cases schema)
  case (JDict kvs)
  let ?t = "get_or_null kvs ''type''" and ?p = "get_or_null kvs ''properties''"
    and ?r = "get_or_null kvs ''required''"
  have "coherent_schema schema \<longleftrightarrow> coherent_type ?t \<and> coherent_properties ?p \<and> coherent_required ?p ?r"
    using JDict by (simp add: coherent_schema_def)
  moreover have "coherent_schema (JDict [])"
    by (simp add: coherent_schema_def get_or_null_def coherent_type_def coherent_properties_def
        coherent_required_def)
  ultimately show ?thesis
    using JDict check_exns [of ?t] check_exns(2) [of ?p] check_exns(3) [of ?p ?r]
      check_type_iff [of ?t] check_properties_iff [of ?p] check_required_iff [of ?p ?r]
    by (cases "check_type ?t"; cases "check_properties ?p"; cases "check_required ?p ?r"; cases "kvs = []")
      (auto simp: validate_input_schema_def)
qed (auto simp: validate_input_schema_def coherent_schema_def)

end
