(* ===== verification/Catalog.thy ===== *)
theory Catalog
  imports Flow Schema
begin

text \<open>
  \<open>catalog.py\<close>: the in-memory catalog. Tools are keyed by \<open>(source_id, name)\<close>; an assertion
  stands exactly as long as the fingerprint of the current claim is the one an operator vouched
  for. The invariant \<open>wf_catalog\<close> says so and every operation keeps it; what is invocable, how a
  bare name resolves and what a drift report contains are then read off the invariant.
\<close>

section \<open>State\<close>

datatype AssertionStatus = NEVER | ASSERTED | CHANGED

fun status_value :: "AssertionStatus \<Rightarrow> string" where
  "status_value NEVER = ''never_asserted''"
| "status_value ASSERTED = ''asserted''"
| "status_value CHANGED = ''asserted_then_changed''"

record AssertionRecord =
  ar_descriptor :: AssertedDescriptor
  ar_fingerprint :: int

record DriftReport =
  dr_source_id :: string
  dr_advertised_missing :: "string list"
  dr_undeclared_present :: "string list"
  dr_unasserted :: "string list"
  dr_claim_conflicts :: "(string \<times> string) list"
  dr_redefined_after_assertion :: "string list"

definition drift_clean :: "DriftReport \<Rightarrow> bool" where
  "drift_clean r \<longleftrightarrow>
     \<not> (dr_advertised_missing r \<noteq> [] \<or> dr_undeclared_present r \<noteq> [] \<or> dr_unasserted r \<noteq> [] \<or>
        dr_claim_conflicts r \<noteq> [] \<or> dr_redefined_after_assertion r \<noteq> [])"

definition counted :: "'a list \<Rightarrow> string \<Rightarrow> string list" where
  "counted xs what = (if xs \<noteq> [] then [show_nat (length xs) @ what] else [])"

definition drift_summary :: "DriftReport \<Rightarrow> string" where
  "drift_summary r =
     (if drift_clean r then dr_source_id r @ '': no drift''
      else dr_source_id r @ '': '' @ join '', ''
        (counted (dr_advertised_missing r) '' advertised-missing'' @
         counted (dr_undeclared_present r) '' undeclared-present'' @
         counted (dr_unasserted r) '' unasserted'' @
         counted (dr_claim_conflicts r) '' claim-conflicts'' @
         counted (dr_redefined_after_assertion r) '' redefined-after-assertion''))"

text \<open>A \<open>set\<close> of names is kept as its sorted list, so that equal sets are equal values.\<close>

record Catalog =
  cat_sources :: "(string, TrustedSource) dict"
  cat_tools :: "(ToolId, ToolVersion) dict"
  cat_declared :: "(string, string list) dict"
  cat_assertions :: "(ToolId, AssertionRecord) dict"

definition empty_catalog :: Catalog where
  "empty_catalog = \<lparr>cat_sources = [], cat_tools = [], cat_declared = [], cat_assertions = []\<rparr>"

section \<open>Operations\<close>

definition register_source :: "TrustedSource \<Rightarrow> string list \<Rightarrow> Catalog \<Rightarrow> Catalog" where
  "register_source source declares cat =
     cat\<lparr>cat_sources := dict_set (ts_source_id source) source (cat_sources cat),
         cat_declared := dict_set (ts_source_id source) (py_sorted_set declares) (cat_declared cat)\<rparr>"

text \<open>The text the fingerprint hashes, and its first eight digest bytes, most significant first.\<close>

definition fingerprint_text :: "ToolVersion \<Rightarrow> string" where
  "fingerprint_text tv =
     (let c = tv_claimed tv
      in dumps (JList [JStr (tr_version (tv_ref tv)), cm_description c, cm_read_only_hint c,
                       cm_destructive_hint c, cm_idempotent_hint c, cm_open_world_hint c]))"

definition fingerprint :: "ToolVersion \<Rightarrow> int" where
  "fingerprint tv = int (sha256_prefix64 (fingerprint_text tv))"

definition ingest_claimed ::
  "string \<Rightarrow> string \<Rightarrow> ClaimedMetadata \<Rightarrow> string \<Rightarrow> Catalog \<Rightarrow> (Catalog \<times> ToolVersion) result" where
  "ingest_claimed source_id name claimed version cat =
     (if dict_get (cat_sources cat) source_id = None then Inl KeyError
      else
        let tid = (source_id, name);
            tv = \<lparr>tv_ref = \<lparr>tr_name = name, tr_version = version\<rparr>, tv_source_id = source_id,
                  tv_claimed = claimed, tv_asserted = None, tv_input_schema = JDict []\<rparr>;
            tv' = (case dict_get (cat_assertions cat) tid of
                     Some rec \<Rightarrow> if fingerprint tv = ar_fingerprint rec
                                 then tv\<lparr>tv_asserted := Some (ar_descriptor rec)\<rparr> else tv
                   | None \<Rightarrow> tv)
        in Inr (cat\<lparr>cat_tools := dict_set tid tv' (cat_tools cat)\<rparr>, tv'))"

definition assert_descriptor ::
  "string \<Rightarrow> string \<Rightarrow> AssertedDescriptor \<Rightarrow> Catalog \<Rightarrow> (Catalog \<times> ToolVersion) result" where
  "assert_descriptor source_id name desc cat =
     (if \<not> truthy (ad_asserted_by desc) then Inl ValueError
      else
        let tid = (source_id, name)
        in case dict_get (cat_tools cat) tid of
             None \<Rightarrow> Inl KeyError
           | Some tv \<Rightarrow>
               let new = tv\<lparr>tv_asserted := Some desc\<rparr>
               in Inr (cat\<lparr>cat_tools := dict_set tid new (cat_tools cat),
                          cat_assertions := dict_set tid
                            \<lparr>ar_descriptor = desc, ar_fingerprint = fingerprint new\<rparr> (cat_assertions cat)\<rparr>,
                       new))"

definition catalog_get :: "Catalog \<Rightarrow> string \<Rightarrow> string \<Rightarrow> ToolVersion option" where
  "catalog_get cat source_id name = dict_get (cat_tools cat) (source_id, name)"

definition find_all :: "Catalog \<Rightarrow> string \<Rightarrow> ToolId list" where
  "find_all cat name = filter (\<lambda>tid. snd tid = name) (dict_keys (cat_tools cat))"

definition resolve :: "Catalog \<Rightarrow> string \<Rightarrow> ToolId result" where
  "resolve cat name =
     (case find_all cat name of
        [] \<Rightarrow> Inl KeyError
      | [tid] \<Rightarrow> Inr tid
      | _ \<Rightarrow> Inl AmbiguousToolName)"

definition assertion_status :: "Catalog \<Rightarrow> string \<Rightarrow> string \<Rightarrow> AssertionStatus" where
  "assertion_status cat source_id name =
     (let tid = (source_id, name)
      in if dict_get (cat_assertions cat) tid = None then NEVER
         else case dict_get (cat_tools cat) tid of
                Some tv \<Rightarrow> if is_asserted tv then ASSERTED else CHANGED
              | None \<Rightarrow> CHANGED)"

definition invocable :: "Catalog \<Rightarrow> string \<Rightarrow> string \<Rightarrow> bool result" where
  "invocable cat source_id name =
     (case catalog_get cat source_id name of
        None \<Rightarrow> Inr False
      | Some tv \<Rightarrow>
          if \<not> is_asserted tv then Inr False
          else case dict_get (cat_sources cat) (tv_source_id tv) of
                 None \<Rightarrow> Inl KeyError
               | Some src \<Rightarrow> Inr (tier_invocable (ts_tier src)))"

text \<open>\<open>sorted\<close> on ids compares source first, then name.\<close>

definition sort_ids :: "ToolId list \<Rightarrow> ToolId list" where
  "sort_ids ids = sort_key fst (sort_key snd (remdups ids))"

definition toolset :: "Catalog \<Rightarrow> ToolId list \<Rightarrow> ToolVersion list" where
  "toolset cat ids = List.map_filter (dict_get (cat_tools cat)) (sort_ids ids)"

definition select :: "Catalog \<Rightarrow> string list \<Rightarrow> ToolVersion list result" where
  "select cat names = bind_result (map_result (resolve cat) names) (\<lambda>ids. Inr (toolset cat ids))"

definition drift :: "Catalog \<Rightarrow> string \<Rightarrow> string list \<Rightarrow> DriftReport" where
  "drift cat source_id discovered =
     (let declared = (case dict_get (cat_declared cat) source_id of Some d \<Rightarrow> d | None \<Rightarrow> []);
          mine = map snd (filter (\<lambda>tid. fst tid = source_id) (dict_keys (cat_tools cat)));
          status = assertion_status cat source_id;
          seen = filter (\<lambda>n. n \<in> set mine) discovered
      in \<lparr>dr_source_id = source_id,
         dr_advertised_missing = py_sorted_set (filter (\<lambda>n. n \<notin> set discovered) declared),
         dr_undeclared_present = py_sorted_set (filter (\<lambda>n. n \<notin> set declared) discovered),
         dr_unasserted = py_sorted_set (filter (\<lambda>n. status n = NEVER) discovered),
         dr_claim_conflicts = concat (map (\<lambda>n.
            case dict_get (cat_tools cat) (source_id, n) of
              Some tv \<Rightarrow> map (Pair n) (claim_conflicts tv) | None \<Rightarrow> []) (py_sorted_set seen)),
         dr_redefined_after_assertion = py_sorted_set (filter (\<lambda>n. status n = CHANGED) seen)\<rparr>)"

section \<open>The invariant\<close>

text \<open>What the evidence says about a tool: the vouched descriptor iff the fingerprint still matches.\<close>

definition vouched :: "Catalog \<Rightarrow> ToolId \<Rightarrow> ToolVersion \<Rightarrow> AssertedDescriptor option" where
  "vouched cat tid tv =
     (case dict_get (cat_assertions cat) tid of
        Some rec \<Rightarrow> if fingerprint tv = ar_fingerprint rec then Some (ar_descriptor rec) else None
      | None \<Rightarrow> None)"

definition wf_catalog :: "Catalog \<Rightarrow> bool" where
  "wf_catalog cat \<longleftrightarrow>
     wf_dict (cat_sources cat) \<and> wf_dict (cat_tools cat) \<and>
     wf_dict (cat_declared cat) \<and> wf_dict (cat_assertions cat) \<and>
     (\<forall>sid src. dict_get (cat_sources cat) sid = Some src \<longrightarrow> ts_source_id src = sid) \<and>
     (\<forall>sid name tv. dict_get (cat_tools cat) (sid, name) = Some tv \<longrightarrow>
        tool_id tv = (sid, name) \<and> dict_get (cat_sources cat) sid \<noteq> None \<and>
        tv_asserted tv = vouched cat (sid, name) tv)"

text \<open>Every piece of evidence names the human who vouched.\<close>

definition human_vouched :: "Catalog \<Rightarrow> bool" where
  "human_vouched cat \<longleftrightarrow>
     (\<forall>tid rec. dict_get (cat_assertions cat) tid = Some rec \<longrightarrow> truthy (ad_asserted_by (ar_descriptor rec)))"

text \<open>The steps a service takes on its catalog; the last one attaches the schema of an ingested tool.\<close>

definition set_schema :: "ToolId \<Rightarrow> json \<Rightarrow> Catalog \<Rightarrow> Catalog" where
  "set_schema tid schema cat =
     (case dict_get (cat_tools cat) tid of
        Some tv \<Rightarrow> cat\<lparr>cat_tools := dict_set tid (tv\<lparr>tv_input_schema := schema\<rparr>) (cat_tools cat)\<rparr>
      | None \<Rightarrow> cat)"

inductive cat_step :: "Catalog \<Rightarrow> Catalog \<Rightarrow> bool" where
  register: "cat_step cat (register_source source declares cat)"
| ingest: "ingest_claimed sid name claimed version cat = Inr (cat', tv) \<Longrightarrow> cat_step cat cat'"
| assertion: "assert_descriptor sid name desc cat = Inr (cat', tv) \<Longrightarrow> cat_step cat cat'"
| schema: "cat_step cat (set_schema tid s cat)"

inductive cat_reachable :: "Catalog \<Rightarrow> bool" where
  start: "cat_reachable empty_catalog"
| more: "cat_reachable cat \<Longrightarrow> cat_step cat cat' \<Longrightarrow> cat_reachable cat'"

inductive_cases cat_stepE: "cat_step cat cat'"

lemma fingerprint_unaffected [simp]:
  "fingerprint (tv\<lparr>tv_asserted := a\<rparr>) = fingerprint tv"
  "fingerprint (tv\<lparr>tv_input_schema := s\<rparr>) = fingerprint tv"
  by (simp_all add: fingerprint_def fingerprint_text_def)

lemma tool_id_unaffected [simp]:
  "tool_id (tv\<lparr>tv_asserted := a\<rparr>) = tool_id tv" "tool_id (tv\<lparr>tv_input_schema := s\<rparr>) = tool_id tv"
  by (simp_all add: tool_id_def)

lemma wf_catalogD:
  assumes "wf_catalog cat" "dict_get (cat_tools cat) tid = Some tv"
  shows "tool_id tv = tid" "\<exists>src. dict_get (cat_sources cat) (fst tid) = Some src"
    "tv_asserted tv = vouched cat tid tv"
  using assms by (cases tid; auto simp: wf_catalog_def)+

lemma wf_empty_catalog [simp]: "wf_catalog empty_catalog"
  by (simp add: wf_catalog_def empty_catalog_def)

lemma wf_register_source [simp]: "wf_catalog cat \<Longrightarrow> wf_catalog (register_source src declares cat)"
  by (auto simp: wf_catalog_def register_source_def vouched_def dict_simps)

lemma ingest_claimed_Inr:
  "ingest_claimed sid name claimed version cat = Inr (cat', tv) \<longleftrightarrow>
     dict_get (cat_sources cat) sid \<noteq> None \<and>
     tv = \<lparr>tv_ref = \<lparr>tr_name = name, tr_version = version\<rparr>, tv_source_id = sid, tv_claimed = claimed,
           tv_asserted = vouched cat (sid, name)
             \<lparr>tv_ref = \<lparr>tr_name = name, tr_version = version\<rparr>, tv_source_id = sid, tv_claimed = claimed,
              tv_asserted = None, tv_input_schema = JDict []\<rparr>,
           tv_input_schema = JDict []\<rparr> \<and>
     cat' = cat\<lparr>cat_tools := dict_set (sid, name) tv (cat_tools cat)\<rparr>"
  by (auto simp: ingest_claimed_def vouched_def Let_def split: option.splits)

lemma vouched_cong: "fingerprint tv = fingerprint tv' \<Longrightarrow> vouched cat tid tv = vouched cat tid tv'"
  by (auto simp: vouched_def split: option.splits)

lemma vouched_unaffected [simp]:
  "vouched cat tid (tv\<lparr>tv_asserted := a\<rparr>) = vouched cat tid tv"
  "vouched cat tid (tv\<lparr>tv_input_schema := s\<rparr>) = vouched cat tid tv"
  by (rule vouched_cong, simp)+

lemma vouched_update_tools [simp]: "vouched (cat\<lparr>cat_tools := ts\<rparr>) = vouched cat"
  by (intro ext) (simp add: vouched_def)

lemma wf_ingest_claimed:
  assumes "ingest_claimed sid name claimed version cat = Inr (cat', tv)" "wf_catalog cat"
  shows "wf_catalog cat'"
proof -
  have "tv_asserted tv = vouched cat (sid, name) tv"
    using assms(1) unfolding ingest_claimed_Inr
    by (auto intro!: vouched_cong simp: fingerprint_def fingerprint_text_def)
  moreover have "tool_id tv = (sid, name)"
    using assms(1) unfolding ingest_claimed_Inr by (simp add: tool_id_def)
  ultimately show ?thesis
    using assms unfolding ingest_claimed_Inr
    by (auto simp: wf_catalog_def dict_simps)
qed

lemma assert_descriptor_Inr:
  "assert_descriptor sid name desc cat = Inr (cat', tv) \<longleftrightarrow>
     truthy (ad_asserted_by desc) \<and>
     (\<exists>old. dict_get (cat_tools cat) (sid, name) = Some old \<and> tv = old\<lparr>tv_asserted := Some desc\<rparr> \<and>
        cat' = cat\<lparr>cat_tools := dict_set (sid, name) tv (cat_tools cat),
                   cat_assertions := dict_set (sid, name)
                     \<lparr>ar_descriptor = desc, ar_fingerprint = fingerprint old\<rparr> (cat_assertions cat)\<rparr>)"
  by (auto simp: assert_descriptor_def Let_def split: option.splits)

lemma wf_assert_descriptor:
  assumes "assert_descriptor sid name desc cat = Inr (cat', tv)" "wf_catalog cat"
  shows "wf_catalog cat'"
  using assms unfolding assert_descriptor_Inr
  by (auto simp: wf_catalog_def vouched_def dict_simps split: if_splits)

lemma wf_set_schema [simp]: "wf_catalog cat \<Longrightarrow> wf_catalog (set_schema tid s cat)"
proof (cases "dict_get (cat_tools cat) tid")
  case (Some tv)
  assume "wf_catalog cat"
  with Some show ?thesis
    by (cases tid) (auto simp: set_schema_def wf_catalog_def dict_simps)
qed (simp add: set_schema_def)

lemma human_vouched_step: "cat_step cat cat' \<Longrightarrow> human_vouched cat \<Longrightarrow> human_vouched cat'"
  by (auto elim!: cat_stepE simp: human_vouched_def register_source_def ingest_claimed_Inr
      assert_descriptor_Inr set_schema_def dict_simps split: option.splits if_splits)

lemma wf_cat_step: "cat_step cat cat' \<Longrightarrow> wf_catalog cat \<Longrightarrow> wf_catalog cat'"
  by (auto elim!: cat_stepE intro: wf_ingest_claimed wf_assert_descriptor)

lemma reachable_wf: "cat_reachable cat \<Longrightarrow> wf_catalog cat \<and> human_vouched cat"
proof (induction rule: cat_reachable.induct)
  case start
  show ?case using wf_empty_catalog by (simp add: human_vouched_def empty_catalog_def)
next
  case (more cat cat')
  then show ?case using wf_cat_step human_vouched_step by blast
qed

section \<open>What is invocable\<close>

lemma vouched_Some:
  "vouched cat tid tv = Some d \<longleftrightarrow>
     (\<exists>rec. dict_get (cat_assertions cat) tid = Some rec \<and> fingerprint tv = ar_fingerprint rec \<and> d = ar_descriptor rec)"
  by (auto simp: vouched_def split: option.splits)

lemma invocable_defined:
  assumes "wf_catalog cat"
  shows "invocable cat sid name =
    Inr (\<exists>tv src. catalog_get cat sid name = Some tv \<and> is_asserted tv \<and>
                  dict_get (cat_sources cat) sid = Some src \<and> tier_invocable (ts_tier src))"
proof (cases "catalog_get cat sid name")
  case (Some tv)
  then have "tv_source_id tv = sid" "\<exists>src. dict_get (cat_sources cat) sid = Some src"
    using wf_catalogD [OF assms, of "(sid, name)" tv] by (auto simp: catalog_get_def tool_id_def)
  with Some show ?thesis by (auto simp: invocable_def)
qed (simp add: invocable_def)

text \<open>C11: the central promise of the catalog. In every catalog reachable by registering sources, ingesting claims,
  asserting descriptors and attaching schemas, asking whether a tool is invocable never fails, and
  the answer is yes exactly when the tool is present, the operator evidence kept for it names a
  human and matches the fingerprint of the tool's current claim, and its own source is verified or
  known.\<close>

theorem invocable_iff_vouched:
  assumes "cat_reachable cat"
  shows "invocable cat sid name = Inr (\<exists>tv rec src.
      catalog_get cat sid name = Some tv \<and>
      dict_get (cat_assertions cat) (sid, name) = Some rec \<and>
      fingerprint tv = ar_fingerprint rec \<and> tv_asserted tv = Some (ar_descriptor rec) \<and>
      truthy (ad_asserted_by (ar_descriptor rec)) \<and>
      dict_get (cat_sources cat) sid = Some src \<and> ts_tier src \<in> {VERIFIED, KNOWN})"
proof -
  have wf: "wf_catalog cat" and human: "human_vouched cat"
    using reachable_wf [OF assms] by auto
  have asserted: "is_asserted tv \<longleftrightarrow> (\<exists>rec. dict_get (cat_assertions cat) (sid, name) = Some rec \<and>
      fingerprint tv = ar_fingerprint rec \<and> tv_asserted tv = Some (ar_descriptor rec) \<and>
      truthy (ad_asserted_by (ar_descriptor rec)))" if "catalog_get cat sid name = Some tv" for tv
  proof -
    have "tv_asserted tv = vouched cat (sid, name) tv"
      using wf_catalogD(3) [OF wf] that by (simp add: catalog_get_def)
    then show ?thesis
      using human unfolding human_vouched_def is_asserted_def by (auto simp: vouched_Some)
  qed
  show ?thesis
    unfolding invocable_defined [OF wf] tier_invocable_def by (auto simp: asserted)
qed

text \<open>A catalog with one vouched tool, reached by the three operations.\<close>

definition demo_claim :: ClaimedMetadata where
  "demo_claim = \<lparr>cm_description = JStr ''look up'', cm_read_only_hint = JBool True,
     cm_destructive_hint = JNull, cm_idempotent_hint = JNull, cm_open_world_hint = JNull\<rparr>"

definition demo_descriptor :: AssertedDescriptor where
  "demo_descriptor = \<lparr>ad_effect = READ, ad_reads = {INTERNAL}, ad_writes = {}, ad_scopes = [],
     ad_reversible = JBool True, ad_idempotent = JBool True, ad_requires_approval = JBool False,
     ad_declassifies = JBool False, ad_asserted_by = JStr ''op''\<rparr>"

definition demo_tool :: "AssertedDescriptor option \<Rightarrow> ToolVersion" where
  "demo_tool a = \<lparr>tv_ref = \<lparr>tr_name = ''search'', tr_version = ''1.0.0''\<rparr>, tv_source_id = ''docs'',
     tv_claimed = demo_claim, tv_asserted = a, tv_input_schema = JDict []\<rparr>"

definition demo_source :: TrustedSource where
  "demo_source = \<lparr>ts_source_id = ''docs'', ts_tier = KNOWN, ts_transport = ''mcp''\<rparr>"

definition demo_record :: AssertionRecord where
  "demo_record = \<lparr>ar_descriptor = demo_descriptor, ar_fingerprint = fingerprint (demo_tool None)\<rparr>"

definition demo_catalog :: Catalog where
  "demo_catalog =
     \<lparr>cat_sources = [(''docs'', demo_source)],
      cat_tools = [((''docs'', ''search''), demo_tool (Some demo_descriptor))],
      cat_declared = [(''docs'', [''search''])],
      cat_assertions = [((''docs'', ''search''), demo_record)]\<rparr>"

lemma fingerprint_demo [simp]: "fingerprint (demo_tool (Some d)) = fingerprint (demo_tool None)"
  by (simp add: fingerprint_def fingerprint_text_def demo_tool_def)

lemma demo_reachable: "cat_reachable demo_catalog"
proof -
  let ?c1 = "register_source demo_source [''search''] empty_catalog"
  let ?c2 = "?c1\<lparr>cat_tools := [((''docs'', ''search''), demo_tool None)]\<rparr>"
  have r1: "cat_reachable ?c1"
    by (rule cat_reachable.more [OF cat_reachable.start cat_step.register])
  have "ingest_claimed ''docs'' ''search'' demo_claim ''1.0.0'' ?c1 = Inr (?c2, demo_tool None)"
    by (simp add: ingest_claimed_Inr register_source_def empty_catalog_def vouched_def
        demo_tool_def demo_source_def)
  then have r2: "cat_reachable ?c2"
    by (rule cat_reachable.more [OF r1 cat_step.ingest])
  have "assert_descriptor ''docs'' ''search'' demo_descriptor ?c2 =
        Inr (demo_catalog, demo_tool (Some demo_descriptor))"
    by (simp add: assert_descriptor_Inr register_source_def py_sorted_set_def empty_catalog_def demo_catalog_def
        demo_source_def demo_descriptor_def demo_tool_def demo_record_def)
  then show ?thesis
    by (rule cat_reachable.more [OF r2 cat_step.assertion])
qed

theorem invocable_iff_vouched_witness: "invocable demo_catalog ''docs'' ''search'' = Inr True"
  unfolding invocable_iff_vouched [OF demo_reachable]
  by (simp add: demo_catalog_def catalog_get_def demo_source_def demo_tool_def demo_descriptor_def
      demo_record_def fingerprint_def fingerprint_text_def)

section \<open>Redefinition\<close>

lemma fingerprint_text_eq:
  assumes "wf_json (JList [JStr (tr_version (tv_ref t)), cm_description (tv_claimed t), cm_read_only_hint (tv_claimed t),
      cm_destructive_hint (tv_claimed t), cm_idempotent_hint (tv_claimed t), cm_open_world_hint (tv_claimed t)])"
    and "wf_json (JList [JStr (tr_version (tv_ref u)), cm_description (tv_claimed u), cm_read_only_hint (tv_claimed u),
      cm_destructive_hint (tv_claimed u), cm_idempotent_hint (tv_claimed u), cm_open_world_hint (tv_claimed u)])"
    and "fingerprint_text t = fingerprint_text u"
  shows "tr_version (tv_ref t) = tr_version (tv_ref u) \<and> tv_claimed t = tv_claimed u"
  using dumps_inj [OF assms(1,2)] assms(3) by (auto simp: fingerprint_text_def Let_def)

definition wf_claim :: "ClaimedMetadata \<Rightarrow> bool" where
  "wf_claim c \<longleftrightarrow> wf_json (cm_description c) \<and> wf_json (cm_read_only_hint c) \<and>
     wf_json (cm_destructive_hint c) \<and> wf_json (cm_idempotent_hint c) \<and> wf_json (cm_open_world_hint c)"

text \<open>A redefined tool loses its assertion and keeps its history. When a server announces a tool
  for which evidence exists, the evidence is left as it is; an announcement with the vouched
  fingerprint keeps the descriptor, any other one leaves the tool unasserted, reported as changed
  and not invocable. An announcement whose version or claim differs from a vouched tool can carry
  its fingerprint only by a collision of the truncated hash.\<close>

theorem ingest_redefinition:
  assumes "cat_reachable cat"
    and "dict_get (cat_assertions cat) (sid, name) = Some rec"
    and "ingest_claimed sid name claimed version cat = Inr (cat', tv)"
    and "wf_claim claimed" "wf_claim (tv_claimed old)" "fingerprint old = ar_fingerprint rec"
  shows "cat_assertions cat' = cat_assertions cat \<and>
    (if fingerprint tv = ar_fingerprint rec
     then assertion_status cat' sid name = ASSERTED \<and> tv_asserted tv = Some (ar_descriptor rec) \<and>
          (version = tr_version (tv_ref old) \<and> claimed = tv_claimed old \<or>
           fingerprint_text tv \<noteq> fingerprint_text old \<and>
           sha256_prefix64 (fingerprint_text tv) = sha256_prefix64 (fingerprint_text old))
     else assertion_status cat' sid name = CHANGED \<and> invocable cat' sid name = Inr False)"
proof -
  note ing = assms(3) [unfolded ingest_claimed_Inr]
  have fp: "tv_asserted tv = vouched cat (sid, name) tv" and tv: "tv_claimed tv = claimed" "tr_version (tv_ref tv) = version"
    using ing by (auto intro!: vouched_cong simp: fingerprint_def fingerprint_text_def)
  have get: "catalog_get cat' sid name = Some tv" and evid: "cat_assertions cat' = cat_assertions cat"
    using ing by (auto simp: catalog_get_def dict_simps)
  have asserted: "tv_asserted tv = (if fingerprint tv = ar_fingerprint rec then Some (ar_descriptor rec) else None)"
    using fp assms(2) by (simp add: vouched_def)
  have status: "assertion_status cat' sid name = (if is_asserted tv then ASSERTED else CHANGED)"
    using get evid assms(2) by (simp add: assertion_status_def catalog_get_def)
  have same: "version = tr_version (tv_ref old) \<and> claimed = tv_claimed old"
    if "fingerprint_text tv = fingerprint_text old"
    using fingerprint_text_eq [of tv old] that assms(4,5) tv by (auto simp: wf_claim_def)
  show ?thesis
    using asserted status evid get same assms(6)
    by (auto simp: is_asserted_def invocable_def fingerprint_def)
qed

theorem ingest_redefinition_witness:
  "\<exists>cat' tv. ingest_claimed ''docs'' ''search'' demo_claim ''1.0.0'' demo_catalog = Inr (cat', tv) \<and>
     assertion_status cat' ''docs'' ''search'' = ASSERTED"
proof -
  obtain cat' tv where ing: "ingest_claimed ''docs'' ''search'' demo_claim ''1.0.0'' demo_catalog = Inr (cat', tv)"
    by (cases "ingest_claimed ''docs'' ''search'' demo_claim ''1.0.0'' demo_catalog")
      (auto simp: ingest_claimed_def demo_catalog_def Let_def)
  have fp: "fingerprint tv = fingerprint (demo_tool None)"
    using ing unfolding ingest_claimed_Inr by (simp add: fingerprint_def fingerprint_text_def demo_tool_def)
  have "wf_claim demo_claim" by (simp add: wf_claim_def demo_claim_def)
  then have "assertion_status cat' ''docs'' ''search'' = ASSERTED"
    using ingest_redefinition [OF demo_reachable _ ing, of demo_record "demo_tool None"] fp
    by (simp add: demo_catalog_def demo_tool_def demo_record_def)
  with ing show ?thesis by blast
qed

text \<open>The fingerprint identifies a (version, claim) pair only up to collisions: it takes fewer than
  \<open>2 ^ 64\<close> values, so there are two tools that differ in their version alone and share it.\<close>

theorem fingerprint_not_injective:
  "\<exists>t u. fingerprint t = fingerprint u \<and> tv_claimed t = tv_claimed u \<and>
         tr_version (tv_ref t) \<noteq> tr_version (tv_ref u)"
proof -
  let ?t = "\<lambda>n. (demo_tool None)\<lparr>tv_ref := \<lparr>tr_name = ''search'', tr_version = show_nat n\<rparr>\<rparr>"
  have "finite (range (\<lambda>n. fingerprint (?t n)))"
    by (rule finite_subset [of _ "{0..<2 ^ 64}"]) (use sha256_prefix64_bound in \<open>auto simp: fingerprint_def\<close>)
  then have "\<not> inj (\<lambda>n. fingerprint (?t n))"
    using finite_imageD infinite_UNIV_nat by blast
  then obtain m n where "fingerprint (?t m) = fingerprint (?t n)" "m \<noteq> n"
    by (auto simp: inj_on_def)
  then show ?thesis by (intro exI [of _ "?t m"] exI [of _ "?t n"]) simp
qed

section \<open>Names and namespaces\<close>

definition exposing :: "Catalog \<Rightarrow> string \<Rightarrow> string set" where
  "exposing cat name = {sid. catalog_get cat sid name \<noteq> None}"

lemma set_find_all: "set (find_all cat name) = (\<lambda>sid. (sid, name)) ` exposing cat name"
proof -
  have "tid \<in> set (dict_keys (cat_tools cat)) \<longleftrightarrow> dict_get (cat_tools cat) tid \<noteq> None" for tid
    by (simp add: map_of_eq_None_iff)
  then show ?thesis by (auto simp: find_all_def exposing_def catalog_get_def image_iff)
qed

lemma distinct_find_all: "wf_catalog cat \<Longrightarrow> distinct (find_all cat name)"
  by (simp add: wf_catalog_def wf_dict_def find_all_def)

lemma finite_exposing: "finite (exposing cat name)"
proof -
  have "exposing cat name = fst ` set (find_all cat name)" unfolding set_find_all by force
  then show ?thesis by simp
qed

lemma length_find_all: "wf_catalog cat \<Longrightarrow> length (find_all cat name) = card (exposing cat name)"
  using distinct_card [OF distinct_find_all, of cat name] set_find_all [of cat name]
  by (simp add: card_image inj_on_def)

text \<open>Bare names are resolved without guessing. A bare name resolves to an id exactly when one
  source alone exposes it; with none it is a \<open>KeyError\<close> and with several an
  \<open>AmbiguousToolName\<close>, so one source cannot shadow another.\<close>

theorem resolve_exact:
  assumes "cat_reachable cat"
  shows "resolve cat name =
    (if exposing cat name = {} then Inl KeyError
     else if card (exposing cat name) = 1 then Inr (the_elem (exposing cat name), name)
     else Inl AmbiguousToolName)"
proof -
  have wf: "wf_catalog cat" using reachable_wf [OF assms] ..
  have len: "length (find_all cat name) = card (exposing cat name)" by (rule length_find_all [OF wf])
  show ?thesis
  proof (cases "find_all cat name")
    case Nil
    then have "exposing cat name = {}" using set_find_all [of cat name] by simp
    then show ?thesis using Nil by (simp add: resolve_def)
  next
    case (Cons tid tids)
    then have ne: "exposing cat name \<noteq> {}" using set_find_all [of cat name] by auto
    show ?thesis
    proof (cases tids)
      case Nil
      then have "card (exposing cat name) = 1" using len Cons by simp
      then obtain sid where "exposing cat name = {sid}" by (rule card_1_singletonE)
      moreover have "tid = (sid, name)"
        using set_find_all [of cat name] Cons Nil calculation by auto
      ultimately show ?thesis using Cons Nil by (simp add: resolve_def)
    next
      case (Cons u us)
      then show ?thesis using len \<open>find_all cat name = tid # tids\<close> ne by (simp add: resolve_def)
    qed
  qed
qed

theorem resolve_exact_witness: "resolve demo_catalog ''search'' = Inr (''docs'', ''search'')"
proof -
  have "exposing demo_catalog ''search'' = {''docs''}"
    by (auto simp: exposing_def catalog_get_def demo_catalog_def)
  then show ?thesis using resolve_exact [OF demo_reachable, of "''search''"] by simp
qed

text \<open>tools live in separate namespaces. Ingesting or asserting a tool of one id changes neither the
  entry, nor the evidence, nor the status, nor the invocability of any other id, even one of the
  same bare name from another source.\<close>

theorem namespace_isolation:
  assumes "(sid', name') \<noteq> (sid, name)"
    and "ingest_claimed sid name claimed version cat = Inr (cat', tv) \<or>
         assert_descriptor sid name desc cat = Inr (cat', tv)"
  shows "catalog_get cat' sid' name' = catalog_get cat sid' name' \<and>
         assertion_status cat' sid' name' = assertion_status cat sid' name' \<and>
         invocable cat' sid' name' = invocable cat sid' name' \<and>
         dict_get (cat_assertions cat') (sid', name') = dict_get (cat_assertions cat) (sid', name')"
proof -
  have eqs: "dict_get (cat_tools cat') (sid', name') = dict_get (cat_tools cat) (sid', name')"
    "dict_get (cat_assertions cat') (sid', name') = dict_get (cat_assertions cat) (sid', name')"
    "cat_sources cat' = cat_sources cat"
    using assms unfolding ingest_claimed_Inr assert_descriptor_Inr by (auto simp: dict_simps)
  show ?thesis
    unfolding catalog_get_def assertion_status_def invocable_def Let_def eqs by (intro conjI refl)
qed

theorem namespace_isolation_witness:
  "\<exists>cat' tv. assert_descriptor ''docs'' ''search'' demo_descriptor demo_catalog = Inr (cat', tv) \<and>
     catalog_get cat' ''web'' ''search'' = catalog_get demo_catalog ''web'' ''search''"
proof -
  obtain cat' tv where a: "assert_descriptor ''docs'' ''search'' demo_descriptor demo_catalog = Inr (cat', tv)"
    by (cases "assert_descriptor ''docs'' ''search'' demo_descriptor demo_catalog")
      (auto simp: assert_descriptor_def demo_catalog_def demo_descriptor_def Let_def)
  then show ?thesis
    using namespace_isolation [of "''web''" "''search''" "''docs''" "''search''" _ _ demo_catalog cat' tv]
    by auto
qed

section \<open>Drift\<close>

lemma set_py_sorted_set [simp]: "set (py_sorted_set xs) = set xs"
  by (rule py_sorted_set_props)

lemma py_sorted_set_Nil [simp]: "py_sorted_set xs = [] \<longleftrightarrow> xs = []"
  by (metis py_sorted_set_props(1) set_empty)

definition declared_names :: "Catalog \<Rightarrow> string \<Rightarrow> string set" where
  "declared_names cat sid = (case dict_get (cat_declared cat) sid of Some d \<Rightarrow> set d | None \<Rightarrow> {})"

definition held_names :: "Catalog \<Rightarrow> string \<Rightarrow> string set" where
  "held_names cat sid = {n. catalog_get cat sid n \<noteq> None}"

lemma set_mine: "set (map snd (filter (\<lambda>tid. fst tid = sid) (dict_keys (cat_tools cat)))) = held_names cat sid"
proof -
  have "tid \<in> set (dict_keys (cat_tools cat)) \<longleftrightarrow> dict_get (cat_tools cat) tid \<noteq> None" for tid
    by (simp add: map_of_eq_None_iff)
  moreover have "n \<in> set (map snd (filter (\<lambda>tid. fst tid = sid) (dict_keys (cat_tools cat)))) \<longleftrightarrow>
      (sid, n) \<in> set (dict_keys (cat_tools cat))" for n
    by force
  ultimately show ?thesis unfolding held_names_def catalog_get_def by blast
qed

lemma drift_sets:
  "set (dr_advertised_missing (drift cat sid found)) = declared_names cat sid - set found"
  "set (dr_undeclared_present (drift cat sid found)) = set found - declared_names cat sid"
  "set (dr_unasserted (drift cat sid found)) = {n \<in> set found. assertion_status cat sid n = NEVER}"
  "set (dr_redefined_after_assertion (drift cat sid found)) =
     {n \<in> set found \<inter> held_names cat sid. assertion_status cat sid n = CHANGED}"
  using set_mine [of sid cat]
  by (auto simp: drift_def Let_def declared_names_def split: option.splits)

lemma drift_conflicts:
  "set (dr_claim_conflicts (drift cat sid found)) =
     {(n, msg). \<exists>tv. n \<in> set found \<and> catalog_get cat sid n = Some tv \<and> msg \<in> set (claim_conflicts tv)}"
  using set_mine [of sid cat]
  by (auto simp: drift_def Let_def held_names_def catalog_get_def split: option.splits)

text \<open>A drift report is complete and its categories do not overlap. Every discovered tool the catalog holds is
  exactly one of: never asserted (listed as unasserted), asserted and then changed (listed as
  redefined), or currently asserted (listed in neither); and the report is clean exactly when
  declaration and discovery agree and every discovered tool is currently asserted without a claim
  that contradicts the assertion.\<close>

theorem drift_exact:
  assumes "cat_reachable cat" "set found \<subseteq> held_names cat sid"
  shows "(\<forall>n \<in> set found.
      (n \<in> set (dr_unasserted (drift cat sid found)) \<longleftrightarrow> dict_get (cat_assertions cat) (sid, n) = None) \<and>
      (n \<in> set (dr_redefined_after_assertion (drift cat sid found)) \<longleftrightarrow>
         (\<exists>tv rec. catalog_get cat sid n = Some tv \<and> dict_get (cat_assertions cat) (sid, n) = Some rec \<and>
                   fingerprint tv \<noteq> ar_fingerprint rec)))
    \<and> (drift_clean (drift cat sid found) \<longleftrightarrow>
        set found = declared_names cat sid \<and>
        (\<forall>n \<in> set found. \<exists>tv. catalog_get cat sid n = Some tv \<and> is_asserted tv \<and> claim_conflicts tv = []))"
proof -
  have wf: "wf_catalog cat" using reachable_wf [OF assms(1)] ..
  have held: "\<exists>tv. catalog_get cat sid n = Some tv \<and> tv_asserted tv = vouched cat (sid, n) tv"
    if "n \<in> set found" for n
    using that assms(2) wf_catalogD(3) [OF wf, of "(sid, n)"] by (auto simp: held_names_def catalog_get_def)
  have status: "assertion_status cat sid n = (case dict_get (cat_assertions cat) (sid, n) of None \<Rightarrow> NEVER
      | Some rec \<Rightarrow> if \<exists>tv. catalog_get cat sid n = Some tv \<and> fingerprint tv = ar_fingerprint rec then ASSERTED else CHANGED)"
    if "n \<in> set found" for n
    using held [OF that] by (auto simp: assertion_status_def catalog_get_def is_asserted_def vouched_def split: option.splits)
  have part1: "(n \<in> set (dr_unasserted (drift cat sid found)) \<longleftrightarrow> dict_get (cat_assertions cat) (sid, n) = None) \<and>
      (n \<in> set (dr_redefined_after_assertion (drift cat sid found)) \<longleftrightarrow>
         (\<exists>tv rec. catalog_get cat sid n = Some tv \<and> dict_get (cat_assertions cat) (sid, n) = Some rec \<and>
                   fingerprint tv \<noteq> ar_fingerprint rec))" if "n \<in> set found" for n
    using status [OF that] held [OF that] that assms(2) unfolding drift_sets
    by (auto split: option.splits if_splits)
  have asserted: "assertion_status cat sid n = ASSERTED \<longleftrightarrow> (\<exists>tv. catalog_get cat sid n = Some tv \<and> is_asserted tv)"
    if "n \<in> set found" for n
    using held [OF that] status [OF that]
    by (auto simp: is_asserted_def vouched_def split: option.splits if_splits)
  have clean: "drift_clean (drift cat sid found) \<longleftrightarrow>
      set (dr_advertised_missing (drift cat sid found)) = {} \<and> set (dr_undeclared_present (drift cat sid found)) = {} \<and>
      set (dr_unasserted (drift cat sid found)) = {} \<and> set (dr_claim_conflicts (drift cat sid found)) = {} \<and>
      set (dr_redefined_after_assertion (drift cat sid found)) = {}"
    by (auto simp: drift_clean_def)
  have conflicts: "set (dr_claim_conflicts (drift cat sid found)) = {} \<longleftrightarrow>
      (\<forall>n \<in> set found. \<forall>tv. catalog_get cat sid n = Some tv \<longrightarrow> set (claim_conflicts tv) = {})"
    unfolding set_eq_iff drift_conflicts split_paired_All mem_Collect_eq prod.case empty_iff by blast
  have split: "s = ASSERTED \<longleftrightarrow> s \<noteq> NEVER \<and> s \<noteq> CHANGED" for s by (cases s) auto
  have "drift_clean (drift cat sid found) \<longleftrightarrow> set found = declared_names cat sid \<and>
      (\<forall>n \<in> set found. assertion_status cat sid n = ASSERTED \<and>
         (\<forall>tv. catalog_get cat sid n = Some tv \<longrightarrow> claim_conflicts tv = []))"
    unfolding clean drift_sets conflicts split Int_absorb2 [OF assms(2)] unfolding set_empty by blast
  also have "\<dots> \<longleftrightarrow> set found = declared_names cat sid \<and>
      (\<forall>n \<in> set found. \<exists>tv. catalog_get cat sid n = Some tv \<and> is_asserted tv \<and> claim_conflicts tv = [])"
    using asserted by (metis option.inject)
  finally show ?thesis using part1 by blast
qed

theorem drift_exact_witness: "drift_clean (drift demo_catalog ''docs'' [''search''])"
  using drift_exact [OF demo_reachable, of "[''search'']" "''docs''"]
  by (simp add: demo_catalog_def held_names_def catalog_get_def declared_names_def demo_tool_def
      is_asserted_def claim_conflicts_def implied_effect_def demo_claim_def demo_descriptor_def)

end
