(* ===== verification/Policy.thy ===== *)
theory Policy
  imports Catalog
begin

text \<open>
  \<open>policy.py\<close>: principals with their delegation chains, decisions, the Cedar adapter and the
  broker. Cedar itself (\<open>cedarpy.is_authorized\<close> on the parsed policy set) is a parameter of the
  model: a function from a request and entities to an exception text or a response. What the
  broker needs of an engine is the locale \<open>policy_engine\<close>, which the Cedar adapter is shown to
  meet for every such function.
\<close>

section \<open>Principals\<close>

datatype Principal =
  Principal (p_id: string) (p_privacy_tier: string) (p_kind: string) (p_on_behalf_of: "Principal option")

definition tier_order :: "string \<Rightarrow> nat" where
  "tier_order t =
     (if t = ''local'' then 0 else if t = ''trusted-cloud'' then 1 else if t = ''rented'' then 2 else 99)"

text \<open>The \<open>while\<close> loop of \<open>effective_tier\<close>, from the node it looks at next.\<close>

fun worst_tier :: "string \<Rightarrow> Principal option \<Rightarrow> string" where
  "worst_tier worst None = worst"
| "worst_tier worst (Some (Principal i t k parent)) =
     worst_tier (if tier_order t > tier_order worst then t else worst) parent"

definition effective_tier :: "Principal \<Rightarrow> string" where
  "effective_tier p = worst_tier (p_privacy_tier p) (p_on_behalf_of p)"

fun chain_tiers :: "Principal option \<Rightarrow> string list" where
  "chain_tiers None = []"
| "chain_tiers (Some (Principal i t k parent)) = t # chain_tiers parent"

section \<open>Decisions and the Cedar adapter\<close>

record Decision =
  d_allowed :: bool
  d_reason :: string
  d_determining_policies :: "string list"
  d_errors :: "string list"

definition is_default_deny :: "Decision \<Rightarrow> bool" where
  "is_default_deny d \<longleftrightarrow> \<not> d_allowed d \<and> d_determining_policies d = [] \<and> d_errors d = []"

record CedarResponse =
  cr_is_allow :: bool
  cr_reasons :: "string list option"
  cr_id_annotations :: "(string, string) dict option"
  cr_errors :: "string list option"

type_synonym cedar = "json \<Rightarrow> json list \<Rightarrow> string + CedarResponse"

definition uid :: "string \<Rightarrow> string \<Rightarrow> json" where
  "uid ty i = JDict [(''type'', JStr ty), (''id'', JStr i)]"

definition entities :: "Principal \<Rightarrow> ToolVersion \<Rightarrow> AssertedDescriptor \<Rightarrow> json list" where
  "entities p tool d =
     [JDict [(''uid'', uid ''Agent'' (p_id p)),
             (''attrs'', JDict
                [(''privacy_tier'', JStr (effective_tier p)),
                 (''kind'', JStr (p_kind p)),
                 (''delegated'', JBool (p_on_behalf_of p \<noteq> None))]),
             (''parents'', JList [])],
      JDict [(''uid'', uid ''Tool'' (tr_name (tv_ref tool))),
             (''attrs'', JDict
                [(''effect'', JStr (effect_value (ad_effect d))),
                 (''reversible'', ad_reversible d),
                 (''idempotent'', ad_idempotent d),
                 (''requires_approval'', ad_requires_approval d),
                 (''reads_sensitive'', JBool (reads_sensitive d)),
                 (''external_sink'', JBool (is_external_sink d))]),
             (''parents'', JList [])]]"

definition cedar_request :: "Principal \<Rightarrow> ToolVersion \<Rightarrow> json \<Rightarrow> json" where
  "cedar_request p tool context =
     JDict [(''principal'', uid ''Agent'' (p_id p)),
            (''action'', uid ''Action'' ''invoke''),
            (''resource'', uid ''Tool'' (tr_name (tv_ref tool))),
            (''context'', context)]"

definition or_empty :: "'a list option \<Rightarrow> 'a list" where
  "or_empty x = (case x of Some xs \<Rightarrow> xs | None \<Rightarrow> [])"

definition cedar_decide :: "cedar \<Rightarrow> Principal \<Rightarrow> ToolVersion \<Rightarrow> json \<Rightarrow> Decision" where
  "cedar_decide is_authorized p tool context =
     (case tv_asserted tool of
        None \<Rightarrow> \<lparr>d_allowed = False,
                 d_reason = tr_name (tv_ref tool) @ '' has no operator-asserted descriptor'',
                 d_determining_policies = [''<unasserted>''], d_errors = []\<rparr>
      | Some d \<Rightarrow>
          (case is_authorized (cedar_request p tool context) (entities p tool d) of
             Inl exc \<Rightarrow> \<lparr>d_allowed = False, d_reason = ''policy engine error: '' @ exc,
                         d_determining_policies = [], d_errors = [exc]\<rparr>
           | Inr res \<Rightarrow>
               let reasons = or_empty (cr_reasons res);
                   annots = or_empty (cr_id_annotations res);
                   named = map (\<lambda>r. case dict_get annots r of Some a \<Rightarrow> a | None \<Rightarrow> r) reasons;
                   errors = or_empty (cr_errors res)
               in if cr_is_allow res
                  then \<lparr>d_allowed = True, d_reason = ''permitted by '' @ join '', '' named,
                        d_determining_policies = named, d_errors = errors\<rparr>
                  else if named \<noteq> []
                  then \<lparr>d_allowed = False, d_reason = ''forbidden by '' @ join '', '' named,
                        d_determining_policies = named, d_errors = errors\<rparr>
                  else if errors \<noteq> []
                  then \<lparr>d_allowed = False, d_reason = ''policy evaluation errored: '' @ join ''; '' errors,
                        d_determining_policies = [], d_errors = errors\<rparr>
                  else \<lparr>d_allowed = False, d_reason = ''default deny: no policy matched'',
                        d_determining_policies = [], d_errors = []\<rparr>))"

section \<open>The broker\<close>

type_synonym engine = "Principal \<Rightarrow> ToolVersion \<Rightarrow> json \<Rightarrow> Decision"

definition qualify :: "string \<Rightarrow> string \<Rightarrow> string" where
  "qualify source_id name = source_id @ '':'' @ name"

definition py_bool :: "bool \<Rightarrow> string" where
  "py_bool b = (if b then ''True'' else ''False'')"

definition broker_decision ::
  "engine \<Rightarrow> Catalog \<Rightarrow> Principal \<Rightarrow> string \<Rightarrow> string \<Rightarrow> json \<Rightarrow> Decision result" where
  "broker_decision decide cat p source_id name context =
     (case catalog_get cat source_id name of
        None \<Rightarrow> Inr \<lparr>d_allowed = False,
                     d_reason = ''unknown tool '' @ repr_str (qualify source_id name),
                     d_determining_policies = [''<unregistered>''], d_errors = []\<rparr>
      | Some tool \<Rightarrow>
          bind_result (invocable cat source_id name) (\<lambda>ok.
            if \<not> ok then
              (case dict_get (cat_sources cat) (tv_source_id tool) of
                 None \<Rightarrow> Inl KeyError
               | Some src \<Rightarrow>
                   Inr \<lparr>d_allowed = False,
                        d_reason = qualify source_id name @ '' not invocable (source tier='' @
                          tier_value (ts_tier src) @ '', asserted='' @ py_bool (is_asserted tool) @ '')'',
                        d_determining_policies = [''<not-invocable>''], d_errors = []\<rparr>)
            else Inr (decide p tool context)))"

text \<open>The record \<open>authorize\<close> appends to the audit list for a decision, allow or deny.\<close>

definition decision_record :: "Principal \<Rightarrow> string \<Rightarrow> string \<Rightarrow> Decision \<Rightarrow> (string \<times> json) list" where
  "decision_record p source_id name d =
     [(''principal'', JStr (p_id p)), (''source'', JStr source_id), (''tool'', JStr name),
      (''qualified'', JStr (qualify source_id name)), (''allowed'', JBool (d_allowed d)),
      (''reason'', JStr (d_reason d)),
      (''determining_policies'', JList (map JStr (d_determining_policies d))),
      (''default_deny'', JBool (is_default_deny d))]"

definition broker_authorize ::
  "engine \<Rightarrow> Catalog \<Rightarrow> Principal \<Rightarrow> string \<Rightarrow> string \<Rightarrow> json
     \<Rightarrow> (string \<times> json) list list \<Rightarrow> (Decision \<times> (string \<times> json) list list) result" where
  "broker_authorize decide cat p source_id name context audit =
     bind_result (broker_decision decide cat p source_id name context) (\<lambda>d.
       Inr (d, audit @ [decision_record p source_id name d]))"

section \<open>Delegation\<close>

lemma worst_tier_spec:
  "worst_tier w node \<in> set (w # chain_tiers node) \<and>
   (\<forall>t \<in> set (w # chain_tiers node). tier_order t \<le> tier_order (worst_tier w node))"
proof (induction w node rule: worst_tier.induct)
  case (2 w i t k parent)
  then show ?case by (auto split: if_splits)
qed simp

text \<open>Delegation never raises authority. The tier a principal acts at is one of the tiers in its
  delegation chain, and no tier of the chain, unknown ones included, ranks below it in trust.\<close>

theorem effective_tier_least:
  "effective_tier p \<in> set (chain_tiers (Some p)) \<and>
   list_all (\<lambda>t. tier_order t \<le> tier_order (effective_tier p)) (chain_tiers (Some p))"
  using worst_tier_spec [of "p_privacy_tier p" "p_on_behalf_of p"]
  by (cases p) (simp add: effective_tier_def list_all_iff)

section \<open>Fail closed\<close>

lemma cedar_decide_allowed:
  "d_allowed (cedar_decide is_authorized p tool ctx) \<longleftrightarrow>
     (\<exists>d res. tv_asserted tool = Some d \<and>
        is_authorized (cedar_request p tool ctx) (entities p tool d) = Inr res \<and> cr_is_allow res)"
  by (auto simp: cedar_decide_def Let_def split: option.splits sum.splits)

lemma cedar_decide_default_deny:
  "is_default_deny (cedar_decide is_authorized p tool ctx) \<longleftrightarrow>
     (\<exists>d res. tv_asserted tool = Some d \<and>
        is_authorized (cedar_request p tool ctx) (entities p tool d) = Inr res \<and> \<not> cr_is_allow res \<and>
        or_empty (cr_reasons res) = [] \<and> or_empty (cr_errors res) = [])"
  by (auto simp: cedar_decide_def is_default_deny_def Let_def split: option.splits sum.splits)

text \<open>
  What the broker relies on in an engine: without an assertion there is no allow.
\<close>

locale policy_engine =
  fixes decide :: engine
  assumes unasserted_denied: "tv_asserted tool = None \<Longrightarrow> \<not> d_allowed (decide p tool ctx)"
begin

lemma broker_allow:
  assumes "broker_decision decide cat p sid name ctx = Inr d" "d_allowed d"
  shows "\<exists>tool. catalog_get cat sid name = Some tool \<and> is_asserted tool \<and>
           invocable cat sid name = Inr True \<and> d = decide p tool ctx"
  using assms unasserted_denied
  by (auto simp: broker_decision_def result_simps is_asserted_def split: option.splits if_splits)

lemma broker_total:
  assumes "wf_catalog cat"
  shows "\<exists>d. broker_decision decide cat p sid name ctx = Inr d"
proof (cases "catalog_get cat sid name")
  case (Some tool)
  then have "tv_source_id tool = sid" "\<exists>src. dict_get (cat_sources cat) sid = Some src"
    using wf_catalogD [OF assms, of "(sid, name)" tool] by (auto simp: catalog_get_def tool_id_def)
  with Some show ?thesis
    by (auto simp: broker_decision_def invocable_defined [OF assms])
qed (simp add: broker_decision_def)

end

interpretation cedar: policy_engine "cedar_decide is_authorized" for is_authorized
  by unfold_locales (auto simp: cedar_decide_allowed)

text \<open>C14: the decision point fails closed and always answers. On every reachable catalog the broker
  returns a decision for every request, and the decision is an allow exactly when the tool carries
  a standing human assertion, its source is verified or known, and Cedar, asked about exactly this
  principal, tool and context, returned without an exception and said Allow. An engine exception,
  an unknown tool and an unasserted tool are denials.\<close>

theorem broker_allow_iff:
  assumes "cat_reachable cat"
  shows "\<exists>d. broker_decision (cedar_decide is_authorized) cat p sid name ctx = Inr d \<and>
    (d_allowed d \<longleftrightarrow>
      (\<exists>tool desc res. catalog_get cat sid name = Some tool \<and> tv_asserted tool = Some desc \<and>
         truthy (ad_asserted_by desc) \<and> invocable cat sid name = Inr True \<and>
         is_authorized (cedar_request p tool ctx) (entities p tool desc) = Inr res \<and> cr_is_allow res))"
proof -
  have wf: "wf_catalog cat" using reachable_wf [OF assms] ..
  obtain d where d: "broker_decision (cedar_decide is_authorized) cat p sid name ctx = Inr d"
    using cedar.broker_total [OF wf] by blast
  have by_human: "truthy (ad_asserted_by desc)"
    if "catalog_get cat sid name = Some tool" "tv_asserted tool = Some desc" for tool desc
  proof -
    have "vouched cat (sid, name) tool = Some desc"
      using that wf_catalogD(3) [OF wf, of "(sid, name)" tool] by (simp add: catalog_get_def)
    then show ?thesis
      using reachable_wf [OF assms] by (auto simp: vouched_Some human_vouched_def)
  qed
  have "d_allowed d \<longleftrightarrow> (\<exists>tool. catalog_get cat sid name = Some tool \<and> invocable cat sid name = Inr True \<and>
      d_allowed (cedar_decide is_authorized p tool ctx))"
  proof
    assume "d_allowed d"
    then show "\<exists>tool. catalog_get cat sid name = Some tool \<and> invocable cat sid name = Inr True \<and>
      d_allowed (cedar_decide is_authorized p tool ctx)"
      using cedar.broker_allow [OF d] by auto
  next
    assume "\<exists>tool. catalog_get cat sid name = Some tool \<and> invocable cat sid name = Inr True \<and>
      d_allowed (cedar_decide is_authorized p tool ctx)"
    then show "d_allowed d" using d by (auto simp: broker_decision_def)
  qed
  then show ?thesis
    using d by_human unfolding cedar_decide_allowed by blast
qed

theorem broker_allow_iff_witness:
  "\<exists>d. broker_decision (cedar_decide (\<lambda>req ents. Inr \<lparr>cr_is_allow = True, cr_reasons = Some [''policy0''],
          cr_id_annotations = None, cr_errors = None\<rparr>)) demo_catalog (Principal ''a'' ''local'' ''agent'' None)
          ''docs'' ''search'' (JDict []) = Inr d \<and> d_allowed d"
proof -
  let ?c = "\<lambda>req ents. Inr \<lparr>cr_is_allow = True, cr_reasons = Some [''policy0''],
          cr_id_annotations = None, cr_errors = None\<rparr>"
  have inv: "invocable demo_catalog ''docs'' ''search'' = Inr True"
    by (simp add: invocable_def catalog_get_def demo_catalog_def demo_tool_def is_asserted_def
        demo_source_def tier_invocable_def)
  show ?thesis
    using broker_allow_iff [OF demo_reachable, of ?c "Principal ''a'' ''local'' ''agent'' None"
        "''docs''" "''search''" "JDict []"] inv
    by (simp add: catalog_get_def demo_catalog_def demo_tool_def demo_descriptor_def)
qed

end
