(* ===== verification/Sx.thy ===== *)
theory Sx
  imports Prelude
begin

text \<open>
  Stateful code that may raise: a computation maps a state to a result and a state, also when it
  raises, because Python keeps every mutation made before an exception. The locale
  \<open>sx_relation\<close> closes any reflexive and transitive relation between states under the
  constructs the code is written with; invariants are the special case \<open>I s \<longrightarrow> I s'\<close>.
\<close>

named_theorems sx_simps \<open>running a computation\<close>

type_synonym ('s, 'a) sx = "'s \<Rightarrow> 'a result \<times> 's"

definition sx_return :: "'a \<Rightarrow> ('s, 'a) sx" where
  "sx_return a s = (Inr a, s)"

definition sx_raise :: "exn \<Rightarrow> ('s, 'a) sx" where
  "sx_raise e s = (Inl e, s)"

definition sx_bind :: "('s, 'a) sx \<Rightarrow> ('a \<Rightarrow> ('s, 'b) sx) \<Rightarrow> ('s, 'b) sx" where
  "sx_bind m f s = (case m s of (Inl e, s') \<Rightarrow> (Inl e, s') | (Inr a, s') \<Rightarrow> f a s')"

text \<open>\<open>try: m except Exception as e: handler(e)\<close>\<close>

definition sx_catch :: "('s, 'a) sx \<Rightarrow> (exn \<Rightarrow> ('s, 'a) sx) \<Rightarrow> ('s, 'a) sx" where
  "sx_catch m h s = (case m s of (Inl e, s') \<Rightarrow> h e s' | (Inr a, s') \<Rightarrow> (Inr a, s'))"

definition sx_get :: "('s \<Rightarrow> 'a) \<Rightarrow> ('s, 'a) sx" where
  "sx_get f s = (Inr (f s), s)"

definition sx_modify :: "('s \<Rightarrow> 's) \<Rightarrow> ('s, unit) sx" where
  "sx_modify f s = (Inr (), f s)"

definition sx_lift :: "'a result \<Rightarrow> ('s, 'a) sx" where
  "sx_lift r s = (r, s)"

text \<open>A \<open>for\<close> loop over a list, collecting what the body returns.\<close>

fun sx_map :: "('a \<Rightarrow> ('s, 'b) sx) \<Rightarrow> 'a list \<Rightarrow> ('s, 'b list) sx" where
  "sx_map f [] = sx_return []"
| "sx_map f (x # xs) = sx_bind (f x) (\<lambda>y. sx_bind (sx_map f xs) (\<lambda>ys. sx_return (y # ys)))"

lemma sx_return_run [sx_simps]: "sx_return a s = (r, s') \<longleftrightarrow> r = Inr a \<and> s' = s"
  by (auto simp: sx_return_def)

lemma sx_raise_run [sx_simps]: "sx_raise e s = (r, s') \<longleftrightarrow> r = Inl e \<and> s' = s"
  by (auto simp: sx_raise_def)

lemma sx_get_run [sx_simps]: "sx_get f s = (r, s') \<longleftrightarrow> r = Inr (f s) \<and> s' = s"
  by (auto simp: sx_get_def)

lemma sx_modify_run [sx_simps]: "sx_modify f s = (r, s') \<longleftrightarrow> r = Inr () \<and> s' = f s"
  by (auto simp: sx_modify_def)

lemma sx_lift_run [sx_simps]: "sx_lift r s = (r', s') \<longleftrightarrow> r = r' \<and> s' = s"
  by (auto simp: sx_lift_def)

lemma sx_bind_Inr [sx_simps]:
  "sx_bind m f s = (Inr b, s') \<longleftrightarrow> (\<exists>a t. m s = (Inr a, t) \<and> f a t = (Inr b, s'))"
  by (auto simp: sx_bind_def split: prod.splits sum.splits)

lemma sx_bind_Inl [sx_simps]:
  "sx_bind m f s = (Inl e, s') \<longleftrightarrow>
     m s = (Inl e, s') \<or> (\<exists>a t. m s = (Inr a, t) \<and> f a t = (Inl e, s'))"
  by (auto simp: sx_bind_def split: prod.splits sum.splits)

lemma sx_bind_run: "m s = (Inr a, t) \<Longrightarrow> sx_bind m f s = f a t"
  by (simp add: sx_bind_def)

lemma sx_bind_stop: "m s = (Inl e, t) \<Longrightarrow> sx_bind m f s = (Inl e, t)"
  by (simp add: sx_bind_def)

lemma sx_bind_simple [simp]:
  "sx_bind (sx_return a) f = f a"
  "sx_bind (sx_raise e) f = sx_raise e"
  by (auto simp: sx_bind_def sx_return_def sx_raise_def fun_eq_iff)

lemma sx_bind_get: "sx_bind (sx_get g) f s = f (g s) s"
  by (simp add: sx_bind_def sx_get_def)

section \<open>Relations between the states before and after\<close>

definition within :: "('s \<Rightarrow> 's \<Rightarrow> bool) \<Rightarrow> ('s, 'a) sx \<Rightarrow> bool" where
  "within R m \<longleftrightarrow> (\<forall>s. R s (snd (m s)))"

lemma withinD: "within R m \<Longrightarrow> m s = (r, s') \<Longrightarrow> R s s'"
  by (metis snd_conv within_def)

lemma withinI: "(\<And>s r s'. m s = (r, s') \<Longrightarrow> R s s') \<Longrightarrow> within R m"
  by (metis prod.collapse within_def)

locale sx_relation =
  fixes R :: "'s \<Rightarrow> 's \<Rightarrow> bool"
  assumes refl: "R s s"
    and trans: "R s t \<Longrightarrow> R t u \<Longrightarrow> R s u"
begin

lemma within_return: "within R (sx_return a)"
  by (simp add: within_def sx_return_def refl)

lemma within_raise: "within R (sx_raise e)"
  by (simp add: within_def sx_raise_def refl)

lemma within_get: "within R (sx_get f)"
  by (simp add: within_def sx_get_def refl)

lemma within_lift: "within R (sx_lift r)"
  by (simp add: within_def sx_lift_def refl)

lemma within_bind:
  assumes "within R m" "\<And>a. within R (f a)"
  shows "within R (sx_bind m f)"
proof (rule withinI)
  fix s r s'
  assume run: "sx_bind m f s = (r, s')"
  obtain q t where m: "m s = (q, t)" by fastforce
  show "R s s'"
  proof (cases q)
    case (Inl e)
    then show ?thesis using run m withinD [OF assms(1) m] by (simp add: sx_bind_def)
  next
    case (Inr a)
    then have "f a t = (r, s')" using run m by (simp add: sx_bind_def)
    then show ?thesis using withinD [OF assms(1) m] withinD [OF assms(2)] trans by blast
  qed
qed

lemma within_catch:
  assumes "within R m" "\<And>e. within R (h e)"
  shows "within R (sx_catch m h)"
proof (rule withinI)
  fix s r s'
  assume run: "sx_catch m h s = (r, s')"
  obtain q t where m: "m s = (q, t)" by fastforce
  show "R s s'"
  proof (cases q)
    case (Inr a)
    then show ?thesis using run m withinD [OF assms(1) m] by (simp add: sx_catch_def)
  next
    case (Inl e)
    then have "h e t = (r, s')" using run m by (simp add: sx_catch_def)
    then show ?thesis using withinD [OF assms(1) m] withinD [OF assms(2)] trans by blast
  qed
qed

lemma within_map: "(\<And>x. within R (f x)) \<Longrightarrow> within R (sx_map f xs)"
  by (induction xs) (auto intro: within_return within_bind)

lemmas within_rules = within_return within_raise within_get within_lift within_bind within_catch within_map

end

text \<open>Every invariant is such a relation.\<close>

interpretation invariant: sx_relation "\<lambda>s s'. I s \<longrightarrow> I s'" for I :: "'s \<Rightarrow> bool"
  by unfold_locales blast+

lemma invariantD: "within (\<lambda>s s'. I s \<longrightarrow> I s') m \<Longrightarrow> m s = (r, s') \<Longrightarrow> I s \<Longrightarrow> I s'"
  using withinD by fastforce

section \<open>Ledgers of one-use things\<close>

text \<open>
  Operations on a state that report events; a ledger remembers which events have happened. If no
  operation forgets an event and an event is only reported when it was not yet in the ledger, no
  sequence of operations reports one twice.
\<close>

fun run_events :: "('op \<Rightarrow> 's \<Rightarrow> 'e list \<times> 's) \<Rightarrow> 'op list \<Rightarrow> 's \<Rightarrow> 'e list \<times> 's" where
  "run_events step [] s = ([], s)"
| "run_events step (p # ps) s =
     (let (evs, s1) = step p s; (rest, s2) = run_events step ps s1 in (evs @ rest, s2))"

locale one_use_ledger =
  fixes step :: "'op \<Rightarrow> 's \<Rightarrow> 'e list \<times> 's"
    and good :: "'s \<Rightarrow> bool"
    and spent :: "'s \<Rightarrow> 'e \<Rightarrow> bool"
  assumes good_step: "good s \<Longrightarrow> step p s = (evs, s') \<Longrightarrow> good s'"
    and spent_mono: "good s \<Longrightarrow> step p s = (evs, s') \<Longrightarrow> spent s e \<Longrightarrow> spent s' e"
    and event_once: "good s \<Longrightarrow> step p s = (evs, s') \<Longrightarrow> distinct evs"
    and event_fresh: "good s \<Longrightarrow> step p s = (evs, s') \<Longrightarrow> e \<in> set evs \<Longrightarrow> \<not> spent s e \<and> spent s' e"
begin

lemma run_once:
  "good s \<Longrightarrow> run_events step ps s = (evs, s') \<Longrightarrow>
   good s' \<and> distinct evs \<and> (\<forall>e. spent s e \<longrightarrow> spent s' e) \<and> (\<forall>e \<in> set evs. \<not> spent s e \<and> spent s' e)"
proof (induction ps arbitrary: s evs)
  case (Cons p ps)
  obtain ev1 s1 where step: "step p s = (ev1, s1)" by fastforce
  obtain ev2 where rest: "run_events step ps s1 = (ev2, s')" "evs = ev1 @ ev2"
    using Cons.prems(2) step by (auto simp: Let_def split: prod.splits)
  have good1: "good s1" by (rule good_step [OF Cons.prems(1) step])
  note IH = Cons.IH [OF good1 rest(1)]
  have mono: "spent s e \<Longrightarrow> spent s1 e" for e by (rule spent_mono [OF Cons.prems(1) step])
  have fresh: "e \<in> set ev1 \<Longrightarrow> \<not> spent s e \<and> spent s1 e" for e
    by (rule event_fresh [OF Cons.prems(1) step])
  have "set ev1 \<inter> set ev2 = {}" using IH fresh by blast
  then show ?case
    using IH mono fresh event_once [OF Cons.prems(1) step] rest(2) by auto
qed simp

end

end
