(* ===== verification/Store_Db.thy ===== *)
theory Store_Db
  imports Policy Sx
begin

text \<open>
  The database below \<open>store.py\<close>: its tables, one connection of Python's \<open>sqlite3\<close> module
  with its transaction control, and the sources of non-determinism the store reads (the clock,
  \<open>uuid4\<close>, and SQL statements that fail). A statement fails with \<open>OperationalError\<close> whenever
  the stream \<open>st_faults\<close> says so, without effect on the tables; rolling back does not fail.
  JSON columns are kept as the values they decode to, except \<open>audit.body\<close>, whose text is
  hashed. Expiry instants are integers (microseconds since the epoch), rendered by
  \<open>isoformat\<close> where their text is stored or hashed.
\<close>

section \<open>Instants and numerals\<close>

definition pad :: "nat \<Rightarrow> int \<Rightarrow> string" where
  "pad w i = (let ds = show_nat (nat i) in replicate (w - length ds) (CHR ''0'') @ ds)"

text \<open>The proleptic Gregorian date of a day number counted from 1970-01-01.\<close>

definition civil_from_days :: "int \<Rightarrow> int \<times> int \<times> int" where
  "civil_from_days days =
     (let z = days + 719468; era = z div 146097; doe = z mod 146097;
          yoe = (doe - doe div 1460 + doe div 36524 - doe div 146096) div 365;
          doy = doe - (365 * yoe + yoe div 4 - yoe div 100);
          mp = (5 * doy + 2) div 153;
          d = doy - (153 * mp + 2) div 5 + 1;
          m = (if mp < 10 then mp + 3 else mp - 9);
          y = yoe + 400 * era + (if m \<le> 2 then 1 else 0)
      in (y, m, d))"

type_synonym instant = int

definition isoformat :: "instant \<Rightarrow> string" where
  "isoformat t =
     (let us = t mod 1000000; secs = t div 1000000; sod = secs mod 86400;
          (y, m, d) = civil_from_days (secs div 86400)
      in pad 4 y @ ''-'' @ pad 2 m @ ''-'' @ pad 2 d @ ''T'' @ pad 2 (sod div 3600) @ '':'' @
         pad 2 (sod div 60 mod 60) @ '':'' @ pad 2 (sod mod 60) @
         (if us = 0 then '''' else ''.'' @ pad 6 us) @ ''+00:00'')"

text \<open>\<open>int(text)\<close>: surrounding white space, a sign, digits with single underscores between them.\<close>

definition is_space :: "char \<Rightarrow> bool" where
  "is_space c \<longleftrightarrow> (let n = (of_char c :: nat) in (9 \<le> n \<and> n \<le> 13) \<or> (28 \<le> n \<and> n \<le> 32) \<or> n = 133 \<or> n = 160)"

definition strip :: "string \<Rightarrow> string" where
  "strip s = rev (dropWhile is_space (rev (dropWhile is_space s)))"

fun digit_groups :: "string \<Rightarrow> string option" where
  "digit_groups [] = None"
| "digit_groups [c] = (if is_digit c then Some [c] else None)"
| "digit_groups (c # d # cs) =
     (if \<not> is_digit c then None
      else if d = CHR ''_'' then map_option (Cons c) (digit_groups cs)
      else map_option (Cons c) (digit_groups (d # cs)))"

definition py_int :: "string \<Rightarrow> int result" where
  "py_int s =
     (let t = strip s; neg = (take 1 t = ''-''); u = (if take 1 t = ''-'' \<or> take 1 t = ''+'' then drop 1 t else t)
      in case digit_groups u of
           None \<Rightarrow> Inl ValueError
         | Some ds \<Rightarrow> Inr (if neg then - int (read_nat ds) else int (read_nat ds)))"

section \<open>Tables\<close>

record source_row =
  sr_tier :: string
  sr_transport :: string
  sr_declared :: "string list"
  sr_command :: "string list option"
  sr_registered_at :: string

record tool_row =
  to_version :: string
  to_claimed :: json
  to_asserted :: "json option"
  to_input_schema :: json
  to_updated_at :: string

record assertion_row =
  as_descriptor :: json
  as_fingerprint :: string
  as_asserted_at :: string

record discovery_row =
  di_discovered :: "string list"
  di_observed_at :: string

record audit_row =
  au_seq :: int
  au_kind :: string
  au_body :: string
  au_created_at :: string
  au_prev_hash :: string
  au_record_hash :: string

record grant_row =
  gr_decision_id :: string
  gr_principal_id :: string
  gr_source_id :: string
  gr_name :: string
  gr_args_hash :: string
  gr_issued_at :: instant
  gr_expires_at :: instant
  gr_redeemed_at :: "string option"
  gr_closed_at :: "string option"

record redemption_row =
  rd_decision_record_id :: string
  rd_correlation_id :: "string option"
  rd_issuer_key_id :: string
  rd_provider_id :: string
  rd_principal_id :: string
  rd_source_id :: string
  rd_name :: string
  rd_args_hash :: string
  rd_verification_at :: string
  rd_redeemed_at :: string

text \<open>
  Rows of a keyed table stand in \<open>rowid\<close> order, which an upsert keeps; \<open>t_audit\<close> is in the
  order of \<open>seq\<close>, the table's \<open>rowid\<close>, and \<open>t_audit_seq\<close> is its \<open>AUTOINCREMENT\<close> counter.
  The last three fields record the parts of the schema later versions added.
\<close>

record tables =
  t_meta :: "(string, string) dict"
  t_sources :: "(string, source_row) dict"
  t_tools :: "(ToolId, tool_row) dict"
  t_assertions :: "(ToolId, assertion_row) dict"
  t_discoveries :: "(string, discovery_row) dict"
  t_audit :: "audit_row list"
  t_audit_seq :: int
  t_grants :: "(string, grant_row) dict"
  t_redemptions :: "(string, redemption_row) dict"
  t_has_label :: bool
  t_has_grants :: bool
  t_has_redemptions :: bool

definition empty_tables :: tables where
  "empty_tables = \<lparr>t_meta = [], t_sources = [], t_tools = [], t_assertions = [], t_discoveries = [],
     t_audit = [], t_audit_seq = 0, t_grants = [], t_redemptions = [],
     t_has_label = False, t_has_grants = False, t_has_redemptions = False\<rparr>"

section \<open>The connection\<close>

text \<open>\<open>st_begun\<close> holds, while a transaction is open, the tables a rollback restores.\<close>

record store =
  st_tables :: tables
  st_begun :: "tables option"
  st_clock :: "nat \<Rightarrow> instant"
  st_uuids :: "nat \<Rightarrow> string"
  st_faults :: "nat \<Rightarrow> bool"

definition now :: "(store, instant) sx" where
  "now s = (Inr (st_clock s 0), s\<lparr>st_clock := \<lambda>n. st_clock s (Suc n)\<rparr>)"

definition now_text :: "(store, string) sx" where
  "now_text = sx_bind now (\<lambda>t. sx_return (isoformat t))"

definition uuid4_hex :: "(store, string) sx" where
  "uuid4_hex s = (Inr (st_uuids s 0), s\<lparr>st_uuids := \<lambda>n. st_uuids s (Suc n)\<rparr>)"

definition statement :: "(store, unit) sx" where
  "statement s =
     (let s' = s\<lparr>st_faults := \<lambda>n. st_faults s (Suc n)\<rparr>
      in if st_faults s 0 then (Inl OperationalError, s') else (Inr (), s'))"

definition query :: "(tables \<Rightarrow> 'a) \<Rightarrow> (store, 'a) sx" where
  "query f = sx_bind statement (\<lambda>_. sx_get (\<lambda>s. f (st_tables s)))"

text \<open>\<open>INSERT\<close>, \<open>UPDATE\<close>: the module opens a transaction first when none is open.\<close>

definition dml :: "(tables \<Rightarrow> 'a result \<times> tables) \<Rightarrow> (store, 'a) sx" where
  "dml f = sx_bind statement (\<lambda>_ s.
     let s1 = (if st_begun s = None then s\<lparr>st_begun := Some (st_tables s)\<rparr> else s)
     in case f (st_tables s1) of
          (Inl e, t) \<Rightarrow> (Inl e, s1)
        | (Inr v, t) \<Rightarrow> (Inr v, s1\<lparr>st_tables := t\<rparr>))"

definition update_tables :: "(tables \<Rightarrow> tables) \<Rightarrow> (store, unit) sx" where
  "update_tables f = dml (\<lambda>t. (Inr (), f t))"

text \<open>\<open>CREATE\<close>, \<open>ALTER\<close>: no transaction is opened for them, so outside one they are final at once.\<close>

definition ddl :: "(tables \<Rightarrow> tables result) \<Rightarrow> (store, unit) sx" where
  "ddl f = sx_bind statement (\<lambda>_ s.
     case f (st_tables s) of Inl e \<Rightarrow> (Inl e, s) | Inr t \<Rightarrow> (Inr (), s\<lparr>st_tables := t\<rparr>))"

definition begin_immediate :: "(store, unit) sx" where
  "begin_immediate = sx_bind statement (\<lambda>_ s.
     if st_begun s \<noteq> None then (Inl OperationalError, s)
     else (Inr (), s\<lparr>st_begun := Some (st_tables s)\<rparr>))"

definition commit :: "(store, unit) sx" where
  "commit = sx_bind statement (\<lambda>_ s.
     if st_begun s = None then (Inl OperationalError, s) else (Inr (), s\<lparr>st_begun := None\<rparr>))"

definition base :: "store \<Rightarrow> tables" where
  "base s = (case st_begun s of Some t \<Rightarrow> t | None \<Rightarrow> st_tables s)"

definition rollback :: "store \<Rightarrow> store" where
  "rollback s = s\<lparr>st_tables := base s, st_begun := None\<rparr>"

text \<open>
  \<open>with conn:\<close> commits after the body, if a transaction is open, and rolls back when the body or
  the commit raises.
\<close>

definition with_conn :: "(store, 'a) sx \<Rightarrow> (store, 'a) sx" where
  "with_conn m s =
     (case m s of
        (Inl e, s1) \<Rightarrow> (Inl e, rollback s1)
      | (Inr v, s1) \<Rightarrow>
          if st_begun s1 = None then (Inr v, s1)
          else (case commit s1 of
                  (Inl e, s2) \<Rightarrow> (Inl e, rollback s2)
                | (Inr u, s2) \<Rightarrow> (Inr v, s2)))"

text \<open>\<open>BEGIN IMMEDIATE\<close>, then the body, which ends the transaction itself, under
  \<open>except Exception: ROLLBACK; raise\<close>.\<close>

definition manual_txn :: "(store, 'a) sx \<Rightarrow> (store, 'a) sx" where
  "manual_txn m = sx_bind begin_immediate (\<lambda>_ s.
     case m s of (Inl e, s1) \<Rightarrow> (Inl e, rollback s1) | (Inr v, s1) \<Rightarrow> (Inr v, s1))"

section \<open>Numerals read back\<close>

lemma dropWhile_hd: "(\<And>c. c \<in> set s \<Longrightarrow> \<not> P c) \<Longrightarrow> dropWhile P s = s"
  by (cases s) auto

lemma strip_id: "(\<And>c. c \<in> set s \<Longrightarrow> \<not> is_space c) \<Longrightarrow> strip s = s"
  using dropWhile_hd [of s is_space] dropWhile_hd [of "rev s" is_space] by (simp add: strip_def)

lemma digit_not_space: "is_digit c \<Longrightarrow> \<not> is_space c"
  unfolding is_digit_def is_space_def Let_def by linarith

lemma digit_neq: "is_digit c \<Longrightarrow> c \<noteq> CHR ''_''" "is_digit c \<Longrightarrow> c \<noteq> CHR ''-''" "is_digit c \<Longrightarrow> c \<noteq> CHR ''+''"
  by (auto simp: is_digit_def)

lemma digit_groups_digits: "ds \<noteq> [] \<Longrightarrow> (\<And>c. c \<in> set ds \<Longrightarrow> is_digit c) \<Longrightarrow> digit_groups ds = Some ds"
proof (induction ds rule: digit_groups.induct)
  case (3 c d cs)
  have "is_digit c" "is_digit d" using 3(4) by auto
  then show ?case using 3(2) 3(4) digit_neq(1) by auto
qed auto

lemma py_int_show_nat: "py_int (show_nat n) = Inr (int n)"
proof -
  have digits: "is_digit c" if "c \<in> set (show_nat n)" for c
    using show_nat_digits that by blast
  obtain c cs where s: "show_nat n = c # cs" by (cases "show_nat n") auto
  have "c \<noteq> CHR ''-''" "c \<noteq> CHR ''+''"
    using digits [of c] s digit_neq by auto
  moreover have "strip (show_nat n) = show_nat n"
    using digits digit_not_space strip_id by blast
  moreover have "digit_groups (show_nat n) = Some (show_nat n)"
    using digits digit_groups_digits by simp
  ultimately show ?thesis using s read_show_nat [of n] by (simp add: py_int_def)
qed

lemma py_int_show_int: "0 \<le> i \<Longrightarrow> py_int (show_int i) = Inr i"
  using py_int_show_nat [of "nat i"] by (simp add: show_int_def)

section \<open>Transactions\<close>

text \<open>Whatever runs inside a transaction leaves the tables a rollback would restore alone.\<close>

abbreviation same_base :: "store \<Rightarrow> store \<Rightarrow> bool" where
  "same_base \<equiv> \<lambda>s s'. base s' = base s"

interpretation same_base: sx_relation same_base
  by unfold_locales auto

lemma statement_run [sx_simps]:
  "statement s = (r, s') \<longleftrightarrow>
     r = (if st_faults s 0 then Inl OperationalError else Inr ()) \<and> s' = s\<lparr>st_faults := \<lambda>n. st_faults s (Suc n)\<rparr>"
  by (auto simp: statement_def)

lemma now_run [sx_simps]:
  "now s = (r, s') \<longleftrightarrow> r = Inr (st_clock s 0) \<and> s' = s\<lparr>st_clock := \<lambda>n. st_clock s (Suc n)\<rparr>"
  by (auto simp: now_def)

lemma uuid4_hex_run [sx_simps]:
  "uuid4_hex s = (r, s') \<longleftrightarrow> r = Inr (st_uuids s 0) \<and> s' = s\<lparr>st_uuids := \<lambda>n. st_uuids s (Suc n)\<rparr>"
  by (auto simp: uuid4_hex_def)

lemma base_irrelevant [simp]:
  "base (s\<lparr>st_faults := f\<rparr>) = base s" "base (s\<lparr>st_clock := c\<rparr>) = base s" "base (s\<lparr>st_uuids := u\<rparr>) = base s"
  by (simp_all add: base_def split: option.split)

lemma within_statement: "within same_base statement"
  by (rule withinI) (auto simp: sx_simps)

lemma within_now: "within same_base now"
  by (rule withinI) (auto simp: sx_simps)

lemma within_now_text: "within same_base now_text"
  unfolding now_text_def by (intro same_base.within_rules within_now)

lemma within_uuid4_hex: "within same_base uuid4_hex"
  by (rule withinI) (auto simp: sx_simps)

lemma within_query: "within same_base (query f)"
  unfolding query_def by (intro same_base.within_rules within_statement)

lemma within_dml: "within same_base (dml f)"
  unfolding dml_def
  by (intro same_base.within_bind within_statement withinI)
    (auto simp: base_def Let_def split: prod.splits sum.splits if_splits option.splits)

lemma within_update_tables: "within same_base (update_tables f)"
  unfolding update_tables_def by (rule within_dml)

lemmas txn_rules = same_base.within_rules within_statement within_now within_now_text within_uuid4_hex
  within_query within_dml within_update_tables

lemma base_rollback [simp]: "base (rollback s) = base s" "st_tables (rollback s) = base s"
    "st_begun (rollback s) = None"
  by (simp_all add: rollback_def base_def)

lemma commit_cases:
  "commit s = (r, s') \<Longrightarrow> (r = Inr () \<and> st_tables s' = st_tables s \<and> st_begun s' = None) \<or>
                          (\<exists>e. r = Inl e \<and> base s' = base s)"
  by (auto simp: commit_def sx_bind_def statement_def Let_def split: if_splits)

text \<open>A store between calls: no transaction is open.\<close>

definition idle :: "store \<Rightarrow> bool" where
  "idle s \<longleftrightarrow> st_begun s = None"

lemma idle_base: "idle s \<Longrightarrow> base s = st_tables s"
  by (simp add: idle_def base_def)

text \<open>
  Atomicity of \<open>with conn:\<close>: either it raises and the tables are as before, or the body ran to
  its end and exactly its tables are there.
\<close>

lemma with_conn_atomic:
  assumes "within same_base m" "idle s" "with_conn m s = (r, s')"
  shows "idle s' \<and>
    (case r of
       Inl e \<Rightarrow> st_tables s' = st_tables s
     | Inr v \<Rightarrow> \<exists>s1. m s = (Inr v, s1) \<and> st_tables s' = st_tables s1)"
proof -
  obtain q s1 where m: "m s = (q, s1)" by fastforce
  have base1: "base s1 = st_tables s"
    using withinD [OF assms(1) m] idle_base [OF assms(2)] by simp
  show ?thesis
  proof (cases q)
    case (Inl e)
    then show ?thesis using assms(3) m base1 by (auto simp: with_conn_def idle_def)
  next
    case (Inr v)
    show ?thesis
    proof (cases "st_begun s1 = None")
      case True
      then show ?thesis using assms(3) m Inr by (auto simp: with_conn_def idle_def)
    next
      case False
      obtain p s2 where c: "commit s1 = (p, s2)" by fastforce
      with False Inr m assms(3) base1 commit_cases [OF c] show ?thesis
        by (cases p) (auto simp: with_conn_def idle_def)
    qed
  qed
qed

lemma query_Inr [sx_simps]:
  "query f s = (Inr v, s') \<longleftrightarrow>
     \<not> st_faults s 0 \<and> v = f (st_tables s) \<and> s' = s\<lparr>st_faults := \<lambda>n. st_faults s (Suc n)\<rparr>"
  by (auto simp: query_def sx_simps)

lemma dml_Inr [sx_simps]:
  "dml f s = (Inr v, s') \<longleftrightarrow>
     \<not> st_faults s 0 \<and> (\<exists>t. f (st_tables s) = (Inr v, t) \<and>
        s' = s\<lparr>st_tables := t, st_begun := Some (base s), st_faults := \<lambda>n. st_faults s (Suc n)\<rparr>)"
  by (auto simp: dml_def sx_simps base_def Let_def split: prod.splits sum.splits option.splits if_splits)

lemma update_tables_Inr [sx_simps]:
  "update_tables f s = (Inr v, s') \<longleftrightarrow>
     \<not> st_faults s 0 \<and>
     s' = s\<lparr>st_tables := f (st_tables s), st_begun := Some (base s), st_faults := \<lambda>n. st_faults s (Suc n)\<rparr>"
  by (auto simp: update_tables_def sx_simps)

lemma now_text_run [sx_simps]:
  "now_text s = (r, s') \<longleftrightarrow>
     r = Inr (isoformat (st_clock s 0)) \<and> s' = s\<lparr>st_clock := \<lambda>n. st_clock s (Suc n)\<rparr>"
  by (auto simp: now_text_def sx_bind_def now_def sx_return_def)

text \<open>A store whose statements all succeed.\<close>

definition healthy :: "store \<Rightarrow> bool" where
  "healthy s \<longleftrightarrow> (\<forall>n. \<not> st_faults s n)"

lemma healthy_run:
  assumes "healthy s"
  shows "statement s = (Inr (), s\<lparr>st_faults := \<lambda>n. st_faults s (Suc n)\<rparr>)"
    and "query f s = (Inr (f (st_tables s)), s\<lparr>st_faults := \<lambda>n. st_faults s (Suc n)\<rparr>)"
    and "update_tables g s = (Inr (),
      s\<lparr>st_tables := g (st_tables s), st_begun := Some (base s), st_faults := \<lambda>n. st_faults s (Suc n)\<rparr>)"
    and "h (st_tables s) = (Inr v, t) \<Longrightarrow> dml h s =
      (Inr v, s\<lparr>st_tables := t, st_begun := Some (base s), st_faults := \<lambda>n. st_faults s (Suc n)\<rparr>)"
  using assms by (auto simp: healthy_def sx_simps)

lemma healthy_shift [simp]:
  "healthy s \<Longrightarrow> healthy (s\<lparr>st_faults := \<lambda>n. st_faults s (Suc n)\<rparr>)"
  "healthy (s\<lparr>st_tables := t\<rparr>) = healthy s" "healthy (s\<lparr>st_begun := b\<rparr>) = healthy s"
  "healthy (s\<lparr>st_clock := c\<rparr>) = healthy s" "healthy (s\<lparr>st_uuids := u\<rparr>) = healthy s"
  by (auto simp: healthy_def)

lemma healthy_update:
  "healthy s \<Longrightarrow> healthy (s\<lparr>st_tables := t, st_begun := b, st_faults := \<lambda>n. st_faults s (Suc n)\<rparr>)"
  by (auto simp: healthy_def)

lemma healthy_with_conn:
  assumes "healthy s" "m s = (Inr v, s1)" "healthy s1"
  shows "with_conn m s = (Inr v, (if st_begun s1 = None then s1
           else s1\<lparr>st_begun := None, st_faults := \<lambda>n. st_faults s1 (Suc n)\<rparr>))"
  using assms by (auto simp: with_conn_def commit_def sx_bind_def healthy_run)

end
