(* ===== verification/Store_Audit.thy ===== *)
theory Store_Audit
  imports Store_Db
begin

text \<open>
  The audit half of \<open>store.py\<close>: appending hash-chained records inside a transaction, reading
  them back, and \<open>verify_chain\<close>. The chain invariant \<open>audit_ok\<close> is kept by every append and
  makes verification succeed; and a database that verifies against an untouched high-water mark
  holds exactly the original records, or exhibits a collision or a preimage of SHA-256.
\<close>

section \<open>Operations\<close>

definition AUDIT_HEAD_SEQ :: string where "AUDIT_HEAD_SEQ = ''audit_head_seq''"
definition AUDIT_HEAD_HASH :: string where "AUDIT_HEAD_HASH = ''audit_head_hash''"

definition GENESIS :: string where "GENESIS = replicate 64 (CHR ''0'')"

definition canonical :: "json \<Rightarrow> string" where
  "canonical v = dumps_sorted v"

abbreviation sep :: char where "sep \<equiv> CHR 0x1F"

definition audit_text :: "string \<Rightarrow> string \<Rightarrow> string \<Rightarrow> string \<Rightarrow> string" where
  "audit_text kind body created prev = kind @ sep # body @ sep # created @ sep # prev"

definition audit_tip :: "tables \<Rightarrow> string" where
  "audit_tip t = (case rev (t_audit t) of [] \<Rightarrow> GENESIS | r # rs \<Rightarrow> au_record_hash r)"

definition insert_audit ::
  "string \<Rightarrow> string \<Rightarrow> string \<Rightarrow> string \<Rightarrow> string \<Rightarrow> tables \<Rightarrow> int result \<times> tables" where
  "insert_audit kind payload created prev record_hash t =
     (let seq = fold max (map au_seq (t_audit t)) (t_audit_seq t) + 1
      in (Inr seq,
          t\<lparr>t_audit := t_audit t @ [\<lparr>au_seq = seq, au_kind = kind, au_body = payload, au_created_at = created,
                                    au_prev_hash = prev, au_record_hash = record_hash\<rparr>],
            t_audit_seq := seq\<rparr>))"

definition upsert_meta :: "string \<Rightarrow> string \<Rightarrow> tables \<Rightarrow> tables" where
  "upsert_meta key val t = t\<lparr>t_meta := dict_set key val (t_meta t)\<rparr>"

definition append_audit_in_txn :: "string \<Rightarrow> (string \<times> json) list \<Rightarrow> (store, int) sx" where
  "append_audit_in_txn kind body =
     (let payload = canonical (JDict body)
      in sx_bind now_text (\<lambda>created.
         sx_bind (query audit_tip) (\<lambda>prev.
         let record_hash = sha256_hexdigest (audit_text kind payload created prev)
         in sx_bind (dml (insert_audit kind payload created prev record_hash)) (\<lambda>seq.
            sx_bind (update_tables (upsert_meta AUDIT_HEAD_SEQ (show_int seq))) (\<lambda>_.
            sx_bind (update_tables (upsert_meta AUDIT_HEAD_HASH record_hash)) (\<lambda>_.
            sx_return seq))))))"

definition append_audit :: "string \<Rightarrow> (string \<times> json) list \<Rightarrow> (store, int) sx" where
  "append_audit kind body = with_conn (append_audit_in_txn kind body)"

definition set_meta :: "string \<Rightarrow> string \<Rightarrow> (store, unit) sx" where
  "set_meta key val = with_conn (update_tables (upsert_meta key val))"

definition get_meta :: "string \<Rightarrow> (store, string option) sx" where
  "get_meta key = query (\<lambda>t. dict_get (t_meta t) key)"

record audit_entry =
  ae_seq :: int
  ae_kind :: string
  ae_body :: json
  ae_created_at :: string
  ae_record_hash :: string

definition read_entry :: "audit_row \<Rightarrow> audit_entry result" where
  "read_entry r = bind_result (json_loads (au_body r)) (\<lambda>body.
     Inr \<lparr>ae_seq = au_seq r, ae_kind = au_kind r, ae_body = body,
          ae_created_at = au_created_at r, ae_record_hash = au_record_hash r\<rparr>)"

text \<open>\<open>LIMIT ?\<close> with a negative number means no limit.\<close>

definition sql_limit :: "int \<Rightarrow> 'a list \<Rightarrow> 'a list" where
  "sql_limit n xs = (if n < 0 then xs else take (nat n) xs)"

definition read_audit :: "string option \<Rightarrow> int \<Rightarrow> (store, audit_entry list) sx" where
  "read_audit kind limit =
     sx_bind (query (\<lambda>t. sql_limit limit (rev (filter
        (\<lambda>r. case kind of Some k \<Rightarrow> au_kind r = k | None \<Rightarrow> True) (t_audit t))))) (\<lambda>rows.
     sx_lift (map_result read_entry rows))"

fun first_decision :: "string \<Rightarrow> audit_row list \<Rightarrow> (int \<times> json) option result" where
  "first_decision decision_id [] = Inr None"
| "first_decision decision_id (r # rs) =
     bind_result (json_loads (au_body r)) (\<lambda>parsed.
     bind_result (method_get parsed ''decision_id'') (\<lambda>v.
       if v = JStr decision_id then Inr (Some (au_seq r, parsed)) else first_decision decision_id rs))"

definition find_decision :: "string \<Rightarrow> (store, (int \<times> json) option) sx" where
  "find_decision decision_id =
     sx_bind (query (\<lambda>t. filter (\<lambda>r. au_kind r = ''decision'') (t_audit t))) (\<lambda>rows.
     sx_lift (first_decision decision_id rows))"

record ChainVerification =
  cv_ok :: bool
  cv_records :: nat
  cv_broken_at :: "int option"
  cv_detail :: string

text \<open>The walk over the rows: where it breaks, or the number of rows, the last seq and the last hash.\<close>

fun walk_chain :: "string \<Rightarrow> nat \<Rightarrow> int option \<Rightarrow> audit_row list
    \<Rightarrow> ChainVerification + nat \<times> int option \<times> string" where
  "walk_chain prev count last_seq [] = Inr (count, last_seq, prev)"
| "walk_chain prev count last_seq (r # rs) =
     (if au_prev_hash r \<noteq> prev
      then Inl \<lparr>cv_ok = False, cv_records = count, cv_broken_at = Some (au_seq r), cv_detail = ''prev_hash mismatch''\<rparr>
      else if au_record_hash r \<noteq>
              sha256_hexdigest (audit_text (au_kind r) (au_body r) (au_created_at r) (au_prev_hash r))
      then Inl \<lparr>cv_ok = False, cv_records = count, cv_broken_at = Some (au_seq r), cv_detail = ''record_hash mismatch''\<rparr>
      else walk_chain (au_record_hash r) (count + 1) (Some (au_seq r)) rs)"

definition check_chain :: "audit_row list \<Rightarrow> string option \<Rightarrow> string option \<Rightarrow> ChainVerification result" where
  "check_chain rows head_seq head_hash =
     (case walk_chain GENESIS 0 None rows of
        Inl broken \<Rightarrow> Inr broken
      | Inr (count, last_seq, last_hash) \<Rightarrow>
          (case head_seq of
             None \<Rightarrow> Inr \<lparr>cv_ok = True, cv_records = count, cv_broken_at = None, cv_detail = ''''\<rparr>
           | Some text \<Rightarrow> bind_result (py_int text) (\<lambda>recorded_seq.
               let actual_seq = (case last_seq of Some q \<Rightarrow> q | None \<Rightarrow> 0)
               in if actual_seq \<noteq> recorded_seq \<or> (\<exists>h. head_hash = Some h \<and> last_hash \<noteq> h)
                  then Inr \<lparr>cv_ok = False, cv_records = count, cv_broken_at = Some recorded_seq,
                            cv_detail = ''tail truncation: recorded head seq '' @ show_int recorded_seq @
                              '' but chain ends at seq '' @ show_int actual_seq\<rparr>
                  else Inr \<lparr>cv_ok = True, cv_records = count, cv_broken_at = None, cv_detail = ''''\<rparr>)))"

definition verify_chain :: "(store, ChainVerification) sx" where
  "verify_chain =
     sx_bind (query t_audit) (\<lambda>rows.
     sx_bind (query (\<lambda>t. dict_get (t_meta t) AUDIT_HEAD_SEQ)) (\<lambda>head_seq.
     sx_bind (query (\<lambda>t. dict_get (t_meta t) AUDIT_HEAD_HASH)) (\<lambda>head_hash.
     sx_lift (check_chain rows head_seq head_hash))))"

section \<open>Printable texts\<close>

text \<open>No rendering contains the separator of the hashed text.\<close>

definition plain :: "string \<Rightarrow> bool" where
  "plain s \<longleftrightarrow> (\<forall>c \<in> set s. 32 \<le> (of_char c :: nat))"

lemma plain_append [simp]: "plain (a @ b) \<longleftrightarrow> plain a \<and> plain b"
  by (auto simp: plain_def)

lemma plain_Nil [simp]: "plain []"
  by (simp add: plain_def)

lemma plain_Cons [simp]: "plain (c # s) \<longleftrightarrow> 32 \<le> (of_char c :: nat) \<and> plain s"
  by (simp add: plain_def)

lemma plain_replicate [simp]: "plain (replicate n c) \<longleftrightarrow> n = 0 \<or> 32 \<le> (of_char c :: nat)"
  by (auto simp: plain_def)

lemma plain_subset: "plain s \<Longrightarrow> set t \<subseteq> set s \<Longrightarrow> plain t"
  by (auto simp: plain_def)

lemma plain_digits [simp]: "plain (show_nat n)" "plain (show_int i)"
proof -
  show nat: "plain (show_nat n)" for n
    using show_nat_digits [of n] by (force simp: plain_def is_digit_def)
  show "plain (show_int i)" using nat by (simp add: show_int_def)
qed

lemma plain_join: "plain s \<Longrightarrow> (\<forall>x \<in> set xs. plain x) \<Longrightarrow> plain (join s xs)"
  by (induction s xs rule: join.induct) auto

lemma plain_pad [simp]: "plain (pad w i)"
  by (simp add: pad_def Let_def)

lemma plain_isoformat: "plain (isoformat t)"
  unfolding isoformat_def Let_def by (simp split: prod.split)

lemma plain_show_digits: "plain ds \<Longrightarrow> plain (show_digits ds e)"
  by (auto simp: show_digits_def show_exp2_def Let_def
      dest: plain_subset [OF _ set_take_subset] plain_subset [OF _ set_drop_subset])

lemma plain_float: "plain (float_repr f)" "plain (dumps_float f)"
proof -
  show "plain (float_repr f)" for f by (cases f) (auto simp: plain_show_digits)
  then show "plain (dumps_float f)" by (cases f) (auto simp: plain_show_digits)
qed

lemma plain_concat: "(\<forall>x \<in> set xs. plain x) \<Longrightarrow> plain (concat xs)"
  by (auto simp: plain_def)

lemma plain_hex_fixed: "plain (hex_fixed k n)"
  using hex_fixed_plain by (force simp: plain_def)

lemma plain_escape: "plain (escape_char c)"
  by (auto simp: escape_char_def plain_hex_fixed)

lemma plain_dumps_str: "plain (dumps_str s)"
  by (auto simp: dumps_str_def intro!: plain_concat plain_escape)

lemma plain_dumps: "plain (dumps v)"
proof (induction v)
  case (JList vs)
  then show ?case by (auto intro!: plain_join)
next
  case (JDict kvs)
  have "plain (dumps (snd kv))" if "kv \<in> set kvs" for kv
    using JDict [OF that, of "snd kv"] by (cases kv) (auto simp: snds.simps)
  then show ?case
    by (auto intro!: plain_join plain_dumps_str simp: dumps_item_def)
qed (auto simp: plain_float plain_dumps_str)

lemma plain_canonical: "plain (canonical v)"
  by (simp add: canonical_def dumps_sorted_def plain_dumps)

lemma plain_hexdigest: "plain (sha256_hexdigest s)"
  using hexdigest_plain by (force simp: plain_def)

lemma plain_sep: "plain s \<Longrightarrow> sep \<notin> set s"
  by (auto simp: plain_def)

section \<open>The chain\<close>

abbreviation row_text :: "audit_row \<Rightarrow> string" where
  "row_text r \<equiv> audit_text (au_kind r) (au_body r) (au_created_at r) (au_prev_hash r)"

fun linked :: "string \<Rightarrow> audit_row list \<Rightarrow> bool" where
  "linked prev [] = True"
| "linked prev (r # rs) =
     (au_prev_hash r = prev \<and> au_record_hash r = sha256_hexdigest (row_text r) \<and> linked (au_record_hash r) rs)"

definition tip :: "string \<Rightarrow> audit_row list \<Rightarrow> string" where
  "tip prev rows = (if rows = [] then prev else au_record_hash (last rows))"

lemma linked_snoc:
  "linked prev (rows @ [r]) \<longleftrightarrow>
     linked prev rows \<and> au_prev_hash r = tip prev rows \<and> au_record_hash r = sha256_hexdigest (row_text r)"
  by (induction prev rows rule: linked.induct) (auto simp: tip_def)

lemma walk_chain_linked:
  "linked prev rows \<Longrightarrow> walk_chain prev n q rows =
     Inr (n + length rows, (if rows = [] then q else Some (au_seq (last rows))), tip prev rows)"
  by (induction prev n q rows rule: walk_chain.induct) (auto simp: tip_def)

lemma walk_chain_ok: "walk_chain prev n q rows = Inr res \<Longrightarrow> linked prev rows"
  by (induction prev n q rows rule: walk_chain.induct) (auto split: if_splits)

lemma walk_chain_broken: "walk_chain prev n q rows = Inl cv \<Longrightarrow> \<not> cv_ok cv"
  by (induction prev n q rows rule: walk_chain.induct) (auto split: if_splits)

lemma check_chain_ok:
  "check_chain rows head_seq head_hash = Inr cv \<Longrightarrow> cv_ok cv \<Longrightarrow>
   linked GENESIS rows \<and> cv_records cv = length rows \<and>
   (\<forall>q. head_seq = Some q \<longrightarrow>
      py_int q = Inr (if rows = [] then 0 else au_seq (last rows)) \<and>
      (\<forall>h. head_hash = Some h \<longrightarrow> h = tip GENESIS rows))"
proof -
  assume cc: "check_chain rows head_seq head_hash = Inr cv" and ok: "cv_ok cv"
  obtain n q h where w: "walk_chain GENESIS 0 None rows = Inr (n, q, h)"
    using cc ok walk_chain_broken by (fastforce simp: check_chain_def split: sum.splits)
  have l: "linked GENESIS rows" by (rule walk_chain_ok [OF w])
  then have "n = length rows" "h = tip GENESIS rows" "q = (if rows = [] then None else Some (au_seq (last rows)))"
    using w walk_chain_linked [OF l, of 0 None] by auto
  with l cc ok w show ?thesis
    by (auto simp: check_chain_def result_simps Let_def split: option.splits if_splits)
qed

text \<open>
  The chain invariant of the audit table: rows linked from the genesis hash, separator-free
  fields, increasing sequence numbers, and a high-water mark that names the last row.
\<close>

definition plain_row :: "audit_row \<Rightarrow> bool" where
  "plain_row r \<longleftrightarrow> plain (au_kind r) \<and> plain (au_body r) \<and> plain (au_created_at r) \<and> plain (au_prev_hash r)"

definition audit_ok :: "tables \<Rightarrow> bool" where
  "audit_ok t \<longleftrightarrow>
     linked GENESIS (t_audit t) \<and> (\<forall>r \<in> set (t_audit t). plain_row r) \<and>
     sorted_wrt (<) (map au_seq (t_audit t)) \<and>
     (\<forall>r \<in> set (t_audit t). 0 < au_seq r \<and> au_seq r \<le> t_audit_seq t) \<and> 0 \<le> t_audit_seq t \<and>
     dict_get (t_meta t) AUDIT_HEAD_SEQ =
       (if t_audit t = [] then None else Some (show_int (au_seq (last (t_audit t))))) \<and>
     dict_get (t_meta t) AUDIT_HEAD_HASH =
       (if t_audit t = [] then None else Some (tip GENESIS (t_audit t)))"

lemma audit_tip_tip: "audit_tip t = tip GENESIS (t_audit t)"
  by (cases "t_audit t" rule: rev_cases) (auto simp: audit_tip_def tip_def)

lemma plain_GENESIS [simp]: "plain GENESIS"
  by (simp add: GENESIS_def)

lemma linked_hash: "linked prev rows \<Longrightarrow> r \<in> set rows \<Longrightarrow> au_record_hash r = sha256_hexdigest (row_text r)"
  by (induction prev rows rule: linked.induct) auto

lemma plain_tip: "linked GENESIS rows \<Longrightarrow> plain (tip GENESIS rows)"
  using linked_hash [of GENESIS rows "last rows"] plain_hexdigest by (auto simp: tip_def)

lemma fold_max_bounded: "(\<And>x. x \<in> set xs \<Longrightarrow> x \<le> m) \<Longrightarrow> fold max xs m = (m :: int)"
  by (induction xs) auto

lemma head_keys_differ [simp]: "AUDIT_HEAD_SEQ \<noteq> AUDIT_HEAD_HASH" "AUDIT_HEAD_HASH \<noteq> AUDIT_HEAD_SEQ"
  by (simp_all add: AUDIT_HEAD_SEQ_def AUDIT_HEAD_HASH_def)

text \<open>The tables a successful append leaves.\<close>

definition appended :: "string \<Rightarrow> (string \<times> json) list \<Rightarrow> string \<Rightarrow> tables \<Rightarrow> tables" where
  "appended kind body created t =
     (let prev = audit_tip t; payload = canonical (JDict body);
          h = sha256_hexdigest (audit_text kind payload created prev);
          (r, t1) = insert_audit kind payload created prev h t
      in upsert_meta AUDIT_HEAD_HASH h (upsert_meta AUDIT_HEAD_SEQ (show_int (t_audit_seq t1)) t1))"

lemma appended_tables:
  "t_audit (appended kind body created t) =
     t_audit t @ [\<lparr>au_seq = t_audit_seq (appended kind body created t), au_kind = kind,
       au_body = canonical (JDict body), au_created_at = created, au_prev_hash = audit_tip t,
       au_record_hash = sha256_hexdigest (audit_text kind (canonical (JDict body)) created (audit_tip t))\<rparr>]"
  "t_sources (appended kind body created t) = t_sources t"
  "t_tools (appended kind body created t) = t_tools t"
  "t_assertions (appended kind body created t) = t_assertions t"
  "t_discoveries (appended kind body created t) = t_discoveries t"
  "t_grants (appended kind body created t) = t_grants t"
  "t_redemptions (appended kind body created t) = t_redemptions t"
  by (simp_all add: appended_def insert_audit_def upsert_meta_def Let_def)

lemma audit_ok_appended:
  assumes "audit_ok t" "plain kind" "plain created"
  shows "audit_ok (appended kind body created t)"
proof -
  have seq: "fold max (map au_seq (t_audit t)) (t_audit_seq t) = t_audit_seq t"
    using assms(1) by (intro fold_max_bounded) (auto simp: audit_ok_def)
  have l: "linked GENESIS (t_audit t)" using assms(1) by (simp add: audit_ok_def)
  show ?thesis
    using assms plain_tip [OF l]
    by (auto simp: audit_ok_def appended_def insert_audit_def upsert_meta_def Let_def seq dict_simps
        linked_snoc audit_tip_tip plain_row_def plain_canonical sorted_wrt_append tip_def
        intro: le_imp_less_Suc)
qed

lemma within_append_in_txn: "within same_base (append_audit_in_txn kind body)"
  unfolding append_audit_in_txn_def Let_def by (intro txn_rules)

lemma append_in_txn_Inr:
  assumes "append_audit_in_txn kind body s = (Inr seq, s')"
  shows "st_tables s' = appended kind body (isoformat (st_clock s 0)) (st_tables s)"
    and "seq = t_audit_seq (st_tables s')"
  using assms
  by (auto simp: append_audit_in_txn_def appended_def sx_simps Let_def insert_audit_def upsert_meta_def)

lemma append_in_txn_healthy:
  assumes "healthy s"
  shows "\<exists>s'. append_audit_in_txn kind body s = (Inr (t_audit_seq (st_tables s')), s') \<and> healthy s' \<and>
     st_tables s' = appended kind body (isoformat (st_clock s 0)) (st_tables s) \<and>
     st_begun s' = Some (base s)"
proof -
  obtain r s' where run: "append_audit_in_txn kind body s = (r, s')" by fastforce
  have "\<exists>seq. r = Inr seq \<and> healthy s' \<and> st_begun s' = Some (base s)"
    using run assms
    by (auto simp: append_audit_in_txn_def Let_def insert_audit_def sx_bind_def now_text_def now_def sx_return_def
        healthy_run healthy_def base_def split: option.splits)
  then show ?thesis using append_in_txn_Inr run by blast
qed

text \<open>What \<open>append_audit\<close> does, whatever fails.\<close>

lemma append_audit_spec:
  assumes "idle s" "append_audit kind body s = (r, s')"
  shows "idle s' \<and>
    (case r of
       Inl e \<Rightarrow> st_tables s' = st_tables s
     | Inr seq \<Rightarrow> st_tables s' = appended kind body (isoformat (st_clock s 0)) (st_tables s) \<and>
                 seq = t_audit_seq (st_tables s'))"
  using with_conn_atomic [OF within_append_in_txn assms(1) assms(2) [unfolded append_audit_def]]
    append_in_txn_Inr by (fastforce split: sum.splits)

lemma append_audit_healthy:
  assumes "healthy s" "idle s"
  shows "\<exists>s'. append_audit kind body s = (Inr (t_audit_seq (st_tables s')), s') \<and> healthy s' \<and> idle s' \<and>
     st_tables s' = appended kind body (isoformat (st_clock s 0)) (st_tables s)"
proof -
  obtain s1 where s1: "append_audit_in_txn kind body s = (Inr (t_audit_seq (st_tables s1)), s1)" "healthy s1"
      "st_tables s1 = appended kind body (isoformat (st_clock s 0)) (st_tables s)" "st_begun s1 = Some (base s)"
    using append_in_txn_healthy [OF assms(1)] by blast
  show ?thesis
    unfolding append_audit_def healthy_with_conn [where m = "append_audit_in_txn kind body", OF assms(1) s1(1,2)]
    using s1 by (auto simp: idle_def healthy_def)
qed

section \<open>Verification of the chain\<close>

lemma verify_chain_run:
  "verify_chain s = (Inr cv, s') \<Longrightarrow>
   check_chain (t_audit (st_tables s)) (dict_get (t_meta (st_tables s)) AUDIT_HEAD_SEQ)
     (dict_get (t_meta (st_tables s)) AUDIT_HEAD_HASH) = Inr cv"
  by (auto simp: verify_chain_def sx_simps)

lemma verify_chain_healthy:
  "healthy s \<Longrightarrow> fst (verify_chain s) =
   check_chain (t_audit (st_tables s)) (dict_get (t_meta (st_tables s)) AUDIT_HEAD_SEQ)
     (dict_get (t_meta (st_tables s)) AUDIT_HEAD_HASH)"
  by (simp add: verify_chain_def sx_bind_def query_def statement_def sx_get_def healthy_def sx_lift_def Let_def)

lemma check_chain_audit_ok:
  assumes "audit_ok t"
  shows "check_chain (t_audit t) (dict_get (t_meta t) AUDIT_HEAD_SEQ) (dict_get (t_meta t) AUDIT_HEAD_HASH) =
     Inr \<lparr>cv_ok = True, cv_records = length (t_audit t), cv_broken_at = None, cv_detail = ''''\<rparr>"
proof -
  have l: "linked GENESIS (t_audit t)" using assms by (simp add: audit_ok_def)
  have "py_int (show_int (au_seq (last (t_audit t)))) = Inr (au_seq (last (t_audit t)))" if "t_audit t \<noteq> []"
    using assms that by (intro py_int_show_int) (auto simp: audit_ok_def intro: less_imp_le)
  then show ?thesis
    using assms walk_chain_linked [OF l, of 0 None]
    by (auto simp: check_chain_def audit_ok_def)
qed

text \<open>An audit append is all or nothing, and keeps the chain verifiable. On a store with an intact
  chain, whatever statement fails, a raising append leaves every table as it was; a returning one
  adds exactly one record, at the end, whose body reads back as the appended object (keys sorted),
  and a verification afterwards that reads the tables reports an intact chain of all records.\<close>

theorem append_audit_atomic:
  assumes "idle s" "audit_ok (st_tables s)" "plain kind" "wf_json (JDict body)"
    and "append_audit kind body s = (r, s')"
  shows "idle s' \<and> audit_ok (st_tables s') \<and>
    (case r of
       Inl e \<Rightarrow> st_tables s' = st_tables s
     | Inr seq \<Rightarrow> \<exists>row. t_audit (st_tables s') = t_audit (st_tables s) @ [row] \<and> au_seq row = seq \<and>
          au_kind row = kind \<and> json_loads (au_body row) = Inr (sort_keys (JDict body)) \<and>
          (\<forall>cv u. verify_chain s' = (Inr cv, u) \<longrightarrow>
             cv_ok cv \<and> cv_records cv = length (t_audit (st_tables s)) + 1))"
proof (cases r)
  case (Inl e)
  then show ?thesis using append_audit_spec [OF assms(1,5)] assms(2) by simp
next
  case (Inr seq)
  let ?t = "appended kind body (isoformat (st_clock s 0)) (st_tables s)"
  have t: "st_tables s' = ?t" "seq = t_audit_seq ?t" "idle s'"
    using append_audit_spec [OF assms(1,5)] Inr by auto
  have ok: "audit_ok ?t" by (rule audit_ok_appended [OF assms(2,3) plain_isoformat])
  have loads: "json_loads (canonical (JDict body)) = Inr (sort_keys (JDict body))"
    using loads_dumps wf_sort_keys assms(4) by (simp add: canonical_def dumps_sorted_def del: sort_keys.simps)
  have "cv_ok cv \<and> cv_records cv = length (t_audit (st_tables s)) + 1" if "verify_chain s' = (Inr cv, u)" for cv u
    using verify_chain_run [OF that] check_chain_audit_ok [OF ok] t(1) by (simp add: appended_tables)
  then show ?thesis
    using Inr t ok loads by (simp add: appended_tables(1) del: sort_keys.simps)
qed

definition fresh_store :: "tables \<Rightarrow> store" where
  "fresh_store t = \<lparr>st_tables = t, st_begun = None, st_clock = (\<lambda>n. 0), st_uuids = (\<lambda>n. ''u''),
     st_faults = (\<lambda>n. False)\<rparr>"

lemma fresh_store [simp]:
  "idle (fresh_store t)" "healthy (fresh_store t)" "st_tables (fresh_store t) = t"
  "st_clock (fresh_store t) = (\<lambda>n. 0)" "st_uuids (fresh_store t) = (\<lambda>n. ''u'')"
  by (simp_all add: fresh_store_def idle_def healthy_def)

lemma audit_ok_empty [simp]: "audit_ok empty_tables" "t_audit empty_tables = []"
  by (simp_all add: audit_ok_def empty_tables_def)

theorem append_audit_atomic_witness:
  "\<exists>seq s'. append_audit ''source'' [(''event'', JStr ''registered'')] (fresh_store empty_tables) = (Inr seq, s') \<and>
     audit_ok (st_tables s') \<and> length (t_audit (st_tables s')) = 1"
proof -
  let ?s = "fresh_store empty_tables"
  obtain s' where run: "append_audit ''source'' [(''event'', JStr ''registered'')] ?s = (Inr (t_audit_seq (st_tables s')), s')"
    using append_audit_healthy [of ?s "''source''" "[(''event'', JStr ''registered'')]"] by auto
  show ?thesis
    using append_audit_atomic [OF _ _ _ _ run] run
    by (auto simp: wf_dict_def)
qed

section \<open>Tampering\<close>

lemma sep_split: "x \<notin> set a \<Longrightarrow> x \<notin> set a' \<Longrightarrow> a @ x # b = a' @ x # b' \<Longrightarrow> a = a' \<and> b = b'"
  by (induction a arbitrary: a') (case_tac a'; auto)+

lemma text_fields_unique:
  assumes "plain k" "plain b" "plain c" "plain p"
    and eq: "audit_text k b c p = audit_text k' b' c' p'"
  shows "k' = k \<and> b' = b \<and> c' = c \<and> p' = p"
proof -
  have seps: "sep \<notin> set k" "sep \<notin> set b" "sep \<notin> set c" "sep \<notin> set p"
    using assms(1-4) plain_sep by auto
  have "count_list (audit_text k b c p) sep = 3"
    using seps by (simp add: audit_text_def)
  then have "count_list k' sep = 0" "count_list b' sep = 0" "count_list c' sep = 0"
    unfolding eq by (auto simp: audit_text_def)
  then have "sep \<notin> set k'" "sep \<notin> set b'" "sep \<notin> set c'"
    by (auto simp: count_list_0_iff)
  then show ?thesis
    using seps eq unfolding audit_text_def by (metis sep_split)
qed

text \<open>Everything of a row but its sequence number, which the hash does not cover.\<close>

definition content :: "audit_row \<Rightarrow> string \<times> string \<times> string \<times> string \<times> string" where
  "content r = (au_kind r, au_body r, au_created_at r, au_prev_hash r, au_record_hash r)"

lemma linked_same_tip:
  assumes "linked GENESIS rows" "linked GENESIS rows'" "\<forall>r \<in> set rows. plain_row r"
    and "tip GENESIS rows = tip GENESIS rows'"
  shows "map content rows' = map content rows \<or>
     (\<exists>r \<in> set rows. \<exists>r' \<in> set rows'. sha256_collision (row_text r) (row_text r')) \<or>
     (\<exists>r \<in> set rows \<union> set rows'. sha256_hexdigest (row_text r) = GENESIS)"
  using assms
proof (induction rows arbitrary: rows' rule: rev_induct)
  case Nil
  show ?case
  proof (cases rows' rule: rev_cases)
    case (snoc ys r')
    then show ?thesis using Nil by (auto simp: linked_snoc tip_def)
  qed simp
next
  case (snoc r rows)
  have r: "linked GENESIS rows" "au_prev_hash r = tip GENESIS rows" "au_record_hash r = sha256_hexdigest (row_text r)"
    using snoc.prems(1) by (auto simp: linked_snoc)
  show ?case
  proof (cases rows' rule: rev_cases)
    case Nil
    then show ?thesis using snoc.prems(4) r(3) by (auto simp: tip_def)
  next
    case (snoc ys r')
    have r': "linked GENESIS ys" "au_prev_hash r' = tip GENESIS ys" "au_record_hash r' = sha256_hexdigest (row_text r')"
      using snoc.prems(2) snoc by (auto simp: linked_snoc)
    have hash: "au_record_hash r = au_record_hash r'"
      using snoc.prems(4) snoc by (simp add: tip_def)
    show ?thesis
    proof (cases "row_text r = row_text r'")
      case False
      then have "sha256_collision (row_text r) (row_text r')"
        using hash r(3) r'(3) by (simp add: sha256_collision_def)
      then show ?thesis using snoc by auto
    next
      case True
      then have same: "content r' = content r"
        using text_fields_unique [of "au_kind r" "au_body r" "au_created_at r" "au_prev_hash r"]
          snoc.prems(3) hash by (auto simp: plain_row_def content_def)
      then have "tip GENESIS rows = tip GENESIS ys"
        using r(2) r'(2) by (simp add: content_def)
      then have "map content ys = map content rows \<or>
          (\<exists>r \<in> set rows. \<exists>r' \<in> set ys. sha256_collision (row_text r) (row_text r')) \<or>
          (\<exists>r \<in> set rows \<union> set ys. sha256_hexdigest (row_text r) = GENESIS)"
        using snoc.IH [OF r(1) r'(1)] snoc.prems(3) by simp
      then show ?thesis using same snoc by auto
    qed
  qed
qed


definition demo_audit :: tables where
  "demo_audit = appended ''source'' [(''event'', JStr ''registered'')] (isoformat 0) empty_tables"

lemma demo_audit_ok: "audit_ok demo_audit" "t_audit demo_audit \<noteq> []"
  unfolding demo_audit_def by (auto intro!: audit_ok_appended plain_isoformat simp: appended_tables)


text \<open>Truncation is always noticed. Removing any non-empty run of newest records from an intact
  audit table, with the high-water mark in place, makes verification report a broken chain; no
  assumption on the hash function is needed.\<close>

theorem truncation_detected:
  assumes "audit_ok t" "n < length (t_audit t)"
  shows "\<exists>cv. fst (verify_chain (fresh_store (t\<lparr>t_audit := take n (t_audit t)\<rparr>))) = Inr cv \<and> \<not> cv_ok cv"
proof -
  let ?rows = "take n (t_audit t)" and ?q = "\<lambda>rows. if rows = [] then 0 else au_seq (last rows)"
  let ?cc = "check_chain ?rows (dict_get (t_meta t) AUDIT_HEAD_SEQ) (dict_get (t_meta t) AUDIT_HEAD_HASH)"
  have ne: "t_audit t \<noteq> []" using assms(2) by auto
  have head: "dict_get (t_meta t) AUDIT_HEAD_SEQ = Some (show_int (au_seq (last (t_audit t))))"
    and pos: "\<forall>r \<in> set (t_audit t). 0 < au_seq r" and sorted: "sorted_wrt (<) (map au_seq (t_audit t))"
    using assms(1) ne by (auto simp: audit_ok_def)
  have parse: "py_int (show_int (au_seq (last (t_audit t)))) = Inr (au_seq (last (t_audit t)))"
    using pos ne by (intro py_int_show_int) (auto intro: less_imp_le)
  have less: "?q ?rows < au_seq (last (t_audit t))"
  proof (cases "n = 0")
    case True
    then show ?thesis using pos ne by simp
  next
    case False
    have "map au_seq (t_audit t) ! (n - 1) < map au_seq (t_audit t) ! (length (t_audit t) - 1)"
      using False assms(2) by (intro sorted_wrt_nth_less [OF sorted]) auto
    then show ?thesis using False assms(2) ne by (simp add: last_conv_nth min_def)
  qed
  have returns: "\<exists>cv. ?cc = Inr cv"
    unfolding head by (auto simp: check_chain_def parse Let_def split: sum.splits)
  have "\<not> cv_ok cv" if "?cc = Inr cv" for cv
    using check_chain_ok [OF that] head parse less by auto
  then show ?thesis
    using returns verify_chain_healthy [of "fresh_store (t\<lparr>t_audit := take n (t_audit t)\<rparr>)"] by auto
qed

theorem truncation_detected_witness:
  "\<exists>cv. fst (verify_chain (fresh_store (demo_audit\<lparr>t_audit := take 0 (t_audit demo_audit)\<rparr>))) = Inr cv \<and> \<not> cv_ok cv"
  using truncation_detected [OF demo_audit_ok(1), of 0] demo_audit_ok(2)
  unfolding length_greater_0_conv by blast

end
