(* ===== verification/Store_Catalog.thy ===== *)
theory Store_Catalog
  imports Store_Audit
begin

text \<open>
  The catalog half of \<open>store.py\<close>: the JSON codecs, the upserts of sources, tools, assertions
  and discoveries, hydration (\<open>load_catalog\<close>), the integrity probe \<open>verify_assertions\<close>, and
  opening a database with its migrations. Hydration re-derives every assertion from the evidence
  table, which is what the tamper-resistance property rests on.
\<close>

section \<open>Codecs\<close>

text \<open>What the column holds is the value the canonical text decodes to: its keys are sorted.\<close>

definition stored :: "json \<Rightarrow> json" where
  "stored v = sort_keys v"

definition claimed_to_json :: "ClaimedMetadata \<Rightarrow> json" where
  "claimed_to_json c = stored (JDict
     [(''description'', cm_description c), (''read_only_hint'', cm_read_only_hint c),
      (''destructive_hint'', cm_destructive_hint c), (''idempotent_hint'', cm_idempotent_hint c),
      (''open_world_hint'', cm_open_world_hint c)])"

definition claimed_from_json :: "json \<Rightarrow> ClaimedMetadata result" where
  "claimed_from_json raw =
     (case raw of
        JDict d \<Rightarrow> Inr \<lparr>cm_description = get_or d ''description'' (JStr []),
                        cm_read_only_hint = get_or_null d ''read_only_hint'',
                        cm_destructive_hint = get_or_null d ''destructive_hint'',
                        cm_idempotent_hint = get_or_null d ''idempotent_hint'',
                        cm_open_world_hint = get_or_null d ''open_world_hint''\<rparr>
      | _ \<Rightarrow> Inl AttributeError)"

text \<open>Iterating over a JSON value, and building a \<open>frozenset\<close> from what the iteration yields.\<close>

fun py_iter :: "json \<Rightarrow> json list result" where
  "py_iter (JList vs) = Inr vs"
| "py_iter (JStr s) = Inr (map (\<lambda>c. JStr [c]) s)"
| "py_iter (JDict kvs) = Inr (map (\<lambda>(k, v). JStr k) kvs)"
| "py_iter _ = Inl TypeError"

fun str_of :: "json \<Rightarrow> string" where
  "str_of (JStr s) = s"
| "str_of _ = []"

fun distinct_values :: "json list \<Rightarrow> json list" where
  "distinct_values [] = []"
| "distinct_values (v # vs) = v # filter (\<lambda>w. \<not> py_eq v w) (distinct_values vs)"

definition py_frozenset :: "json list \<Rightarrow> json list result" where
  "py_frozenset vs =
     (if list_all is_str vs then Inr (map JStr (py_sorted_set (map str_of vs)))
      else if list_ex (\<lambda>v. is_list v \<or> is_dict v) vs then Inl TypeError
      else Inr (distinct_values vs))"

text \<open>\<open><\<close> on numbers compares exact values; a binary64 value is \<open>m * 2 ^ q\<close>.\<close>

fun exact_value :: "pynum \<Rightarrow> (int \<times> int) option" where
  "exact_value (NInt i) = Some (i, 0)"
| "exact_value (NFloat (FFin neg d e)) =
     (let (m, q) = (if e < 0 then to_binary64 d (10 ^ nat (- e)) else to_binary64 (d * 10 ^ nat e) 1)
      in Some (if neg then - int m else int m, q))"
| "exact_value _ = None"

fun num_lt :: "pynum \<Rightarrow> pynum \<Rightarrow> bool" where
  "num_lt (NFloat (FInf neg)) b = (neg \<and> b \<noteq> NFloat (FInf True) \<and> b \<noteq> NFloat FNan)"
| "num_lt a (NFloat (FInf neg)) = (\<not> neg \<and> a \<noteq> NFloat FNan)"
| "num_lt a b =
     (case (exact_value a, exact_value b) of
        (Some (m, p), Some (n, q)) \<Rightarrow> (let r = min p q in m * 2 ^ nat (p - r) < n * 2 ^ nat (q - r))
      | _ \<Rightarrow> False)"

fun insert_num :: "json \<Rightarrow> json list \<Rightarrow> json list" where
  "insert_num v [] = [v]"
| "insert_num v (w # ws) =
     (if num_lt (the (num_of v)) (the (num_of w)) then v # w # ws else w # insert_num v ws)"

text \<open>\<open>sorted\<close> of such a set: strings among themselves, numbers among themselves, else \<open>TypeError\<close>.\<close>

definition py_sorted :: "json list \<Rightarrow> json list result" where
  "py_sorted vs =
     (if list_all is_str vs then Inr (map JStr (sort (map str_of vs)))
      else if length vs \<le> 1 then Inr vs
      else if list_all (\<lambda>v. num_of v \<noteq> None) vs then Inr (fold insert_num vs [])
      else Inl TypeError)"

definition class_values :: "DataClass set \<Rightarrow> json" where
  "class_values S = JList (map JStr (sort (map class_value (filter (\<lambda>c. c \<in> S) all_classes))))"

definition asserted_to_json :: "AssertedDescriptor \<Rightarrow> json result" where
  "asserted_to_json a = bind_result (py_sorted (ad_scopes a)) (\<lambda>scopes. Inr (stored (JDict
     [(''effect'', JStr (effect_value (ad_effect a))), (''reads'', class_values (ad_reads a)),
      (''writes'', class_values (ad_writes a)), (''scopes'', JList scopes),
      (''reversible'', ad_reversible a), (''idempotent'', ad_idempotent a),
      (''requires_approval'', ad_requires_approval a), (''declassifies'', ad_declassifies a),
      (''asserted_by'', ad_asserted_by a)])))"

definition classes_of :: "json \<Rightarrow> DataClass set result" where
  "classes_of v = bind_result (py_iter v) (\<lambda>vs.
     bind_result (map_result (enum_of class_value all_classes) vs) (\<lambda>cs. Inr (set cs)))"

definition asserted_from_json :: "json \<Rightarrow> AssertedDescriptor result" where
  "asserted_from_json raw =
     (case raw of
        JDict d \<Rightarrow>
          (case dict_get d ''effect'' of
             None \<Rightarrow> Inl KeyError
           | Some e \<Rightarrow>
               bind_result (enum_of effect_value all_effects e) (\<lambda>effect.
               bind_result (classes_of (get_or d ''reads'' (JList []))) (\<lambda>reads.
               bind_result (classes_of (get_or d ''writes'' (JList []))) (\<lambda>writes.
               bind_result (bind_result (py_iter (get_or d ''scopes'' (JList []))) py_frozenset) (\<lambda>scopes.
               Inr \<lparr>ad_effect = effect, ad_reads = reads, ad_writes = writes, ad_scopes = scopes,
                    ad_reversible = get_or d ''reversible'' (JBool True),
                    ad_idempotent = get_or d ''idempotent'' (JBool False),
                    ad_requires_approval = get_or d ''requires_approval'' (JBool False),
                    ad_declassifies = get_or d ''declassifies'' (JBool False),
                    ad_asserted_by = get_or d ''asserted_by'' (JStr [])\<rparr>)))))
      | _ \<Rightarrow> Inl TypeError)"

section \<open>Writing\<close>

definition put_source :: "TrustedSource \<Rightarrow> string list \<Rightarrow> string list option \<Rightarrow> string \<Rightarrow> tables \<Rightarrow> tables" where
  "put_source source declares command registered t =
     t\<lparr>t_sources := dict_set (ts_source_id source)
        \<lparr>sr_tier = tier_value (ts_tier source), sr_transport = ts_transport source,
         sr_declared = sort declares, sr_command = command,
         sr_registered_at = (case dict_get (t_sources t) (ts_source_id source) of
                               Some old \<Rightarrow> sr_registered_at old | None \<Rightarrow> registered)\<rparr> (t_sources t)\<rparr>"

definition upsert_source :: "TrustedSource \<Rightarrow> string list \<Rightarrow> string list option \<Rightarrow> (store, unit) sx" where
  "upsert_source source declares command =
     with_conn (sx_bind now_text (\<lambda>registered. update_tables (put_source source declares command registered)))"

definition get_source_command :: "string \<Rightarrow> (store, string list option) sx" where
  "get_source_command source_id =
     query (\<lambda>t. case dict_get (t_sources t) source_id of Some row \<Rightarrow> sr_command row | None \<Rightarrow> None)"

definition has_source :: "string \<Rightarrow> (store, bool) sx" where
  "has_source source_id = query (\<lambda>t. dict_get (t_sources t) source_id \<noteq> None)"

definition put_tool :: "ToolVersion \<Rightarrow> json option \<Rightarrow> string \<Rightarrow> tables \<Rightarrow> tables" where
  "put_tool tv asserted updated t =
     t\<lparr>t_tools := dict_set (tv_source_id tv, tr_name (tv_ref tv))
        \<lparr>to_version = tr_version (tv_ref tv), to_claimed = claimed_to_json (tv_claimed tv),
         to_asserted = asserted, to_input_schema = stored (tv_input_schema tv), to_updated_at = updated\<rparr>
        (t_tools t)\<rparr>"

definition upsert_tool :: "ToolVersion \<Rightarrow> (store, unit) sx" where
  "upsert_tool tv = with_conn (
     sx_bind (case tv_asserted tv of
                None \<Rightarrow> sx_return None
              | Some a \<Rightarrow> sx_bind (sx_lift (asserted_to_json a)) (\<lambda>j. sx_return (Some j))) (\<lambda>asserted.
     sx_bind now_text (\<lambda>updated. update_tables (put_tool tv asserted updated))))"

definition put_assertion :: "ToolId \<Rightarrow> json \<Rightarrow> string \<Rightarrow> string \<Rightarrow> tables \<Rightarrow> tables" where
  "put_assertion tid descriptor fp asserted_at t =
     t\<lparr>t_assertions := dict_set tid
        \<lparr>as_descriptor = descriptor, as_fingerprint = fp, as_asserted_at = asserted_at\<rparr> (t_assertions t)\<rparr>"

definition upsert_assertion :: "string \<Rightarrow> string \<Rightarrow> AssertionRecord \<Rightarrow> (store, unit) sx" where
  "upsert_assertion source_id name rec = with_conn (
     sx_bind (sx_lift (asserted_to_json (ar_descriptor rec))) (\<lambda>descriptor.
     sx_bind now_text (\<lambda>asserted_at.
       update_tables (put_assertion (source_id, name) descriptor (show_int (ar_fingerprint rec)) asserted_at))))"

definition put_discovery :: "string \<Rightarrow> string list \<Rightarrow> string \<Rightarrow> tables \<Rightarrow> tables" where
  "put_discovery source_id discovered observed t =
     t\<lparr>t_discoveries := dict_set source_id \<lparr>di_discovered = discovered, di_observed_at = observed\<rparr> (t_discoveries t)\<rparr>"

text \<open>Both callers pass a set of names.\<close>

definition record_discovery :: "string \<Rightarrow> string list \<Rightarrow> (store, unit) sx" where
  "record_discovery source_id discovered = with_conn (
     sx_bind now_text (\<lambda>observed. update_tables (put_discovery source_id (py_sorted_set discovered) observed)))"

definition last_discovery :: "string \<Rightarrow> (store, (string list \<times> string) option) sx" where
  "last_discovery source_id =
     query (\<lambda>t. map_option (\<lambda>row. (py_sorted_set (di_discovered row), di_observed_at row))
                  (dict_get (t_discoveries t) source_id))"

section \<open>Hydration\<close>

definition load_source :: "string \<times> source_row \<Rightarrow> (string \<times> TrustedSource) result" where
  "load_source kr = bind_result (enum_of tier_value all_tiers (JStr (sr_tier (snd kr)))) (\<lambda>tier.
     Inr (fst kr, \<lparr>ts_source_id = fst kr, ts_tier = tier, ts_transport = sr_transport (snd kr)\<rparr>))"

definition load_declared :: "string \<times> source_row \<Rightarrow> string \<times> string list" where
  "load_declared kr = (fst kr, py_sorted_set (sr_declared (snd kr)))"

definition load_tool :: "ToolId \<times> tool_row \<Rightarrow> (ToolId \<times> ToolVersion) result" where
  "load_tool kr = bind_result (claimed_from_json (to_claimed (snd kr))) (\<lambda>claimed.
     Inr (fst kr, \<lparr>tv_ref = \<lparr>tr_name = snd (fst kr), tr_version = to_version (snd kr)\<rparr>,
                   tv_source_id = fst (fst kr), tv_claimed = claimed, tv_asserted = None,
                   tv_input_schema = to_input_schema (snd kr)\<rparr>))"

definition load_assertion :: "ToolId \<times> assertion_row \<Rightarrow> (ToolId \<times> AssertionRecord) result" where
  "load_assertion kr = bind_result (asserted_from_json (as_descriptor (snd kr))) (\<lambda>desc.
     bind_result (py_int (as_fingerprint (snd kr))) (\<lambda>fp.
     Inr (fst kr, \<lparr>ar_descriptor = desc, ar_fingerprint = fp\<rparr>)))"

text \<open>The last loop of \<open>load_catalog\<close>: evidence that matches the current claim stands.\<close>

definition carry_over :: "ToolId \<times> AssertionRecord \<Rightarrow> (ToolId, ToolVersion) dict \<Rightarrow> (ToolId, ToolVersion) dict" where
  "carry_over kr tools =
     (case dict_get tools (fst kr) of
        Some tv \<Rightarrow> if fingerprint tv = ar_fingerprint (snd kr)
                   then dict_set (fst kr) (tv\<lparr>tv_asserted := Some (ar_descriptor (snd kr))\<rparr>) tools else tools
      | None \<Rightarrow> tools)"

definition load_catalog :: "(store, Catalog) sx" where
  "load_catalog =
     sx_bind (query t_sources) (\<lambda>source_rows.
     sx_bind (sx_lift (map_result load_source source_rows)) (\<lambda>sources.
     sx_bind (query t_tools) (\<lambda>tool_rows.
     sx_bind (sx_lift (map_result load_tool tool_rows)) (\<lambda>tools.
     sx_bind (query t_assertions) (\<lambda>assertion_rows.
     sx_bind (sx_lift (map_result load_assertion assertion_rows)) (\<lambda>assertions.
     sx_return \<lparr>cat_sources = sources, cat_tools = fold carry_over assertions tools,
                cat_declared = map load_declared source_rows, cat_assertions = assertions\<rparr>))))))"

record Mismatch =
  mm_source_id :: string
  mm_name :: string
  mm_stored_fingerprint :: string
  mm_actual_fingerprint :: "string option"

definition find_mismatch :: "Catalog \<Rightarrow> ToolId \<times> AssertionRecord \<Rightarrow> Mismatch option" where
  "find_mismatch cat kr =
     (let actual = map_option fingerprint (dict_get (cat_tools cat) (fst kr))
      in if actual \<noteq> Some (ar_fingerprint (snd kr))
         then Some \<lparr>mm_source_id = fst (fst kr), mm_name = snd (fst kr),
                    mm_stored_fingerprint = show_int (ar_fingerprint (snd kr)),
                    mm_actual_fingerprint = map_option show_int actual\<rparr>
         else None)"

text \<open>The report: \<open>ok\<close>, \<open>checked\<close>, \<open>mismatches\<close>.\<close>

definition verify_assertions :: "(store, bool \<times> nat \<times> Mismatch list) sx" where
  "verify_assertions = sx_bind load_catalog (\<lambda>cat.
     let mismatches = List.map_filter (find_mismatch cat) (cat_assertions cat)
     in sx_return (mismatches = [], length (cat_assertions cat), mismatches))"

section \<open>What hydration restores\<close>

lemma map_result_keyed:
  assumes "map_result f rows = Inr kvs" and "\<And>kr kv. f kr = Inr kv \<Longrightarrow> fst kv = fst kr"
  shows "map fst kvs = map fst rows"
    and "map_of kvs k = Some v \<Longrightarrow> \<exists>r. map_of rows k = Some r \<and> f (k, r) = Inr (k, v)"
    and "map_of rows k = Some r \<Longrightarrow> \<exists>v. map_of kvs k = Some v \<and> f (k, r) = Inr (k, v)"
proof -
  have "list_all2 (\<lambda>x y. f x = Inr y) rows kvs" using assms(1) by (simp add: map_result_Inr_iff)
  then have "map fst kvs = map fst rows \<and>
      (\<forall>v. map_of kvs k = Some v \<longrightarrow> (\<exists>r. map_of rows k = Some r \<and> f (k, r) = Inr (k, v))) \<and>
      (\<forall>r. map_of rows k = Some r \<longrightarrow> (\<exists>v. map_of kvs k = Some v \<and> f (k, r) = Inr (k, v)))"
  proof (induction rule: list_all2_induct)
    case (Cons x xs y ys)
    then have "fst y = fst x" using assms(2) by blast
    with Cons show ?case by (cases x; cases y) auto
  qed simp
  then show "map fst kvs = map fst rows"
    "map_of kvs k = Some v \<Longrightarrow> \<exists>r. map_of rows k = Some r \<and> f (k, r) = Inr (k, v)"
    "map_of rows k = Some r \<Longrightarrow> \<exists>v. map_of kvs k = Some v \<and> f (k, r) = Inr (k, v)"
    by auto
qed

lemma load_keys:
  "load_source kr = Inr kv \<Longrightarrow> fst kv = fst kr" "load_tool kr' = Inr kv' \<Longrightarrow> fst kv' = fst kr'"
  "load_assertion kr'' = Inr kv'' \<Longrightarrow> fst kv'' = fst kr''"
  by (auto simp: load_source_def load_tool_def load_assertion_def result_simps)

definition restored :: "(ToolId, AssertionRecord) dict \<Rightarrow> ToolId \<Rightarrow> ToolVersion \<Rightarrow> ToolVersion" where
  "restored evid tid tv =
     (case dict_get evid tid of
        Some rec \<Rightarrow> if fingerprint tv = ar_fingerprint rec then tv\<lparr>tv_asserted := Some (ar_descriptor rec)\<rparr> else tv
      | None \<Rightarrow> tv)"

lemma carry_over_keys [simp]: "map fst (carry_over kr tools) = map fst tools"
proof (cases "dict_get tools (fst kr)")
  case (Some tv)
  then have "fst kr \<in> set (map fst tools)" by (metis map_of_eq_None_iff option.distinct(1) set_map)
  then show ?thesis using Some by (simp add: carry_over_def update_keys)
qed (simp add: carry_over_def)

lemma carry_over_get:
  "dict_get (carry_over kr tools) tid = map_option (restored [kr] tid) (dict_get tools tid)"
  by (cases kr; cases "dict_get tools tid")
    (auto simp: carry_over_def restored_def dict_simps split: option.splits)

lemma fold_carry_over_keys [simp]: "map fst (fold carry_over evid tools) = map fst tools"
  by (induction evid arbitrary: tools) auto

lemma fold_carry_over_get:
  "wf_dict evid \<Longrightarrow>
   dict_get (fold carry_over evid tools) tid = map_option (restored evid tid) (dict_get tools tid)"
proof (induction evid arbitrary: tools)
  case Nil
  then show ?case by (cases "dict_get tools tid") (auto simp: restored_def)
next
  case (Cons kr evid)
  obtain k rec where kr: "kr = (k, rec)" by (cases kr)
  have notin: "map_of evid k = None" using Cons.prems kr by (auto simp: wf_dict_def map_of_eq_None_iff)
  have IH: "dict_get (fold carry_over evid (carry_over kr tools)) tid =
      map_option (restored evid tid) (dict_get (carry_over kr tools) tid)"
    using Cons by (simp add: wf_dict_def)
  have "restored evid tid (restored [kr] tid tv) = restored (kr # evid) tid tv" for tv
    using notin kr by (auto simp: restored_def split: option.splits)
  then show ?case
    using IH by (simp add: carry_over_get option.map_comp comp_def)
qed

lemma load_catalog_run:
  "load_catalog s = (Inr cat, s') \<Longrightarrow>
     map_result load_source (t_sources (st_tables s)) = Inr (cat_sources cat) \<and>
     map_result load_assertion (t_assertions (st_tables s)) = Inr (cat_assertions cat) \<and>
     cat_declared cat = map load_declared (t_sources (st_tables s)) \<and>
     (\<exists>tools. map_result load_tool (t_tools (st_tables s)) = Inr tools \<and>
              cat_tools cat = fold carry_over (cat_assertions cat) tools)"
  by (auto simp: load_catalog_def sx_simps)

lemma load_catalog_healthy:
  "healthy s \<Longrightarrow> fst (load_catalog s) =
     bind_result (map_result load_source (t_sources (st_tables s))) (\<lambda>sources.
     bind_result (map_result load_tool (t_tools (st_tables s))) (\<lambda>tools.
     bind_result (map_result load_assertion (t_assertions (st_tables s))) (\<lambda>assertions.
     Inr \<lparr>cat_sources = sources, cat_tools = fold carry_over assertions tools,
          cat_declared = map load_declared (t_sources (st_tables s)), cat_assertions = assertions\<rparr>)))"
  by (auto simp: load_catalog_def sx_bind_def query_def statement_def sx_get_def sx_lift_def sx_return_def
      healthy_def Let_def split: sum.splits)

lemma load_tool_unasserted: "load_tool kr = Inr kv \<Longrightarrow> tv_asserted (snd kv) = None \<and> tool_id (snd kv) = fst kr"
  by (auto simp: load_tool_def tool_id_def result_simps)

text \<open>A hydrated tool carries exactly what the evidence says about its current claim.\<close>

lemma hydrated_vouched:
  assumes "load_catalog s = (Inr cat, s')" "wf_dict (t_assertions (st_tables s))"
    and "dict_get (cat_tools cat) tid = Some tv"
  shows "tv_asserted tv = vouched cat tid tv" "tool_id tv = tid"
    "\<exists>row tv0. dict_get (t_tools (st_tables s)) tid = Some row \<and> load_tool (tid, row) = Inr (tid, tv0) \<and>
       fingerprint tv = fingerprint tv0 \<and> tv_source_id tv = fst tid"
proof -
  obtain tools where run: "map_result load_assertion (t_assertions (st_tables s)) = Inr (cat_assertions cat)"
      "map_result load_tool (t_tools (st_tables s)) = Inr tools" "cat_tools cat = fold carry_over (cat_assertions cat) tools"
    using load_catalog_run [OF assms(1)] by blast
  have wf: "wf_dict (cat_assertions cat)"
    using map_result_keyed(1) [OF run(1) load_keys(3)] assms(2) by (simp add: wf_dict_def)
  obtain tv0 where tv0: "dict_get tools tid = Some tv0" "tv = restored (cat_assertions cat) tid tv0"
    using assms(3) run(3) fold_carry_over_get [OF wf] by auto
  obtain row where row: "dict_get (t_tools (st_tables s)) tid = Some row" "load_tool (tid, row) = Inr (tid, tv0)"
    using map_result_keyed(2) [OF run(2) load_keys(2) tv0(1)] by blast
  have "tv_asserted tv0 = None" "tool_id tv0 = tid" using load_tool_unasserted [OF row(2)] by auto
  then show "tv_asserted tv = vouched cat tid tv" "tool_id tv = tid"
    using tv0(2) by (auto simp: restored_def vouched_def tool_id_def split: option.splits)
  show "\<exists>row tv0. dict_get (t_tools (st_tables s)) tid = Some row \<and> load_tool (tid, row) = Inr (tid, tv0) \<and>
       fingerprint tv = fingerprint tv0 \<and> tv_source_id tv = fst tid"
    using row tv0(2) \<open>tool_id tv0 = tid\<close> by (auto simp: restored_def tool_id_def split: option.splits)
qed

text \<open>A tampered database cannot resurrect an authorization. Whatever the tables hold, a catalog
  hydrated from them marks a tool invocable only if the evidence table has a row for that id whose
  recorded fingerprint is the fingerprint of the version and claim now stored for the tool, and
  the row of its own source says verified or known; and the \<open>asserted\<close> column of the tools table
  has no influence at all: two databases that differ only there hydrate to the same catalog.\<close>

theorem hydration_rederives:
  assumes "healthy s" "wf_dict (t_assertions (st_tables s))"
    and "load_catalog s = (Inr cat, s')" "invocable cat sid name = Inr True"
  shows "(\<exists>row arow srow tv. dict_get (t_tools (st_tables s)) (sid, name) = Some row \<and>
            dict_get (t_assertions (st_tables s)) (sid, name) = Some arow \<and>
            dict_get (t_sources (st_tables s)) sid = Some srow \<and>
            load_tool ((sid, name), row) = Inr ((sid, name), tv) \<and>
            py_int (as_fingerprint arow) = Inr (fingerprint tv) \<and>
            sr_tier srow \<in> {''verified'', ''known''})
      \<and> fst (load_catalog (s\<lparr>st_tables := (st_tables s)\<lparr>t_tools :=
            map (\<lambda>(k, r). (k, r\<lparr>to_asserted := f k\<rparr>)) (t_tools (st_tables s))\<rparr>\<rparr>)) = Inr cat"
proof
  obtain tv src where tv: "dict_get (cat_tools cat) (sid, name) = Some tv" "is_asserted tv"
      "dict_get (cat_sources cat) (tv_source_id tv) = Some src" "tier_invocable (ts_tier src)"
    using assms(4) by (auto simp: invocable_def catalog_get_def split: option.splits if_splits)
  note h = hydrated_vouched [OF assms(3,2) tv(1)]
  obtain row tv0 where row: "dict_get (t_tools (st_tables s)) (sid, name) = Some row"
      "load_tool ((sid, name), row) = Inr ((sid, name), tv0)" "fingerprint tv = fingerprint tv0" "tv_source_id tv = sid"
    using h(3) by auto
  obtain rec where rec: "dict_get (cat_assertions cat) (sid, name) = Some rec" "fingerprint tv = ar_fingerprint rec"
    using tv(2) h(1) by (auto simp: is_asserted_def vouched_Some)
  have runs: "map_result load_assertion (t_assertions (st_tables s)) = Inr (cat_assertions cat)"
      "map_result load_source (t_sources (st_tables s)) = Inr (cat_sources cat)"
    using load_catalog_run [OF assms(3)] by auto
  obtain arow where arow: "dict_get (t_assertions (st_tables s)) (sid, name) = Some arow"
      "load_assertion ((sid, name), arow) = Inr ((sid, name), rec)"
    using map_result_keyed(2) [OF runs(1) load_keys(3) rec(1)] by blast
  obtain srow where srow: "dict_get (t_sources (st_tables s)) sid = Some srow" "load_source (sid, srow) = Inr (sid, src)"
    using map_result_keyed(2) [OF runs(2) load_keys(1), of sid src] tv(3) row(4) by auto
  have "py_int (as_fingerprint arow) = Inr (fingerprint tv0)"
    using arow(2) rec(2) row(3) by (auto simp: load_assertion_def result_simps)
  moreover have "sr_tier srow \<in> {''verified'', ''known''}"
    using srow(2) tv(4) enum_of_Inr
    by (fastforce simp: load_source_def result_simps tier_invocable_def)
  ultimately show "\<exists>row arow srow tv. dict_get (t_tools (st_tables s)) (sid, name) = Some row \<and>
            dict_get (t_assertions (st_tables s)) (sid, name) = Some arow \<and>
            dict_get (t_sources (st_tables s)) sid = Some srow \<and>
            load_tool ((sid, name), row) = Inr ((sid, name), tv) \<and>
            py_int (as_fingerprint arow) = Inr (fingerprint tv) \<and> sr_tier srow \<in> {''verified'', ''known''}"
    using row(1,2) arow(1) srow(1) by blast
next
  have "map_result load_tool (map (\<lambda>(k, r). (k, r\<lparr>to_asserted := f k\<rparr>)) rows) = map_result load_tool rows" for rows
    by (induction rows) (auto simp: load_tool_def)
  then show "fst (load_catalog (s\<lparr>st_tables := (st_tables s)\<lparr>t_tools :=
      map (\<lambda>(k, r). (k, r\<lparr>to_asserted := f k\<rparr>)) (t_tools (st_tables s))\<rparr>\<rparr>)) = Inr cat"
    using load_catalog_healthy [OF assms(1)] assms(1,3)
    by (simp add: load_catalog_healthy)
qed

section \<open>Codec round trips\<close>

lemma dict_get_sort_key [simp]: "wf_dict kvs \<Longrightarrow> map_of (sort_key fst kvs) = map_of kvs"
  by (subst map_of_inject_set) (auto simp: wf_dict_def distinct_map)

lemma stored_JDict: "wf_dict kvs \<Longrightarrow> \<exists>d. stored (JDict kvs) = JDict d \<and> (\<forall>k. map_of d k = map_option sort_keys (map_of kvs k))"
proof -
  assume wf: "wf_dict kvs"
  have "map_of (map (map_prod id sort_keys) kvs) k = map_option sort_keys (map_of kvs k)" for k
    by (induction kvs) (auto simp: map_prod_def)
  then show ?thesis using wf by (simp add: stored_def)
qed

lemma get_stored:
  assumes "stored (JDict kvs) = JDict d" "wf_dict kvs" "dict_get kvs k = Some v" "sort_keys v = v"
  shows "get_or d k u = v" "get_or_null d k = v" "dict_get d k = Some v"
  using stored_JDict [OF assms(2)] assms by (auto simp: get_or_def get_or_null_def)

definition claim_sorted :: "ClaimedMetadata \<Rightarrow> bool" where
  "claim_sorted c \<longleftrightarrow> sort_keys (cm_description c) = cm_description c \<and>
     sort_keys (cm_read_only_hint c) = cm_read_only_hint c \<and>
     sort_keys (cm_destructive_hint c) = cm_destructive_hint c \<and>
     sort_keys (cm_idempotent_hint c) = cm_idempotent_hint c \<and>
     sort_keys (cm_open_world_hint c) = cm_open_world_hint c"

lemma claimed_roundtrip: "claim_sorted c \<Longrightarrow> claimed_from_json (claimed_to_json c) = Inr c"
proof -
  assume sorted: "claim_sorted c"
  let ?kvs = "[(''description'', cm_description c), (''read_only_hint'', cm_read_only_hint c),
      (''destructive_hint'', cm_destructive_hint c), (''idempotent_hint'', cm_idempotent_hint c),
      (''open_world_hint'', cm_open_world_hint c)]"
  have wf: "wf_dict ?kvs" by (simp add: wf_dict_def)
  obtain d where d: "stored (JDict ?kvs) = JDict d" using stored_JDict [OF wf] by blast
  show ?thesis
    using sorted unfolding claimed_to_json_def claimed_from_json_def d claim_sorted_def
    by (simp add: get_stored [OF d wf])
qed

lemma class_value_inj [simp]: "class_value c = class_value c' \<longleftrightarrow> c = c'"
  by (cases c; cases c') auto

lemma classes_of_values: "classes_of (class_values S) = Inr S"
proof -
  have decode: "\<exists>cs. map_result (enum_of class_value all_classes) vs = Inr cs \<and> map (JStr \<circ> class_value) cs = vs"
    if "\<forall>v \<in> set vs. \<exists>c. v = JStr (class_value c)" for vs
    using that
  proof (induction vs)
    case (Cons v vs)
    then obtain cs c where "map_result (enum_of class_value all_classes) vs = Inr cs"
        "map (JStr \<circ> class_value) cs = vs" "v = JStr (class_value c)" by auto
    then show ?case by (intro exI [of _ "c # cs"]) (simp add: comp_def)
  qed simp
  let ?vs = "map JStr (sort (map class_value (filter (\<lambda>c. c \<in> S) all_classes)))"
  obtain cs where cs: "map_result (enum_of class_value all_classes) ?vs = Inr cs" "map (JStr \<circ> class_value) cs = ?vs"
    using decode [of ?vs] by auto
  have "(JStr \<circ> class_value) ` set cs = (JStr \<circ> class_value) ` S"
    using arg_cong [OF cs(2), of set] by (auto simp: image_image)
  then have "set cs = S"
    by (subst (asm) inj_image_eq_iff) (auto simp: inj_def)
  then show ?thesis using cs(1) by (simp add: classes_of_def class_values_def)
qed

lemma class_values_sorted: "sort_keys (class_values S) = class_values S"
  by (simp add: class_values_def)

text \<open>The descriptors the annotations describe: string scopes, flags without unsorted objects.\<close>

definition storable_descriptor :: "AssertedDescriptor \<Rightarrow> bool" where
  "storable_descriptor d \<longleftrightarrow>
     (\<exists>xs. ad_scopes d = map JStr (py_sorted_set xs)) \<and>
     sort_keys (ad_reversible d) = ad_reversible d \<and> sort_keys (ad_idempotent d) = ad_idempotent d \<and>
     sort_keys (ad_requires_approval d) = ad_requires_approval d \<and>
     sort_keys (ad_declassifies d) = ad_declassifies d \<and> sort_keys (ad_asserted_by d) = ad_asserted_by d"

lemma strs_simps [simp]: "list_all is_str (map JStr xs)" "map str_of (map JStr xs) = xs" "map (str_of \<circ> JStr) xs = xs"
  by (induction xs) auto

lemma py_sorted_set_idem [simp]:
  "sort (py_sorted_set xs) = py_sorted_set xs" "py_sorted_set (py_sorted_set xs) = py_sorted_set xs"
  using py_sorted_set_props [of xs]
  by (auto simp: sorted_sort_id py_sorted_set_def [of "py_sorted_set xs"] distinct_remdups_id)

lemma asserted_roundtrip:
  assumes "storable_descriptor a"
  shows "\<exists>j. asserted_to_json a = Inr j \<and> asserted_from_json j = Inr a"
proof -
  obtain xs where xs: "ad_scopes a = map JStr (py_sorted_set xs)" using assms by (auto simp: storable_descriptor_def)
  have scopes: "py_sorted (ad_scopes a) = Inr (ad_scopes a)" "py_frozenset (ad_scopes a) = Inr (ad_scopes a)"
    "sort_keys (JList (ad_scopes a)) = JList (ad_scopes a)"
    by (simp_all add: xs py_sorted_def py_frozenset_def)
  let ?kvs = "[(''effect'', JStr (effect_value (ad_effect a))), (''reads'', class_values (ad_reads a)),
      (''writes'', class_values (ad_writes a)), (''scopes'', JList (ad_scopes a)),
      (''reversible'', ad_reversible a), (''idempotent'', ad_idempotent a),
      (''requires_approval'', ad_requires_approval a), (''declassifies'', ad_declassifies a),
      (''asserted_by'', ad_asserted_by a)]"
  have wf: "wf_dict ?kvs" by (simp add: wf_dict_def)
  obtain d where d: "stored (JDict ?kvs) = JDict d" using stored_JDict [OF wf] by blast
  have j: "asserted_to_json a = Inr (JDict d)" by (simp only: asserted_to_json_def scopes bind_result.simps d)
  have "get_or d ''scopes'' (JList []) = JList (ad_scopes a)"
    by (rule get_stored(1) [OF d wf]) (simp_all only: scopes map_of.simps fst_conv snd_conv fun_upd_def list.inject char.inject if_True simp_thms, simp)
  then show ?thesis
    using assms scopes unfolding j asserted_from_json_def storable_descriptor_def
    by (simp add: get_stored [OF d wf] class_values_sorted classes_of_values)
qed

section \<open>Restarting\<close>

text \<open>
  The tables mirror a catalog when each dictionary of the catalog and its table have the same keys
  in the same order with corresponding values. The operations write both sides, so this holds
  between calls whose statements succeeded.
\<close>

definition source_mirror :: "string \<times> source_row \<Rightarrow> string \<times> TrustedSource \<Rightarrow> bool" where
  "source_mirror kr kv \<longleftrightarrow> fst kr = fst kv \<and> ts_source_id (snd kv) = fst kv \<and>
     sr_tier (snd kr) = tier_value (ts_tier (snd kv)) \<and> sr_transport (snd kr) = ts_transport (snd kv)"

definition tool_mirror :: "ToolId \<times> tool_row \<Rightarrow> ToolId \<times> ToolVersion \<Rightarrow> bool" where
  "tool_mirror kr kv \<longleftrightarrow> fst kr = fst kv \<and> tool_id (snd kv) = fst kv \<and>
     to_version (snd kr) = tr_version (tv_ref (snd kv)) \<and>
     to_claimed (snd kr) = claimed_to_json (tv_claimed (snd kv)) \<and>
     to_input_schema (snd kr) = stored (tv_input_schema (snd kv))"

definition assertion_mirror :: "ToolId \<times> assertion_row \<Rightarrow> ToolId \<times> AssertionRecord \<Rightarrow> bool" where
  "assertion_mirror kr kv \<longleftrightarrow> fst kr = fst kv \<and>
     asserted_to_json (ar_descriptor (snd kv)) = Inr (as_descriptor (snd kr)) \<and>
     as_fingerprint (snd kr) = show_int (ar_fingerprint (snd kv))"

definition mirrors :: "tables \<Rightarrow> Catalog \<Rightarrow> bool" where
  "mirrors t cat \<longleftrightarrow>
     list_all2 source_mirror (t_sources t) (cat_sources cat) \<and>
     list_all2 tool_mirror (t_tools t) (cat_tools cat) \<and>
     list_all2 assertion_mirror (t_assertions t) (cat_assertions cat) \<and>
     map load_declared (t_sources t) = cat_declared cat"

definition storable :: "Catalog \<Rightarrow> bool" where
  "storable cat \<longleftrightarrow>
     (\<forall>(k, tv) \<in> set (cat_tools cat). claim_sorted (tv_claimed tv)) \<and>
     (\<forall>(k, rec) \<in> set (cat_assertions cat). storable_descriptor (ar_descriptor rec) \<and> 0 \<le> ar_fingerprint rec)"

definition normal_schemas :: "Catalog \<Rightarrow> Catalog" where
  "normal_schemas cat = cat\<lparr>cat_tools :=
     map (\<lambda>(k, tv). (k, tv\<lparr>tv_input_schema := sort_keys (tv_input_schema tv)\<rparr>)) (cat_tools cat)\<rparr>"

lemma list_all2_update:
  assumes "list_all2 P xs ys" "\<And>x y. P x y \<Longrightarrow> fst x = fst y" "P (k, a) (k, b)"
  shows "list_all2 P (dict_set k a xs) (dict_set k b ys)"
  using assms(1)
proof (induction rule: list_all2_induct)
  case Nil
  then show ?case using assms(3) by simp
next
  case (Cons x xs y ys)
  then show ?case using assms(2) [OF Cons(1)] assms(3) by (cases x; cases y) auto
qed

lemma list_all2_mono_in:
  "list_all2 P xs ys \<Longrightarrow> (\<And>x y. y \<in> set ys \<Longrightarrow> P x y \<Longrightarrow> Q x y) \<Longrightarrow> list_all2 Q xs ys"
  by (induction rule: list_all2_induct) auto

lemma map_of_map_snd [simp]:
  "map_of (map (\<lambda>(k, v). (k, g v)) kvs) k = map_option g (map_of kvs k)"
  "map_of (map (map_prod id g) kvs) k = map_option g (map_of kvs k)"
  by (induction kvs) (auto simp: map_prod_def)

lemma dict_eqI:
  "map fst xs = map fst ys \<Longrightarrow> wf_dict xs \<Longrightarrow> (\<And>k. map_of xs k = map_of ys k) \<Longrightarrow> xs = ys"
proof (induction xs arbitrary: ys)
  case (Cons x xs)
  then obtain y ys' where ys: "ys = y # ys'" "fst x = fst y" "map fst xs = map fst ys'" by (cases ys) auto
  have notin: "fst x \<notin> set (map fst xs)" using Cons.prems(2) by (simp add: wf_dict_def)
  have "snd x = snd y" using Cons.prems(3) [of "fst x"] ys(1,2) by (cases x; cases y) auto
  moreover have "xs = ys'"
  proof (rule Cons.IH [OF ys(3)])
    show "wf_dict xs" using Cons.prems(2) by (simp add: wf_dict_def)
    show "map_of xs k = map_of ys' k" for k
    proof (cases "k = fst x")
      case True
      then have "map_of xs k = None" "map_of ys' k = None"
        using notin ys(3) by (auto simp: map_of_eq_None_iff simp flip: set_map)
      then show ?thesis by simp
    next
      case False
      then show ?thesis using Cons.prems(3) [of k] ys(1,2) by (cases x; cases y) auto
    qed
  qed
  ultimately show ?case using ys by (simp add: prod_eq_iff)
qed simp

lemma load_sources_mirror:
  "list_all2 source_mirror rows srcs \<Longrightarrow> map_result load_source rows = Inr srcs"
  unfolding map_result_Inr_iff
  by (erule list_all2_mono_in) (auto simp: source_mirror_def load_source_def prod_eq_iff)

lemma load_assertions_mirror:
  assumes "list_all2 assertion_mirror rows recs"
    and "\<forall>(k, rec) \<in> set recs. storable_descriptor (ar_descriptor rec) \<and> 0 \<le> ar_fingerprint rec"
  shows "map_result load_assertion rows = Inr recs"
  unfolding map_result_Inr_iff
proof (rule list_all2_mono_in [OF assms(1)])
  fix kr kv assume kv: "kv \<in> set recs" and mir: "assertion_mirror kr kv"
  then have "storable_descriptor (ar_descriptor (snd kv))" "0 \<le> ar_fingerprint (snd kv)"
    using assms(2) by (auto simp: case_prod_beta)
  then show "load_assertion kr = Inr kv"
    using mir asserted_roundtrip [of "ar_descriptor (snd kv)"] py_int_show_int
    by (auto simp: assertion_mirror_def load_assertion_def prod_eq_iff)
qed

definition bare :: "ToolVersion \<Rightarrow> ToolVersion" where
  "bare tv = tv\<lparr>tv_asserted := None, tv_input_schema := sort_keys (tv_input_schema tv)\<rparr>"

lemma load_tools_mirror:
  assumes "list_all2 tool_mirror rows tools" "\<forall>(k, tv) \<in> set tools. claim_sorted (tv_claimed tv)"
  shows "map_result load_tool rows = Inr (map (map_prod id bare) tools)"
  unfolding map_result_Inr_iff list_all2_map2
proof (rule list_all2_mono_in [OF assms(1)])
  fix kr kv assume kv: "kv \<in> set tools" and mir: "tool_mirror kr kv"
  then have "claim_sorted (tv_claimed (snd kv))" using assms(2) by (auto simp: case_prod_beta)
  then show "load_tool kr = Inr (map_prod id bare kv)"
    using mir claimed_roundtrip [of "tv_claimed (snd kv)"]
    by (auto simp: tool_mirror_def load_tool_def bare_def tool_id_def stored_def prod_eq_iff)
qed

lemma load_catalog_of_mirror:
  assumes "mirrors t cat" "storable cat" "wf_catalog cat" "healthy s" "st_tables s = t"
  shows "fst (load_catalog s) = Inr (normal_schemas cat)"
proof -
  note m = assms(1) [folded assms(5), unfolded mirrors_def]
  have wf: "wf_dict (cat_tools cat)" "wf_dict (cat_assertions cat)" using assms(3) by (auto simp: wf_catalog_def)
  have st: "\<forall>(k, tv) \<in> set (cat_tools cat). claim_sorted (tv_claimed tv)"
    "\<forall>(k, rec) \<in> set (cat_assertions cat). storable_descriptor (ar_descriptor rec) \<and> 0 \<le> ar_fingerprint rec"
    using assms(2) by (auto simp: storable_def)
  let ?bare = "map (map_prod id bare) (cat_tools cat)"
  have "fold carry_over (cat_assertions cat) ?bare = cat_tools (normal_schemas cat)"
  proof (rule dict_eqI)
    show "map fst (fold carry_over (cat_assertions cat) ?bare) = map fst (cat_tools (normal_schemas cat))"
      by (simp add: normal_schemas_def comp_def case_prod_beta)
    then show "wf_dict (fold carry_over (cat_assertions cat) ?bare)"
      using wf(1) by (simp add: wf_dict_def comp_def)
    fix tid
    have "restored (cat_assertions cat) tid (bare tv) = tv\<lparr>tv_input_schema := sort_keys (tv_input_schema tv)\<rparr>"
      if "dict_get (cat_tools cat) tid = Some tv" for tv
      using wf_catalogD(3) [OF assms(3) that]
      by (auto simp: restored_def bare_def vouched_def split: option.splits if_splits)
    then show "map_of (fold carry_over (cat_assertions cat) ?bare) tid = map_of (cat_tools (normal_schemas cat)) tid"
      unfolding fold_carry_over_get [OF wf(2)] normal_schemas_def
      by (cases "dict_get (cat_tools cat) tid") auto
  qed
  moreover have "map_result load_source (t_sources (st_tables s)) = Inr (cat_sources cat)"
    "map_result load_tool (t_tools (st_tables s)) = Inr ?bare"
    "map_result load_assertion (t_assertions (st_tables s)) = Inr (cat_assertions cat)"
    using m load_sources_mirror load_tools_mirror [OF _ st(1)] load_assertions_mirror [OF _ st(2)] by blast+
  ultimately show ?thesis
    using load_catalog_healthy [OF assms(4)] m by (simp add: normal_schemas_def)
qed

text \<open>A restart loses nothing. When the tables mirror the catalog, hydration rebuilds the same
  sources, declarations, evidence and tools, every standing assertion included (input schemas come
  back with their keys sorted, as the canonical text stores them).\<close>

theorem hydration_roundtrip:
  assumes "mirrors (st_tables s) cat" "wf_catalog cat" "storable cat" "healthy s"
  shows "fst (load_catalog s) = Inr (normal_schemas cat)"
  by (rule load_catalog_of_mirror [OF assms(1,3,2,4) refl])

definition demo_tables :: tables where
  "demo_tables = empty_tables\<lparr>
     t_sources := [(''docs'', \<lparr>sr_tier = ''known'', sr_transport = ''mcp'', sr_declared = [''search''],
       sr_command = None, sr_registered_at = []\<rparr>)],
     t_tools := [((''docs'', ''search''), \<lparr>to_version = ''1.0.0'', to_claimed = claimed_to_json demo_claim,
       to_asserted = None, to_input_schema = JDict [], to_updated_at = []\<rparr>)],
     t_assertions := [((''docs'', ''search''),
       \<lparr>as_descriptor = projr (asserted_to_json demo_descriptor),
        as_fingerprint = show_int (ar_fingerprint demo_record), as_asserted_at = []\<rparr>)]\<rparr>"

lemma demo_storable: "storable_descriptor demo_descriptor"
  by (auto simp: storable_descriptor_def demo_descriptor_def py_sorted_set_def intro: exI [of _ "[]"])

lemma demo_mirrors: "mirrors demo_tables demo_catalog" "storable demo_catalog"
proof -
  have "asserted_to_json demo_descriptor = Inr (projr (asserted_to_json demo_descriptor))"
    using asserted_roundtrip [OF demo_storable] by auto
  then show "mirrors demo_tables demo_catalog"
    by (simp add: mirrors_def demo_tables_def demo_catalog_def empty_tables_def source_mirror_def demo_source_def
        tool_mirror_def demo_tool_def tool_id_def assertion_mirror_def demo_record_def load_declared_def
        py_sorted_set_def stored_def)
  show "storable demo_catalog"
    using demo_storable
    by (simp add: storable_def demo_catalog_def demo_tool_def demo_record_def demo_claim_def claim_sorted_def fingerprint_def)
qed

theorem hydration_roundtrip_witness:
  "fst (load_catalog (fresh_store demo_tables)) = Inr (normal_schemas demo_catalog)"
  using hydration_roundtrip [of "fresh_store demo_tables", OF _ _ demo_mirrors(2)] demo_mirrors(1)
    reachable_wf [OF demo_reachable] by simp

theorem hydration_rederives_witness:
  "\<exists>cat s'. load_catalog (fresh_store demo_tables) = (Inr cat, s') \<and>
     (\<exists>arow. dict_get (t_assertions demo_tables) (''docs'', ''search'') = Some arow)"
proof -
  have "fst (load_catalog (fresh_store demo_tables)) = Inr (normal_schemas demo_catalog)"
    using load_catalog_of_mirror [OF demo_mirrors] reachable_wf [OF demo_reachable] by simp
  then obtain s' where run: "load_catalog (fresh_store demo_tables) = (Inr (normal_schemas demo_catalog), s')"
    by (metis prod.collapse)
  have wf: "wf_dict (t_assertions (st_tables (fresh_store demo_tables)))"
    by (simp add: demo_tables_def wf_dict_def)
  have "invocable (normal_schemas demo_catalog) ''docs'' ''search'' = Inr True"
    by (simp add: invocable_def catalog_get_def normal_schemas_def demo_catalog_def demo_tool_def is_asserted_def
        demo_source_def tier_invocable_def)
  from hydration_rederives [OF _ wf run this] run show ?thesis by auto
qed

end
