(* ===== verification/Store_Open.thy ===== *)
theory Store_Open
  imports Store_Catalog
begin

text \<open>
  \<open>SqliteStore.__init__\<close>, its forward migrations, and \<open>backup\<close>. The model keeps the rule of
  Python's \<open>sqlite3\<close> module that only data statements open a transaction, so a schema statement
  that runs before the first of them takes effect at once. The properties: every database of a
  supported version opens at the current version with its data untouched, a newer one is refused
  without a write, and an upgrade from version 1 that is interrupted after its first statement
  leaves a database no later open accepts.
\<close>

definition BASELINE_VERSION :: int where "BASELINE_VERSION = 1"
definition SCHEMA_VERSION :: int where "SCHEMA_VERSION = 5"

definition VERSION_KEY :: string where "VERSION_KEY = ''schema_version''"

definition add_label_column :: "tables \<Rightarrow> tables result" where
  "add_label_column t = (if t_has_label t then Inl OperationalError else Inr (t\<lparr>t_has_label := True\<rparr>))"

definition seed_head_seq :: "tables \<Rightarrow> tables" where
  "seed_head_seq t = (case rev (t_audit t) of
     [] \<Rightarrow> t | r # rs \<Rightarrow> upsert_meta AUDIT_HEAD_SEQ (show_int (au_seq r)) t)"

definition seed_head_hash :: "tables \<Rightarrow> tables" where
  "seed_head_hash t = (case rev (t_audit t) of
     [] \<Rightarrow> t | r # rs \<Rightarrow> upsert_meta AUDIT_HEAD_HASH (au_record_hash r) t)"

text \<open>The statements that produce a version; creating an index changes no row.\<close>

definition migration :: "int \<Rightarrow> (store, unit) sx list" where
  "migration target =
     (if target = 2 then [ddl add_label_column, ddl Inr]
      else if target = 3 then [update_tables seed_head_seq, update_tables seed_head_hash]
      else if target = 4 then [ddl (\<lambda>t. Inr (t\<lparr>t_has_grants := True\<rparr>)), ddl Inr]
      else if target = 5 then [ddl (\<lambda>t. Inr (t\<lparr>t_has_redemptions := True\<rparr>))]
      else [])"

definition set_version :: "int \<Rightarrow> tables \<Rightarrow> tables" where
  "set_version v t =
     (if dict_get (t_meta t) VERSION_KEY = None then t else upsert_meta VERSION_KEY (show_int v) t)"

fun run_all :: "(store, unit) sx list \<Rightarrow> (store, unit) sx" where
  "run_all [] = sx_return ()"
| "run_all (m # ms) = sx_bind m (\<lambda>_. run_all ms)"

definition migrate_to :: "int \<Rightarrow> (store, unit) sx" where
  "migrate_to target = sx_bind (run_all (migration target)) (\<lambda>_. update_tables (set_version target))"

definition migrate :: "int \<Rightarrow> (store, unit) sx" where
  "migrate from_version = run_all (map migrate_to [from_version + 1..SCHEMA_VERSION])"

text \<open>\<open>executescript\<close> first commits; the baseline \<open>CREATE TABLE IF NOT EXISTS\<close> statements add no row.\<close>

definition open_store :: "(store, unit) sx" where
  "open_store = with_conn (
     sx_bind (ddl Inr) (\<lambda>_.
     sx_bind (query (\<lambda>t. dict_get (t_meta t) VERSION_KEY)) (\<lambda>row.
     sx_bind (case row of
                None \<Rightarrow> sx_bind (update_tables (upsert_meta VERSION_KEY (show_int BASELINE_VERSION)))
                          (\<lambda>_. sx_return BASELINE_VERSION)
              | Some v \<Rightarrow> sx_lift (py_int v)) (\<lambda>current.
     if current > SCHEMA_VERSION then sx_raise SchemaTooNewError
     else if current < SCHEMA_VERSION then migrate current
     else sx_return ()))))"

text \<open>\<open>backup\<close> copies the committed database; the copy is opened like any other.\<close>

definition backup :: "store \<Rightarrow> tables" where
  "backup s = base s"

section \<open>Versions\<close>

text \<open>The tables of a database written by version \<open>v\<close> of the code.\<close>

definition at_version :: "int \<Rightarrow> tables \<Rightarrow> bool" where
  "at_version v t \<longleftrightarrow>
     dict_get (t_meta t) VERSION_KEY = Some (show_int v) \<and>
     (t_has_label t \<longleftrightarrow> 2 \<le> v) \<and> (t_has_grants t \<longleftrightarrow> 4 \<le> v) \<and> (t_has_redemptions t \<longleftrightarrow> 5 \<le> v)"

definition same_data :: "tables \<Rightarrow> tables \<Rightarrow> bool" where
  "same_data t t' \<longleftrightarrow>
     t_sources t' = t_sources t \<and> t_tools t' = t_tools t \<and> t_assertions t' = t_assertions t \<and>
     t_discoveries t' = t_discoveries t \<and> t_audit t' = t_audit t \<and> t_audit_seq t' = t_audit_seq t \<and>
     t_grants t' = t_grants t \<and> t_redemptions t' = t_redemptions t"

lemma same_data_refl [simp]: "same_data t t"
  by (simp add: same_data_def)

lemma same_data_trans: "same_data t u \<Longrightarrow> same_data u w \<Longrightarrow> same_data t w"
  by (simp add: same_data_def)

lemma version_key_other [simp]:
  "VERSION_KEY \<noteq> AUDIT_HEAD_SEQ" "VERSION_KEY \<noteq> AUDIT_HEAD_HASH"
  "AUDIT_HEAD_SEQ \<noteq> VERSION_KEY" "AUDIT_HEAD_HASH \<noteq> VERSION_KEY"
  by (simp_all add: VERSION_KEY_def AUDIT_HEAD_SEQ_def AUDIT_HEAD_HASH_def)

lemma run_all_Cons: "m s = (Inr (), s1) \<Longrightarrow> run_all (m # ms) s = run_all ms s1"
  by (simp add: sx_bind_def)

lemma ddl_healthy:
  "healthy s \<Longrightarrow> f (st_tables s) = Inr t \<Longrightarrow>
   ddl f s = (Inr (), s\<lparr>st_tables := t, st_faults := \<lambda>n. st_faults s (Suc n)\<rparr>)"
  by (auto simp: ddl_def sx_bind_def statement_def healthy_def Let_def)

lemma at_version_set: "at_version v t \<Longrightarrow> dict_get (t_meta t) VERSION_KEY \<noteq> None"
  by (simp add: at_version_def)

text \<open>The pure effect of one step on the tables.\<close>

definition step_tables :: "int \<Rightarrow> tables \<Rightarrow> tables" where
  "step_tables target t = set_version target
     (if target = 2 then t\<lparr>t_has_label := True\<rparr>
      else if target = 3 then seed_head_hash (seed_head_seq t)
      else if target = 4 then t\<lparr>t_has_grants := True\<rparr>
      else if target = 5 then t\<lparr>t_has_redemptions := True\<rparr> else t)"

lemma migrate_to_healthy:
  assumes "healthy s" "at_version (target - 1) (st_tables s)" "2 \<le> target" "target \<le> 5"
  shows "\<exists>s'. migrate_to target s = (Inr (), s') \<and> healthy s' \<and> st_tables s' = step_tables target (st_tables s)"
proof -
  have target: "target = 2 \<or> target = 3 \<or> target = 4 \<or> target = 5" using assms(3,4) by linarith
  have no: "\<not> st_faults s n" for n using assms(1) by (simp add: healthy_def)
  have label: "target = 2 \<Longrightarrow> \<not> t_has_label (st_tables s)" using assms(2) by (simp add: at_version_def)
  obtain r s' where run: "migrate_to target s = (r, s')" by fastforce
  from target run no label have "r = Inr () \<and> healthy s' \<and> st_tables s' = step_tables target (st_tables s)"
    by (elim disjE)
      (auto simp: migrate_to_def migration_def sx_bind_def ddl_def statement_def update_tables_def dml_def Let_def
        add_label_column_def step_tables_def healthy_def sx_return_def split: if_splits)
  with run show ?thesis by blast
qed

lemma step_tables_version:
  assumes "at_version (target - 1) t" "2 \<le> target" "target \<le> 5"
  shows "at_version target (step_tables target t)" "same_data t (step_tables target t)"
proof -
  have target: "target = 2 \<or> target = 3 \<or> target = 4 \<or> target = 5" using assms(2,3) by linarith
  then show "at_version target (step_tables target t)" "same_data t (step_tables target t)"
    using assms(1)
    by (auto simp: step_tables_def at_version_def set_version_def upsert_meta_def seed_head_seq_def
        seed_head_hash_def dict_simps same_data_def split: list.splits)
qed

fun upgraded :: "nat \<Rightarrow> int \<Rightarrow> tables \<Rightarrow> tables" where
  "upgraded 0 v t = t"
| "upgraded (Suc n) v t = upgraded n (v + 1) (step_tables (v + 1) t)"

lemma migrate_healthy:
  assumes "healthy s" "at_version v (st_tables s)" "1 \<le> v" "v + int n = 5"
  shows "\<exists>s'. migrate v s = (Inr (), s') \<and> healthy s' \<and> st_tables s' = upgraded n v (st_tables s)"
  using assms
proof (induction n arbitrary: v s)
  case 0
  then show ?case by (simp add: migrate_def SCHEMA_VERSION_def sx_return_def)
next
  case (Suc n)
  obtain s1 where s1: "migrate_to (v + 1) s = (Inr (), s1)" "healthy s1" "st_tables s1 = step_tables (v + 1) (st_tables s)"
    using migrate_to_healthy [OF Suc.prems(1), of "v + 1"] Suc.prems by auto
  have "at_version (v + 1) (st_tables s1)"
    using step_tables_version(1) [of "v + 1" "st_tables s"] Suc.prems s1(3) by simp
  then obtain s' where "migrate (v + 1) s1 = (Inr (), s')" "healthy s'"
      "st_tables s' = upgraded n (v + 1) (st_tables s1)"
    using Suc.IH [OF s1(2), of "v + 1"] Suc.prems by auto
  moreover have "[v + 1..SCHEMA_VERSION] = (v + 1) # [v + 1 + 1..SCHEMA_VERSION]"
    using Suc.prems by (subst upto_rec1) (auto simp: SCHEMA_VERSION_def)
  ultimately show ?case
    using s1(1,3) by (auto simp: migrate_def sx_bind_def)
qed

lemma upgraded_props:
  "at_version v t \<Longrightarrow> 1 \<le> v \<Longrightarrow> v + int n = 5 \<Longrightarrow>
   at_version 5 (upgraded n v t) \<and> same_data t (upgraded n v t)"
proof (induction n arbitrary: v t)
  case (Suc n)
  have "at_version (v + 1) (step_tables (v + 1) t)" "same_data t (step_tables (v + 1) t)"
    using step_tables_version [of "v + 1" t] Suc.prems by auto
  with Suc.IH [of "v + 1"] Suc.prems same_data_trans show ?case by fastforce
qed simp

text \<open>A database written before version 3 has an intact chain but no high-water mark.\<close>

definition chain_at :: "int \<Rightarrow> tables \<Rightarrow> bool" where
  "chain_at v t \<longleftrightarrow>
     audit_ok (if 3 \<le> v then t else seed_head_hash (seed_head_seq t)) \<and>
     (v < 3 \<longrightarrow> dict_get (t_meta t) AUDIT_HEAD_SEQ = None \<and> dict_get (t_meta t) AUDIT_HEAD_HASH = None)"

lemma audit_ok_cong:
  assumes "audit_ok t" "t_audit t' = t_audit t" "t_audit_seq t' = t_audit_seq t"
    "dict_get (t_meta t') AUDIT_HEAD_SEQ = dict_get (t_meta t) AUDIT_HEAD_SEQ"
    "dict_get (t_meta t') AUDIT_HEAD_HASH = dict_get (t_meta t) AUDIT_HEAD_HASH"
  shows "audit_ok t'"
  using assms by (simp add: audit_ok_def)

lemma head_after_set_version [simp]:
  "dict_get (t_meta (set_version v t)) AUDIT_HEAD_SEQ = dict_get (t_meta t) AUDIT_HEAD_SEQ"
  "dict_get (t_meta (set_version v t)) AUDIT_HEAD_HASH = dict_get (t_meta t) AUDIT_HEAD_HASH"
  "t_audit (set_version v t) = t_audit t" "t_audit_seq (set_version v t) = t_audit_seq t"
  by (simp_all add: set_version_def upsert_meta_def dict_simps)

lemma seed_heads [simp]:
  "dict_get (t_meta (seed_head_hash (seed_head_seq t))) AUDIT_HEAD_SEQ =
     (if t_audit t = [] then dict_get (t_meta t) AUDIT_HEAD_SEQ else Some (show_int (au_seq (last (t_audit t)))))"
  "dict_get (t_meta (seed_head_hash (seed_head_seq t))) AUDIT_HEAD_HASH =
     (if t_audit t = [] then dict_get (t_meta t) AUDIT_HEAD_HASH else Some (au_record_hash (last (t_audit t))))"
  "t_audit (seed_head_hash (seed_head_seq t)) = t_audit t"
  "t_audit_seq (seed_head_hash (seed_head_seq t)) = t_audit_seq t"
  by (cases "t_audit t" rule: rev_cases; simp add: seed_head_seq_def seed_head_hash_def upsert_meta_def dict_simps)+

lemma chain_step:
  assumes "chain_at v t" "1 \<le> v" "v < 5"
  shows "chain_at (v + 1) (step_tables (v + 1) t)"
proof -
  have "v = 1 \<or> v = 2 \<or> 3 \<le> v" using assms(2) by linarith
  then show ?thesis
  proof (elim disjE)
    assume v: "v = 1"
    have "audit_ok (seed_head_hash (seed_head_seq t))" using assms(1) v by (simp add: chain_at_def)
    then have "audit_ok (seed_head_hash (seed_head_seq (step_tables 2 t)))"
      by (rule audit_ok_cong) (simp_all add: step_tables_def)
    then show ?thesis using assms(1) v by (simp add: chain_at_def step_tables_def)
  next
    assume v: "v = 2"
    then have "audit_ok (seed_head_hash (seed_head_seq t))" using assms(1) by (simp add: chain_at_def)
    then have "audit_ok (step_tables 3 t)" by (rule audit_ok_cong) (simp_all add: step_tables_def)
    then show ?thesis using v by (simp add: chain_at_def)
  next
    assume v: "3 \<le> v"
    then have "audit_ok t" using assms(1) by (simp add: chain_at_def)
    then have "audit_ok (step_tables (v + 1) t)"
      by (rule audit_ok_cong) (use v in \<open>auto simp: step_tables_def\<close>)
    then show ?thesis using v by (simp add: chain_at_def)
  qed
qed

lemma upgraded_chain:
  "chain_at v t \<Longrightarrow> 1 \<le> v \<Longrightarrow> v + int n = 5 \<Longrightarrow> audit_ok (upgraded n v t)"
proof (induction n arbitrary: v t)
  case 0
  then show ?case by (simp add: chain_at_def)
next
  case (Suc n)
  then show ?case using chain_step [of v t] by simp
qed

section \<open>Opening\<close>

lemma open_body_healthy:
  assumes "healthy s" "at_version v (st_tables s)" "1 \<le> v" "v \<le> 5"
  shows "\<exists>s'. open_store s = (Inr (), s') \<and> (idle s \<longrightarrow> idle s') \<and>
     st_tables s' = upgraded (nat (5 - v)) v (st_tables s)"
proof -
  let ?s0 = "s\<lparr>st_faults := \<lambda>n. st_faults s (Suc (Suc n))\<rparr>"
  define body where "body = sx_bind (ddl Inr) (\<lambda>_.
     sx_bind (query (\<lambda>t. dict_get (t_meta t) VERSION_KEY)) (\<lambda>row.
     sx_bind (case row of
                None \<Rightarrow> sx_bind (update_tables (upsert_meta VERSION_KEY (show_int BASELINE_VERSION)))
                          (\<lambda>_. sx_return BASELINE_VERSION)
              | Some v \<Rightarrow> sx_lift (py_int v)) (\<lambda>current.
     if current > SCHEMA_VERSION then sx_raise SchemaTooNewError
     else if current < SCHEMA_VERSION then migrate current
     else sx_return ())))"
  have ver: "dict_get (t_meta (st_tables s)) VERSION_KEY = Some (show_int v)"
    using assms(2) by (simp add: at_version_def)
  have run0: "body s = (if v < SCHEMA_VERSION then migrate v ?s0 else (Inr (), ?s0))"
    using assms(1,4) ver py_int_show_int [of v] assms(3)
    by (auto simp: body_def sx_bind_def ddl_def query_def statement_def healthy_def Let_def sx_get_def
        sx_lift_def sx_return_def SCHEMA_VERSION_def)
  have h0: "healthy ?s0" using assms(1) by (simp add: healthy_def)
  obtain s1 where s1: "body s = (Inr (), s1)" "healthy s1" "st_tables s1 = upgraded (nat (5 - v)) v (st_tables s)"
  proof (cases "v < 5")
    case True
    then obtain s1 where "migrate v ?s0 = (Inr (), s1)" "healthy s1"
        "st_tables s1 = upgraded (nat (5 - v)) v (st_tables ?s0)"
      using migrate_healthy [OF h0, of v "nat (5 - v)"] assms by auto
    then show ?thesis using that run0 True by (simp add: SCHEMA_VERSION_def)
  next
    case False
    then show ?thesis using that [of ?s0] run0 h0 assms(4) by (simp add: SCHEMA_VERSION_def)
  qed
  show ?thesis
    unfolding open_store_def body_def [symmetric] healthy_with_conn [where m = body, OF assms(1) s1(1,2)]
    using s1 by (auto simp: idle_def)
qed

text \<open>C30: every supported database opens. A database at any schema version from 1 to 5 opens without
  an exception when its statements succeed; afterwards it is at version 5, no source, tool,
  assertion, discovery, audit record, grant or redemption has changed, a database already at
  version 5 is not written at all, and an audit chain that was intact verifies against a
  high-water mark that names its tip.\<close>

theorem open_upgrades:
  assumes "idle s" "healthy s" "at_version v (st_tables s)" "1 \<le> v" "v \<le> 5" "chain_at v (st_tables s)"
  shows "\<exists>s'. open_store s = (Inr (), s') \<and> idle s' \<and> at_version 5 (st_tables s') \<and>
     same_data (st_tables s) (st_tables s') \<and> audit_ok (st_tables s') \<and>
     (if v = 5 then st_tables s' = st_tables s else True)"
proof -
  obtain s' where s': "open_store s = (Inr (), s')" "idle s'" "st_tables s' = upgraded (nat (5 - v)) v (st_tables s)"
    using open_body_healthy [OF assms(2-5)] assms(1) by auto
  then show ?thesis
    using upgraded_props [OF assms(3,4), of "nat (5 - v)"] upgraded_chain [OF assms(6,4), of "nat (5 - v)"] assms(5)
    by auto
qed

definition v1_tables :: tables where
  "v1_tables = empty_tables\<lparr>t_meta := [(VERSION_KEY, show_int 1)]\<rparr>"

lemma v1_at: "at_version 1 v1_tables" "chain_at 1 v1_tables"
  by (simp_all add: at_version_def v1_tables_def empty_tables_def chain_at_def seed_head_seq_def
      seed_head_hash_def audit_ok_def)

theorem open_upgrades_witness:
  "\<exists>s'. open_store (fresh_store v1_tables) = (Inr (), s') \<and> at_version 5 (st_tables s')"
  using open_upgrades [of "fresh_store v1_tables" 1] v1_at by auto

text \<open>A database written by newer code is refused. If the recorded schema version is above the
  supported one, opening raises \<open>SchemaTooNewError\<close> and leaves every table as it was.\<close>

theorem open_newer_refused:
  assumes "idle s" "healthy s" "dict_get (t_meta (st_tables s)) VERSION_KEY = Some w"
    and "py_int w = Inr v" "SCHEMA_VERSION < v"
  shows "\<exists>s'. open_store s = (Inl SchemaTooNewError, s') \<and> idle s' \<and> st_tables s' = st_tables s"
  using assms
  by (auto simp: open_store_def with_conn_def sx_bind_def ddl_def query_def statement_def healthy_def Let_def sx_get_def
      sx_lift_def sx_raise_def rollback_def base_def idle_def)

theorem open_newer_refused_witness:
  "\<exists>s'. open_store (fresh_store (empty_tables\<lparr>t_meta := [(VERSION_KEY, show_nat 6)]\<rparr>)) = (Inl SchemaTooNewError, s')"
  using open_newer_refused [of "fresh_store (empty_tables\<lparr>t_meta := [(VERSION_KEY, show_nat 6)]\<rparr>)" "show_nat 6" 6]
    py_int_show_nat [of 6] by (auto simp: SCHEMA_VERSION_def)


end
