(* ===== verification/Store_Grants.thy ===== *)
theory Store_Grants
  imports Store_Open
begin

text \<open>
  The grants of \<open>store.py\<close>: argument-bound one-use grants with their timestamp latches, and
  the redemption table of governance grants. Every mutation commits together with its audit
  record. The properties: the exact condition under which a redemption succeeds, that a raising
  operation changes nothing, and that no sequence of operations, whichever of their statements
  fail, redeems a grant twice.
\<close>

section \<open>Operations\<close>

definition grant_status :: "instant \<Rightarrow> string option \<Rightarrow> string option \<Rightarrow> (store, string) sx" where
  "grant_status expires_at redeemed_at closed_at =
     (if closed_at \<noteq> None then sx_return ''closed''
      else if redeemed_at \<noteq> None then sx_return ''redeemed''
      else sx_bind now (\<lambda>t. sx_return (if expires_at \<le> t then ''expired'' else ''issued'')))"

definition insert_grant :: "string \<Rightarrow> grant_row \<Rightarrow> tables \<Rightarrow> unit result \<times> tables" where
  "insert_grant grant_id row t =
     (if dict_get (t_grants t) grant_id \<noteq> None then (Inl IntegrityError, t)
      else (Inr (), t\<lparr>t_grants := dict_set grant_id row (t_grants t)\<rparr>))"

definition issue_body ::
  "string \<Rightarrow> string \<Rightarrow> string \<Rightarrow> string \<Rightarrow> string \<Rightarrow> string \<Rightarrow> instant \<Rightarrow> instant \<Rightarrow> json \<Rightarrow> (string \<times> json) list" where
  "issue_body grant_id decision_id principal_id source_id name ahash issued_at expires_at ttl =
     [(''grant_id'', JStr grant_id), (''decision_id'', JStr decision_id), (''principal_id'', JStr principal_id),
      (''source_id'', JStr source_id), (''name'', JStr name), (''args_hash'', JStr ahash),
      (''issued_at'', JStr (isoformat issued_at)), (''expires_at'', JStr (isoformat expires_at)),
      (''ttl_seconds'', ttl)]"

definition issue_grant ::
  "string \<Rightarrow> string \<Rightarrow> string \<Rightarrow> string \<Rightarrow> string \<Rightarrow> string \<Rightarrow> instant \<Rightarrow> instant \<Rightarrow> json \<Rightarrow> (store, int) sx" where
  "issue_grant grant_id decision_id principal_id source_id name ahash issued_at expires_at ttl =
     with_conn (
       sx_bind (dml (insert_grant grant_id
          \<lparr>gr_decision_id = decision_id, gr_principal_id = principal_id, gr_source_id = source_id,
           gr_name = name, gr_args_hash = ahash, gr_issued_at = issued_at, gr_expires_at = expires_at,
           gr_redeemed_at = None, gr_closed_at = None\<rparr>)) (\<lambda>_.
       append_audit_in_txn ''grant_issue''
         (issue_body grant_id decision_id principal_id source_id name ahash issued_at expires_at ttl)))"

record GrantView =
  gv_grant_id :: string
  gv_row :: grant_row
  gv_status :: string

definition grant_row_to_dict :: "string \<times> grant_row \<Rightarrow> (store, GrantView) sx" where
  "grant_row_to_dict kr =
     sx_bind (grant_status (gr_expires_at (snd kr)) (gr_redeemed_at (snd kr)) (gr_closed_at (snd kr))) (\<lambda>status.
     sx_return \<lparr>gv_grant_id = fst kr, gv_row = snd kr, gv_status = status\<rparr>)"

definition get_grant :: "string \<Rightarrow> (store, GrantView option) sx" where
  "get_grant grant_id =
     sx_bind (query (\<lambda>t. dict_get (t_grants t) grant_id)) (\<lambda>row.
     case row of
       None \<Rightarrow> sx_return None
     | Some r \<Rightarrow> sx_bind (grant_row_to_dict (grant_id, r)) (\<lambda>v. sx_return (Some v)))"

record RedeemResult =
  rr_redeemed :: bool
  rr_reason :: string
  rr_decision_id :: "string option"
  rr_source_id :: "string option"
  rr_name :: "string option"

definition deny :: "string \<Rightarrow> grant_row option \<Rightarrow> RedeemResult" where
  "deny reason g = \<lparr>rr_redeemed = False, rr_reason = reason, rr_decision_id = map_option gr_decision_id g,
     rr_source_id = map_option gr_source_id g, rr_name = map_option gr_name g\<rparr>"

text \<open>\<open>_deny\<close>: \<open>ROLLBACK\<close>, then the result.\<close>

definition deny_rollback :: "string \<Rightarrow> grant_row option \<Rightarrow> (store, RedeemResult) sx" where
  "deny_rollback reason g s = (Inr (deny reason g), rollback s)"

text \<open>The two guarded updates; the second returns the row count.\<close>

definition close_open_grant :: "string \<Rightarrow> string \<Rightarrow> tables \<Rightarrow> tables" where
  "close_open_grant grant_id at t =
     (case dict_get (t_grants t) grant_id of
        Some g \<Rightarrow> if gr_closed_at g = None
                  then t\<lparr>t_grants := dict_set grant_id (g\<lparr>gr_closed_at := Some at\<rparr>) (t_grants t)\<rparr> else t
      | None \<Rightarrow> t)"

definition redeem_open_grant :: "string \<Rightarrow> string \<Rightarrow> tables \<Rightarrow> nat result \<times> tables" where
  "redeem_open_grant grant_id at t =
     (case dict_get (t_grants t) grant_id of
        Some g \<Rightarrow> if gr_redeemed_at g = None \<and> gr_closed_at g = None
                  then (Inr 1, t\<lparr>t_grants := dict_set grant_id (g\<lparr>gr_redeemed_at := Some at\<rparr>) (t_grants t)\<rparr>)
                  else (Inr 0, t)
      | None \<Rightarrow> (Inr 0, t))"

definition close_body :: "string \<Rightarrow> string \<Rightarrow> string \<Rightarrow> bool \<Rightarrow> (string \<times> json) list" where
  "close_body grant_id decision_id reason already =
     [(''grant_id'', JStr grant_id), (''decision_id'', JStr decision_id), (''reason'', JStr reason),
      (''already_closed'', JBool already)]"

definition redeem_body :: "string \<Rightarrow> string \<Rightarrow> grant_row \<Rightarrow> (string \<times> json) list" where
  "redeem_body grant_id principal_id g =
     [(''grant_id'', JStr grant_id), (''decision_id'', JStr (gr_decision_id g)),
      (''principal_id'', JStr principal_id), (''source_id'', JStr (gr_source_id g)), (''name'', JStr (gr_name g))]"

text \<open>Closing a grant whose tool stopped being invocable, and consuming a grant.\<close>

definition kill_grant :: "string \<Rightarrow> grant_row \<Rightarrow> (store, RedeemResult) sx" where
  "kill_grant grant_id g =
     sx_bind now_text (\<lambda>closed.
     sx_bind (update_tables (close_open_grant grant_id closed)) (\<lambda>_.
     sx_bind (append_audit_in_txn ''grant_close'' (close_body grant_id (gr_decision_id g) ''not_invocable'' False)) (\<lambda>_.
     sx_bind commit (\<lambda>_. sx_return (deny ''not_invocable'' (Some g))))))"

definition consume_grant :: "string \<Rightarrow> string \<Rightarrow> grant_row \<Rightarrow> (store, RedeemResult) sx" where
  "consume_grant grant_id principal_id g =
     sx_bind now_text (\<lambda>redeemed.
     sx_bind (dml (redeem_open_grant grant_id redeemed)) (\<lambda>rowcount.
     if rowcount \<noteq> 1 then deny_rollback ''already_redeemed'' (Some g)
     else
       sx_bind (append_audit_in_txn ''grant_redeem'' (redeem_body grant_id principal_id g)) (\<lambda>_.
       sx_bind commit (\<lambda>_. sx_return
         \<lparr>rr_redeemed = True, rr_reason = ''ok'', rr_decision_id = Some (gr_decision_id g),
          rr_source_id = Some (gr_source_id g), rr_name = Some (gr_name g)\<rparr>))))"

definition redeem_found ::
  "string \<Rightarrow> string \<Rightarrow> string \<Rightarrow> (string \<Rightarrow> string \<Rightarrow> bool result) option \<Rightarrow> instant \<Rightarrow> grant_row
     \<Rightarrow> (store, RedeemResult) sx" where
  "redeem_found grant_id ahash principal_id invocable_check t_now g =
     (if gr_redeemed_at g \<noteq> None then deny_rollback ''already_redeemed'' (Some g)
      else if gr_closed_at g \<noteq> None then deny_rollback ''closed'' (Some g)
      else if gr_expires_at g \<le> t_now then deny_rollback ''expired'' (Some g)
      else if principal_id \<noteq> gr_principal_id g then deny_rollback ''principal_mismatch'' (Some g)
      else if ahash \<noteq> gr_args_hash g then deny_rollback ''args_mismatch'' (Some g)
      else sx_bind (case invocable_check of None \<Rightarrow> sx_return True
                    | Some f \<Rightarrow> sx_lift (f (gr_source_id g) (gr_name g))) (\<lambda>ok.
        if \<not> ok then kill_grant grant_id g else consume_grant grant_id principal_id g))"

definition redeem_grant ::
  "string \<Rightarrow> string \<Rightarrow> string \<Rightarrow> (string \<Rightarrow> string \<Rightarrow> bool result) option \<Rightarrow> (store, RedeemResult) sx" where
  "redeem_grant grant_id ahash principal_id invocable_check =
     manual_txn (
       sx_bind now (\<lambda>t_now.
       sx_bind (query (\<lambda>t. dict_get (t_grants t) grant_id)) (\<lambda>row.
       case row of
         None \<Rightarrow> deny_rollback ''not_found'' None
       | Some g \<Rightarrow> redeem_found grant_id ahash principal_id invocable_check t_now g)))"

definition insert_redemption :: "string \<Rightarrow> redemption_row \<Rightarrow> tables \<Rightarrow> unit result \<times> tables" where
  "insert_redemption grant_id row t =
     (if dict_get (t_redemptions t) grant_id \<noteq> None then (Inl IntegrityError, t)
      else (Inr (), t\<lparr>t_redemptions := dict_set grant_id row (t_redemptions t)\<rparr>))"

text \<open>The result: redeemed, reason, redeemed_at.\<close>

definition record_govgrant_redemption ::
  "string \<Rightarrow> (string \<Rightarrow> redemption_row) \<Rightarrow> (string \<times> json) list \<Rightarrow> (store, bool \<times> string \<times> string option) sx" where
  "record_govgrant_redemption grant_id row_at audit_body =
     manual_txn (
       sx_bind now_text (\<lambda>redeemed_at.
       sx_bind (sx_catch (sx_bind (dml (insert_redemption grant_id (row_at redeemed_at))) (\<lambda>_. sx_return True))
                  (\<lambda>e. if e = IntegrityError then sx_return False else sx_raise e)) (\<lambda>inserted.
       if \<not> inserted then (\<lambda>s. (Inr (False, ''already_redeemed'', None), rollback s))
       else
         sx_bind (append_audit_in_txn ''provider_enforcement'' (dict_set ''redeemed_at'' (JStr redeemed_at) audit_body)) (\<lambda>_.
         sx_bind commit (\<lambda>_. sx_return (True, ''ok'', Some redeemed_at))))))"

definition get_govgrant_redemption :: "string \<Rightarrow> (store, (string \<times> redemption_row) option) sx" where
  "get_govgrant_redemption grant_id =
     query (\<lambda>t. map_option (Pair grant_id) (dict_get (t_redemptions t) grant_id))"

text \<open>The result: decision_id, already_closed.\<close>

definition close_grant :: "string \<Rightarrow> string \<Rightarrow> (store, (string \<times> bool) option) sx" where
  "close_grant grant_id reason = with_conn (
     sx_bind (query (\<lambda>t. dict_get (t_grants t) grant_id)) (\<lambda>row.
     case row of
       None \<Rightarrow> sx_return None
     | Some g \<Rightarrow>
         let already = (gr_closed_at g \<noteq> None)
         in sx_bind (if \<not> already
                     then sx_bind now_text (\<lambda>closed. update_tables (close_open_grant grant_id closed))
                     else sx_return ()) (\<lambda>_.
            sx_bind (append_audit_in_txn ''grant_close'' (close_body grant_id (gr_decision_id g) reason already)) (\<lambda>_.
            sx_return (Some (gr_decision_id g, already))))))"

text \<open>The loop of \<open>list_grants\<close>: it tests the limit after each row.\<close>

fun collect_grants :: "string option \<Rightarrow> int \<Rightarrow> GrantView list \<Rightarrow> (string \<times> grant_row) list \<Rightarrow> (store, GrantView list) sx" where
  "collect_grants state limit out [] = sx_return out"
| "collect_grants state limit out (kr # krs) =
     sx_bind (grant_row_to_dict kr) (\<lambda>d.
       let out' = (if state = None \<or> state = Some (gv_status d) then out @ [d] else out)
       in if int (length out') \<ge> limit then sx_return out' else collect_grants state limit out' krs)"

definition list_grants :: "string option \<Rightarrow> int \<Rightarrow> (store, GrantView list) sx" where
  "list_grants state limit =
     sx_bind (query (\<lambda>t. sort_key (\<lambda>kr. - gr_issued_at (snd kr)) (t_grants t)))
       (collect_grants state limit [])"

section \<open>Transactions that end themselves\<close>

text \<open>
  The body of a manual transaction is well-behaved when it returns with the transaction closed, its
  tables committed or rolled back, and raises with the base tables untouched.
\<close>

definition settles :: "(store, 'a) sx \<Rightarrow> bool" where
  "settles m \<longleftrightarrow> (\<forall>s r s'. m s = (r, s') \<longrightarrow>
     (case r of Inl e \<Rightarrow> base s' = base s | Inr v \<Rightarrow> st_begun s' = None))"

lemma settles_bind:
  assumes "within same_base m" "\<And>a. settles (f a)"
  shows "settles (sx_bind m f)"
  unfolding settles_def
proof (intro allI impI)
  fix s r s' assume run: "sx_bind m f s = (r, s')"
  obtain q t where m: "m s = (q, t)" by fastforce
  have b: "base t = base s" by (rule withinD [OF assms(1) m])
  show "case r of Inl e \<Rightarrow> base s' = base s | Inr v \<Rightarrow> st_begun s' = None"
  proof (cases q)
    case (Inl e)
    then show ?thesis using run m b by (auto simp: sx_bind_def)
  next
    case (Inr a)
    then have "f a t = (r, s')" using run m by (simp add: sx_bind_def)
    then show ?thesis using assms(2) b unfolding settles_def by (metis (mono_tags, lifting) sum.case_eq_if)
  qed
qed

lemma settles_commit: "settles (sx_bind commit (\<lambda>_. sx_return v))"
  unfolding settles_def sx_bind_def sx_return_def
  by (auto split: prod.splits sum.splits dest: commit_cases)

lemma settles_deny: "settles (deny_rollback reason g)" "settles (\<lambda>s. (Inr v, rollback s))"
  by (auto simp: settles_def deny_rollback_def)

lemma manual_txn_atomic:
  assumes "settles m" "idle s" "manual_txn m s = (r, s')"
  shows "idle s' \<and>
    (case r of
       Inl e \<Rightarrow> st_tables s' = st_tables s
     | Inr v \<Rightarrow> \<exists>s1. st_tables s1 = st_tables s \<and> st_begun s1 = Some (st_tables s) \<and> st_clock s1 = st_clock s \<and>
                   m s1 = (Inr v, s'))"
proof -
  obtain q s0 where b: "begin_immediate s = (q, s0)" by fastforce
  show ?thesis
  proof (cases q)
    case (Inl e)
    then show ?thesis using assms(2,3) b
      by (auto simp: manual_txn_def sx_bind_def begin_immediate_def idle_def statement_def Let_def split: if_splits)
  next
    case (Inr u)
    have s0: "st_tables s0 = st_tables s" "st_begun s0 = Some (st_tables s)" "st_clock s0 = st_clock s"
      using b Inr by (auto simp: begin_immediate_def sx_bind_def statement_def Let_def split: if_splits)
    obtain p s1 where m: "m s0 = (p, s1)" by fastforce
    have st: "case p of Inl e \<Rightarrow> base s1 = base s0 | Inr v \<Rightarrow> st_begun s1 = None"
      using assms(1) m unfolding settles_def by blast
    show ?thesis
    proof (cases p)
      case (Inl e)
      then show ?thesis using assms(3) b Inr m st s0
        by (auto simp: manual_txn_def sx_bind_def idle_def base_def)
    next
      case (Inr v)
      then show ?thesis using assms(3) b \<open>q = Inr u\<close> m st s0
        by (auto simp: manual_txn_def sx_bind_def idle_def)
    qed
  qed
qed

section \<open>Redemption\<close>

text \<open>What a redemption must answer, read off the tables and the clock.\<close>

definition redeem_verdict ::
  "tables \<Rightarrow> instant \<Rightarrow> string \<Rightarrow> string \<Rightarrow> string \<Rightarrow> (string \<Rightarrow> string \<Rightarrow> bool result) option \<Rightarrow> RedeemResult result" where
  "redeem_verdict t n gid ahash pid chk =
     (case dict_get (t_grants t) gid of
        None \<Rightarrow> Inr (deny ''not_found'' None)
      | Some g \<Rightarrow>
          if gr_redeemed_at g \<noteq> None then Inr (deny ''already_redeemed'' (Some g))
          else if gr_closed_at g \<noteq> None then Inr (deny ''closed'' (Some g))
          else if gr_expires_at g \<le> n then Inr (deny ''expired'' (Some g))
          else if pid \<noteq> gr_principal_id g then Inr (deny ''principal_mismatch'' (Some g))
          else if ahash \<noteq> gr_args_hash g then Inr (deny ''args_mismatch'' (Some g))
          else bind_result (case chk of None \<Rightarrow> Inr True | Some f \<Rightarrow> f (gr_source_id g) (gr_name g)) (\<lambda>ok.
            if ok then Inr \<lparr>rr_redeemed = True, rr_reason = ''ok'', rr_decision_id = Some (gr_decision_id g),
                            rr_source_id = Some (gr_source_id g), rr_name = Some (gr_name g)\<rparr>
            else Inr (deny ''not_invocable'' (Some g))))"

text \<open>And what it must leave in the tables.\<close>

definition redeem_effect :: "string \<Rightarrow> string \<Rightarrow> RedeemResult \<Rightarrow> tables \<Rightarrow> tables \<Rightarrow> bool" where
  "redeem_effect gid pid res t t' \<longleftrightarrow>
     (if rr_redeemed res then
        \<exists>g at c. dict_get (t_grants t) gid = Some g \<and>
          t' = appended ''grant_redeem'' (redeem_body gid pid g) (isoformat c)
                 (t\<lparr>t_grants := dict_set gid (g\<lparr>gr_redeemed_at := Some at\<rparr>) (t_grants t)\<rparr>)
      else if rr_reason res = ''not_invocable'' then
        \<exists>g at c. dict_get (t_grants t) gid = Some g \<and>
          t' = appended ''grant_close'' (close_body gid (gr_decision_id g) ''not_invocable'' False) (isoformat c)
                 (t\<lparr>t_grants := dict_set gid (g\<lparr>gr_closed_at := Some at\<rparr>) (t_grants t)\<rparr>)
      else t' = t)"

lemma settles_tails: "settles (kill_grant gid g)" "settles (consume_grant gid pid g)"
  unfolding kill_grant_def consume_grant_def
  by (auto intro!: settles_deny settles_bind settles_commit txn_rules within_append_in_txn)

lemma settles_redeem_found: "settles (redeem_found gid ahash pid chk n g)"
  unfolding redeem_found_def
  by (auto intro!: settles_deny settles_bind settles_tails txn_rules split: option.split)

lemma settles_redeem:
  "settles (sx_bind now (\<lambda>n. sx_bind (query (\<lambda>t. dict_get (t_grants t) gid)) (\<lambda>row.
     case row of None \<Rightarrow> deny_rollback ''not_found'' None | Some g \<Rightarrow> redeem_found gid ahash pid chk n g)))"
  by (intro settles_bind txn_rules) (auto intro: settles_deny settles_redeem_found split: option.split)

lemma commit_tables: "commit u = (Inr x, u') \<Longrightarrow> st_tables u' = st_tables u"
  using commit_cases by fastforce

lemma kill_grant_Inr:
  assumes "kill_grant gid g s = (Inr res, s')"
    and "dict_get (t_grants (st_tables s)) gid = Some g" "gr_closed_at g = None"
  shows "res = deny ''not_invocable'' (Some g) \<and> redeem_effect gid pid res (st_tables s) (st_tables s')"
proof -
  define u where "u = s\<lparr>st_clock := \<lambda>n. st_clock s (Suc n),
      st_tables := (st_tables s)\<lparr>t_grants := dict_set gid (g\<lparr>gr_closed_at := Some (isoformat (st_clock s 0))\<rparr>) (t_grants (st_tables s))\<rparr>,
      st_begun := Some (base s), st_faults := \<lambda>n. st_faults s (Suc n)\<rparr>"
  obtain seq u' where u:
      "append_audit_in_txn ''grant_close'' (close_body gid (gr_decision_id g) ''not_invocable'' False) u = (Inr seq, u')"
      "commit u' = (Inr (), s')" "res = deny ''not_invocable'' (Some g)"
    using assms by (auto simp: kill_grant_def sx_simps close_open_grant_def u_def)
  then show ?thesis
    using append_in_txn_Inr(1) [OF u(1)] commit_tables [OF u(2)] assms(2)
    by (auto simp: redeem_effect_def deny_def u_def)
qed

lemma consume_grant_Inr:
  assumes "consume_grant gid pid g s = (Inr res, s')"
    and "dict_get (t_grants (st_tables s)) gid = Some g" "gr_redeemed_at g = None" "gr_closed_at g = None"
  shows "res = \<lparr>rr_redeemed = True, rr_reason = ''ok'', rr_decision_id = Some (gr_decision_id g),
            rr_source_id = Some (gr_source_id g), rr_name = Some (gr_name g)\<rparr> \<and>
         redeem_effect gid pid res (st_tables s) (st_tables s')"
proof -
  define u where "u = s\<lparr>st_clock := \<lambda>n. st_clock s (Suc n),
      st_tables := (st_tables s)\<lparr>t_grants := dict_set gid (g\<lparr>gr_redeemed_at := Some (isoformat (st_clock s 0))\<rparr>) (t_grants (st_tables s))\<rparr>,
      st_begun := Some (base s), st_faults := \<lambda>n. st_faults s (Suc n)\<rparr>"
  obtain seq u' where u:
      "append_audit_in_txn ''grant_redeem'' (redeem_body gid pid g) u = (Inr seq, u')"
      "commit u' = (Inr (), s')" "res = \<lparr>rr_redeemed = True, rr_reason = ''ok'', rr_decision_id = Some (gr_decision_id g),
            rr_source_id = Some (gr_source_id g), rr_name = Some (gr_name g)\<rparr>"
    using assms by (auto simp: consume_grant_def sx_simps redeem_open_grant_def u_def)
  then show ?thesis
    using append_in_txn_Inr(1) [OF u(1)] commit_tables [OF u(2)] assms(2)
    by (auto simp: redeem_effect_def u_def)
qed

lemma redeem_found_Inr:
  assumes "redeem_found gid ahash pid chk n g s = (Inr res, s')"
    and "dict_get (t_grants (st_tables s)) gid = Some g" "st_begun s = Some (st_tables s)"
  shows "redeem_verdict (st_tables s) n gid ahash pid chk = Inr res \<and>
     redeem_effect gid pid res (st_tables s) (st_tables s')"
proof (cases "gr_redeemed_at g \<noteq> None \<or> gr_closed_at g \<noteq> None \<or> gr_expires_at g \<le> n \<or>
      pid \<noteq> gr_principal_id g \<or> ahash \<noteq> gr_args_hash g")
  case True
  then show ?thesis
    using assms
    by (auto simp: redeem_found_def redeem_verdict_def redeem_effect_def deny_rollback_def deny_def base_def
        rollback_def split: if_splits)
next
  case False
  then have none: "gr_redeemed_at g = None" "gr_closed_at g = None" by auto
  let ?chk = "case chk of None \<Rightarrow> Inr True | Some f \<Rightarrow> f (gr_source_id g) (gr_name g)"
  obtain ok where ok: "?chk = Inr ok"
      "(if \<not> ok then kill_grant gid g else consume_grant gid pid g) s = (Inr res, s')"
    using False assms(1) by (cases chk) (auto simp: redeem_found_def sx_simps)
  show ?thesis
    using False assms(2) ok kill_grant_Inr [of gid g s res s' pid] consume_grant_Inr [of gid pid g s res s'] none
    by (cases ok) (auto simp: redeem_verdict_def)
qed

lemma redeem_grant_spec:
  assumes "idle s" "redeem_grant gid ahash pid chk s = (r, s')"
  shows "idle s' \<and>
    (case r of
       Inl e \<Rightarrow> st_tables s' = st_tables s
     | Inr res \<Rightarrow> redeem_verdict (st_tables s) (st_clock s 0) gid ahash pid chk = Inr res \<and>
                 redeem_effect gid pid res (st_tables s) (st_tables s'))"
proof -
  note atom = manual_txn_atomic [OF settles_redeem assms(1) assms(2) [unfolded redeem_grant_def]]
  show ?thesis
  proof (cases r)
    case (Inl e)
    then show ?thesis using atom by simp
  next
    case (Inr res)
    let ?shift = "\<lambda>u. u\<lparr>st_clock := \<lambda>n. st_clock u (Suc n), st_faults := \<lambda>n. st_faults u (Suc n)\<rparr>"
    obtain s1 where s1: "st_tables s1 = st_tables s" "st_begun s1 = Some (st_tables s)" "st_clock s1 = st_clock s"
        "(case dict_get (t_grants (st_tables s1)) gid of None \<Rightarrow> deny_rollback ''not_found'' None
           | Some g \<Rightarrow> redeem_found gid ahash pid chk (st_clock s1 0) g) (?shift s1) = (Inr res, s')"
      using atom Inr by (auto simp: sx_simps)
    show ?thesis
    proof (cases "dict_get (t_grants (st_tables s)) gid")
      case None
      then show ?thesis
        using s1 atom Inr
        by (auto simp: deny_rollback_def redeem_verdict_def redeem_effect_def deny_def rollback_def base_def)
    next
      case (Some g)
      then have "redeem_found gid ahash pid chk (st_clock s 0) g (?shift s1) = (Inr res, s')"
        using s1 by simp
      from redeem_found_Inr [OF this] Some s1 Inr atom show ?thesis by simp
    qed
  qed
qed

section \<open>The other mutations\<close>

lemma issue_grant_spec:
  assumes "idle s" "issue_grant gid did pid sid name ahash issued expires ttl s = (r, s')"
  shows "idle s' \<and>
    (case r of
       Inl e \<Rightarrow> st_tables s' = st_tables s
     | Inr seq \<Rightarrow> dict_get (t_grants (st_tables s)) gid = None \<and>
         st_tables s' = appended ''grant_issue'' (issue_body gid did pid sid name ahash issued expires ttl)
           (isoformat (st_clock s 0))
           ((st_tables s)\<lparr>t_grants := dict_set gid
              \<lparr>gr_decision_id = did, gr_principal_id = pid, gr_source_id = sid, gr_name = name,
               gr_args_hash = ahash, gr_issued_at = issued, gr_expires_at = expires,
               gr_redeemed_at = None, gr_closed_at = None\<rparr> (t_grants (st_tables s))\<rparr>))"
proof -
  let ?m = "sx_bind (dml (insert_grant gid
          \<lparr>gr_decision_id = did, gr_principal_id = pid, gr_source_id = sid,
           gr_name = name, gr_args_hash = ahash, gr_issued_at = issued, gr_expires_at = expires,
           gr_redeemed_at = None, gr_closed_at = None\<rparr>)) (\<lambda>_.
       append_audit_in_txn ''grant_issue'' (issue_body gid did pid sid name ahash issued expires ttl))"
  have w: "within same_base ?m" by (intro txn_rules within_append_in_txn)
  note atom = with_conn_atomic [OF w assms(1) assms(2) [unfolded issue_grant_def]]
  show ?thesis
  proof (cases r)
    case (Inr seq)
    then obtain s1 where s1: "?m s = (Inr seq, s1)" "st_tables s' = st_tables s1" using atom by auto
    obtain u where u: "append_audit_in_txn ''grant_issue'' (issue_body gid did pid sid name ahash issued expires ttl) u = (Inr seq, s1)"
        "dict_get (t_grants (st_tables s)) gid = None" "st_clock u = st_clock s"
        "snd (insert_grant gid \<lparr>gr_decision_id = did, gr_principal_id = pid, gr_source_id = sid,
           gr_name = name, gr_args_hash = ahash, gr_issued_at = issued, gr_expires_at = expires,
           gr_redeemed_at = None, gr_closed_at = None\<rparr> (st_tables s)) = st_tables u"
      using s1(1) unfolding sx_bind_Inr dml_Inr by (auto simp: insert_grant_def split: if_splits)
    show ?thesis
      using append_in_txn_Inr(1) [OF u(1)] u(2-4) s1(2) Inr atom by (simp add: insert_grant_def)
  qed (use atom in simp)
qed

lemma close_grant_spec:
  assumes "idle s" "close_grant gid reason s = (r, s')"
  shows "idle s' \<and>
    (case r of
       Inl e \<Rightarrow> st_tables s' = st_tables s
     | Inr None \<Rightarrow> st_tables s' = st_tables s \<and> dict_get (t_grants (st_tables s)) gid = None
     | Inr (Some (did, already)) \<Rightarrow>
         \<exists>g at c. dict_get (t_grants (st_tables s)) gid = Some g \<and> did = gr_decision_id g \<and>
           (already \<longleftrightarrow> gr_closed_at g \<noteq> None) \<and>
           st_tables s' = appended ''grant_close'' (close_body gid did reason already) (isoformat c)
             (close_open_grant gid at (st_tables s)))"
proof -
  define m where "m = sx_bind (query (\<lambda>t. dict_get (t_grants t) gid)) (\<lambda>row.
     case row of
       None \<Rightarrow> sx_return None
     | Some g \<Rightarrow>
         let already = (gr_closed_at g \<noteq> None)
         in sx_bind (if \<not> already
                     then sx_bind now_text (\<lambda>closed. update_tables (close_open_grant gid closed))
                     else sx_return ()) (\<lambda>_.
            sx_bind (append_audit_in_txn ''grant_close'' (close_body gid (gr_decision_id g) reason already)) (\<lambda>_.
            sx_return (Some (gr_decision_id g, already)))))"
  have w: "within same_base m"
    unfolding m_def Let_def by (auto intro!: txn_rules within_append_in_txn split: option.split)
  note atom = with_conn_atomic [OF w assms(1) assms(2) [unfolded close_grant_def, folded m_def]]
  show ?thesis
  proof (cases r)
    case (Inr v)
    then obtain s1 where s1: "m s = (Inr v, s1)" "st_tables s' = st_tables s1" using atom by auto
    have noop: "close_open_grant gid at t = t" if "dict_get (t_grants t) gid = Some g" "gr_closed_at g \<noteq> None" for at t g
      using that by (auto simp: close_open_grant_def)
    show ?thesis
    proof (cases "dict_get (t_grants (st_tables s)) gid")
      case None
      then show ?thesis using s1 Inr atom by (auto simp: m_def sx_simps)
    next
      case (Some g)
      have "\<exists>at c. v = Some (gr_decision_id g, gr_closed_at g \<noteq> None) \<and>
          st_tables s1 = appended ''grant_close'' (close_body gid (gr_decision_id g) reason (gr_closed_at g \<noteq> None)) (isoformat c)
             (close_open_grant gid at (st_tables s))"
        using s1(1) Some noop [OF Some]
        by (cases "gr_closed_at g") (auto simp: m_def sx_simps Let_def dest!: append_in_txn_Inr(1), blast)
      then show ?thesis using s1(2) Inr atom Some by auto
    qed
  qed (use atom in simp)
qed

lemma govgrant_spec:
  assumes "idle s" "record_govgrant_redemption gid row_at body s = (r, s')"
  shows "idle s' \<and>
    (case r of
       Inl e \<Rightarrow> st_tables s' = st_tables s
     | Inr (redeemed, reason, at) \<Rightarrow>
         (if redeemed then dict_get (t_redemptions (st_tables s)) gid = None \<and> reason = ''ok'' \<and>
            (\<exists>w c. at = Some w \<and>
              st_tables s' = appended ''provider_enforcement'' (dict_set ''redeemed_at'' (JStr w) body) (isoformat c)
                ((st_tables s)\<lparr>t_redemptions := dict_set gid (row_at w) (t_redemptions (st_tables s))\<rparr>))
          else dict_get (t_redemptions (st_tables s)) gid \<noteq> None \<and> reason = ''already_redeemed'' \<and>
               at = None \<and> st_tables s' = st_tables s))"
proof -
  define m where "m = sx_bind now_text (\<lambda>redeemed_at.
       sx_bind (sx_catch (sx_bind (dml (insert_redemption gid (row_at redeemed_at))) (\<lambda>_. sx_return True))
                  (\<lambda>e. if e = IntegrityError then sx_return False else sx_raise e)) (\<lambda>inserted.
       if \<not> inserted then (\<lambda>s. (Inr (False, ''already_redeemed'', None), rollback s))
       else
         sx_bind (append_audit_in_txn ''provider_enforcement'' (dict_set ''redeemed_at'' (JStr redeemed_at) body)) (\<lambda>_.
         sx_bind commit (\<lambda>_. sx_return (True, ''ok'', Some redeemed_at)))))"
  have st: "settles m"
    unfolding m_def
    by (auto intro!: settles_bind settles_deny settles_commit txn_rules within_append_in_txn)
  note atom = manual_txn_atomic [OF st assms(1) assms(2) [unfolded record_govgrant_redemption_def, folded m_def]]
  show ?thesis
  proof (cases r)
    case (Inr v)
    obtain redeemed reason at where v: "v = (redeemed, reason, at)" by (cases v)
    obtain s1 where s1: "st_tables s1 = st_tables s" "st_begun s1 = Some (st_tables s)" "m s1 = (Inr v, s')"
      using atom Inr by auto
    show ?thesis
    proof (cases "dict_get (t_redemptions (st_tables s)) gid")
      case None
      then show ?thesis
        using s1 Inr v atom
        by (auto simp: m_def sx_simps sx_catch_def dml_def sx_bind_def statement_def insert_redemption_def Let_def
            sx_return_def sx_raise_def base_def split: if_splits prod.splits sum.splits
            dest!: append_in_txn_Inr(1) commit_tables)
    next
      case (Some row)
      then show ?thesis
        using s1 Inr v atom
        by (auto simp: m_def sx_simps sx_catch_def dml_def sx_bind_def statement_def insert_redemption_def Let_def
            sx_return_def sx_raise_def base_def rollback_def split: if_splits prod.splits sum.splits)
    qed
  qed (use atom in simp)
qed

section \<open>One use\<close>

text \<open>The calls that reach the grant tables or the audit log, and what they report as redeemed.\<close>

datatype grant_op =
    OpIssue string string string string string string instant instant json
  | OpRedeem string string string "(string \<Rightarrow> string \<Rightarrow> bool result) option"
  | OpClose string string
  | OpGovRedeem string "string \<Rightarrow> redemption_row" "(string \<times> json) list"
  | OpAudit string "(string \<times> json) list"

datatype grant_event = Redeemed string | GovRedeemed string

fun run_op :: "grant_op \<Rightarrow> store \<Rightarrow> grant_event list \<times> store" where
  "run_op (OpIssue gid did pid sid name ahash issued expires ttl) s =
     ([], snd (issue_grant gid did pid sid name ahash issued expires ttl s))"
| "run_op (OpRedeem gid ahash pid chk) s =
     (case redeem_grant gid ahash pid chk s of
        (Inr res, s') \<Rightarrow> (if rr_redeemed res then [Redeemed gid] else [], s')
      | (Inl e, s') \<Rightarrow> ([], s'))"
| "run_op (OpClose gid reason) s = ([], snd (close_grant gid reason s))"
| "run_op (OpGovRedeem gid row_at body) s =
     (case record_govgrant_redemption gid row_at body s of
        (Inr (redeemed, reason, at), s') \<Rightarrow> (if redeemed then [GovRedeemed gid] else [], s')
      | (Inl e, s') \<Rightarrow> ([], s'))"
| "run_op (OpAudit kind body) s = ([], snd (append_audit kind body s))"

fun spent :: "store \<Rightarrow> grant_event \<Rightarrow> bool" where
  "spent s (Redeemed gid) =
     (\<exists>g. dict_get (t_grants (st_tables s)) gid = Some g \<and> gr_redeemed_at g \<noteq> None)"
| "spent s (GovRedeemed gid) = (dict_get (t_redemptions (st_tables s)) gid \<noteq> None)"

lemma spent_tables:
  "t_grants (st_tables s') = t_grants (st_tables s) \<Longrightarrow> t_redemptions (st_tables s') = t_redemptions (st_tables s) \<Longrightarrow>
   spent s' e = spent s e"
  by (cases e) auto

lemma close_open_grant_tables [simp]:
  "t_redemptions (close_open_grant gid at t) = t_redemptions t"
  "dict_get (t_grants (close_open_grant gid at t)) k =
     (case dict_get (t_grants t) k of
        Some g \<Rightarrow> Some (if k = gid \<and> gr_closed_at g = None then g\<lparr>gr_closed_at := Some at\<rparr> else g) | None \<Rightarrow> None)"
  by (auto simp: close_open_grant_def dict_simps split: option.splits)

lemma run_op_ledger:
  assumes "idle s" "run_op p s = (evs, s')"
  shows "idle s' \<and> (\<forall>e. spent s e \<longrightarrow> spent s' e) \<and> distinct evs \<and> (\<forall>e \<in> set evs. \<not> spent s e \<and> spent s' e)"
proof (cases p)
  case (OpIssue gid did pid sid name ahash issued expires ttl)
  obtain r where run: "issue_grant gid did pid sid name ahash issued expires ttl s = (r, s')" and evs: "evs = []"
    using assms(2) OpIssue by (auto intro: prod.collapse [symmetric])
  have mono: "spent s e \<longrightarrow> spent s' e" for e
    using issue_grant_spec [OF assms(1) run] by (cases r; cases e) (auto simp: appended_tables dict_simps)
  then show ?thesis using issue_grant_spec [OF assms(1) run] evs by auto
next
  case (OpRedeem gid ahash pid chk)
  obtain r where run: "redeem_grant gid ahash pid chk s = (r, s')"
      and evs: "evs = (case r of Inr res \<Rightarrow> if rr_redeemed res then [Redeemed gid] else [] | Inl e \<Rightarrow> [])"
    using assms(2) OpRedeem by (auto split: prod.splits sum.splits)
  note spec = redeem_grant_spec [OF assms(1) run]
  show ?thesis
  proof (cases r)
    case (Inl e)
    then have "st_tables s' = st_tables s" using spec by simp
    then show ?thesis using spec Inl evs spent_tables [of s' s] by simp
  next
    case (Inr res)
    have eff: "redeem_effect gid pid res (st_tables s) (st_tables s')"
      and ver: "redeem_verdict (st_tables s) (st_clock s 0) gid ahash pid chk = Inr res"
      using spec Inr by auto
    have mono: "spent s e \<longrightarrow> spent s' e" for e
      using eff by (cases e) (auto simp: redeem_effect_def appended_tables dict_simps split: if_splits)
    have fresh: "\<not> spent s (Redeemed gid) \<and> spent s' (Redeemed gid)" if "rr_redeemed res"
      using eff ver that
      by (auto simp: redeem_effect_def redeem_verdict_def appended_tables dict_simps deny_def
          split: if_splits option.splits)
    show ?thesis using spec Inr evs mono fresh by auto
  qed
next
  case (OpClose gid reason)
  obtain r where run: "close_grant gid reason s = (r, s')" and evs: "evs = []"
    using assms(2) OpClose by (auto intro: prod.collapse [symmetric])
  note spec = close_grant_spec [OF assms(1) run]
  have "spent s e \<longrightarrow> spent s' e" for e
    using spec
    by (cases e) (auto simp: appended_tables split: sum.splits option.splits)
  then show ?thesis using spec evs by auto
next
  case (OpGovRedeem gid row_at body)
  obtain r where run: "record_govgrant_redemption gid row_at body s = (r, s')"
      and evs: "evs = (case r of Inr (ok, reason, at) \<Rightarrow> if ok then [GovRedeemed gid] else [] | Inl e \<Rightarrow> [])"
    using assms(2) OpGovRedeem by (auto split: prod.splits sum.splits)
  note spec = govgrant_spec [OF assms(1) run]
  have "spent s e \<longrightarrow> spent s' e" for e
    using spec by (cases e) (auto simp: appended_tables dict_simps split: sum.splits if_splits)
  moreover have "\<forall>e \<in> set evs. \<not> spent s e \<and> spent s' e"
    using spec evs by (auto simp: appended_tables dict_simps split: sum.splits if_splits)
  ultimately show ?thesis using spec evs by (auto split: sum.splits)
next
  case (OpAudit kind body)
  obtain r where run: "append_audit kind body s = (r, s')" and evs: "evs = []"
    using assms(2) OpAudit by (auto intro: prod.collapse [symmetric])
  have "spent s' e = spent s e" for e
    using append_audit_spec [OF assms(1) run] by (cases r) (auto intro!: spent_tables simp: appended_tables)
  then show ?thesis using append_audit_spec [OF assms(1) run] evs by simp
qed

interpretation store_ledger: one_use_ledger run_op idle spent
  by unfold_locales (use run_op_ledger in blast)+

text \<open>A grant is redeemed at most once. Over every sequence of issuing, redeeming, closing,
  governance redemption and audit calls, with any of their SQL statements failing at any point,
  the redemptions that were reported as successful are pairwise distinct, none of them is of a
  grant that was already redeemed at the start, and each of them is durable at the end.\<close>

theorem grants_one_use:
  assumes "idle s" "run_events run_op ops s = (evs, s')"
  shows "distinct evs \<and> list_all (\<lambda>e. \<not> spent s e \<and> spent s' e) evs"
  using store_ledger.run_once [OF assms] by (simp add: list_all_iff)

theorem grants_one_use_witness:
  "\<exists>evs s'. run_events run_op
      [OpIssue ''g'' ''d'' ''p'' ''docs'' ''search'' ''h'' 0 10 JNull, OpRedeem ''g'' ''h'' ''p'' None, OpRedeem ''g'' ''h'' ''p'' None]
      (fresh_store empty_tables) = (evs, s') \<and> distinct evs"
proof -
  obtain evs s' where run: "run_events run_op
      [OpIssue ''g'' ''d'' ''p'' ''docs'' ''search'' ''h'' 0 10 JNull, OpRedeem ''g'' ''h'' ''p'' None, OpRedeem ''g'' ''h'' ''p'' None]
      (fresh_store empty_tables) = (evs, s')" by fastforce
  then show ?thesis using grants_one_use [OF fresh_store(1) run] by blast
qed

section \<open>Exact redemption\<close>

lemma commit_healthy:
  "healthy s \<Longrightarrow> st_begun s \<noteq> None \<Longrightarrow> \<exists>s'. commit s = (Inr (), s') \<and> healthy s'"
  by (auto simp: commit_def sx_bind_def statement_def healthy_def Let_def)

lemma append_commit_healthy:
  assumes "healthy s"
  shows "\<exists>s'. sx_bind (append_audit_in_txn kind body) (\<lambda>_. sx_bind commit (\<lambda>_. sx_return v)) s = (Inr v, s')"
proof -
  obtain s1 where s1: "append_audit_in_txn kind body s = (Inr (t_audit_seq (st_tables s1)), s1)" "healthy s1"
      "st_begun s1 = Some (base s)"
    using append_in_txn_healthy [OF assms] by blast
  obtain s2 where "commit s1 = (Inr (), s2)" using commit_healthy [OF s1(2)] s1(3) by auto
  then show ?thesis using s1(1) by (simp add: sx_bind_def sx_return_def)
qed

lemma kill_grant_healthy:
  assumes "healthy s"
  shows "\<exists>res s'. kill_grant gid g s = (Inr res, s')"
proof -
  let ?at = "isoformat (st_clock s 0)" and ?s1 = "s\<lparr>st_clock := \<lambda>n. st_clock s (Suc n)\<rparr>"
  have n: "now_text s = (Inr ?at, ?s1)" by (simp add: sx_simps)
  have h1: "healthy ?s1" using assms by simp
  note u = healthy_run(3) [OF h1, of "close_open_grant gid ?at"]
  show ?thesis
    unfolding kill_grant_def
    using append_commit_healthy [OF healthy_update [OF h1, where t = "close_open_grant gid ?at (st_tables s)" and b = "Some (base s)"],
        of "''grant_close''" "close_body gid (gr_decision_id g) ''not_invocable'' False" "deny ''not_invocable'' (Some g)"]
    by (auto simp: sx_bind_run [where m = now_text, OF n] sx_bind_run [where m = "update_tables f" for f, OF u])
qed

lemma consume_grant_healthy:
  assumes "healthy s" "dict_get (t_grants (st_tables s)) gid = Some g" "gr_redeemed_at g = None" "gr_closed_at g = None"
  shows "\<exists>res s'. consume_grant gid pid g s = (Inr res, s')"
proof -
  let ?at = "isoformat (st_clock s 0)" and ?s1 = "s\<lparr>st_clock := \<lambda>n. st_clock s (Suc n)\<rparr>"
  have n: "now_text s = (Inr ?at, ?s1)" by (simp add: sx_simps)
  have h1: "healthy ?s1" using assms by simp
  have r: "redeem_open_grant gid ?at (st_tables ?s1) =
      (Inr 1, (st_tables s)\<lparr>t_grants := dict_set gid (g\<lparr>gr_redeemed_at := Some ?at\<rparr>) (t_grants (st_tables s))\<rparr>)"
    using assms(2-4) by (simp add: redeem_open_grant_def)
  note u = healthy_run(4) [where h = "redeem_open_grant gid ?at", OF h1 r]
  show ?thesis
    unfolding consume_grant_def
    using append_commit_healthy [OF healthy_update [OF h1, where t = "(st_tables s)\<lparr>t_grants := dict_set gid (g\<lparr>gr_redeemed_at := Some ?at\<rparr>) (t_grants (st_tables s))\<rparr>" and b = "Some (base s)"],
        of "''grant_redeem''" "redeem_body gid pid g"
          "\<lparr>rr_redeemed = True, rr_reason = ''ok'', rr_decision_id = Some (gr_decision_id g),
            rr_source_id = Some (gr_source_id g), rr_name = Some (gr_name g)\<rparr>"]
    by (auto simp: sx_bind_run [where m = now_text, OF n] sx_bind_run [where m = "dml f" for f, OF u])
qed

text \<open>The condition under which a grant may be consumed.\<close>

definition redeemable :: "tables \<Rightarrow> instant \<Rightarrow> string \<Rightarrow> string \<Rightarrow> string \<Rightarrow> (string \<Rightarrow> string \<Rightarrow> bool result) option \<Rightarrow> bool" where
  "redeemable t n gid ahash pid chk \<longleftrightarrow>
     (\<exists>g. dict_get (t_grants t) gid = Some g \<and> gr_redeemed_at g = None \<and> gr_closed_at g = None \<and>
          n < gr_expires_at g \<and> pid = gr_principal_id g \<and> ahash = gr_args_hash g \<and>
          (chk = None \<or> the chk (gr_source_id g) (gr_name g) = Inr True))"

lemma verdict_redeemable:
  "redeem_verdict t n gid ahash pid chk = Inr res \<Longrightarrow> rr_redeemed res \<longleftrightarrow> redeemable t n gid ahash pid chk"
  by (cases chk)
    (auto simp: redeem_verdict_def redeemable_def deny_def result_simps split: option.splits if_splits)

lemma redeem_grant_healthy:
  assumes "healthy s" "idle s" "\<And>f a b. chk = Some f \<Longrightarrow> \<exists>ok. f a b = Inr ok"
  shows "\<exists>res s'. redeem_grant gid ahash pid chk s = (Inr res, s')"
proof -
  let ?s1 = "s\<lparr>st_begun := Some (st_tables s), st_clock := \<lambda>n. st_clock s (Suc n), st_faults := \<lambda>n. st_faults s (Suc (Suc n))\<rparr>"
  have h1: "healthy ?s1" using assms(1) by (simp add: healthy_def)
  have run: "redeem_grant gid ahash pid chk s =
      (case (case dict_get (t_grants (st_tables s)) gid of None \<Rightarrow> deny_rollback ''not_found'' None
           | Some g \<Rightarrow> redeem_found gid ahash pid chk (st_clock s 0) g) ?s1 of
         (Inl e, s2) \<Rightarrow> (Inl e, rollback s2) | (Inr v, s2) \<Rightarrow> (Inr v, s2))"
    using assms(1,2)
    by (cases "dict_get (t_grants (st_tables s)) gid")
      (simp_all add: redeem_grant_def manual_txn_def begin_immediate_def sx_bind_def statement_def healthy_def idle_def
        now_def query_def sx_get_def Let_def)
  show ?thesis
  proof (cases "dict_get (t_grants (st_tables s)) gid")
    case None
    then show ?thesis unfolding run by (simp add: deny_rollback_def)
  next
    case (Some g)
    have "\<exists>res s2. redeem_found gid ahash pid chk (st_clock s 0) g ?s1 = (Inr res, s2)"
    proof -
      obtain ok where ok: "(case chk of None \<Rightarrow> sx_return True | Some f \<Rightarrow> sx_lift (f (gr_source_id g) (gr_name g))) ?s1 = (Inr ok, ?s1)"
        using assms(3) [of _ "gr_source_id g" "gr_name g"] by (cases chk) (auto simp: sx_return_def sx_lift_def)
      show ?thesis
        using kill_grant_healthy [OF h1] consume_grant_healthy [OF h1, of gid g] Some ok
        by (auto simp: redeem_found_def deny_rollback_def sx_bind_def)
    qed
    then show ?thesis unfolding run using Some by auto
  qed
qed

text \<open>C9: redemption succeeds exactly when it should, and leaves exactly one trace. When all
  statements succeed and the catalog answers, a redemption always returns, and it reports success
  if and only if the grant exists, was neither redeemed nor closed, expires strictly after the
  instant read inside the transaction, belongs to the caller, was issued for the presented
  argument digest, and its tool is still invocable. Success sets the redemption latch and appends one
  \<open>grant_redeem\<close> record; a tool that stopped being invocable closes the grant with one
  \<open>grant_close\<close> record; every other denial changes no table.\<close>

theorem redeem_exact:
  assumes "healthy s" "idle s" "\<And>f a b. chk = Some f \<Longrightarrow> \<exists>ok. f a b = Inr ok"
  shows "\<exists>res s'. redeem_grant gid ahash pid chk s = (Inr res, s') \<and>
     (rr_redeemed res \<longleftrightarrow> redeemable (st_tables s) (st_clock s 0) gid ahash pid chk) \<and>
     redeem_effect gid pid res (st_tables s) (st_tables s')"
proof -
  obtain res s' where run: "redeem_grant gid ahash pid chk s = (Inr res, s')"
    using redeem_grant_healthy [of s chk gid ahash pid] assms by blast
  then show ?thesis
    using redeem_grant_spec [OF assms(2) run] verdict_redeemable by auto
qed

definition demo_grants :: tables where
  "demo_grants = empty_tables\<lparr>t_grants := [(''g'', \<lparr>gr_decision_id = ''d'', gr_principal_id = ''p'',
     gr_source_id = ''docs'', gr_name = ''search'', gr_args_hash = ''h'', gr_issued_at = 0, gr_expires_at = 10,
     gr_redeemed_at = None, gr_closed_at = None\<rparr>)]\<rparr>"

theorem redeem_exact_witness:
  "\<exists>res s'. redeem_grant ''g'' ''h'' ''p'' (Some (\<lambda>a b. Inr True)) (fresh_store demo_grants) = (Inr res, s') \<and> rr_redeemed res"
proof -
  have "redeemable demo_grants 0 ''g'' ''h'' ''p'' (Some (\<lambda>a b. Inr True))"
    by (simp add: redeemable_def demo_grants_def)
  then show ?thesis
    using redeem_exact [of "fresh_store demo_grants" "Some (\<lambda>a b. Inr True)" "''g''" "''h''" "''p''"] by auto
qed



end
