(* ===== verification/Govgrants.thy ===== *)
theory Govgrants
  imports Store_Grants
begin

text \<open>
  \<open>govgrants.py\<close>: offline verification of execution grants issued by Connect-Governance and of
  the issuer's revocation lists, and the binding of a grant's scope to a request. The artifacts
  are JSON values an attacker may choose; what is not well-formed is refused with failure codes.

  Code outside the repository is a parameter, the record \<open>platform\<close>: loading a PEM public key and
  Ed25519 verification (package \<open>cryptography\<close>), and \<open>datetime.fromisoformat\<close>, whose accepted
  grammar differs between the Python versions the package supports (no value stands for its
  \<open>ValueError\<close>). Every theorem holds for all
  values of these parameters. An aware instant is its distance in microseconds from the epoch,
  which is what comparing aware datetimes compares.
\<close>

section \<open>Parameters\<close>

datatype loaded_key = Ed25519 "8 word list" | OtherKey

datatype datetime = Naive int | Aware instant

record platform =
  load_pem_public_key :: "string \<Rightarrow> loaded_key result"
  ed25519_verify :: "8 word list \<Rightarrow> 8 word list \<Rightarrow> 8 word list \<Rightarrow> bool"
  fromisoformat :: "string \<Rightarrow> datetime option"

section \<open>Field tables\<close>

datatype pytype = TStr | TList | TDict | TInt | TFloat | TNone

fun is_instance :: "json \<Rightarrow> pytype \<Rightarrow> bool" where
  "is_instance (JStr s) t = (t = TStr)"
| "is_instance (JList vs) t = (t = TList)"
| "is_instance (JDict kvs) t = (t = TDict)"
| "is_instance (JInt i) t = (t = TInt)"
| "is_instance (JBool b) t = (t = TInt)"
| "is_instance (JFloat f) t = (t = TFloat)"
| "is_instance JNull t = (t = TNone)"

definition SUPPORTED_FORMAT_VERSIONS :: "string list" where
  "SUPPORTED_FORMAT_VERSIONS = [''1'']"

definition REVOCATION_LIST_FORMAT_VERSIONS :: "string list" where
  "REVOCATION_LIST_FORMAT_VERSIONS = [''1'']"

definition SIGNATURE_SCHEME :: string where
  "SIGNATURE_SCHEME = ''Ed25519''"

definition INVOKE_OPERATION :: string where
  "INVOKE_OPERATION = ''tool.invoke''"

definition REQUIRED_PAYLOAD_FIELDS :: "(string \<times> pytype list) list" where
  "REQUIRED_PAYLOAD_FIELDS =
     [(''grant_format_version'', [TStr]), (''grant_id'', [TStr]),
      (''decision_record_id'', [TStr]), (''work_request_id'', [TStr]),
      (''requesting_principal_id'', [TStr]), (''organization_id'', [TStr]),
      (''workspace_id'', [TStr]), (''provider_id'', [TStr]),
      (''permitted_operations'', [TList]), (''argument_constraints'', [TDict]),
      (''data_classifications'', [TList]), (''policy_versions'', [TList]),
      (''kernel_version'', [TStr]), (''issued_at'', [TStr]), (''issuer_key_id'', [TStr])]"

definition OPTIONAL_PAYLOAD_FIELDS :: "(string \<times> pytype list) list" where
  "OPTIONAL_PAYLOAD_FIELDS =
     [(''work_request_revision'', [TStr, TNone]), (''budget_limit_usd'', [TInt, TFloat, TNone]),
      (''delegation_depth'', [TInt]), (''delegation_max_depth'', [TInt, TNone]),
      (''not_before'', [TStr, TNone]), (''not_after'', [TStr, TNone]),
      (''revocation_state'', [TStr, TNone]), (''correlation_id'', [TStr, TNone])]"

definition REQUIRED_REVOCATION_LIST_FIELDS :: "(string \<times> pytype list) list" where
  "REQUIRED_REVOCATION_LIST_FIELDS =
     [(''revocation_list_format_version'', [TStr]), (''issuer_key_id'', [TStr]),
      (''issued_at'', [TStr]), (''revoked_grant_ids'', [TList]), (''supersedes'', [TStr, TNone]),
      (''list_id'', [TStr]), (''signature_scheme'', [TStr]), (''signature'', [TStr])]"

record GovVerification =
  gv_valid :: bool
  gv_signature_valid :: bool
  gv_within_validity_window :: bool
  gv_failure_codes :: "string list"
  gv_issuer_key_id :: "string option"
  gv_payload :: "(string \<times> json) list option"

section \<open>Bytes and instants\<close>

text \<open>\<open>json.dumps\<close> with \<open>ensure_ascii=False\<close>: only quotes, backslashes and control characters are escaped.\<close>

definition dumps_str_literal :: "string \<Rightarrow> string" where
  "dumps_str_literal s =
     CHR 0x22 # concat (map (\<lambda>c. if (of_char c :: nat) < 127 then escape_char c else [c]) s) @ [CHR 0x22]"

primrec dumps_literal :: "json \<Rightarrow> string" where
  "dumps_literal JNull = ''null''"
| "dumps_literal (JBool b) = (if b then ''true'' else ''false'')"
| "dumps_literal (JInt i) = show_int i"
| "dumps_literal (JFloat f) = dumps_float f"
| "dumps_literal (JStr s) = dumps_str_literal s"
| "dumps_literal (JList vs) = ''['' @ join '','' (map dumps_literal vs) @ '']''"
| "dumps_literal (JDict kvs) =
     ''{'' @ join '','' (map (\<lambda>kv. dumps_str_literal (fst kv) @ CHR '':'' # snd kv)
                          (map (map_prod id dumps_literal) kvs)) @ ''}''"

definition canonical_payload_bytes :: "(string \<times> json) list \<Rightarrow> 8 word list result" where
  "canonical_payload_bytes payload =
     (if all_finite (JDict payload) then Inr (utf8_encode (dumps_literal (sort_keys (JDict payload))))
      else Inl ValueError)"

definition key_id :: "8 word list \<Rightarrow> string" where
  "key_id raw = ''ed25519:'' @ concat (map (\<lambda>w. hex_fixed 8 (unat w)) (sha256 raw))"

definition public_key_id :: "platform \<Rightarrow> string \<Rightarrow> string result" where
  "public_key_id pf pem =
     bind_result (load_pem_public_key pf pem) (\<lambda>key.
       case key of OtherKey \<Rightarrow> Inl ValueError | Ed25519 raw \<Rightarrow> Inr (key_id raw))"

text \<open>
  \<open>base64.urlsafe_b64decode\<close>: non-ASCII text is a \<open>ValueError\<close>; otherwise characters outside the
  alphabet are skipped and decoding stops at a pad sequence that completes a quantum. The
  accumulator of \<open>a2b\<close> is the number of characters of the current quantum, the pending bits and
  the number of pad characters just seen.
\<close>

definition b64_value :: "char \<Rightarrow> nat option" where
  "b64_value c =
     (let n = (of_char c :: nat) in
      if 65 \<le> n \<and> n \<le> 90 then Some (n - 65)
      else if 97 \<le> n \<and> n \<le> 122 then Some (n - 71)
      else if 48 \<le> n \<and> n \<le> 57 then Some (n + 4)
      else if c = CHR ''-'' \<or> c = CHR ''+'' then Some 62
      else if c = CHR ''_'' \<or> c = CHR ''/'' then Some 63
      else None)"

fun a2b :: "nat \<Rightarrow> nat \<Rightarrow> nat \<Rightarrow> string \<Rightarrow> 8 word list result" where
  "a2b quad left pads [] = (if quad = 0 then Inr [] else Inl ValueError)"
| "a2b quad left pads (c # cs) =
     (if c = CHR ''='' then
        if 2 \<le> quad \<and> 4 \<le> quad + pads + 1 then Inr []
        else a2b quad left (if 2 \<le> quad then pads + 1 else pads) cs
      else case b64_value c of
             None \<Rightarrow> a2b quad left pads cs
           | Some v \<Rightarrow>
               (if quad = 0 then a2b 1 v 0 cs
                else if quad = 1 then
                  bind_result (a2b 2 (v mod 16) 0 cs) (\<lambda>bs. Inr (of_nat (left * 4 + v div 16) # bs))
                else if quad = 2 then
                  bind_result (a2b 3 (v mod 4) 0 cs) (\<lambda>bs. Inr (of_nat (left * 16 + v div 4) # bs))
                else
                  bind_result (a2b 0 0 0 cs) (\<lambda>bs. Inr (of_nat (left * 64 + v) # bs))))"

definition b64d :: "string \<Rightarrow> 8 word list result" where
  "b64d s =
     (if list_all (\<lambda>c. (of_char c :: nat) < 128) s
      then a2b 0 0 0 (s @ replicate (nat (- int (length s) mod 4)) (CHR ''=''))
      else Inl ValueError)"

definition parse_rfc3339 :: "platform \<Rightarrow> string \<Rightarrow> instant result" where
  "parse_rfc3339 pf v =
     (let t = strip v;
          u = (if t \<noteq> [] \<and> (last t = CHR ''z'' \<or> last t = CHR ''Z'') then butlast t @ ''+00:00'' else t)
      in case fromisoformat pf u of Some (Aware t) \<Rightarrow> Inr t | _ \<Rightarrow> Inl ValueError)"

section \<open>Grants: shape\<close>

text \<open>\<open>d[k]\<close> in the verifier: a missing key raises \<open>KeyError\<close>.\<close>

definition item :: "(string \<times> json) list \<Rightarrow> string \<Rightarrow> json result" where
  "item d k = (case dict_get d k of Some v \<Rightarrow> Inr v | None \<Rightarrow> Inl KeyError)"

definition required_ok :: "(string \<times> json) list \<Rightarrow> string \<times> pytype list \<Rightarrow> bool" where
  "required_ok payload = (\<lambda>(name, types).
     case dict_get payload name of
       None \<Rightarrow> False
     | Some v \<Rightarrow> list_ex (is_instance v) types \<and> \<not> (types = [TStr] \<and> \<not> truthy v))"

definition optional_ok :: "(string \<times> json) list \<Rightarrow> string \<times> pytype list \<Rightarrow> bool" where
  "optional_ok payload = (\<lambda>(name, types).
     case dict_get payload name of
       None \<Rightarrow> True
     | Some v \<Rightarrow> list_ex (is_instance v) types)"

definition supported_version :: "string list \<Rightarrow> json \<Rightarrow> bool" where
  "supported_version versions v = (case v of JStr s \<Rightarrow> List.member versions s | _ \<Rightarrow> False)"

definition structural_failures :: "json \<Rightarrow> string list \<times> (string \<times> json) list option" where
  "structural_failures grant =
     (case grant of
        JDict g \<Rightarrow>
          (case (get_or_null g ''payload'', get_or_null g ''signature_scheme'', get_or_null g ''signature'') of
             (JDict payload, JStr scheme, JStr signature) \<Rightarrow>
               (let failures = (if scheme \<noteq> SIGNATURE_SCHEME then [''unsupported_scheme''] else [])
                in if \<not> supported_version SUPPORTED_FORMAT_VERSIONS (get_or_null payload ''grant_format_version'')
                   then (failures @ [''unsupported_format'', ''malformed_grant''], None)
                   else
                     (let failures' = failures @
                        (if \<not> list_all (required_ok payload) REQUIRED_PAYLOAD_FIELDS
                         then [''malformed_grant'']
                         else if \<not> list_all (optional_ok payload) OPTIONAL_PAYLOAD_FIELDS
                         then [''malformed_grant''] else [])
                      in if failures' \<noteq> [] then (failures', None) else (failures', Some payload)))
           | _ \<Rightarrow> ([''malformed_grant''], None))
      | _ \<Rightarrow> ([''malformed_grant''], None))"

section \<open>The signature under the configured trust root\<close>

text \<open>
  The \<open>try\<close> block both verifiers run: load the key, compare its id with the issuer named by the
  artifact, check the signature. The codes collected so far decide whether an unsupported scheme
  skips the check, and whether a \<open>ValueError\<close> is a mismatch.
\<close>

definition mismatch :: "string list \<Rightarrow> bool \<times> string list" where
  "mismatch failures =
     (False, if List.member failures ''unknown_issuer'' \<or> List.member failures ''missing_trust_root''
             then failures else failures @ [''signature_mismatch''])"

definition check_signature ::
  "platform \<Rightarrow> string \<Rightarrow> json \<Rightarrow> json \<Rightarrow> (string \<times> json) list \<Rightarrow> string list
   \<Rightarrow> (bool \<times> string list) result" where
  "check_signature pf pem issuer signature doc failures =
     (case load_pem_public_key pf pem of
        Inl e \<Rightarrow> (if e = ValueError then Inr (mismatch failures) else Inl e)
      | Inr OtherKey \<Rightarrow> Inr (False, failures @ [''missing_trust_root''])
      | Inr (Ed25519 raw) \<Rightarrow>
          (if JStr (key_id raw) \<noteq> issuer then Inr (False, failures @ [''unknown_issuer''])
           else if List.member failures ''unsupported_scheme'' then Inr (False, failures)
           else case bind_result (b64d (str_of signature)) (\<lambda>sig.
                       bind_result (canonical_payload_bytes doc) (\<lambda>msg.
                         Inr (ed25519_verify pf raw sig msg))) of
                  Inr True \<Rightarrow> Inr (True, failures)
                | _ \<Rightarrow> Inr (mismatch failures)))"

section \<open>Revocation lists\<close>

definition list_field_ok :: "(string \<times> json) list \<Rightarrow> string \<times> pytype list \<Rightarrow> bool" where
  "list_field_ok doc = (\<lambda>(name, types).
     case dict_get doc name of
       None \<Rightarrow> False
     | Some v \<Rightarrow> list_ex (is_instance v) types \<and>
         \<not> (List.member [''issuer_key_id'', ''issued_at'', ''list_id'', ''signature''] name \<and> \<not> truthy v))"

fun usable_id :: "json \<Rightarrow> bool" where
  "usable_id (JStr s) = (s \<noteq> [])"
| "usable_id _ = False"

fun elements :: "json \<Rightarrow> json list" where
  "elements (JList vs) = vs"
| "elements _ = []"

definition revocation_list_structural ::
  "platform \<Rightarrow> (string \<times> json) list \<Rightarrow> string list \<times> instant option" where
  "revocation_list_structural pf doc =
     (let failures = (case get_or_null doc ''signature_scheme'' of
                        JStr scheme \<Rightarrow> (if scheme \<noteq> SIGNATURE_SCHEME then [''unsupported_scheme''] else [])
                      | _ \<Rightarrow> [''malformed_revocation_list''])
      in if \<not> supported_version REVOCATION_LIST_FORMAT_VERSIONS (get_or_null doc ''revocation_list_format_version'')
         then (failures @ [''unsupported_format'', ''malformed_revocation_list''], None)
         else
           (let failures' = failures @
              (if \<not> list_all (list_field_ok doc) REQUIRED_REVOCATION_LIST_FIELDS
               then [''malformed_revocation_list'']
               else if \<not> list_all usable_id (elements (get_or_null doc ''revoked_grant_ids''))
               then [''malformed_revocation_list''] else [])
            in if failures' \<noteq> [] then (failures', None)
               else case parse_rfc3339 pf (str_of (get_or_null doc ''issued_at'')) of
                      Inl e \<Rightarrow> ([''malformed_revocation_list''], None)
                    | Inr t \<Rightarrow> ([], Some t)))"

definition list_issued_at :: "platform \<Rightarrow> json \<Rightarrow> instant option" where
  "list_issued_at pf list_doc =
     (case list_doc of
        JDict doc \<Rightarrow>
          (case get_or_null doc ''issued_at'' of
             JStr s \<Rightarrow> (case parse_rfc3339 pf s of Inl e \<Rightarrow> None | Inr t \<Rightarrow> Some t)
           | _ \<Rightarrow> None)
      | _ \<Rightarrow> None)"

definition window_overlaps_list_coverage :: "platform \<Rightarrow> (string \<times> json) list \<Rightarrow> instant \<Rightarrow> bool" where
  "window_overlaps_list_coverage pf payload issued =
     (case get_or_null payload ''not_after'' of
        JNull \<Rightarrow> True
      | v \<Rightarrow> (case parse_rfc3339 pf (str_of v) of Inl e \<Rightarrow> True | Inr t \<Rightarrow> t > issued))"

definition verify_revocation_list ::
  "platform \<Rightarrow> json \<Rightarrow> string option \<Rightarrow> string \<Rightarrow> string list result" where
  "verify_revocation_list pf list_doc pem at =
     (case list_doc of
        JNull \<Rightarrow> Inr [''missing_revocation_list'']
      | JDict doc \<Rightarrow>
          (case revocation_list_structural pf doc of
             (failures, None) \<Rightarrow> Inr failures
           | (failures, Some issued) \<Rightarrow>
               (let failures' = failures @
                      (case parse_rfc3339 pf at of
                         Inl e \<Rightarrow> [''malformed_revocation_list'']
                       | Inr t \<Rightarrow> if t < issued then [''not_yet_valid''] else [])
                in case pem of
                     None \<Rightarrow> Inr (failures' @ [''missing_trust_root''])
                   | Some pem \<Rightarrow>
                       bind_result
                         (check_signature pf pem (get_or_null doc ''issuer_key_id'')
                            (get_or_null doc ''signature'') (filter (\<lambda>(k, v). k \<noteq> ''signature'') doc) failures')
                         (\<lambda>(ok, failures''). Inr failures'')))
      | _ \<Rightarrow> Inr [''malformed_revocation_list''])"

section \<open>Grants\<close>

text \<open>
  The validity window. The result is whether the instant lies within it and the codes added; a
  payload without \<open>not_before\<close> or \<open>not_after\<close> raises \<open>KeyError\<close>, which no handler catches. An
  instant that cannot be parsed is reported as \<open>malformed_grant\<close>, after the codes added before it.
\<close>

definition check_not_after ::
  "platform \<Rightarrow> (string \<times> json) list \<Rightarrow> instant \<Rightarrow> bool \<times> string list \<Rightarrow> (bool \<times> string list) result" where
  "check_not_after pf payload t = (\<lambda>(within_window, failures).
     bind_result (item payload ''not_after'') (\<lambda>na.
       if na = JNull then Inr (within_window, failures)
       else case parse_rfc3339 pf (str_of na) of
              Inl e \<Rightarrow> Inr (False, failures @ [''malformed_grant''])
            | Inr b \<Rightarrow> Inr (if t \<ge> b then (False, failures @ [''expired'']) else (within_window, failures))))"

definition check_window ::
  "platform \<Rightarrow> (string \<times> json) list \<Rightarrow> string \<Rightarrow> string list \<Rightarrow> (bool \<times> string list) result" where
  "check_window pf payload at failures =
     (case parse_rfc3339 pf at of
        Inl e \<Rightarrow> Inr (False, failures @ [''malformed_grant''])
      | Inr t \<Rightarrow>
          bind_result (item payload ''not_before'') (\<lambda>nb.
            if nb = JNull then check_not_after pf payload t (True, failures)
            else case parse_rfc3339 pf (str_of nb) of
                   Inl e \<Rightarrow> Inr (False, failures @ [''malformed_grant''])
                 | Inr b \<Rightarrow> check_not_after pf payload t
                              (if t < b then (False, failures @ [''not_yet_valid'']) else (True, failures))))"

definition check_revocation ::
  "platform \<Rightarrow> (string \<times> json) list \<Rightarrow> json \<Rightarrow> string \<Rightarrow> string \<Rightarrow> string list \<Rightarrow> string list result" where
  "check_revocation pf payload revocation_list pem at failures =
     (if revocation_list = JNull then Inr failures
      else bind_result (verify_revocation_list pf revocation_list (Some pem) at) (\<lambda>list_failures.
        if list_failures \<noteq> [] then
          (case list_issued_at pf revocation_list of
             None \<Rightarrow> Inr (failures @ list_failures)
           | Some coverage \<Rightarrow>
               Inr (if window_overlaps_list_coverage pf payload coverage then failures @ list_failures else failures))
        else
          (let doc = (case revocation_list of JDict doc \<Rightarrow> doc | _ \<Rightarrow> []);
               failures' = (if List.member (elements (get_or_null doc ''revoked_grant_ids'')) (get_or_null payload ''grant_id'')
                            then failures @ [''revoked''] else failures)
           in bind_result (parse_rfc3339 pf (str_of (get_or_null doc ''issued_at''))) (\<lambda>coverage.
                Inr (if window_overlaps_list_coverage pf payload coverage \<and>
                        (case parse_rfc3339 pf (str_of (get_or_null payload ''issued_at'')) of
                           Inl e \<Rightarrow> True | Inr issued \<Rightarrow> issued > coverage)
                     then failures' @ [''stale_revocation_list''] else failures')))))"

definition verify_grant ::
  "platform \<Rightarrow> json \<Rightarrow> string option \<Rightarrow> string \<Rightarrow> string option \<Rightarrow> json \<Rightarrow> GovVerification result" where
  "verify_grant pf grant pem at expected_key_id revocation_list =
     (case structural_failures grant of
        (failures, None) \<Rightarrow>
          Inr \<lparr> gv_valid = False, gv_signature_valid = False, gv_within_validity_window = False,
                gv_failure_codes = failures, gv_issuer_key_id = None, gv_payload = None \<rparr>
      | (failures, Some payload) \<Rightarrow>
          (let issuer = str_of (get_or_null payload ''issuer_key_id'');
               failures1 = failures @
                 (case expected_key_id of
                    None \<Rightarrow> []
                  | Some k \<Rightarrow> if issuer \<noteq> k then [''key_id_mismatch''] else [])
           in case pem of
                None \<Rightarrow>
                  Inr \<lparr> gv_valid = False, gv_signature_valid = False, gv_within_validity_window = False,
                        gv_failure_codes = failures1 @ [''missing_trust_root''],
                        gv_issuer_key_id = Some issuer, gv_payload = Some payload \<rparr>
              | Some pem \<Rightarrow>
                  bind_result
                    (check_signature pf pem (JStr issuer)
                       (case grant of JDict g \<Rightarrow> get_or_null g ''signature'' | _ \<Rightarrow> JNull) payload failures1)
                    (\<lambda>(signature_valid, failures2).
                  bind_result (check_window pf payload at failures2) (\<lambda>(within_window, failures3).
                  bind_result (check_revocation pf payload revocation_list pem at failures3) (\<lambda>failures4.
                    Inr \<lparr> gv_valid = (signature_valid \<and> within_window \<and> failures4 = []),
                          gv_signature_valid = signature_valid, gv_within_validity_window = within_window,
                          gv_failure_codes = failures4,
                          gv_issuer_key_id = Some issuer, gv_payload = Some payload \<rparr>)))))"

section \<open>Scope\<close>

definition constraint_met :: "(string \<times> json) list \<Rightarrow> string \<times> json \<Rightarrow> bool" where
  "constraint_met args = (\<lambda>(key, expected).
     key = ''tool'' \<or> key = ''source'' \<or>
     (case dict_get args key of None \<Rightarrow> False | Some v \<Rightarrow> py_eq v expected))"

text \<open>\<open>x in container\<close> for a string \<open>x\<close>: elements of a list, keys of a dictionary, parts of a string.\<close>

definition py_contains :: "json \<Rightarrow> string \<Rightarrow> bool result" where
  "py_contains container x =
     (case container of
        JList vs \<Rightarrow> Inr (List.member vs (JStr x))
      | JDict kvs \<Rightarrow> Inr (List.member (dict_keys kvs) x)
      | JStr s \<Rightarrow> Inr (list_ex (\<lambda>n. take (length x) (drop n s) = x) [0 ..< length s + 1])
      | _ \<Rightarrow> Inl TypeError)"

definition argument_failures :: "(string \<times> json) list \<Rightarrow> string \<Rightarrow> string \<Rightarrow> (string \<times> json) list \<Rightarrow> string list" where
  "argument_failures constraints source_id name args =
     (if get_or_null constraints ''tool'' \<noteq> JStr name \<or>
         (case dict_get constraints ''source'' of None \<Rightarrow> False | Some v \<Rightarrow> v \<noteq> JStr source_id)
      then [''scope_mismatch'']
      else if list_all (constraint_met args) constraints then [] else [''args_mismatch''])"

definition scope_failures ::
  "(string \<times> json) list \<Rightarrow> string \<Rightarrow> string \<Rightarrow> string \<Rightarrow> string \<Rightarrow> (string \<times> json) list
   \<Rightarrow> string list result" where
  "scope_failures payload principal_id provider_id source_id name args =
     bind_result (item payload ''provider_id'') (\<lambda>prov.
     bind_result (bind_result (item payload ''permitted_operations'') (\<lambda>ops. py_contains ops INVOKE_OPERATION)) (\<lambda>may.
     bind_result (item payload ''requesting_principal_id'') (\<lambda>req.
     bind_result (item payload ''argument_constraints'') (\<lambda>constraints.
       case constraints of
         JDict kvs \<Rightarrow>
           Inr ((if prov \<noteq> JStr provider_id then [''provider_mismatch''] else []) @
                (if may then [] else [''operation_not_permitted'']) @
                (if req \<noteq> JStr principal_id then [''principal_mismatch''] else []) @
                argument_failures kvs source_id name args)
       | _ \<Rightarrow> Inl AttributeError))))"

section \<open>What a valid grant is\<close>

definition well_formed_grant :: "json \<Rightarrow> (string \<times> json) list \<Rightarrow> string \<Rightarrow> bool" where
  "well_formed_grant grant payload signature \<longleftrightarrow>
     (case grant of
        JDict g \<Rightarrow> get_or_null g ''payload'' = JDict payload \<and>
                  get_or_null g ''signature_scheme'' = JStr ''Ed25519'' \<and>
                  get_or_null g ''signature'' = JStr signature
      | _ \<Rightarrow> False) \<and>
     dict_get payload ''grant_format_version'' = Some (JStr ''1'') \<and>
     list_all (required_ok payload) REQUIRED_PAYLOAD_FIELDS \<and>
     list_all (optional_ok payload) OPTIONAL_PAYLOAD_FIELDS"

text \<open>The signature text decodes to an Ed25519 signature, under the configured root, of the canonical bytes.\<close>

definition signed_by :: "platform \<Rightarrow> string \<Rightarrow> string \<Rightarrow> string \<Rightarrow> (string \<times> json) list \<Rightarrow> bool" where
  "signed_by pf root issuer signature doc \<longleftrightarrow>
     (case (load_pem_public_key pf root, b64d signature, canonical_payload_bytes doc) of
        (Inr (Ed25519 raw), Inr sig, Inr msg) \<Rightarrow> key_id raw = issuer \<and> ed25519_verify pf raw sig msg
      | _ \<Rightarrow> False)"

definition instant_field :: "platform \<Rightarrow> (string \<times> json) list \<Rightarrow> string \<Rightarrow> instant option" where
  "instant_field pf doc k =
     (case get_or_null doc k of
        JStr s \<Rightarrow> (case parse_rfc3339 pf s of Inl e \<Rightarrow> None | Inr t \<Rightarrow> Some t)
      | _ \<Rightarrow> None)"

definition started :: "platform \<Rightarrow> (string \<times> json) list \<Rightarrow> instant \<Rightarrow> bool" where
  "started pf payload t \<longleftrightarrow>
     dict_get payload ''not_before'' = Some JNull \<or>
     (case instant_field pf payload ''not_before'' of None \<Rightarrow> False | Some b \<Rightarrow> b \<le> t)"

definition unexpired :: "platform \<Rightarrow> (string \<times> json) list \<Rightarrow> instant \<Rightarrow> bool" where
  "unexpired pf payload t \<longleftrightarrow>
     dict_get payload ''not_after'' = Some JNull \<or>
     (case instant_field pf payload ''not_after'' of None \<Rightarrow> False | Some b \<Rightarrow> t < b)"

definition authentic_list :: "platform \<Rightarrow> (string \<times> json) list \<Rightarrow> string \<Rightarrow> instant \<Rightarrow> instant \<Rightarrow> bool" where
  "authentic_list pf doc root t issued \<longleftrightarrow>
     dict_get doc ''signature_scheme'' = Some (JStr ''Ed25519'') \<and>
     dict_get doc ''revocation_list_format_version'' = Some (JStr ''1'') \<and>
     list_all (list_field_ok doc) REQUIRED_REVOCATION_LIST_FIELDS \<and>
     list_all usable_id (elements (get_or_null doc ''revoked_grant_ids'')) \<and>
     instant_field pf doc ''issued_at'' = Some issued \<and> issued \<le> t \<and>
     signed_by pf root (str_of (get_or_null doc ''issuer_key_id'')) (str_of (get_or_null doc ''signature''))
       (filter (\<lambda>(k, v). k \<noteq> ''signature'') doc)"

lemma get_or_null_Some: "v \<noteq> JNull \<Longrightarrow> get_or_null d k = v \<longleftrightarrow> dict_get d k = Some v"
  by (auto simp: get_or_null_def split: option.splits)

lemma supported_version_iff:
  "supported_version SUPPORTED_FORMAT_VERSIONS v \<longleftrightarrow> v = JStr ''1''"
  "supported_version REVOCATION_LIST_FORMAT_VERSIONS v \<longleftrightarrow> v = JStr ''1''"
  by (auto simp: supported_version_def SUPPORTED_FORMAT_VERSIONS_def
      REVOCATION_LIST_FORMAT_VERSIONS_def split: json.splits)

lemma structural_failures_shape:
  assumes "get_or_null g ''payload'' = JDict payload" "get_or_null g ''signature_scheme'' = JStr scheme"
    "get_or_null g ''signature'' = JStr sig"
  shows "structural_failures (JDict g) = (fs, Some p) \<longleftrightarrow>
    fs = [] \<and> p = payload \<and> scheme = ''Ed25519'' \<and>
    dict_get payload ''grant_format_version'' = Some (JStr ''1'') \<and>
    list_all (required_ok payload) REQUIRED_PAYLOAD_FIELDS \<and>
    list_all (optional_ok payload) OPTIONAL_PAYLOAD_FIELDS"
  unfolding structural_failures_def json.case assms prod.case Let_def supported_version_iff
    get_or_null_Some [OF json.distinct(7) [THEN not_sym]] SIGNATURE_SCHEME_def
  by auto

lemma structural_failures_shapeless:
  assumes "\<not> (\<exists>g p scheme sig. grant = JDict g \<and> get_or_null g ''payload'' = JDict p \<and>
    get_or_null g ''signature_scheme'' = JStr scheme \<and> get_or_null g ''signature'' = JStr sig)"
  shows "structural_failures grant = ([''malformed_grant''], None)"
  using assms by (auto simp: structural_failures_def split: json.split)

lemma structural_failures_None:
  assumes "structural_failures grant = (fs, None)"
  shows "fs \<noteq> []"
proof (cases "\<exists>g p scheme sig. grant = JDict g \<and> get_or_null g ''payload'' = JDict p \<and>
    get_or_null g ''signature_scheme'' = JStr scheme \<and> get_or_null g ''signature'' = JStr sig")
  case True
  then obtain g p scheme sig where g: "grant = JDict g" "get_or_null g ''payload'' = JDict p"
    "get_or_null g ''signature_scheme'' = JStr scheme" "get_or_null g ''signature'' = JStr sig" by blast
  show ?thesis
    using assms unfolding structural_failures_def g json.case prod.case Let_def by (auto split: if_splits)
qed (use assms structural_failures_shapeless in auto)

lemma structural_failures_Some:
  "structural_failures grant = (fs, Some payload) \<longleftrightarrow>
     fs = [] \<and> (\<exists>sig. well_formed_grant grant payload sig)"
proof (cases "\<exists>g p scheme sig. grant = JDict g \<and> get_or_null g ''payload'' = JDict p \<and>
    get_or_null g ''signature_scheme'' = JStr scheme \<and> get_or_null g ''signature'' = JStr sig")
  case True
  then show ?thesis
    by (auto simp: structural_failures_shape well_formed_grant_def)
next
  case False
  then have "structural_failures grant = ([''malformed_grant''], None)"
    by (rule structural_failures_shapeless)
  moreover have "\<not> well_formed_grant grant payload sig" for sig
    using False by (auto simp: well_formed_grant_def split: json.splits)
  ultimately show ?thesis by simp
qed

lemma required_fieldD:
  assumes "list_all (required_ok payload) REQUIRED_PAYLOAD_FIELDS"
  shows "\<exists>s. dict_get payload ''grant_id'' = Some (JStr s) \<and> s \<noteq> []"
    and "\<exists>s. dict_get payload ''issuer_key_id'' = Some (JStr s) \<and> s \<noteq> []"
    and "\<exists>s. dict_get payload ''issued_at'' = Some (JStr s) \<and> s \<noteq> []"
    and "\<exists>s. dict_get payload ''decision_record_id'' = Some (JStr s) \<and> s \<noteq> []"
    and "\<exists>s. dict_get payload ''provider_id'' = Some (JStr s) \<and> s \<noteq> []"
    and "\<exists>s. dict_get payload ''requesting_principal_id'' = Some (JStr s) \<and> s \<noteq> []"
    and "\<exists>vs. dict_get payload ''permitted_operations'' = Some (JList vs)"
    and "\<exists>kvs. dict_get payload ''argument_constraints'' = Some (JDict kvs)"
proof -
  have str: "\<exists>s. dict_get payload k = Some (JStr s) \<and> s \<noteq> []" if "required_ok payload (k, [TStr])" for k
    using that by (auto simp: required_ok_def split: option.splits elim: is_instance.elims)
  have lst: "\<exists>s. dict_get payload k = Some (JList s)" if "required_ok payload (k, [TList])" for k
    using that by (auto simp: required_ok_def split: option.splits elim: is_instance.elims)
  have dct: "\<exists>s. dict_get payload k = Some (JDict s)" if "required_ok payload (k, [TDict])" for k
    using that by (auto simp: required_ok_def split: option.splits elim: is_instance.elims)
  show "\<exists>s. dict_get payload ''grant_id'' = Some (JStr s) \<and> s \<noteq> []"
    and "\<exists>s. dict_get payload ''issuer_key_id'' = Some (JStr s) \<and> s \<noteq> []"
    and "\<exists>s. dict_get payload ''issued_at'' = Some (JStr s) \<and> s \<noteq> []"
    and "\<exists>s. dict_get payload ''decision_record_id'' = Some (JStr s) \<and> s \<noteq> []"
    and "\<exists>s. dict_get payload ''provider_id'' = Some (JStr s) \<and> s \<noteq> []"
    and "\<exists>s. dict_get payload ''requesting_principal_id'' = Some (JStr s) \<and> s \<noteq> []"
    and "\<exists>vs. dict_get payload ''permitted_operations'' = Some (JList vs)"
    and "\<exists>kvs. dict_get payload ''argument_constraints'' = Some (JDict kvs)"
    using assms unfolding REQUIRED_PAYLOAD_FIELDS_def list.pred_inject by (intro str lst dct; blast)+
qed

lemma optional_fieldD:
  assumes "list_all (optional_ok payload) OPTIONAL_PAYLOAD_FIELDS"
    and "k = ''not_before'' \<or> k = ''not_after'' \<or> k = ''correlation_id''"
  shows "dict_get payload k = None \<or> dict_get payload k = Some JNull \<or> (\<exists>s. dict_get payload k = Some (JStr s))"
proof -
  have "optional_ok payload (k, [TStr, TNone])"
    using assms unfolding OPTIONAL_PAYLOAD_FIELDS_def list.pred_inject by blast
  then show ?thesis
    by (auto simp: optional_ok_def split: option.splits elim: is_instance.elims)
qed

lemma check_signature_Nil:
  "check_signature pf root (JStr issuer) sig doc fs = Inr (b, []) \<longleftrightarrow>
     fs = [] \<and> b \<and> signed_by pf root issuer (str_of sig) doc"
proof (cases "b64d (str_of sig)")
  case (Inl e)
  then show ?thesis
    by (auto simp: check_signature_def signed_by_def mismatch_def split: sum.splits loaded_key.splits if_splits)
next
  case (Inr s)
  then show ?thesis
    by (cases "canonical_payload_bytes doc")
      (auto simp: check_signature_def signed_by_def mismatch_def
        split: sum.splits loaded_key.splits if_splits bool.splits)
qed

lemma parse_rfc3339_Inl: "parse_rfc3339 pf s = Inl e \<Longrightarrow> e = ValueError"
  by (auto simp: parse_rfc3339_def Let_def split: option.splits datetime.splits)

text \<open>\<open>not_before\<close> and \<open>not_after\<close> of a well-formed payload: absent, null or a string.\<close>

lemma instant_field_simps:
  "dict_get d k = None \<Longrightarrow> instant_field pf d k = None"
  "dict_get d k = Some JNull \<Longrightarrow> instant_field pf d k = None"
  "dict_get d k = Some (JStr s) \<Longrightarrow>
     instant_field pf d k = (case parse_rfc3339 pf s of Inl e \<Rightarrow> None | Inr t \<Rightarrow> Some t)"
  by (simp_all add: instant_field_def get_or_null_def)

lemma check_not_after_Nil:
  assumes "list_all (optional_ok payload) OPTIONAL_PAYLOAD_FIELDS"
  shows "check_not_after pf payload t (w, fs) = Inr (b, []) \<longleftrightarrow> fs = [] \<and> b = w \<and> unexpired pf payload t"
proof -
  consider "dict_get payload ''not_after'' = None" | "dict_get payload ''not_after'' = Some JNull"
    | s where "dict_get payload ''not_after'' = Some (JStr s)"
    using optional_fieldD [OF assms, of "''not_after''"] by auto
  then show ?thesis
    by cases (auto simp: check_not_after_def item_def unexpired_def instant_field_simps split: sum.splits)
qed

lemma check_window_Nil:
  assumes "list_all (optional_ok payload) OPTIONAL_PAYLOAD_FIELDS"
  shows "check_window pf payload at fs = Inr (b, []) \<longleftrightarrow>
    fs = [] \<and> b \<and> (\<exists>t. parse_rfc3339 pf at = Inr t \<and> started pf payload t \<and> unexpired pf payload t)"
proof (cases "parse_rfc3339 pf at")
  case (Inl e)
  then show ?thesis by (simp add: check_window_def)
next
  case (Inr t)
  consider "dict_get payload ''not_before'' = None" | "dict_get payload ''not_before'' = Some JNull"
    | s where "dict_get payload ''not_before'' = Some (JStr s)"
    using optional_fieldD [OF assms, of "''not_before''"] by auto
  then show ?thesis
    using Inr by cases (auto simp: check_window_def item_def check_not_after_Nil [OF assms] started_def
        instant_field_simps split: sum.splits)
qed

lemma list_field_strD:
  assumes "list_all (list_field_ok doc) REQUIRED_REVOCATION_LIST_FIELDS"
    and "List.member [''issuer_key_id'', ''issued_at'', ''signature'', ''signature_scheme'',
           ''revocation_list_format_version''] k"
  shows "\<exists>s. dict_get doc k = Some (JStr s)"
proof -
  have "list_field_ok doc (k, [TStr])"
    using assms unfolding REQUIRED_REVOCATION_LIST_FIELDS_def list.pred_inject by auto
  then show ?thesis
    by (auto simp: list_field_ok_def split: option.splits elim: is_instance.elims)
qed

lemma revocation_list_structural_Some:
  "revocation_list_structural pf doc = (fs, Some issued) \<longleftrightarrow>
     fs = [] \<and> dict_get doc ''signature_scheme'' = Some (JStr ''Ed25519'') \<and>
     dict_get doc ''revocation_list_format_version'' = Some (JStr ''1'') \<and>
     list_all (list_field_ok doc) REQUIRED_REVOCATION_LIST_FIELDS \<and>
     list_all usable_id (elements (get_or_null doc ''revoked_grant_ids'')) \<and>
     instant_field pf doc ''issued_at'' = Some issued"
proof (cases "list_all (list_field_ok doc) REQUIRED_REVOCATION_LIST_FIELDS")
  case False
  then show ?thesis by (auto simp: revocation_list_structural_def Let_def)
next
  case True
  obtain i sc where i: "dict_get doc ''issued_at'' = Some (JStr i)"
    and sc: "dict_get doc ''signature_scheme'' = Some (JStr sc)"
    using list_field_strD [OF True, of "''issued_at''"] list_field_strD [OF True, of "''signature_scheme''"]
    by auto
  have g: "get_or_null doc ''issued_at'' = JStr i" "get_or_null doc ''signature_scheme'' = JStr sc"
    using i sc by (simp_all add: get_or_null_def)
  show ?thesis
    unfolding revocation_list_structural_def g json.case supported_version_iff Let_def
      instant_field_simps(3) [OF i] sc
    using True by (auto simp: SIGNATURE_SCHEME_def get_or_null_Some split: sum.splits)
qed

lemma verify_revocation_list_Nil:
  "verify_revocation_list pf rl (Some root) at = Inr [] \<longleftrightarrow>
     (\<exists>doc t issued. rl = JDict doc \<and> parse_rfc3339 pf at = Inr t \<and> authentic_list pf doc root t issued)"
proof (cases rl)
  case (JDict doc)
  show ?thesis
  proof (cases "revocation_list_structural pf doc")
    case (Pair fs oi)
    show ?thesis
    proof (cases oi)
      case None
      then have "fs \<noteq> []"
        using Pair by (auto simp: revocation_list_structural_def Let_def split: if_splits sum.splits)
      moreover have "\<not> authentic_list pf doc root t issued" for t issued
        using revocation_list_structural_Some [of pf doc "[]" issued] Pair None
        by (auto simp: authentic_list_def)
      ultimately show ?thesis
        using JDict Pair None by (simp add: verify_revocation_list_def)
    next
      case (Some issued)
      note shape = iffD1 [OF revocation_list_structural_Some Pair [unfolded Some]]
      then obtain iss where iss: "get_or_null doc ''issuer_key_id'' = JStr iss"
        using list_field_strD [of doc "''issuer_key_id''"] by (auto simp: get_or_null_def)
      show ?thesis
        using JDict Pair Some shape iss
        by (auto simp: verify_revocation_list_def authentic_list_def result_simps check_signature_Nil
            Let_def split: sum.splits if_splits)
    qed
  qed
qed (auto simp: verify_revocation_list_def)

text \<open>
  The state of the locally held list: none is held; or it is authentic, does not name the grant
  and is not older than the grant; or it is not authentic, but claims to have been issued no
  earlier than the grant's window ends.
\<close>

definition unrevoked ::
  "platform \<Rightarrow> (string \<times> json) list \<Rightarrow> json \<Rightarrow> string \<Rightarrow> instant \<Rightarrow> bool" where
  "unrevoked pf payload revocation_list root t \<longleftrightarrow>
     (case revocation_list of
        JNull \<Rightarrow> True
      | JDict doc \<Rightarrow>
          (case instant_field pf doc ''issued_at'' of
             None \<Rightarrow> False
           | Some c \<Rightarrow>
               if authentic_list pf doc root t c
               then get_or_null payload ''grant_id'' \<notin> set (elements (get_or_null doc ''revoked_grant_ids'')) \<and>
                    (case instant_field pf payload ''issued_at'' of None \<Rightarrow> False | Some i \<Rightarrow> i \<le> c)
               else (case instant_field pf payload ''not_after'' of None \<Rightarrow> False | Some b \<Rightarrow> b \<le> c))
      | _ \<Rightarrow> False)"

text \<open>The trust root loads, or is refused with the \<open>ValueError\<close> both verifiers catch.\<close>

definition root_readable :: "platform \<Rightarrow> string \<Rightarrow> bool" where
  "root_readable pf root \<longleftrightarrow> (case load_pem_public_key pf root of Inl e \<Rightarrow> e = ValueError | Inr k \<Rightarrow> True)"

lemma check_signature_total:
  assumes "root_readable pf root"
  shows "\<exists>b fs'. check_signature pf root issuer sig doc fs = Inr (b, fs')"
  using assms by (auto simp: root_readable_def check_signature_def mismatch_def
      split: loaded_key.splits sum.splits bool.splits)

lemma check_signature_raises:
  "check_signature pf root issuer sig doc fs = Inl e \<longleftrightarrow> load_pem_public_key pf root = Inl e \<and> e \<noteq> ValueError"
  by (auto simp: check_signature_def mismatch_def split: loaded_key.splits sum.splits bool.splits)

lemma verify_revocation_list_total:
  assumes "root_readable pf root"
  shows "\<exists>fs. verify_revocation_list pf rl (Some root) at = Inr fs"
proof (cases rl)
  case (JDict doc)
  show ?thesis
  proof (cases "revocation_list_structural pf doc")
    case (Pair fs oi)
    show ?thesis
    proof (cases oi)
      case None
      then show ?thesis using JDict Pair by (simp add: verify_revocation_list_def)
    next
      case (Some issued)
      define fs' where "fs' = fs @ (case parse_rfc3339 pf at of Inl e \<Rightarrow> [''malformed_revocation_list'']
                         | Inr t \<Rightarrow> if t < issued then [''not_yet_valid''] else [])"
      obtain b fs'' where "check_signature pf root (get_or_null doc ''issuer_key_id'')
          (get_or_null doc ''signature'') (filter (\<lambda>(k, v). k \<noteq> ''signature'') doc) fs' = Inr (b, fs'')"
        using check_signature_total [OF assms] by blast
      then show ?thesis
        using JDict Pair Some by (simp add: verify_revocation_list_def fs'_def [symmetric])
    qed
  qed
qed (auto simp: verify_revocation_list_def)

lemma window_overlaps_iff:
  assumes "list_all (optional_ok payload) OPTIONAL_PAYLOAD_FIELDS"
  shows "window_overlaps_list_coverage pf payload c \<longleftrightarrow>
    (case instant_field pf payload ''not_after'' of None \<Rightarrow> True | Some b \<Rightarrow> c < b)"
proof -
  consider "dict_get payload ''not_after'' = None" | "dict_get payload ''not_after'' = Some JNull"
    | s where "dict_get payload ''not_after'' = Some (JStr s)"
    using optional_fieldD [OF assms, of "''not_after''"] by auto
  then show ?thesis
    by cases (auto simp: window_overlaps_list_coverage_def get_or_null_def instant_field_simps split: sum.splits)
qed

lemma list_issued_at_iff:
  "list_issued_at pf rl = (case rl of JDict doc \<Rightarrow> instant_field pf doc ''issued_at'' | _ \<Rightarrow> None)"
  by (simp add: list_issued_at_def instant_field_def split: json.split)

lemma authentic_list_issued: "authentic_list pf doc root t c \<Longrightarrow> instant_field pf doc ''issued_at'' = Some c \<and> c \<le> t"
  by (simp add: authentic_list_def)

text \<open>An authentic list covers every instant at which a grant is unexpired.\<close>

lemma unexpired_overlaps:
  assumes "list_all (optional_ok payload) OPTIONAL_PAYLOAD_FIELDS" "unexpired pf payload t" "c \<le> t"
  shows "window_overlaps_list_coverage pf payload c"
  using assms(2,3) by (auto simp: window_overlaps_iff [OF assms(1)] unexpired_def instant_field_simps split: option.splits)

lemma check_revocation_Nil:
  assumes opt: "list_all (optional_ok payload) OPTIONAL_PAYLOAD_FIELDS"
    and req: "list_all (required_ok payload) REQUIRED_PAYLOAD_FIELDS"
    and at: "parse_rfc3339 pf at = Inr t" and live: "unexpired pf payload t"
    and key: "root_readable pf root"
  shows "check_revocation pf payload rl root at fs = Inr [] \<longleftrightarrow> fs = [] \<and> unrevoked pf payload rl root t"
proof (cases "\<exists>doc. rl = JDict doc")
  case False
  then have "rl = JNull \<or> (rl \<noteq> JNull \<and> \<not> unrevoked pf payload rl root t \<and>
      verify_revocation_list pf rl (Some root) at = Inr [''malformed_revocation_list''] \<and>
      list_issued_at pf rl = None)"
    by (cases rl) (auto simp: unrevoked_def verify_revocation_list_def list_issued_at_def)
  moreover have "unrevoked pf payload JNull root t" by (simp add: unrevoked_def)
  ultimately show ?thesis by (auto simp: check_revocation_def)
next
  case True
  then obtain doc where doc: "rl = JDict doc" by blast
  obtain lf where lf: "verify_revocation_list pf rl (Some root) at = Inr lf"
    using verify_revocation_list_total [OF key] by blast
  have auth: "lf = [] \<longleftrightarrow> (\<exists>c. authentic_list pf doc root t c)"
    using verify_revocation_list_Nil [of pf rl root at] lf doc at by auto
  obtain i where i: "dict_get payload ''issued_at'' = Some (JStr i)"
    using required_fieldD(3) [OF req] by blast
  show ?thesis
  proof (cases "\<exists>c. authentic_list pf doc root t c")
    case True
    then obtain c where c: "authentic_list pf doc root t c" by blast
    then have ic: "instant_field pf doc ''issued_at'' = Some c" "c \<le> t"
      using authentic_list_issued by blast+
    then obtain s where s: "get_or_null doc ''issued_at'' = JStr s" "parse_rfc3339 pf s = Inr c"
      by (auto simp: instant_field_def split: json.splits sum.splits)
    show ?thesis
      using True c ic s lf auth doc unexpired_overlaps [OF opt live ic(2)] i
      by (auto simp: check_revocation_def unrevoked_def instant_field_simps get_or_null_def [of payload "''issued_at''"]
          split: sum.splits)
  next
    case False
    then have "lf \<noteq> []" using auth by blast
    then show ?thesis
      using False lf doc
      by (auto simp: check_revocation_def unrevoked_def list_issued_at_iff window_overlaps_iff [OF opt]
          split: option.splits)
  qed
qed

lemma check_revocation_total:
  assumes "root_readable pf root"
  shows "\<exists>fs'. check_revocation pf payload rl root at fs = Inr fs'"
proof -
  obtain lf where lf: "verify_revocation_list pf rl (Some root) at = Inr lf"
    using verify_revocation_list_total [OF assms] by blast
  show ?thesis
  proof (cases "lf = []")
    case True
    then obtain doc t c where doc: "rl = JDict doc" "authentic_list pf doc root t c"
      using lf verify_revocation_list_Nil by blast
    then have "instant_field pf doc ''issued_at'' = Some c" by (simp add: authentic_list_issued)
    then obtain s where "get_or_null doc ''issued_at'' = JStr s" "parse_rfc3339 pf s = Inr c"
      by (auto simp: instant_field_def split: json.splits sum.splits)
    then show ?thesis using lf True doc by (simp add: check_revocation_def Let_def)
  next
    case False
    then show ?thesis using lf by (auto simp: check_revocation_def split: option.split)
  qed
qed

lemma check_revocation_grows: "check_revocation pf payload rl root at fs = Inr [] \<Longrightarrow> fs = []"
  by (auto simp: check_revocation_def result_simps Let_def split: if_splits option.splits)

lemma signed_by_readable: "signed_by pf root issuer sig doc \<Longrightarrow> root_readable pf root"
  by (auto simp: signed_by_def root_readable_def split: sum.splits)

lemma well_formed_signature:
  "well_formed_grant grant payload sig \<Longrightarrow>
     (case grant of JDict g \<Rightarrow> get_or_null g ''signature'' | _ \<Rightarrow> JNull) = JStr sig"
  by (auto simp: well_formed_grant_def split: json.splits)

lemma well_formed_unique:
  "well_formed_grant grant payload sig \<Longrightarrow> well_formed_grant grant payload' sig' \<Longrightarrow>
     payload = payload' \<and> sig = sig'"
  by (auto simp: well_formed_grant_def split: json.splits)

definition issuer_of :: "(string \<times> json) list \<Rightarrow> string" where
  "issuer_of payload = str_of (get_or_null payload ''issuer_key_id'')"

lemma verify_well_formed:
  assumes wf: "well_formed_grant grant payload sig"
  shows "(\<exists>v. verify_grant pf grant (Some root) at expected rl = Inr v \<and> gv_valid v) \<longleftrightarrow>
    (expected = None \<or> expected = Some (issuer_of payload)) \<and>
    signed_by pf root (issuer_of payload) sig payload \<and>
    (\<exists>t. parse_rfc3339 pf at = Inr t \<and> started pf payload t \<and> unexpired pf payload t \<and>
         unrevoked pf payload rl root t)" (is "?valid \<longleftrightarrow> ?spec")
proof -
  have str: "structural_failures grant = ([], Some payload)"
    using wf structural_failures_Some by blast
  have opt: "list_all (optional_ok payload) OPTIONAL_PAYLOAD_FIELDS"
    and req: "list_all (required_ok payload) REQUIRED_PAYLOAD_FIELDS"
    using wf by (simp_all add: well_formed_grant_def)
  define fs1 where "fs1 = (case expected of None \<Rightarrow> []
                           | Some k \<Rightarrow> if issuer_of payload \<noteq> k then [''key_id_mismatch''] else [])"
  have fs1: "fs1 = [] \<longleftrightarrow> expected = None \<or> expected = Some (issuer_of payload)"
    by (auto simp: fs1_def split: option.split)
  have "?valid \<longleftrightarrow> (\<exists>fs2 fs3. check_signature pf root (JStr (issuer_of payload)) (JStr sig) payload fs1 = Inr (True, fs2) \<and>
      check_window pf payload at fs2 = Inr (True, fs3) \<and> check_revocation pf payload rl root at fs3 = Inr [])"
    unfolding verify_grant_def str well_formed_signature [OF wf] Let_def issuer_of_def [symmetric]
    by (simp add: result_simps fs1_def [symmetric]) force
  also have "\<dots> \<longleftrightarrow> ?spec"
  proof
    assume "\<exists>fs2 fs3. check_signature pf root (JStr (issuer_of payload)) (JStr sig) payload fs1 = Inr (True, fs2) \<and>
      check_window pf payload at fs2 = Inr (True, fs3) \<and> check_revocation pf payload rl root at fs3 = Inr []"
    then obtain fs2 fs3 where run: "check_signature pf root (JStr (issuer_of payload)) (JStr sig) payload fs1 = Inr (True, fs2)"
      "check_window pf payload at fs2 = Inr (True, fs3)" "check_revocation pf payload rl root at fs3 = Inr []"
      by blast
    have fs3: "fs3 = []" using check_revocation_grows [OF run(3)] .
    then obtain t where win: "fs2 = []" "parse_rfc3339 pf at = Inr t" "started pf payload t" "unexpired pf payload t"
      using run(2) by (auto simp: check_window_Nil [OF opt])
    then have sig: "fs1 = []" "signed_by pf root (issuer_of payload) sig payload"
      using run(1) by (simp_all add: check_signature_Nil)
    then show ?spec
      using run(3) win fs1 check_revocation_Nil [OF opt req win(2,4) signed_by_readable] by blast
  next
    assume ?spec
    then obtain t where spec: "expected = None \<or> expected = Some (issuer_of payload)"
      "signed_by pf root (issuer_of payload) sig payload" "parse_rfc3339 pf at = Inr t"
      "started pf payload t" "unexpired pf payload t" "unrevoked pf payload rl root t" by blast
    have "check_signature pf root (JStr (issuer_of payload)) (JStr sig) payload fs1 = Inr (True, [])"
      using spec fs1 by (simp add: check_signature_Nil)
    moreover have "check_window pf payload at [] = Inr (True, [])"
      using spec by (simp add: check_window_Nil [OF opt])
    moreover have "check_revocation pf payload rl root at [] = Inr []"
      using spec signed_by_readable by (simp add: check_revocation_Nil [OF opt req])
    ultimately show "\<exists>fs2 fs3. check_signature pf root (JStr (issuer_of payload)) (JStr sig) payload fs1 = Inr (True, fs2) \<and>
      check_window pf payload at fs2 = Inr (True, fs3) \<and> check_revocation pf payload rl root at fs3 = Inr []"
      by blast
  qed
  finally show ?thesis .
qed

section \<open>Verification: properties\<close>

lemma verify_malformed:
  assumes "\<nexists>payload sig. well_formed_grant grant payload sig"
  shows "\<exists>fs. fs \<noteq> [] \<and> verify_grant pf grant pem at expected rl =
    Inr \<lparr> gv_valid = False, gv_signature_valid = False, gv_within_validity_window = False,
          gv_failure_codes = fs, gv_issuer_key_id = None, gv_payload = None \<rparr>"
proof -
  obtain fs r where r: "structural_failures grant = (fs, r)" by fastforce
  then have "r = None"
    using assms by (cases r) (simp_all add: structural_failures_Some)
  then have r: "structural_failures grant = (fs, None)" using r by simp
  show ?thesis
    by (rule exI [of _ fs]) (simp add: verify_grant_def r structural_failures_None [OF r])
qed

text \<open>C12: A governance grant is reported valid exactly when it is well-formed with the supported
  scheme and version, its signature over the canonical payload verifies under the configured trust
  root, whose id the payload names as issuer (and which is the pinned one, if one is pinned), the
  instant lies in [not_before, not_after), and the locally held revocation list, if any, is
  authentic, does not name the grant and is not older than the grant; the one exception is a list
  that is not authentic and claims to have been issued at or after the end of the grant's window,
  which is ignored.\<close>

theorem verify_grant_valid_iff:
  "(\<exists>v. verify_grant pf grant pem at expected rl = Inr v \<and> gv_valid v) \<longleftrightarrow>
     (\<exists>payload sig root t.
        well_formed_grant grant payload sig \<and> pem = Some root \<and>
        (expected = None \<or> expected = Some (issuer_of payload)) \<and>
        signed_by pf root (issuer_of payload) sig payload \<and>
        parse_rfc3339 pf at = Inr t \<and> started pf payload t \<and> unexpired pf payload t \<and>
        unrevoked pf payload rl root t)"
proof (cases "\<exists>payload sig. well_formed_grant grant payload sig")
  case False
  then show ?thesis using verify_malformed [OF False, of pf pem at expected rl] by auto
next
  case True
  then obtain payload sig where wf: "well_formed_grant grant payload sig" by blast
  then have str: "structural_failures grant = ([], Some payload)"
    using structural_failures_Some by blast
  show ?thesis
  proof (cases pem)
    case None
    then show ?thesis by (simp add: verify_grant_def str Let_def)
  next
    case (Some root)
    have uniq: "(\<exists>p s r t. well_formed_grant grant p s \<and> pem = Some r \<and> Q p s r t) \<longleftrightarrow>
        (\<exists>t. Q payload sig root t)" for Q
      using wf well_formed_unique [OF wf] Some by blast
    show ?thesis
      unfolding uniq unfolding Some verify_well_formed [OF wf] by blast
  qed
qed

text \<open>A key the payload lacks is met: \<open>not_before\<close> first, \<open>not_after\<close> once \<open>not_before\<close> is read.\<close>

definition window_key_missing :: "platform \<Rightarrow> (string \<times> json) list \<Rightarrow> bool" where
  "window_key_missing pf payload \<longleftrightarrow>
     dict_get payload ''not_before'' = None \<or>
     ((dict_get payload ''not_before'' = Some JNull \<or> instant_field pf payload ''not_before'' \<noteq> None) \<and>
      dict_get payload ''not_after'' = None)"

lemma check_window_raises:
  assumes opt: "list_all (optional_ok payload) OPTIONAL_PAYLOAD_FIELDS"
  shows "check_window pf payload at fs = Inl e \<longleftrightarrow>
    e = KeyError \<and> (\<exists>t. parse_rfc3339 pf at = Inr t) \<and> window_key_missing pf payload"
proof -
  have after: "check_not_after pf payload t w = Inl e \<longleftrightarrow> e = KeyError \<and> dict_get payload ''not_after'' = None" for t w
    by (auto simp: check_not_after_def item_def result_simps split: option.splits sum.splits prod.splits if_splits)
  consider "dict_get payload ''not_before'' = None" | "dict_get payload ''not_before'' = Some JNull"
    | s where "dict_get payload ''not_before'' = Some (JStr s)"
    using optional_fieldD [OF opt, of "''not_before''"] by auto
  then show ?thesis
    by cases (auto simp: check_window_def window_key_missing_def item_def after instant_field_simps
        split: sum.splits)
qed

text \<open>C38: The verifier raises in two cases only: loading the configured key raises something
  other than ValueError; or the grant is well-formed, a root is configured and the instant is
  readable, and the payload has no not_before, or no not_after once not_before has been read. The
  second case is a KeyError, for fields that the shape check accepts as optional.\<close>

theorem verify_grant_raises_iff:
  "verify_grant pf grant pem at expected rl = Inl e \<longleftrightarrow>
     (\<exists>payload sig root. well_formed_grant grant payload sig \<and> pem = Some root \<and>
        (if root_readable pf root
         then e = KeyError \<and> (\<exists>t. parse_rfc3339 pf at = Inr t) \<and> window_key_missing pf payload
         else load_pem_public_key pf root = Inl e))"
proof (cases "\<exists>payload sig. well_formed_grant grant payload sig")
  case False
  then show ?thesis using verify_malformed [OF False, of pf pem at expected rl] by auto
next
  case True
  then obtain payload sig where wf: "well_formed_grant grant payload sig" by blast
  have str: "structural_failures grant = ([], Some payload)"
    using wf structural_failures_Some by blast
  have opt: "list_all (optional_ok payload) OPTIONAL_PAYLOAD_FIELDS"
    using wf by (simp add: well_formed_grant_def)
  have uniq: "(\<exists>p s r. well_formed_grant grant p s \<and> pem = Some r \<and> Q p r) \<longleftrightarrow> (\<exists>r. pem = Some r \<and> Q payload r)" for Q
    using wf well_formed_unique [OF wf] by blast
  show ?thesis
  proof (cases pem)
    case None
    then show ?thesis by (simp add: verify_grant_def str Let_def)
  next
    case (Some root)
    define fs1 where "fs1 = (case expected of None \<Rightarrow> []
                           | Some k \<Rightarrow> if issuer_of payload \<noteq> k then [''key_id_mismatch''] else [])"
    show ?thesis
    proof (cases "root_readable pf root")
      case True
      obtain b fs2 where sig: "check_signature pf root (JStr (issuer_of payload)) (JStr sig) payload fs1 = Inr (b, fs2)"
        using check_signature_total [OF True] by blast
      have tot: "check_revocation pf payload rl root at fs \<noteq> Inl e" for fs
        using check_revocation_total [OF True, of payload rl at fs] by auto
      have "verify_grant pf grant pem at expected rl = Inl e \<longleftrightarrow> check_window pf payload at fs2 = Inl e"
        unfolding verify_grant_def str Some Let_def well_formed_signature [OF wf] issuer_of_def [symmetric]
        by (auto simp: result_simps fs1_def [symmetric] sig tot)
      then show ?thesis unfolding uniq using True Some check_window_raises [OF opt] by simp
    next
      case False
      then have load: "load_pem_public_key pf root = Inl e' \<Longrightarrow> e' \<noteq> ValueError" for e'
        by (auto simp: root_readable_def)
      obtain e' where e': "load_pem_public_key pf root = Inl e'"
        using False by (auto simp: root_readable_def split: sum.splits)
      then have "check_signature pf root (JStr (issuer_of payload)) (JStr sig) payload fs1 = Inl e'"
        using load by (simp add: check_signature_raises)
      then have "verify_grant pf grant pem at expected rl = Inl e'"
        unfolding verify_grant_def str Some Let_def well_formed_signature [OF wf] issuer_of_def [symmetric]
        by (simp add: fs1_def [symmetric])
      then show ?thesis unfolding uniq using False Some e' by auto
    qed
  qed
qed

section \<open>Scope: properties\<close>

text \<open>For a well-formed payload the scope check never raises, and reports no failure exactly
  when the grant names this provider, permits tool invocation, was requested by the calling
  principal, is constrained to this tool (and to this source, if it constrains the source), and
  every other constraint equals, in Python's sense, the argument of that name.\<close>

theorem scope_failures_exact:
  assumes "well_formed_grant grant payload sig"
  shows "\<exists>fs. scope_failures payload principal_id provider_id source_id name args = Inr fs \<and>
    (fs = [] \<longleftrightarrow>
       get_or_null payload ''provider_id'' = JStr provider_id \<and>
       JStr ''tool.invoke'' \<in> set (elements (get_or_null payload ''permitted_operations'')) \<and>
       get_or_null payload ''requesting_principal_id'' = JStr principal_id \<and>
       (\<exists>constraints. get_or_null payload ''argument_constraints'' = JDict constraints \<and>
          dict_get constraints ''tool'' = Some (JStr name) \<and>
          dict_get constraints ''source'' \<in> {None, Some (JStr source_id)} \<and>
          list_all (\<lambda>(k, expected). List.member [''tool'', ''source''] k \<or>
                      (\<exists>v. dict_get args k = Some v \<and> py_eq v expected)) constraints))"
proof -
  have req: "list_all (required_ok payload) REQUIRED_PAYLOAD_FIELDS"
    using assms by (simp add: well_formed_grant_def)
  obtain prov rq ops cs where f: "dict_get payload ''provider_id'' = Some (JStr prov)"
    "dict_get payload ''requesting_principal_id'' = Some (JStr rq)"
    "dict_get payload ''permitted_operations'' = Some (JList ops)"
    "dict_get payload ''argument_constraints'' = Some (JDict cs)"
    using required_fieldD [OF req] by blast
  have met: "constraint_met args = (\<lambda>(k, expected). List.member [''tool'', ''source''] k \<or>
                      (\<exists>v. dict_get args k = Some v \<and> py_eq v expected))"
    by (auto simp: constraint_met_def fun_eq_iff split: option.splits)
  have "argument_failures cs source_id name args = [] \<longleftrightarrow>
      dict_get cs ''tool'' = Some (JStr name) \<and> dict_get cs ''source'' \<in> {None, Some (JStr source_id)} \<and>
      list_all (constraint_met args) cs"
    by (auto simp: argument_failures_def get_or_null_Some split: option.splits)
  then show ?thesis
    by (simp add: scope_failures_def item_def f py_contains_def get_or_null_def INVOKE_OPERATION_def met)
qed

text \<open>The argument constraints are compared with Python's equality, not with equality of JSON
  values: a grant constrained to the boolean true is accepted for the integer argument 1.\<close>

theorem scope_equality_is_python:
  "argument_failures [(''tool'', JStr ''t''), (''dry_run'', JBool True)] ''s'' ''t'' [(''dry_run'', JInt 1)] = [] \<and>
   dumps (JBool True) \<noteq> dumps (JInt 1)"
  by (simp add: argument_failures_def get_or_null_def constraint_met_def show_int_def show_nat.simps digit_char_def)

section \<open>A concrete grant\<close>

definition demo_gov_payload :: "(string \<times> json) list" where
  "demo_gov_payload =
     [(''grant_format_version'', JStr ''1''), (''grant_id'', JStr ''g1''), (''decision_record_id'', JStr ''d1''),
      (''work_request_id'', JStr ''w1''), (''requesting_principal_id'', JStr ''p1''),
      (''organization_id'', JStr ''o1''), (''workspace_id'', JStr ''ws''), (''provider_id'', JStr ''toolconnect''),
      (''permitted_operations'', JList [JStr ''tool.invoke'']),
      (''argument_constraints'', JDict [(''tool'', JStr ''t'')]),
      (''data_classifications'', JList []), (''policy_versions'', JList []), (''kernel_version'', JStr ''1''),
      (''issued_at'', JStr ''T0''), (''issuer_key_id'', JStr (key_id [])),
      (''not_before'', JNull), (''not_after'', JStr ''T2'')]"

definition demo_gov_grant :: json where
  "demo_gov_grant = JDict [(''payload'', JDict demo_gov_payload), (''signature_scheme'', JStr ''Ed25519''),
     (''signature'', JStr ''AA'')]"

text \<open>A platform that knows one key, accepts every signature and reads four instants.\<close>

definition demo_platform :: platform where
  "demo_platform = \<lparr> load_pem_public_key = (\<lambda>pem. Inr (Ed25519 [])), ed25519_verify = (\<lambda>k s m. True),
     fromisoformat = map_of [(''T0'', Aware 0), (''T1'', Aware 1), (''T2'', Aware 2), (''T3'', Aware 3)] \<rparr>"

text \<open>A list that names the grant, dated after the grant's window.\<close>

definition demo_postdated_list :: "(string \<times> json) list" where
  "demo_postdated_list = [(''issued_at'', JStr ''T3''), (''revoked_grant_ids'', JList [JStr ''g1''])]"

lemma demo_gov_fields:
  "get_or_null demo_gov_payload ''grant_id'' = JStr ''g1''"
  "get_or_null demo_gov_payload ''provider_id'' = JStr ''toolconnect''"
  "get_or_null demo_gov_payload ''requesting_principal_id'' = JStr ''p1''"
  "get_or_null demo_gov_payload ''permitted_operations'' = JList [JStr ''tool.invoke'']"
  "get_or_null demo_gov_payload ''argument_constraints'' = JDict [(''tool'', JStr ''t'')]"
  "dict_get demo_gov_payload ''not_before'' = Some JNull"
  "dict_get demo_gov_payload ''not_after'' = Some (JStr ''T2'')"
  "issuer_of demo_gov_payload = key_id []"
  by (simp_all add: demo_gov_payload_def get_or_null_def issuer_of_def)

lemma demo_gov_well_formed: "well_formed_grant demo_gov_grant demo_gov_payload ''AA''"
proof -
  have k: "key_id [] \<noteq> []" by (simp add: key_id_def)
  have "list_all (required_ok demo_gov_payload) REQUIRED_PAYLOAD_FIELDS"
    using k by (simp add: REQUIRED_PAYLOAD_FIELDS_def required_ok_def demo_gov_payload_def)
  moreover have "list_all (optional_ok demo_gov_payload) OPTIONAL_PAYLOAD_FIELDS"
    by (simp add: OPTIONAL_PAYLOAD_FIELDS_def optional_ok_def demo_gov_payload_def)
  moreover have "dict_get demo_gov_payload ''grant_format_version'' = Some (JStr ''1'')"
    by (simp add: demo_gov_payload_def)
  ultimately show ?thesis by (simp add: well_formed_grant_def demo_gov_grant_def get_or_null_def)
qed

lemma demo_platform_instants:
  "parse_rfc3339 demo_platform ''T0'' = Inr 0"
  "parse_rfc3339 demo_platform ''T1'' = Inr 1"
  "parse_rfc3339 demo_platform ''T2'' = Inr 2"
  "parse_rfc3339 demo_platform ''T3'' = Inr 3"
  by code_simp+

lemma demo_gov_signed: "signed_by demo_platform root (key_id []) ''AA'' demo_gov_payload"
proof -
  have "b64d ''AA'' = Inr [0]" by code_simp
  moreover have "all_finite (JDict demo_gov_payload)" by (simp add: demo_gov_payload_def)
  ultimately show ?thesis
    by (simp add: signed_by_def demo_platform_def canonical_payload_bytes_def)
qed

lemma demo_gov_window: "started demo_platform demo_gov_payload 1" "unexpired demo_platform demo_gov_payload 1"
  by (simp_all add: started_def unexpired_def demo_gov_fields instant_field_simps demo_platform_instants)

lemma demo_gov_valid:
  "\<exists>v. verify_grant demo_platform demo_gov_grant (Some root) ''T1'' None JNull = Inr v \<and> gv_valid v"
  unfolding verify_well_formed [OF demo_gov_well_formed]
  using demo_gov_signed demo_gov_window demo_platform_instants(2)
  by (auto simp: demo_gov_fields unrevoked_def)

theorem scope_failures_exact_witness:
  "well_formed_grant demo_gov_grant demo_gov_payload ''AA'' \<and>
   scope_failures demo_gov_payload ''p1'' ''toolconnect'' ''s'' ''t'' [] = Inr []"
  using demo_gov_well_formed
    scope_failures_exact [OF demo_gov_well_formed, of "''p1''" "''toolconnect''" "''s''" "''t''" "[]"]
  by (simp add: demo_gov_fields)

text \<open>A held list dated at or after the end of a grant's window is ignored, whatever it says:
  a grant that is valid when no list is held stays valid when such a list names it as revoked,
  although its window has not ended at the instant of verification.\<close>

theorem postdated_list_ignored:
  assumes "verify_grant pf grant pem at expected JNull = Inr v" "gv_valid v"
    and "gv_payload v = Some payload"
    and "instant_field pf payload ''not_after'' = Some b" "instant_field pf doc ''issued_at'' = Some c" "b \<le> c"
  shows "\<exists>v'. verify_grant pf grant pem at expected (JDict doc) = Inr v' \<and> gv_valid v'"
proof -
  obtain p sig where wf: "well_formed_grant grant p sig"
    using assms(1,2) verify_malformed [of grant pf pem at expected JNull] by fastforce
  have str: "structural_failures grant = ([], Some p)"
    using wf structural_failures_Some by blast
  obtain root where pem: "pem = Some root"
    using assms(1,2) by (cases pem) (auto simp: verify_grant_def str Let_def)
  have "payload = p"
    using assms(1,3) by (auto simp: verify_grant_def str pem Let_def result_simps)
  then have ends: "instant_field pf p ''not_after'' = Some b" using assms(4) by simp
  obtain t where t: "expected = None \<or> expected = Some (issuer_of p)" "signed_by pf root (issuer_of p) sig p"
    "parse_rfc3339 pf at = Inr t" "started pf p t" "unexpired pf p t"
    using assms(1,2) verify_well_formed [OF wf, of pf root at expected JNull] pem by blast
  have "t < b" using t(5) ends by (auto simp: unexpired_def instant_field_simps)
  then have "\<not> authentic_list pf doc root t c'" for c'
    using authentic_list_issued [of pf doc root t c'] assms(5,6) by auto
  then have "unrevoked pf p (JDict doc) root t"
    using ends assms(5,6) by (simp add: unrevoked_def)
  then show ?thesis unfolding pem verify_well_formed [OF wf] using t by blast
qed

theorem postdated_list_ignored_witness:
  "\<exists>v. verify_grant demo_platform demo_gov_grant (Some []) ''T1'' None (JDict demo_postdated_list) = Inr v \<and>
     gv_valid v \<and> JStr ''g1'' \<in> set (elements (get_or_null demo_postdated_list ''revoked_grant_ids''))"
proof -
  obtain v where v: "verify_grant demo_platform demo_gov_grant (Some []) ''T1'' None JNull = Inr v" "gv_valid v"
    using demo_gov_valid by blast
  have str: "structural_failures demo_gov_grant = ([], Some demo_gov_payload)"
    using demo_gov_well_formed structural_failures_Some by blast
  have "gv_payload v = Some demo_gov_payload"
    using v(1) by (auto simp: verify_grant_def str Let_def result_simps)
  moreover have "instant_field demo_platform demo_gov_payload ''not_after'' = Some 2"
    by (simp add: instant_field_simps demo_gov_fields demo_platform_instants)
  moreover have "instant_field demo_platform demo_postdated_list ''issued_at'' = Some 3"
    by (simp add: instant_field_def get_or_null_def demo_postdated_list_def demo_platform_instants)
  ultimately show ?thesis
    using postdated_list_ignored [OF v, of demo_gov_payload 2 demo_postdated_list 3]
    by (auto simp: demo_postdated_list_def get_or_null_def)
qed

end
