(* ===== verification/Mcp_Source.thy ===== *)
theory Mcp_Source
  imports Govgrants
begin

text \<open>
  \<open>mcp_source.py\<close>: discovery of a server's tools over newline-delimited JSON-RPC. The server
  process is the environment: the record \<open>peer\<close> holds what the polls before the deadline return,
  in order (an empty list of polls means that the deadline has passed), which writes fail, and the
  messages written so far. Every poll is an arbitrary choice of the server, so a property proved
  for all peers holds for every server, hostile ones included. The decoding of a frame's bytes by
  \<open>json.loads\<close> is a parameter, which may raise \<open>JSONDecodeError\<close> or \<open>UnicodeDecodeError\<close>.
\<close>

section \<open>Data\<close>

type_synonym bytes = "8 word list"
type_synonym decoder = "bytes \<Rightarrow> json result"

definition PROTOCOL_VERSION :: string where "PROTOCOL_VERSION = ''2025-06-18''"

definition CLIENT_INFO :: json where
  "CLIENT_INFO = JDict [(''name'', JStr ''toolconnect''), (''version'', JStr ''0.1.0'')]"

definition FAULT_KINDS :: "string list" where
  "FAULT_KINDS = [''spawn_failed'', ''timeout'', ''malformed_json'', ''truncated_response'',
     ''protocol_error'', ''duplicate_tool'']"

record DiscoveredTool =
  dt_name :: string
  dt_claimed :: ClaimedMetadata
  dt_input_schema :: json
  dt_version :: string

record DiscoveryResult =
  dc_server_name :: string
  dc_server_version :: string
  dc_protocol_version :: string
  dc_tools :: "DiscoveredTool list"

text \<open>What one \<open>select\<close> and \<open>os.read\<close> return: nothing yet, or a chunk; the empty chunk ends the stream.\<close>

datatype poll = NotReady | Chunk bytes

record peer =
  pe_buf :: bytes
  pe_eof :: bool
  pe_polls :: "poll list"
  pe_write_fails :: "nat \<Rightarrow> bool"
  pe_sent :: "json list"

section \<open>Reading JSON values\<close>

text \<open>A value must have a given type, or an error is returned.\<close>

lemma case_json_Inr [result_simps]:
  "(case v of JStr s \<Rightarrow> f s | _ \<Rightarrow> Inl e) = Inr r \<longleftrightarrow> (\<exists>s. v = JStr s \<and> f s = Inr r)"
  "(case v of JList vs \<Rightarrow> g vs | _ \<Rightarrow> Inl e) = Inr r \<longleftrightarrow> (\<exists>vs. v = JList vs \<and> g vs = Inr r)"
  "(case v of JDict kvs \<Rightarrow> h kvs | _ \<Rightarrow> Inl e) = Inr r \<longleftrightarrow> (\<exists>kvs. v = JDict kvs \<and> h kvs = Inr r)"
  by (cases v; simp)+

lemma case_json_run [sx_simps]:
  "(case v of JStr x \<Rightarrow> f x | _ \<Rightarrow> sx_raise e) s = (Inr r, s') \<longleftrightarrow> (\<exists>x. v = JStr x \<and> f x s = (Inr r, s'))"
  by (cases v) (auto simp: sx_simps)

section \<open>Transport\<close>

definition newline :: "8 word" where "newline = 10"

definition send :: "json \<Rightarrow> (peer, unit) sx" where
  "send message s =
     (let s' = s\<lparr>pe_write_fails := \<lambda>n. pe_write_fails s (Suc n)\<rparr>
      in if pe_write_fails s 0 then (Inl (McpDiscoveryError ''truncated_response''), s')
         else (Inr (), s'\<lparr>pe_sent := pe_sent s @ [message]\<rparr>))"

text \<open>The loop of \<open>_read_line\<close>: fill the buffer until it holds a newline.\<close>

fun fill :: "bytes \<Rightarrow> bool \<Rightarrow> poll list \<Rightarrow> unit result \<times> bytes \<times> bool \<times> poll list" where
  "fill buf eof [] =
     (if newline \<in> set buf then (Inr (), buf, eof, []) else (Inl (McpDiscoveryError ''timeout''), buf, eof, []))"
| "fill buf eof (p # ps) =
     (if newline \<in> set buf then (Inr (), buf, eof, p # ps)
      else if eof then (Inl (McpDiscoveryError ''truncated_response''), buf, eof, p # ps)
      else case p of
             NotReady \<Rightarrow> fill buf eof ps
           | Chunk bs \<Rightarrow>
               if bs = [] then
                 (if buf = [] then (Inl (McpDiscoveryError ''truncated_response''), buf, True, ps)
                  else fill buf True ps)
               else fill (buf @ bs) eof ps)"

definition read_line :: "(peer, bytes) sx" where
  "read_line s =
     (case fill (pe_buf s) (pe_eof s) (pe_polls s) of
        (Inl e, buf, eof, ps) \<Rightarrow> (Inl e, s\<lparr>pe_buf := buf, pe_eof := eof, pe_polls := ps\<rparr>)
      | (Inr u, buf, eof, ps) \<Rightarrow>
          (Inr (takeWhile (\<lambda>b. b \<noteq> newline) buf),
           s\<lparr>pe_buf := tl (dropWhile (\<lambda>b. b \<noteq> newline) buf), pe_eof := eof, pe_polls := ps\<rparr>))"

definition is_jsonrpc :: "json \<Rightarrow> bool" where
  "is_jsonrpc msg = (case msg of JDict kvs \<Rightarrow> get_or_null kvs ''jsonrpc'' = JStr ''2.0'' | _ \<Rightarrow> False)"

definition receive :: "decoder \<Rightarrow> (peer, (string \<times> json) list) sx" where
  "receive decode =
     sx_bind read_line (\<lambda>line.
     sx_lift (case decode line of
       Inl e \<Rightarrow> Inl (if e = JSONDecodeError then McpDiscoveryError ''malformed_json'' else e)
     | Inr (JDict kvs) \<Rightarrow>
         (if is_jsonrpc (JDict kvs) then Inr kvs else Inl (McpDiscoveryError ''protocol_error''))
     | Inr _ \<Rightarrow> Inl (McpDiscoveryError ''protocol_error'')))"

text \<open>The answer to a request: a JSON-RPC error object is read with \<open>.get\<close>, which only dictionaries have.\<close>

definition reply_result :: "(string \<times> json) list \<Rightarrow> json result" where
  "reply_result msg =
     (case dict_get msg ''error'' of
        Some err \<Rightarrow>
          bind_result (method_get err ''code'') (\<lambda>_.
          bind_result (method_get err ''message'') (\<lambda>_. Inl (McpDiscoveryError ''protocol_error'')))
      | None \<Rightarrow>
          (case dict_get msg ''result'' of
             Some r \<Rightarrow> Inr r
           | None \<Rightarrow> Inl (McpDiscoveryError ''protocol_error'')))"

text \<open>Every frame read consumes input, so waiting for a reply ends.\<close>

fun poll_size :: "poll \<Rightarrow> nat" where
  "poll_size NotReady = 0"
| "poll_size (Chunk bs) = length bs"

definition input_left :: "peer \<Rightarrow> nat" where
  "input_left s = length (pe_buf s) + sum_list (map poll_size (pe_polls s))"

lemma fill_size:
  "fill buf eof ps = (r, buf', eof', ps') \<Longrightarrow>
     length buf' + sum_list (map poll_size ps') \<le> length buf + sum_list (map poll_size ps)"
  by (induction buf eof ps rule: fill.induct) (auto split: if_splits poll.splits)

lemma fill_Inr: "fill buf eof ps = (Inr u, buf', eof', ps') \<Longrightarrow> newline \<in> set buf'"
  by (induction buf eof ps rule: fill.induct) (auto split: if_splits poll.splits)

lemma read_line_consumes:
  assumes "read_line s = (Inr line, s')"
  shows "input_left s' < input_left s"
proof -
  obtain r buf eof ps where f: "fill (pe_buf s) (pe_eof s) (pe_polls s) = (r, buf, eof, ps)"
    by (metis prod_cases4)
  then have r: "r = Inr ()" "pe_buf s' = tl (dropWhile (\<lambda>b. b \<noteq> newline) buf)" "pe_polls s' = ps"
    using assms by (auto simp: read_line_def split: sum.splits)
  have "newline \<in> set buf" using fill_Inr f r(1) by simp
  then have "dropWhile (\<lambda>b. b \<noteq> newline) buf \<noteq> []" by simp
  then have "length (tl (dropWhile (\<lambda>b. b \<noteq> newline) buf)) < length buf"
    by (metis length_dropWhile_le length_tl diff_less length_greater_0_conv less_le_trans less_one
        One_nat_def)
  then show ?thesis using fill_size [OF f] r by (simp add: input_left_def)
qed

lemma read_line_size: "read_line s = (r, s') \<Longrightarrow> input_left s' \<le> input_left s"
proof (cases r)
  case (Inl e)
  assume "read_line s = (r, s')"
  with Inl show ?thesis
    using fill_size [of "pe_buf s" "pe_eof s" "pe_polls s"]
    by (auto simp: read_line_def input_left_def split: prod.splits sum.splits)
qed (auto dest: read_line_consumes)

lemma receive_consumes: "receive decode s = (Inr msg, s') \<Longrightarrow> input_left s' < input_left s"
  by (auto simp: receive_def sx_simps dest: read_line_consumes)

function await_reply :: "decoder \<Rightarrow> int \<Rightarrow> (peer, json) sx" where
  "await_reply decode req_id s =
     (case receive decode s of
        (Inl e, s') \<Rightarrow> (Inl e, s')
      | (Inr msg, s') \<Rightarrow>
          if \<not> py_eq (get_or_null msg ''id'') (JInt req_id) then await_reply decode req_id s'
          else (reply_result msg, s'))"
  by pat_completeness auto
termination
  by (relation "measure (\<lambda>(d, i, s). input_left s)") (auto dest: receive_consumes [OF sym])

declare await_reply.simps [simp del]

definition request :: "decoder \<Rightarrow> int \<Rightarrow> string \<Rightarrow> json \<Rightarrow> (peer, json) sx" where
  "request decode req_id verb params =
     sx_bind (send (JDict [(''jsonrpc'', JStr ''2.0''), (''id'', JInt req_id), (''method'', JStr verb), (''params'', params)]))
       (\<lambda>_. await_reply decode req_id)"

section \<open>Discovery\<close>

definition or_else :: "json \<Rightarrow> json \<Rightarrow> json" where
  "or_else v d = (if truthy v then v else d)"

definition normalize :: "json \<Rightarrow> string \<Rightarrow> DiscoveredTool result" where
  "normalize tool server_version =
     bind_result (method_get tool ''name'') (\<lambda>name_v.
     case name_v of
       JStr name \<Rightarrow>
         (if name = [] then Inl (McpDiscoveryError ''protocol_error'')
          else
            bind_result (method_get tool ''annotations'') (\<lambda>annotations_v.
            case or_else annotations_v (JDict []) of
              JDict annotations \<Rightarrow>
                bind_result (method_get tool ''description'') (\<lambda>description.
                bind_result (method_get tool ''inputSchema'') (\<lambda>schema.
                  Inr \<lparr>dt_name = name,
                       dt_claimed = \<lparr>cm_description = JStr (py_str (or_else description (JStr []))),
                         cm_read_only_hint = get_or_null annotations ''readOnlyHint'',
                         cm_destructive_hint = get_or_null annotations ''destructiveHint'',
                         cm_idempotent_hint = get_or_null annotations ''idempotentHint'',
                         cm_open_world_hint = get_or_null annotations ''openWorldHint''\<rparr>,
                       dt_input_schema = (case or_else schema (JDict []) of JDict kvs \<Rightarrow> JDict kvs | _ \<Rightarrow> JDict []),
                       dt_version = server_version\<rparr>))
            | _ \<Rightarrow> Inl (McpDiscoveryError ''protocol_error'')))
     | _ \<Rightarrow> Inl (McpDiscoveryError ''protocol_error''))"

text \<open>The \<open>for\<close> loop over one page; \<open>seen\<close> holds the names of the tools collected so far.\<close>

fun collect_tools :: "string \<Rightarrow> DiscoveredTool list \<Rightarrow> json list \<Rightarrow> DiscoveredTool list result" where
  "collect_tools server_version tools [] = Inr tools"
| "collect_tools server_version tools (t # ts) =
     bind_result (normalize t server_version) (\<lambda>dt.
       if dt_name dt \<in> set (map dt_name tools) then Inl (McpDiscoveryError ''duplicate_tool'')
       else collect_tools server_version (tools @ [dt]) ts)"

text \<open>One page: its tools added to those collected so far, and the next cursor.\<close>

definition read_page :: "string \<Rightarrow> DiscoveredTool list \<Rightarrow> json \<Rightarrow> (DiscoveredTool list \<times> json) result" where
  "read_page server_version tools page =
     bind_result (method_get page ''tools'') (\<lambda>raw.
     case raw of
       JList ts \<Rightarrow>
         bind_result (collect_tools server_version tools ts) (\<lambda>tools'.
         bind_result (method_get page ''nextCursor'') (\<lambda>cursor. Inr (tools', cursor)))
     | _ \<Rightarrow> Inl (McpDiscoveryError ''protocol_error''))"

lemma await_reply_size: "await_reply decode i s = (r, s') \<Longrightarrow> input_left s' \<le> input_left s"
proof (induction decode i s rule: await_reply.induct)
  case (1 decode i s)
  obtain q t where q: "receive decode s = (q, t)" by fastforce
  have t: "input_left t \<le> input_left s"
    using q by (auto simp: receive_def sx_bind_def sx_lift_def split: prod.splits sum.splits dest!: read_line_size)
  show ?case
  proof (cases q)
    case (Inl e)
    then show ?thesis using "1.prems" q t by (subst (asm) await_reply.simps) simp
  next
    case (Inr msg)
    then show ?thesis using "1.prems" q t "1.IH" [OF q [symmetric] Inr]
      by (subst (asm) await_reply.simps) (auto split: if_splits)
  qed
qed

lemma await_reply_consumes: "await_reply decode i s = (Inr v, s') \<Longrightarrow> input_left s' < input_left s"
proof -
  assume run: "await_reply decode i s = (Inr v, s')"
  obtain q t where q: "receive decode s = (q, t)" by fastforce
  then obtain msg where msg: "q = Inr msg" using run by (subst (asm) await_reply.simps) (cases q; simp)
  then have "input_left t < input_left s" using q receive_consumes by blast
  moreover have "input_left s' \<le> input_left t"
    using run q msg by (subst (asm) await_reply.simps) (auto split: if_splits dest: await_reply_size)
  ultimately show ?thesis by simp
qed

lemma send_size: "send m s = (r, s') \<Longrightarrow> input_left s' = input_left s"
  by (auto simp: send_def input_left_def Let_def split: if_splits)

lemma request_consumes: "request decode i verb params s = (Inr v, s') \<Longrightarrow> input_left s' < input_left s"
  by (auto simp: request_def sx_simps dest!: send_size await_reply_consumes)

text \<open>The pagination loop: every page consumes input, so it ends whatever the server answers.\<close>

function list_pages ::
  "decoder \<Rightarrow> string \<Rightarrow> int \<Rightarrow> json \<Rightarrow> DiscoveredTool list \<Rightarrow> (peer, DiscoveredTool list) sx" where
  "list_pages decode server_version req_id cursor tools s =
     (case request decode req_id ''tools/list'' (JDict (if cursor = JNull then [] else [(''cursor'', cursor)])) s of
        (Inl e, s') \<Rightarrow> (Inl e, s')
      | (Inr page, s') \<Rightarrow>
          (case read_page server_version tools page of
             Inl e \<Rightarrow> (Inl e, s')
           | Inr (tools', next_cursor) \<Rightarrow>
               if next_cursor = JNull then (Inr tools', s')
               else list_pages decode server_version (req_id + 1) next_cursor tools' s'))"
  by pat_completeness auto
termination
  by (relation "measure (\<lambda>(d, v, i, c, ts, s). input_left s)") (auto dest: request_consumes [OF sym])

declare list_pages.simps [simp del]

definition discover_on :: "decoder \<Rightarrow> (peer, DiscoveryResult) sx" where
  "discover_on decode =
     sx_bind (request decode 1 ''initialize'' (JDict
        [(''protocolVersion'', JStr PROTOCOL_VERSION), (''capabilities'', JDict []), (''clientInfo'', CLIENT_INFO)])) (\<lambda>init.
     sx_bind (sx_lift (method_get init ''serverInfo'')) (\<lambda>info.
     sx_bind (sx_lift (method_get init ''protocolVersion'')) (\<lambda>proto_v.
     case proto_v of
       JStr proto \<Rightarrow>
         (let server_info = or_else info (JDict []) in
          sx_bind (send (JDict [(''jsonrpc'', JStr ''2.0''), (''method'', JStr ''notifications/initialized'')])) (\<lambda>_.
          sx_bind (sx_lift (method_get server_info ''version'')) (\<lambda>version.
          let server_version = py_str (or_else version (JStr ''0.0.0'')) in
          sx_bind (list_pages decode server_version 2 JNull []) (\<lambda>tools.
          sx_bind (sx_lift (method_get server_info ''name'')) (\<lambda>name.
          sx_return \<lparr>dc_server_name = py_str (or_else name (JStr ''unknown'')), dc_server_version = server_version,
                     dc_protocol_version = proto, dc_tools = tools\<rparr>)))))
     | _ \<Rightarrow> sx_raise (McpDiscoveryError ''protocol_error''))))"

text \<open>A command that cannot be started has no peer.\<close>

definition discover :: "decoder \<Rightarrow> (string list \<Rightarrow> peer option) \<Rightarrow> string list \<Rightarrow> DiscoveryResult result" where
  "discover decode spawn command =
     (case spawn command of
        None \<Rightarrow> Inl (McpDiscoveryError ''spawn_failed'')
      | Some s \<Rightarrow> fst (discover_on decode s))"

section \<open>Properties\<close>

definition usable_tools :: "DiscoveredTool list \<Rightarrow> bool" where
  "usable_tools tools \<longleftrightarrow>
     distinct (map dt_name tools) \<and> list_all (\<lambda>t. dt_name t \<noteq> [] \<and> is_dict (dt_input_schema t)) tools"

lemma normalize_usable: "normalize t v = Inr dt \<Longrightarrow> dt_name dt \<noteq> [] \<and> is_dict (dt_input_schema dt)"
  by (auto simp: normalize_def result_simps split: if_splits) (auto split: json.splits)

lemma collect_tools_usable: "collect_tools v tools ts = Inr tools' \<Longrightarrow> usable_tools tools \<Longrightarrow> usable_tools tools'"
proof (induction ts arbitrary: tools)
  case (Cons t ts)
  obtain dt where dt: "normalize t v = Inr dt" "dt_name dt \<notin> set (map dt_name tools)"
    "collect_tools v (tools @ [dt]) ts = Inr tools'"
    using Cons.prems(1) by (auto simp: result_simps split: if_splits)
  then have "usable_tools (tools @ [dt])"
    using normalize_usable [OF dt(1)] Cons.prems(2) by (auto simp: usable_tools_def)
  then show ?case using Cons.IH dt(3) by blast
qed simp

lemma read_page_usable:
  "read_page v tools page = Inr (tools', c) \<Longrightarrow> usable_tools tools \<Longrightarrow> usable_tools tools'"
  by (auto simp: read_page_def result_simps dest: collect_tools_usable)

lemma list_pages_usable:
  "list_pages decode v i c tools s = (Inr tools', s') \<Longrightarrow> usable_tools tools \<Longrightarrow> usable_tools tools'"
proof (induction decode v i c tools s rule: list_pages.induct)
  case (1 decode v i c tools s)
  obtain page t where req: "request decode i ''tools/list'' (JDict (if c = JNull then [] else [(''cursor'', c)])) s = (Inr page, t)"
    using "1.prems"(1) by (subst (asm) list_pages.simps) (auto split: prod.splits sum.splits)
  then obtain tools1 c1 where page: "read_page v tools page = Inr (tools1, c1)"
    using "1.prems"(1) by (subst (asm) list_pages.simps) (auto split: prod.splits sum.splits)
  have u: "usable_tools tools1" using read_page_usable [OF page "1.prems"(2)] .
  show ?case
    using "1.prems"(1) req page u "1.IH" [OF req [symmetric] refl page refl]
    by (subst (asm) list_pages.simps) (auto split: if_splits)
qed

lemma list_pages_discover:
  assumes "discover decode spawn command = Inr r"
  obtains v s s' where "list_pages decode v 2 JNull [] s = (Inr (dc_tools r), s')"
proof -
  obtain s where s: "spawn command = Some s" "fst (discover_on decode s) = Inr r"
    using assms by (auto simp: discover_def split: option.splits)
  then obtain s' where "discover_on decode s = (Inr r, s')" by (metis prod.collapse)
  then show ?thesis
    using that by (auto simp: discover_on_def sx_simps Let_def)
qed

text \<open>C32: A discovery that succeeds returns tools with non-empty names, no two of them equal, and
  with object schemas: a name announced twice by one server, on one page or on two, fails the whole
  discovery.\<close>

theorem discover_usable:
  assumes "discover decode spawn command = Inr r"
  shows "usable_tools (dc_tools r)"
  using assms list_pages_discover list_pages_usable by (metis list.simps(8) list.pred_inject(1) usable_tools_def distinct.simps(1))

text \<open>The messages a computation writes, as a relation between the states before and after.\<close>

definition writes :: "(json \<Rightarrow> bool) \<Rightarrow> peer \<Rightarrow> peer \<Rightarrow> bool" where
  "writes P s s' \<longleftrightarrow> (\<exists>ms. pe_sent s' = pe_sent s @ ms \<and> list_all P ms)"

interpretation writes: sx_relation "writes P" for P
  by unfold_locales (auto simp: writes_def)

definition rpc_method :: "json \<Rightarrow> json" where
  "rpc_method msg = (case msg of JDict kvs \<Rightarrow> get_or_null kvs ''method'' | _ \<Rightarrow> JNull)"

definition discovery_message :: "json \<Rightarrow> bool" where
  "discovery_message msg \<longleftrightarrow>
     rpc_method msg \<in> JStr ` {''initialize'', ''notifications/initialized'', ''tools/list''}"

lemma within_send: "P m \<Longrightarrow> within (writes P) (send m)"
  by (rule withinI) (auto simp: send_def writes_def Let_def split: if_splits)

lemma receive_sent: "receive decode s = (r, s') \<Longrightarrow> pe_sent s' = pe_sent s"
  by (auto simp: receive_def read_line_def sx_bind_def sx_lift_def split: prod.splits sum.splits)

lemma await_reply_sent: "await_reply decode i s = (r, s') \<Longrightarrow> pe_sent s' = pe_sent s"
proof (induction decode i s rule: await_reply.induct)
  case (1 decode i s)
  obtain q t where q: "receive decode s = (q, t)" by fastforce
  have t: "pe_sent t = pe_sent s" by (rule receive_sent [OF q])
  show ?case
  proof (cases q)
    case (Inl e)
    then show ?thesis using "1.prems" q t by (subst (asm) await_reply.simps) simp
  next
    case (Inr msg)
    then show ?thesis using "1.prems" q t "1.IH" [OF q [symmetric] Inr]
      by (subst (asm) await_reply.simps) (auto split: if_splits)
  qed
qed

lemma within_request:
  assumes "verb = ''initialize'' \<or> verb = ''tools/list''"
  shows "within (writes discovery_message) (request decode i verb params)"
  unfolding request_def
proof (intro writes.within_bind within_send withinI)
  show "discovery_message (JDict [(''jsonrpc'', JStr ''2.0''), (''id'', JInt i), (''method'', JStr verb), (''params'', params)])"
    using assms by (auto simp: discovery_message_def rpc_method_def get_or_null_def)
next
  fix s r s' assume "await_reply decode i s = (r, s')"
  then show "writes discovery_message s s'" by (auto simp: writes_def dest: await_reply_sent)
qed

lemma list_pages_writes:
  "list_pages decode v i c tools s = (r, s') \<Longrightarrow> writes discovery_message s s'"
proof (induction decode v i c tools s rule: list_pages.induct)
  case (1 decode v i c tools s)
  obtain q t where req: "request decode i ''tools/list'' (JDict (if c = JNull then [] else [(''cursor'', c)])) s = (q, t)"
    by fastforce
  have t: "writes discovery_message s t"
    by (rule withinD [OF within_request req]) simp
  show ?case
  proof (cases q)
    case (Inl e)
    then show ?thesis using "1.prems" req t by (subst (asm) list_pages.simps) simp
  next
    case (Inr page)
    note IH = "1.IH" [OF req [symmetric] Inr]
    show ?thesis
      using "1.prems" req t Inr IH writes.trans [OF t]
      by (subst (asm) list_pages.simps) (auto split: sum.splits prod.splits if_splits)
  qed
qed

lemma within_list_pages: "within (writes discovery_message) (list_pages decode v i c tools)"
  by (rule withinI) (rule list_pages_writes)

text \<open>Discovery never invokes. Whatever the server answers, and however the discovery ends,
  the only messages written to the server are initialize, notifications/initialized and
  tools/list.\<close>

theorem discovery_never_calls:
  "\<exists>ms. pe_sent (snd (discover_on decode s)) = pe_sent s @ ms \<and>
     list_all (\<lambda>m. rpc_method m \<in> JStr ` {''initialize'', ''notifications/initialized'', ''tools/list''}) ms"
proof -
  have "within (writes discovery_message) (discover_on decode)"
    unfolding discover_on_def Let_def
    by (intro writes.within_rules within_request)
      (auto split: json.split intro!: writes.within_rules within_send within_list_pages
        simp: discovery_message_def rpc_method_def get_or_null_def)
  then have "writes discovery_message s (snd (discover_on decode s))"
    by (simp add: within_def)
  then show ?thesis unfolding writes_def discovery_message_def [abs_def] .
qed

section \<open>Faults\<close>

definition typed_fault :: "exn \<Rightarrow> bool" where
  "typed_fault e \<longleftrightarrow> e \<in> McpDiscoveryError ` set FAULT_KINDS"

text \<open>What a failing step can raise: a typed fault, the two untyped escapes.\<close>

definition discovery_fault :: "decoder \<Rightarrow> exn \<Rightarrow> bool" where
  "discovery_fault decode e \<longleftrightarrow>
     typed_fault e \<or> e = AttributeError \<or> (e \<noteq> JSONDecodeError \<and> (\<exists>line. decode line = Inl e))"

lemma typed_faults [simp]:
  "typed_fault (McpDiscoveryError ''spawn_failed'')" "typed_fault (McpDiscoveryError ''timeout'')"
  "typed_fault (McpDiscoveryError ''malformed_json'')" "typed_fault (McpDiscoveryError ''truncated_response'')"
  "typed_fault (McpDiscoveryError ''protocol_error'')" "typed_fault (McpDiscoveryError ''duplicate_tool'')"
  by (auto simp: typed_fault_def FAULT_KINDS_def)

lemma typed_discovery_fault [intro]: "typed_fault e \<Longrightarrow> discovery_fault decode e"
  by (simp add: discovery_fault_def)

lemma case_json_Inl [result_simps]:
  "(case v of JStr s \<Rightarrow> f s | _ \<Rightarrow> Inl e) = Inl d \<longleftrightarrow> (if is_str v then \<exists>s. v = JStr s \<and> f s = Inl d else d = e)"
  "(case v of JList vs \<Rightarrow> g vs | _ \<Rightarrow> Inl e) = Inl d \<longleftrightarrow> (if is_list v then \<exists>vs. v = JList vs \<and> g vs = Inl d else d = e)"
  "(case v of JDict kvs \<Rightarrow> h kvs | _ \<Rightarrow> Inl e) = Inl d \<longleftrightarrow> (if is_dict v then \<exists>kvs. v = JDict kvs \<and> h kvs = Inl d else d = e)"
  by (cases v; auto)+

lemma method_get_Inl [result_simps]: "method_get v k = Inl e \<longleftrightarrow> \<not> is_dict v \<and> e = AttributeError"
  by (cases v) auto

lemma normalize_fault: "normalize t v = Inl e \<Longrightarrow> discovery_fault decode e"
  by (auto simp: normalize_def result_simps discovery_fault_def split: if_splits)

lemma collect_tools_fault: "collect_tools v tools ts = Inl e \<Longrightarrow> discovery_fault decode e"
  by (induction v tools ts rule: collect_tools.induct) (auto simp: result_simps split: if_splits intro: normalize_fault)

lemma read_page_fault: "read_page v tools page = Inl e \<Longrightarrow> discovery_fault decode e"
  by (auto simp: read_page_def result_simps split: if_splits intro: collect_tools_fault)
    (auto simp: discovery_fault_def)

lemma reply_result_fault: "reply_result msg = Inl e \<Longrightarrow> discovery_fault decode e"
  by (auto simp: reply_result_def result_simps discovery_fault_def split: option.splits)

lemma fill_fault: "fill buf eof ps = (Inl e, rest) \<Longrightarrow> typed_fault e"
  by (induction buf eof ps rule: fill.induct) (auto split: if_splits poll.splits)

lemma receive_fault:
  assumes "receive decode s = (Inl e, s')"
  shows "discovery_fault decode e"
proof -
  consider "\<exists>t. read_line s = (Inl e, t)" | line t where "read_line s = (Inr line, t)"
      "(case decode line of
       Inl e \<Rightarrow> Inl (if e = JSONDecodeError then McpDiscoveryError ''malformed_json'' else e)
     | Inr (JDict kvs) \<Rightarrow>
         (if is_jsonrpc (JDict kvs) then Inr kvs else Inl (McpDiscoveryError ''protocol_error''))
     | Inr _ \<Rightarrow> Inl (McpDiscoveryError ''protocol_error'')) = Inl e"
    using assms unfolding receive_def by (auto simp: sx_simps)
  then show ?thesis
  proof cases
    case 1
    then show ?thesis
      by (auto simp: read_line_def split: prod.splits sum.splits dest: fill_fault)
  next
    case 2
    then show ?thesis
      by (cases "decode line") (auto simp: discovery_fault_def result_simps split: if_splits)
  qed
qed

lemma await_reply_fault: "await_reply decode i s = (Inl e, s') \<Longrightarrow> discovery_fault decode e"
proof (induction decode i s rule: await_reply.induct)
  case (1 decode i s)
  obtain q t where q: "receive decode s = (q, t)" by fastforce
  show ?case
  proof (cases q)
    case (Inl d)
    then show ?thesis using "1.prems" q receive_fault by (subst (asm) await_reply.simps) auto
  next
    case (Inr msg)
    then show ?thesis using "1.prems" q "1.IH" [OF q [symmetric] Inr] reply_result_fault
      by (subst (asm) await_reply.simps) (auto split: if_splits)
  qed
qed

lemma send_fault: "send m s = (Inl e, s') \<Longrightarrow> discovery_fault decode e"
  by (auto simp: send_def Let_def split: if_splits)

lemma request_fault: "request decode i verb params s = (Inl e, s') \<Longrightarrow> discovery_fault decode e"
  by (auto simp: request_def sx_simps intro: send_fault await_reply_fault)

lemma list_pages_fault: "list_pages decode v i c tools s = (Inl e, s') \<Longrightarrow> discovery_fault decode e"
proof (induction decode v i c tools s rule: list_pages.induct)
  case (1 decode v i c tools s)
  obtain q t where req: "request decode i ''tools/list'' (JDict (if c = JNull then [] else [(''cursor'', c)])) s = (q, t)"
    by fastforce
  show ?case
  proof (cases q)
    case (Inl d)
    then show ?thesis using "1.prems" req request_fault by (subst (asm) list_pages.simps) auto
  next
    case (Inr page)
    then show ?thesis
      using "1.prems" req "1.IH" [OF req [symmetric] Inr] read_page_fault
      by (subst (asm) list_pages.simps) (auto split: sum.splits prod.splits if_splits)
  qed
qed

lemma case_json_raise [sx_simps]:
  "(case v of JStr x \<Rightarrow> f x | _ \<Rightarrow> sx_raise e) s = (Inl d, s') \<longleftrightarrow>
     (if is_str v then \<exists>x. v = JStr x \<and> f x s = (Inl d, s') else d = e \<and> s' = s)"
  by (cases v) (auto simp: sx_simps)

lemma discover_on_fault: "discover_on decode s = (Inl e, s') \<Longrightarrow> discovery_fault decode e"
  by (auto simp: discover_on_def sx_simps Let_def result_simps split: if_splits
      intro: request_fault send_fault list_pages_fault) (auto simp: discovery_fault_def)

section \<open>Concrete servers\<close>

text \<open>Frames of one byte: the first is decoded to the handshake's reply, the second to a page of tools.\<close>

definition demo_reply :: "int \<Rightarrow> json \<Rightarrow> json" where
  "demo_reply i r = JDict [(''jsonrpc'', JStr ''2.0''), (''id'', JInt i), (''result'', r)]"

definition demo_decoder :: "json list \<Rightarrow> decoder" where
  "demo_decoder tools line =
     (if line = [1] then Inr (demo_reply 1 (JDict [(''protocolVersion'', JStr ''1'')]))
      else Inr (demo_reply 2 (JDict [(''tools'', JList tools)])))"

definition demo_peer :: peer where
  "demo_peer = \<lparr>pe_buf = [], pe_eof = False, pe_polls = [NotReady, Chunk [1, 10, 2], Chunk [10]],
     pe_write_fails = \<lambda>n. False, pe_sent = []\<rparr>"

lemma demo_await1:
  "await_reply (demo_decoder tools) 1 (demo_peer\<lparr>pe_sent := ms\<rparr>) =
     (Inr (JDict [(''protocolVersion'', JStr ''1'')]), demo_peer\<lparr>pe_buf := [2], pe_polls := [Chunk [10]], pe_sent := ms\<rparr>)"
  by (subst await_reply.simps)
    (simp add: receive_def read_line_def demo_peer_def newline_def sx_bind_def sx_lift_def demo_decoder_def
      demo_reply_def is_jsonrpc_def get_or_null_def reply_result_def)

lemma demo_await2:
  "await_reply (demo_decoder tools) 2 (demo_peer\<lparr>pe_buf := [2], pe_polls := [Chunk [10]], pe_sent := ms\<rparr>) =
     (Inr (JDict [(''tools'', JList tools)]), demo_peer\<lparr>pe_buf := [], pe_polls := [], pe_sent := ms\<rparr>)"
  by (subst await_reply.simps)
    (simp add: receive_def read_line_def demo_peer_def newline_def sx_bind_def sx_lift_def demo_decoder_def
      demo_reply_def is_jsonrpc_def get_or_null_def reply_result_def)

lemma demo_send:
  "send m (demo_peer\<lparr>pe_buf := b, pe_polls := ps, pe_sent := ms\<rparr>) =
     (Inr (), demo_peer\<lparr>pe_buf := b, pe_polls := ps, pe_sent := ms @ [m]\<rparr>)"
  "send m demo_peer = (Inr (), demo_peer\<lparr>pe_sent := [m]\<rparr>)"
  by (simp_all add: send_def demo_peer_def)

lemma demo_list_pages:
  "list_pages (demo_decoder tools) v 2 JNull [] (demo_peer\<lparr>pe_buf := [2], pe_polls := [Chunk [10]], pe_sent := ms\<rparr>) =
     (collect_tools v [] tools,
      demo_peer\<lparr>pe_buf := [], pe_polls := [],
        pe_sent := ms @ [JDict [(''jsonrpc'', JStr ''2.0''), (''id'', JInt 2), (''method'', JStr ''tools/list''), (''params'', JDict [])]]\<rparr>)"
  by (subst list_pages.simps; cases "collect_tools v [] tools")
    (simp_all add: request_def sx_bind_def demo_send demo_await2 read_page_def get_or_null_def)

lemma demo_discover:
  "discover (demo_decoder tools) (\<lambda>c. Some demo_peer) command =
     bind_result (collect_tools ''0.0.0'' [] tools) (\<lambda>ts.
       Inr \<lparr>dc_server_name = ''unknown'', dc_server_version = ''0.0.0'', dc_protocol_version = ''1'', dc_tools = ts\<rparr>)"
  by (cases "collect_tools ''0.0.0'' [] tools")
    (simp_all add: discover_def discover_on_def request_def sx_bind_def sx_lift_def sx_return_def Let_def
        demo_send demo_await1 demo_list_pages get_or_null_def or_else_def py_str_def)

theorem discover_usable_witness:
  "\<exists>r. discover (demo_decoder [JDict [(''name'', JStr ''a'')], JDict [(''name'', JStr ''b'')]])
         (\<lambda>c. Some demo_peer) [] = Inr r \<and> map dt_name (dc_tools r) = [''a'', ''b''] \<and> usable_tools (dc_tools r)"
proof -
  have "\<exists>ts. collect_tools ''0.0.0'' [] [JDict [(''name'', JStr ''a'')], JDict [(''name'', JStr ''b'')]] = Inr ts \<and>
      map dt_name ts = [''a'', ''b'']"
    by (simp add: normalize_def get_or_null_def or_else_def)
  then obtain ts where ts: "collect_tools ''0.0.0'' [] [JDict [(''name'', JStr ''a'')], JDict [(''name'', JStr ''b'')]] = Inr ts \<and>
      map dt_name ts = [''a'', ''b'']" ..
  note run = demo_discover [of "[JDict [(''name'', JStr ''a'')], JDict [(''name'', JStr ''b'')]]" "[]",
      unfolded conjunct1 [OF ts] bind_result.simps]
  show ?thesis
    by (rule exI, rule conjI, rule run) (simp add: conjunct2 [OF ts] discover_usable [OF run, simplified])
qed



end
