(* ===== verification/Buspublish.thy ===== *)
theory Buspublish
  imports Mcp_Source
begin

text \<open>
  \<open>buspublish.py\<close>: the projection of decisions onto the shared event bus. The network is write-only
  for this program: \<open>_post\<close> swallows every exception and returns nothing, so a publisher is its
  configuration and the list of bodies it has handed to the transport.
\<close>

section \<open>Vocabularies\<close>

definition SOURCE_PRODUCT :: string where "SOURCE_PRODUCT = ''toolconnect''"

definition PRINCIPAL_TIER_TO_BUS_TIER :: "(string \<times> string) list" where
  "PRINCIPAL_TIER_TO_BUS_TIER =
     [(''local'', ''public''), (''trusted-cloud'', ''repo_sensitive''), (''rented'', ''local_only'')]"

definition UNKNOWN_PRINCIPAL_TIER_BUS_TIER :: string where
  "UNKNOWN_PRINCIPAL_TIER_BUS_TIER = ''secret_sensitive''"

definition NO_PRINCIPAL_BUS_TIER :: string where "NO_PRINCIPAL_BUS_TIER = ''public''"

definition bus_tier_for_principal :: "string \<Rightarrow> string" where
  "bus_tier_for_principal tier =
     (case dict_get PRINCIPAL_TIER_TO_BUS_TIER tier of
        Some t \<Rightarrow> t | None \<Rightarrow> UNKNOWN_PRINCIPAL_TIER_BUS_TIER)"

definition EXECUTION_OUTCOME_TO_BUS_OUTCOME :: "(string \<times> string) list" where
  "EXECUTION_OUTCOME_TO_BUS_OUTCOME =
     [(''succeeded'', ''succeeded''), (''success'', ''succeeded''), (''successful'', ''succeeded''),
      (''executed'', ''succeeded''), (''ok'', ''succeeded''), (''complete'', ''succeeded''),
      (''completed'', ''succeeded''), (''done'', ''succeeded''), (''failed'', ''failed''),
      (''failure'', ''failed''), (''error'', ''failed''), (''errored'', ''failed''),
      (''cancelled'', ''cancelled''), (''canceled'', ''cancelled''), (''denied'', ''denied''),
      (''timed_out'', ''timed_out''), (''timedout'', ''timed_out''), (''timeout'', ''timed_out'')]"

definition UNKNOWN_EXECUTION_OUTCOME_BUS_OUTCOME :: string where
  "UNKNOWN_EXECUTION_OUTCOME_BUS_OUTCOME = ''unknown''"

text \<open>\<open>str.lower\<close> on code points below 256.\<close>

definition lower_char :: "char \<Rightarrow> char" where
  "lower_char c =
     (let n = (of_char c :: nat) in
      if (65 \<le> n \<and> n \<le> 90) \<or> (192 \<le> n \<and> n \<le> 222 \<and> n \<noteq> 215) then char_of (n + 32) else c)"

definition lower :: "string \<Rightarrow> string" where
  "lower s = map lower_char s"

definition bus_outcome_for_execution :: "string \<Rightarrow> string" where
  "bus_outcome_for_execution outcome =
     (case dict_get EXECUTION_OUTCOME_TO_BUS_OUTCOME (lower (strip outcome)) of
        Some t \<Rightarrow> t | None \<Rightarrow> UNKNOWN_EXECUTION_OUTCOME_BUS_OUTCOME)"

section \<open>The publisher\<close>

record publisher =
  bp_url :: "string option"
  bp_token :: "string option"
  bp_timeout :: pyfloat
  bp_posted :: "json list"

definition non_empty :: "string option \<Rightarrow> string option" where
  "non_empty x = (case x of Some s \<Rightarrow> if s = [] then None else Some s | None \<Rightarrow> None)"

definition rstrip_slash :: "string \<Rightarrow> string" where
  "rstrip_slash s = rev (dropWhile (\<lambda>c. c = CHR ''/'') (rev s))"

definition new_publisher :: "string option \<Rightarrow> string option \<Rightarrow> pyfloat \<Rightarrow> publisher" where
  "new_publisher url token timeout =
     \<lparr>bp_url = map_option rstrip_slash (non_empty url), bp_token = non_empty token,
      bp_timeout = timeout, bp_posted = []\<rparr>"

definition bus_enabled :: "publisher \<Rightarrow> bool" where
  "bus_enabled b \<longleftrightarrow> non_empty (bp_url b) \<noteq> None \<and> bp_token b \<noteq> None"

text \<open>\<open>float(text)\<close> is a parameter; \<open>None\<close> stands for its \<open>ValueError\<close>.\<close>

definition from_env :: "(string \<Rightarrow> pyfloat option) \<Rightarrow> (string \<times> string) list \<Rightarrow> publisher" where
  "from_env read env =
     (let two = FFin False 2 0;
          timeout = (case non_empty (dict_get env ''TOOLCONNECT_BUS_TIMEOUT'') of
                       None \<Rightarrow> two
                     | Some raw \<Rightarrow> (case read raw of Some f \<Rightarrow> f | None \<Rightarrow> two))
      in new_publisher (dict_get env ''TOOLCONNECT_BUS_URL'') (dict_get env ''TOOLCONNECT_BUS_TOKEN'') timeout)"

definition event_body ::
  "string \<Rightarrow> string \<Rightarrow> string \<Rightarrow> string \<Rightarrow> (string \<times> json) list \<Rightarrow> string option \<Rightarrow> json" where
  "event_body kind event_id actor privacy_tier payload outcome =
     JDict ([(''type'', JStr kind), (''source_product'', JStr SOURCE_PRODUCT), (''event_id'', JStr event_id),
             (''actor'', JStr actor), (''privacy_tier'', JStr privacy_tier), (''payload'', JDict payload)] @
            (case outcome of None \<Rightarrow> [] | Some out \<Rightarrow> [(''outcome'', JStr out)]))"

section \<open>Properties\<close>

text \<open>The closed vocabularies of the bus contract.\<close>

definition bus_outcomes :: "string list" where
  "bus_outcomes = [''succeeded'', ''failed'', ''cancelled'', ''denied'', ''timed_out'', ''unknown'']"

definition bus_tiers :: "string list" where
  "bus_tiers = [''public'', ''repo_sensitive'', ''local_only'', ''secret_sensitive'']"

lemma map_of_values: "map_of xs k = Some v \<Longrightarrow> v \<in> set (map snd xs)"
  by (force dest: map_of_SomeD)

lemma bus_outcome_closed: "bus_outcome_for_execution s \<in> set bus_outcomes"
  by (auto simp: bus_outcome_for_execution_def bus_outcomes_def UNKNOWN_EXECUTION_OUTCOME_BUS_OUTCOME_def
      EXECUTION_OUTCOME_TO_BUS_OUTCOME_def split: option.split dest!: map_of_values)

lemma bus_tier_closed: "bus_tier_for_principal s \<in> set bus_tiers"
  by (auto simp: bus_tier_for_principal_def bus_tiers_def UNKNOWN_PRINCIPAL_TIER_BUS_TIER_def
      PRINCIPAL_TIER_TO_BUS_TIER_def split: option.split dest!: map_of_values)

text \<open>Whatever text a caller reports as an outcome and whatever tier a principal claims, the
  bus sees a member of its closed vocabularies; a tier the table does not know is published under
  the strictest one, and the loosest one is used exactly for local principals.\<close>

theorem bus_vocabulary_closed:
  "bus_outcome_for_execution s \<in> set bus_outcomes \<and> bus_tier_for_principal t \<in> set bus_tiers \<and>
   (bus_tier_for_principal t = ''public'' \<longleftrightarrow> t = ''local'') \<and>
   (bus_tier_for_principal t = ''secret_sensitive'' \<longleftrightarrow> t \<notin> {''local'', ''trusted-cloud'', ''rented''})"
  using bus_outcome_closed [of s] bus_tier_closed [of t]
  by (auto simp: bus_tier_for_principal_def UNKNOWN_PRINCIPAL_TIER_BUS_TIER_def PRINCIPAL_TIER_TO_BUS_TIER_def)

end
