(* ===== verification/Service.thy ===== *)
theory Service
  imports Buspublish
begin

text \<open>
  \<open>service.py\<close>: the object that owns the store, the catalog, the broker and the bus publisher. A
  handler is a computation on the record \<open>service\<close>; every mutation made before an exception stays.
  Arguments annotated \<open>str\<close> are strings and payloads are JSON values, with \<open>JNull\<close> for \<open>None\<close>;
  the responses are the dictionaries the code returns. Locks are left out: each call runs alone.

  Parameters, in the record \<open>deps\<close>: the policy engine, the cryptographic platform, the JSON decoder
  of discovery frames, and what a discovery command starts.
\<close>

record service =
  sv_store :: store
  sv_catalog :: Catalog
  sv_audit_log :: "(string \<times> json) list list"
  sv_bus :: publisher
  sv_trust_root :: "string option"
  sv_revocation_list :: json
  sv_provider_id :: string

record deps =
  dp_engine :: engine
  dp_platform :: platform
  dp_decode :: decoder
  dp_spawn :: "string list \<Rightarrow> peer option"

type_synonym response = "(string \<times> json) list"

section \<open>Running the store and the catalog\<close>

definition on_store :: "(store, 'a) sx \<Rightarrow> (service, 'a) sx" where
  "on_store m s = (case m (sv_store s) of (r, t) \<Rightarrow> (r, s\<lparr>sv_store := t\<rparr>))"

definition update_catalog :: "(Catalog \<Rightarrow> (Catalog \<times> 'a) result) \<Rightarrow> (service, 'a) sx" where
  "update_catalog f s =
     (case f (sv_catalog s) of
        Inl e \<Rightarrow> (Inl e, s)
      | Inr (cat, a) \<Rightarrow> (Inr a, s\<lparr>sv_catalog := cat\<rparr>))"

text \<open>\<open>except E: raise ServiceError(n)\<close> for the classes \<open>P\<close> accepts.\<close>

definition convert :: "(exn \<Rightarrow> bool) \<Rightarrow> int \<Rightarrow> 'a result \<Rightarrow> 'a result" where
  "convert P n r = (case r of Inl e \<Rightarrow> Inl (if P e then ServiceError n else e) | Inr a \<Rightarrow> Inr a)"

definition opt_str :: "string option \<Rightarrow> json" where
  "opt_str x = (case x of Some s \<Rightarrow> JStr s | None \<Rightarrow> JNull)"

abbreviation str_list :: "string list \<Rightarrow> json" where
  "str_list xs \<equiv> JList (map JStr xs)"

section \<open>Constants and payloads\<close>

definition DECISION_CONTRACT_VERSION :: string where "DECISION_CONTRACT_VERSION = ''1.1''"
definition DEFAULT_GRANT_TTL_SECONDS :: int where "DEFAULT_GRANT_TTL_SECONDS = 60"
definition MIN_GRANT_TTL_SECONDS :: int where "MIN_GRANT_TTL_SECONDS = 1"
definition MAX_GRANT_TTL_SECONDS :: int where "MAX_GRANT_TTL_SECONDS = 300"

text \<open>\<open>_PersistentAuditLog.append\<close>\<close>

definition audit_log_append :: "(string \<times> json) list \<Rightarrow> (service, unit) sx" where
  "audit_log_append rec =
     sx_bind (on_store uuid4_hex) (\<lambda>u.
     let rec' = (if dict_get rec ''decision_id'' = None then dict_set ''decision_id'' (JStr u) rec else rec)
     in sx_bind (on_store (append_audit ''decision'' rec')) (\<lambda>_.
        sx_modify (\<lambda>s. s\<lparr>sv_audit_log := sv_audit_log s @ [rec']\<rparr>)))"

lemma size_get_or_null: "x \<noteq> JNull \<Longrightarrow> get_or_null kvs k = x \<Longrightarrow> size x < size (JDict kvs)"
  by (auto simp: get_or_null_def split: option.splits dest!: map_of_SomeD dest: size_JDict_elem)

function parse_principal :: "json \<Rightarrow> Principal result" where
  "parse_principal data =
     (case data of
        JDict kvs \<Rightarrow>
          (if \<not> truthy (get_or_null kvs ''id'') then Inl (ServiceError 400)
           else
             let chain = get_or_null kvs ''on_behalf_of'';
                 rest = (\<lambda>parent. Principal (py_str (get_or_null kvs ''id''))
                           (py_str (get_or kvs ''privacy_tier'' (JStr ''local'')))
                           (py_str (get_or kvs ''kind'' (JStr ''agent''))) parent)
             in if truthy chain
                then (case parse_principal chain of Inl e \<Rightarrow> Inl e | Inr parent \<Rightarrow> Inr (rest (Some parent)))
                else Inr (rest None))
      | _ \<Rightarrow> Inl (ServiceError 400))"
  by pat_completeness auto
termination
proof (relation "measure size", goal_cases)
  case (2 data kvs chain rest)
  then have "chain \<noteq> JNull" by auto
  then show ?case using size_get_or_null [of chain kvs] 2 by simp
qed simp

declare parse_principal.simps [simp del]

definition decision_payload :: "Decision \<Rightarrow> string \<Rightarrow> response" where
  "decision_payload d decision_id =
     [(''decision_id'', JStr decision_id), (''allowed'', JBool (d_allowed d)), (''reason'', JStr (d_reason d)),
      (''determining_policies'', str_list (d_determining_policies d)),
      (''default_deny'', JBool (is_default_deny d)), (''errors'', str_list (d_errors d)),
      (''contract_version'', JStr DECISION_CONTRACT_VERSION)]"

definition asserted_payload :: "AssertedDescriptor option \<Rightarrow> json result" where
  "asserted_payload a =
     (case a of
        None \<Rightarrow> Inr JNull
      | Some a \<Rightarrow> bind_result (py_sorted (ad_scopes a)) (\<lambda>scopes. Inr (JDict
          [(''effect'', JStr (effect_value (ad_effect a))), (''reads'', class_values (ad_reads a)),
           (''writes'', class_values (ad_writes a)), (''scopes'', JList scopes),
           (''reversible'', ad_reversible a), (''idempotent'', ad_idempotent a),
           (''requires_approval'', ad_requires_approval a), (''declassifies'', ad_declassifies a),
           (''asserted_by'', ad_asserted_by a)])))"

definition tool_payload :: "Catalog \<Rightarrow> string \<Rightarrow> string \<Rightarrow> response result" where
  "tool_payload cat source_id name =
     (case catalog_get cat source_id name of
        None \<Rightarrow> Inl AssertionError
      | Some tv \<Rightarrow>
          bind_result (asserted_payload (tv_asserted tv)) (\<lambda>asserted.
          bind_result (invocable cat source_id name) (\<lambda>inv.
          Inr [(''source_id'', JStr source_id), (''name'', JStr name), (''qualified_name'', JStr (qualified_name tv)),
               (''version'', JStr (tr_version (tv_ref tv))),
               (''claimed'', JDict
                  [(''description'', cm_description (tv_claimed tv)), (''read_only_hint'', cm_read_only_hint (tv_claimed tv)),
                   (''destructive_hint'', cm_destructive_hint (tv_claimed tv)),
                   (''idempotent_hint'', cm_idempotent_hint (tv_claimed tv)),
                   (''open_world_hint'', cm_open_world_hint (tv_claimed tv))]),
               (''asserted'', asserted),
               (''assertion_status'', JStr (status_value (assertion_status cat source_id name))),
               (''invocable'', JBool inv), (''claim_conflicts'', str_list (claim_conflicts tv)),
               (''input_schema'', tv_input_schema tv)])))"

section \<open>Start-up and health\<close>

definition new_service ::
  "publisher \<Rightarrow> string option \<Rightarrow> json \<Rightarrow> string \<Rightarrow> (store, service) sx" where
  "new_service bus root revocation_list provider_id =
     sx_bind load_catalog (\<lambda>cat.
     sx_bind (if revocation_list = JNull then sx_return ()
              else
                sx_bind (sx_lift (case revocation_list of JDict kvs \<Rightarrow> Inr kvs | _ \<Rightarrow> Inl AttributeError)) (\<lambda>kvs.
                sx_bind (set_meta ''gov_revocation_list_id'' (py_str (get_or kvs ''list_id'' (JStr [])))) (\<lambda>_.
                set_meta ''gov_revocation_list_issued_at'' (py_str (get_or kvs ''issued_at'' (JStr [])))))) (\<lambda>_.
     sx_get (\<lambda>st. \<lparr>sv_store = st, sv_catalog = cat, sv_audit_log = [], sv_bus = bus, sv_trust_root = root,
                   sv_revocation_list = revocation_list, sv_provider_id = provider_id\<rparr>)))"

definition VERSION :: string where "VERSION = ''0.1.0''"

definition health :: "deps \<Rightarrow> (service, response) sx" where
  "health dp =
     sx_bind (on_store verify_chain) (\<lambda>chain.
     sx_bind (sx_get (\<lambda>s. s)) (\<lambda>s.
     sx_bind (if sv_revocation_list s = JNull then sx_return JNull
              else
                sx_bind (on_store (get_meta ''gov_revocation_list_id'')) (\<lambda>lid.
                sx_bind (on_store (get_meta ''gov_revocation_list_issued_at'')) (\<lambda>issued.
                sx_return (JDict [(''list_id'', opt_str lid), (''issued_at'', opt_str issued)])))) (\<lambda>rl.
     sx_bind (case sv_trust_root s of
                None \<Rightarrow> sx_return []
              | Some pem \<Rightarrow> sx_bind (sx_lift (public_key_id (dp_platform dp) pem)) (\<lambda>k. sx_return [k])) (\<lambda>key_ids.
     sx_return
       [(''status'', JStr (if cv_ok chain then ''ok'' else ''audit_chain_broken'')), (''version'', JStr VERSION),
        (''contract_version'', JStr DECISION_CONTRACT_VERSION),
        (''sources'', JInt (int (length (cat_sources (sv_catalog s))))),
        (''tools'', JInt (int (length (cat_tools (sv_catalog s))))),
        (''audit_records'', JInt (int (cv_records chain))), (''audit_chain_ok'', JBool (cv_ok chain)),
        (''gov_revocation_list'', rl),
        (''gov_trust_root'', JDict [(''configured'', JBool (sv_trust_root s \<noteq> None)), (''key_ids'', str_list key_ids)]),
        (''gov_provider_id'', JStr (sv_provider_id s))]))))"

section \<open>Sources\<close>

definition command_of :: "json \<Rightarrow> string list option result" where
  "command_of command =
     (case command of
        JNull \<Rightarrow> Inr None
      | JList vs \<Rightarrow> (if list_all is_str vs then Inr (Some (map str_of vs)) else Inl (ServiceError 400))
      | _ \<Rightarrow> Inl (ServiceError 400))"

definition register_source ::
  "string \<Rightarrow> json \<Rightarrow> string \<Rightarrow> string list option \<Rightarrow> json \<Rightarrow> (service, response) sx" where
  "register_source source_id tier transport declares command =
     (if source_id = [] then sx_raise (ServiceError 400)
      else
        sx_bind (sx_lift (convert (\<lambda>e. e = ValueError) 400 (enum_of tier_value all_tiers tier))) (\<lambda>trust.
        sx_bind (sx_lift (command_of command)) (\<lambda>cmd.
        let source = \<lparr>ts_source_id = source_id, ts_tier = trust, ts_transport = transport\<rparr>;
            declared = (case declares of Some xs \<Rightarrow> xs | None \<Rightarrow> [])
        in
        sx_bind (update_catalog (\<lambda>cat. Inr (Catalog.register_source source declared cat, ()))) (\<lambda>_.
        sx_bind (on_store (upsert_source source declared cmd)) (\<lambda>_.
        sx_bind (on_store (append_audit ''source''
          [(''event'', JStr ''registered''), (''source_id'', JStr source_id), (''tier'', JStr (tier_value trust)),
           (''transport'', JStr transport), (''declares'', str_list (sort declared)),
           (''has_command'', JBool (cmd \<noteq> None))])) (\<lambda>_.
        sx_return [(''source_id'', JStr source_id), (''tier'', JStr (tier_value trust)), (''transport'', JStr transport)]))))))"

definition list_sources :: "(service, json list) sx" where
  "list_sources = sx_get (\<lambda>s. map (\<lambda>(k, src).
     JDict [(''source_id'', JStr (ts_source_id src)), (''tier'', JStr (tier_value (ts_tier src))),
            (''transport'', JStr (ts_transport src)),
            (''declares'', str_list (case dict_get (cat_declared (sv_catalog s)) (ts_source_id src) of
                                       Some xs \<Rightarrow> sort xs | None \<Rightarrow> [])),
            (''tools'', str_list (sort (map snd (filter (\<lambda>tid. fst tid = ts_source_id src)
                                          (dict_keys (cat_tools (sv_catalog s)))))))])
     (cat_sources (sv_catalog s)))"

section \<open>Ingest\<close>

text \<open>One iteration of the ingest loops: claim, attach the schema, write through.\<close>

definition ingest_one :: "string \<Rightarrow> string \<Rightarrow> string \<Rightarrow> ClaimedMetadata \<Rightarrow> json result \<Rightarrow> (service, string) sx" where
  "ingest_one source_id name version claimed schema =
     sx_bind (update_catalog (ingest_claimed source_id name claimed version)) (\<lambda>_.
     sx_bind (sx_get (\<lambda>s. catalog_get (sv_catalog s) source_id name)) (\<lambda>tv.
     case tv of
       None \<Rightarrow> sx_raise AssertionError
     | Some tv \<Rightarrow>
         sx_bind (sx_lift schema) (\<lambda>sch.
         sx_bind (update_catalog (\<lambda>cat. Inr (set_schema (source_id, name) sch cat, ()))) (\<lambda>_.
         sx_bind (on_store (upsert_tool (tv\<lparr>tv_input_schema := sch\<rparr>))) (\<lambda>_.
         sx_return name)))))"

definition drift_payload :: "DriftReport \<Rightarrow> response" where
  "drift_payload d =
     [(''source_id'', JStr (dr_source_id d)), (''clean'', JBool (drift_clean d)), (''summary'', JStr (drift_summary d)),
      (''advertised_missing'', str_list (dr_advertised_missing d)),
      (''undeclared_present'', str_list (dr_undeclared_present d)), (''unasserted'', str_list (dr_unasserted d)),
      (''claim_conflicts'', JList (map (\<lambda>(n, c). str_list [n, c]) (dr_claim_conflicts d))),
      (''redefined_after_assertion'', str_list (dr_redefined_after_assertion d))]"

definition known_source :: "string \<Rightarrow> (service, unit) sx" where
  "known_source source_id =
     sx_bind (sx_get (\<lambda>s. dict_get (cat_sources (sv_catalog s)) source_id)) (\<lambda>src.
     if src = None then sx_raise (ServiceError 404) else sx_return ())"

text \<open>
  A typed discovery fault is audited and becomes a 502; the text of the exception, a diagnostic, is
  a parameter. Other exceptions pass through.
\<close>

definition discovery_failed :: "(exn \<Rightarrow> string) \<Rightarrow> string \<Rightarrow> exn \<Rightarrow> (service, 'a) sx" where
  "discovery_failed text_of source_id e =
     (case e of
        McpDiscoveryError kind \<Rightarrow>
          sx_bind (on_store (append_audit ''ingest''
            [(''source_id'', JStr source_id), (''ok'', JBool False), (''fault_kind'', JStr kind), (''error'', JStr (text_of e))]))
            (\<lambda>_. sx_raise (ServiceError 502))
      | _ \<Rightarrow> sx_raise e)"

definition ingest :: "deps \<Rightarrow> (exn \<Rightarrow> string) \<Rightarrow> string \<Rightarrow> (service, response) sx" where
  "ingest dp text_of source_id =
     sx_bind (known_source source_id) (\<lambda>_.
     sx_bind (on_store (get_source_command source_id)) (\<lambda>command.
     case command of
       None \<Rightarrow> sx_raise (ServiceError 409)
     | Some cmd \<Rightarrow>
         sx_bind (sx_catch (sx_lift (discover (dp_decode dp) (dp_spawn dp) cmd)) (discovery_failed text_of source_id)) (\<lambda>result.
         sx_bind (sx_map (\<lambda>dt. ingest_one source_id (dt_name dt) (dt_version dt) (dt_claimed dt) (Inr (dt_input_schema dt)))
                    (dc_tools result)) (\<lambda>ingested.
         let discovered = map dt_name (dc_tools result) in
         sx_bind (on_store (record_discovery source_id discovered)) (\<lambda>_.
         sx_bind (on_store (append_audit ''ingest''
           [(''source_id'', JStr source_id), (''ok'', JBool True), (''server_name'', JStr (dc_server_name result)),
            (''server_version'', JStr (dc_server_version result)),
            (''protocol_version'', JStr (dc_protocol_version result)), (''tools'', str_list (sort ingested))])) (\<lambda>_.
         sx_bind (sx_get (\<lambda>s. Catalog.drift (sv_catalog s) source_id discovered)) (\<lambda>dr.
         sx_bind (on_store (append_audit ''drift''
           [(''source_id'', JStr source_id), (''clean'', JBool (drift_clean dr)), (''summary'', JStr (drift_summary dr))])) (\<lambda>_.
         sx_return
           [(''source_id'', JStr source_id),
            (''server'', JDict [(''name'', JStr (dc_server_name result)), (''version'', JStr (dc_server_version result))]),
            (''ingested'', str_list (sort ingested)), (''drift'', JDict (drift_payload dr))]))))))))"

text \<open>
  \<open>dict(schema)\<close> for a truthy JSON value: a dictionary, or a sequence of pairs. A key that is a
  number, a boolean or null is kept as the text JSON gives it when it is stored or sent.
\<close>

fun key_text :: "json \<Rightarrow> string result" where
  "key_text (JStr s) = Inr s"
| "key_text (JList vs) = Inl TypeError"
| "key_text (JDict kvs) = Inl TypeError"
| "key_text v = Inr (dumps v)"

definition pair_of :: "json \<Rightarrow> (string \<times> json) result" where
  "pair_of v = bind_result (py_iter v) (\<lambda>xs.
     case xs of [k, w] \<Rightarrow> bind_result (key_text k) (\<lambda>key. Inr (key, w)) | _ \<Rightarrow> Inl ValueError)"

definition py_dict :: "json \<Rightarrow> json result" where
  "py_dict v =
     (case v of
        JDict kvs \<Rightarrow> Inr v
      | _ \<Rightarrow> bind_result (py_iter v) (\<lambda>xs.
              bind_result (map_result pair_of xs) (\<lambda>kvs. Inr (JDict (fold (\<lambda>(k, w). dict_set k w) kvs [])))))"

record ParsedTool =
  pt_name :: string
  pt_version :: string
  pt_claimed :: ClaimedMetadata
  pt_schema :: json

definition parse_tool :: "string list \<Rightarrow> json \<Rightarrow> ParsedTool result" where
  "parse_tool seen t =
     bind_result (method_get t ''name'') (\<lambda>name_v.
     case name_v of
       JStr name \<Rightarrow>
         (if name = [] then Inl (ServiceError 400)
          else if name \<in> set seen then Inl (ServiceError 409)
          else
            bind_result (method_get t ''claimed'') (\<lambda>claimed.
            let raw = or_else claimed (JDict []) in
            case (t, raw) of
              (JDict tk, JDict c) \<Rightarrow>
                Inr \<lparr>pt_name = name, pt_version = py_str (get_or tk ''version'' (JStr ''0.0.0'')),
                     pt_claimed = \<lparr>cm_description = JStr (py_str (get_or c ''description'' (JStr []))),
                       cm_read_only_hint = get_or_null c ''read_only_hint'',
                       cm_destructive_hint = get_or_null c ''destructive_hint'',
                       cm_idempotent_hint = get_or_null c ''idempotent_hint'',
                       cm_open_world_hint = get_or_null c ''open_world_hint''\<rparr>,
                     pt_schema = or_else (get_or_null tk ''input_schema'') (JDict [])\<rparr>
            | _ \<Rightarrow> Inl AttributeError))
     | _ \<Rightarrow> Inl (ServiceError 400))"

fun parse_tools :: "ParsedTool list \<Rightarrow> json list \<Rightarrow> ParsedTool list result" where
  "parse_tools parsed [] = Inr parsed"
| "parse_tools parsed (t # ts) =
     bind_result (parse_tool (map pt_name parsed) t) (\<lambda>pt. parse_tools (parsed @ [pt]) ts)"

definition ingest_payload :: "string \<Rightarrow> json \<Rightarrow> (service, response) sx" where
  "ingest_payload source_id tools =
     sx_bind (known_source source_id) (\<lambda>_.
     case tools of
       JList ts \<Rightarrow>
         sx_bind (sx_lift (parse_tools [] ts)) (\<lambda>parsed.
         sx_bind (sx_map (\<lambda>pt. ingest_one source_id (pt_name pt) (pt_version pt) (pt_claimed pt) (py_dict (pt_schema pt)))
                    parsed) (\<lambda>ingested.
         sx_bind (on_store (record_discovery source_id ingested)) (\<lambda>_.
         sx_bind (on_store (append_audit ''ingest''
           [(''source_id'', JStr source_id), (''ok'', JBool True), (''push'', JBool True),
            (''tools'', str_list (sort ingested))])) (\<lambda>_.
         sx_return [(''source_id'', JStr source_id), (''ingested'', str_list (sort ingested))]))))
     | _ \<Rightarrow> sx_raise (ServiceError 400))"

section \<open>Catalog and assertions\<close>

definition get_tool :: "string \<Rightarrow> string \<Rightarrow> (service, response) sx" where
  "get_tool source_id name =
     sx_bind (sx_get sv_catalog) (\<lambda>cat.
     if catalog_get cat source_id name = None then sx_raise (ServiceError 404)
     else sx_lift (tool_payload cat source_id name))"

definition list_catalog :: "(service, response list) sx" where
  "list_catalog =
     sx_bind (sx_get sv_catalog) (\<lambda>cat.
     sx_lift (map_result (\<lambda>(sid, name). tool_payload cat sid name) (sort_ids (dict_keys (cat_tools cat)))))"

definition assert_tool :: "string \<Rightarrow> string \<Rightarrow> json \<Rightarrow> (service, response) sx" where
  "assert_tool source_id name descriptor =
     (if \<not> is_dict descriptor then sx_raise (ServiceError 400)
      else
        sx_bind (sx_lift (convert (\<lambda>e. e \<in> {KeyError, ValueError, TypeError}) 400 (asserted_from_json descriptor))) (\<lambda>desc.
        sx_bind (sx_get (\<lambda>s. catalog_get (sv_catalog s) source_id name)) (\<lambda>existing.
        sx_bind (case existing of
                   None \<Rightarrow> sx_return ()
                 | Some tv \<Rightarrow> sx_lift (convert (\<lambda>e. e = SchemaValidationError) 422
                                (validate_input_schema (tv_input_schema tv)))) (\<lambda>_.
        sx_bind (update_catalog (\<lambda>cat. convert (\<lambda>e. e = KeyError) 404 (convert (\<lambda>e. e = ValueError) 400
                   (assert_descriptor source_id name desc cat)))) (\<lambda>tv.
        sx_bind (on_store (upsert_tool tv)) (\<lambda>_.
        sx_bind (sx_get (\<lambda>s. dict_get (cat_assertions (sv_catalog s)) (source_id, name))) (\<lambda>rec.
        case rec of
          None \<Rightarrow> sx_raise KeyError
        | Some rec \<Rightarrow>
            sx_bind (on_store (upsert_assertion source_id name rec)) (\<lambda>_.
            sx_bind (on_store (append_audit ''assertion''
              [(''source_id'', JStr source_id), (''name'', JStr name), (''asserted_by'', ad_asserted_by desc),
               (''effect'', JStr (effect_value (ad_effect desc))),
               (''fingerprint'', JStr (show_int (ar_fingerprint rec)))])) (\<lambda>_.
            get_tool source_id name)))))))))"

definition get_assertion :: "string \<Rightarrow> string \<Rightarrow> (service, response) sx" where
  "get_assertion source_id name =
     sx_bind (sx_get sv_catalog) (\<lambda>cat.
     if catalog_get cat source_id name = None then sx_raise (ServiceError 404)
     else
       sx_bind (sx_lift (invocable cat source_id name)) (\<lambda>inv.
       sx_return
         [(''source_id'', JStr source_id), (''name'', JStr name),
          (''status'', JStr (status_value (assertion_status cat source_id name))), (''invocable'', JBool inv),
          (''record'', case dict_get (cat_assertions cat) (source_id, name) of
             None \<Rightarrow> JNull
           | Some rec \<Rightarrow> JDict [(''asserted_by'', ad_asserted_by (ar_descriptor rec)),
                               (''fingerprint'', JStr (show_int (ar_fingerprint rec))),
                               (''effect'', JStr (effect_value (ad_effect (ar_descriptor rec))))])]))"

definition drift :: "string \<Rightarrow> (service, response) sx" where
  "drift source_id =
     sx_bind (known_source source_id) (\<lambda>_.
     sx_bind (on_store (last_discovery source_id)) (\<lambda>obs.
     case obs of
       None \<Rightarrow> sx_raise (ServiceError 409)
     | Some (discovered, observed_at) \<Rightarrow>
         sx_bind (sx_get (\<lambda>s. Catalog.drift (sv_catalog s) source_id discovered)) (\<lambda>dr.
         sx_return (drift_payload dr @ [(''observed_at'', JStr observed_at)]))))"

section \<open>Authorization\<close>

text \<open>\<open>BusPublisher.publish\<close>: nothing when disabled; otherwise one body is handed to the transport.\<close>

definition publish ::
  "string \<Rightarrow> string option \<Rightarrow> string \<Rightarrow> string \<Rightarrow> (string \<times> json) list \<Rightarrow> (service, unit) sx" where
  "publish kind outcome actor privacy_tier payload =
     sx_bind (sx_get (\<lambda>s. bus_enabled (sv_bus s))) (\<lambda>on.
     if \<not> on then sx_return ()
     else
       sx_bind (on_store uuid4_hex) (\<lambda>u.
       sx_modify (\<lambda>s. s\<lparr>sv_bus := (sv_bus s)\<lparr>bp_posted := bp_posted (sv_bus s) @
         [event_body kind (''toolconnect_'' @ u) actor privacy_tier payload outcome]\<rparr>\<rparr>)))"

definition broker_call :: "deps \<Rightarrow> Principal \<Rightarrow> string \<Rightarrow> string \<Rightarrow> json \<Rightarrow> (service, Decision) sx" where
  "broker_call dp p source_id name context =
     sx_bind (sx_get sv_catalog) (\<lambda>cat.
     sx_bind (sx_lift (broker_decision (dp_engine dp) cat p source_id name context)) (\<lambda>d.
     sx_bind (audit_log_append (decision_record p source_id name d)) (\<lambda>_.
     sx_return d)))"

text \<open>The shape, hash and ttl checks before the broker is called: the bound hash and the ttl.\<close>

definition ttl_ok :: "json \<Rightarrow> bool" where
  "ttl_ok ttl = (case ttl of JInt n \<Rightarrow> MIN_GRANT_TTL_SECONDS \<le> n \<and> n \<le> MAX_GRANT_TTL_SECONDS | _ \<Rightarrow> False)"

fun int_of :: "json \<Rightarrow> int" where
  "int_of (JInt n) = n"
| "int_of _ = 0"

definition check_args :: "json \<Rightarrow> string result" where
  "check_args args =
     (if \<not> is_dict args then Inl (ServiceError 400)
      else convert (\<lambda>e. e = ArgsNotHashable) 400 (args_hash (of_json args)))"

definition check_request :: "json \<Rightarrow> json option \<Rightarrow> json \<Rightarrow> (string \<times> int) option result" where
  "check_request context args ttl_seconds =
     (if context \<noteq> JNull \<and> \<not> is_dict context then Inl (ServiceError 400)
      else case args of
             None \<Rightarrow> (if ttl_seconds \<noteq> JNull then Inl (ServiceError 400) else Inr None)
           | Some a \<Rightarrow>
               bind_result (check_args a) (\<lambda>h.
               let ttl = (if ttl_seconds = JNull then JInt DEFAULT_GRANT_TTL_SECONDS else ttl_seconds)
               in if ttl_ok ttl then Inr (Some (h, int_of ttl)) else Inl (ServiceError 400)))"

definition last_decision_id :: "(service, string) sx" where
  "last_decision_id =
     sx_bind (sx_get sv_audit_log) (\<lambda>log.
     case rev log of
       [] \<Rightarrow> sx_raise IndexError
     | r # rs \<Rightarrow> (case dict_get r ''decision_id'' of Some v \<Rightarrow> sx_return (str_of v) | None \<Rightarrow> sx_raise KeyError))"

record IssuedGrant =
  ig_grant_id :: string
  ig_args_hash :: string
  ig_expires_at :: instant
  ig_ttl :: int

definition issue_for :: "Principal \<Rightarrow> string \<Rightarrow> string \<Rightarrow> string \<Rightarrow> string \<Rightarrow> int \<Rightarrow> (service, IssuedGrant) sx" where
  "issue_for p source_id name decision_id h ttl =
     sx_bind (on_store now) (\<lambda>issued.
     let expires = issued + ttl * 1000000 in
     sx_bind (on_store uuid4_hex) (\<lambda>grant_id.
     sx_bind (on_store (issue_grant grant_id decision_id (p_id p) source_id name h issued expires (JInt ttl))) (\<lambda>_.
     sx_return \<lparr>ig_grant_id = grant_id, ig_args_hash = h, ig_expires_at = expires, ig_ttl = ttl\<rparr>)))"

definition grant_json :: "IssuedGrant option \<Rightarrow> json" where
  "grant_json g =
     (case g of
        None \<Rightarrow> JNull
      | Some g \<Rightarrow> JDict [(''grant_id'', JStr (ig_grant_id g)), (''args_hash'', JStr (ig_args_hash g)),
                        (''expires_at'', JStr (isoformat (ig_expires_at g))), (''ttl_seconds'', JInt (ig_ttl g))])"

definition publish_decision ::
  "Principal \<Rightarrow> string \<Rightarrow> string \<Rightarrow> Decision \<Rightarrow> string \<Rightarrow> string option \<Rightarrow> IssuedGrant option \<Rightarrow> (service, unit) sx" where
  "publish_decision p source_id name d decision_id bound grant =
     (let tier = bus_tier_for_principal (effective_tier p);
          common = [(''principal_id'', JStr (p_id p)), (''source_id'', JStr source_id), (''tool'', JStr name),
                    (''qualified_name'', JStr (qualify source_id name)), (''decision_id'', JStr decision_id)]
      in
      sx_bind (publish ''tool.authorized'' (if d_allowed d then None else Some ''denied'') (p_id p) tier
        (common @ [(''grant_id'', opt_str (map_option ig_grant_id grant)), (''args_hash'', opt_str bound),
                   (''reason'', JStr (d_reason d)), (''determining_policies'', str_list (d_determining_policies d))])) (\<lambda>_.
      case grant of
        None \<Rightarrow> sx_return ()
      | Some g \<Rightarrow>
          publish ''grant.issued'' None (p_id p) tier
            (common @ [(''grant_id'', JStr (ig_grant_id g)), (''args_hash'', opt_str bound), (''ttl_seconds'', JInt (ig_ttl g))])))"

definition context_or_empty :: "json \<Rightarrow> json" where
  "context_or_empty context = (if truthy context then context else JDict [])"

definition authorize ::
  "deps \<Rightarrow> json \<Rightarrow> string \<Rightarrow> string \<Rightarrow> json \<Rightarrow> json option \<Rightarrow> json \<Rightarrow> (service, response) sx" where
  "authorize dp principal_v source_id name context args ttl_seconds =
     sx_bind (sx_lift (check_request context args ttl_seconds)) (\<lambda>req.
     sx_bind (sx_lift (parse_principal principal_v)) (\<lambda>p.
     sx_bind (broker_call dp p source_id name (context_or_empty context)) (\<lambda>d.
     sx_bind last_decision_id (\<lambda>decision_id.
     sx_bind (case req of
                Some (h, ttl) \<Rightarrow>
                  (if d_allowed d
                   then sx_bind (issue_for p source_id name decision_id h ttl) (\<lambda>g. sx_return (Some g))
                   else sx_return None)
              | None \<Rightarrow> sx_return None) (\<lambda>grant.
     sx_bind (publish_decision p source_id name d decision_id (map_option fst req) grant) (\<lambda>_.
     sx_return (decision_payload d decision_id @
       (if req = None then [] else [(''grant'', grant_json grant)]))))))))"

section \<open>Redemption\<close>

definition redeem_grant :: "string \<Rightarrow> json \<Rightarrow> json \<Rightarrow> (service, response) sx" where
  "redeem_grant grant_id principal_v args =
     (if grant_id = [] then sx_raise (ServiceError 400)
      else
        sx_bind (sx_lift (parse_principal principal_v)) (\<lambda>p.
        sx_bind (sx_lift (check_args args)) (\<lambda>h.
        sx_bind (sx_get sv_catalog) (\<lambda>cat.
        sx_bind (on_store (Store_Grants.redeem_grant grant_id h (p_id p) (Some (invocable cat)))) (\<lambda>res.
        sx_bind (if \<not> rr_redeemed res then
                   sx_bind (on_store (append_audit ''grant_redeem_denied''
                     [(''grant_id'', JStr grant_id), (''decision_id'', opt_str (rr_decision_id res)),
                      (''principal_id'', JStr (p_id p)), (''reason'', JStr (rr_reason res))])) (\<lambda>_. sx_return ())
                 else
                   publish ''grant.redeemed'' None (p_id p) (bus_tier_for_principal (effective_tier p))
                     [(''principal_id'', JStr (p_id p)), (''grant_id'', JStr grant_id),
                      (''decision_id'', opt_str (rr_decision_id res)), (''source_id'', opt_str (rr_source_id res)),
                      (''tool'', opt_str (rr_name res)),
                      (''qualified_name'', JStr (qualify (str_of (opt_str (rr_source_id res))) (str_of (opt_str (rr_name res))))),
                      (''args_hash'', JStr h)]) (\<lambda>_.
        sx_return
          [(''grant_id'', JStr grant_id), (''decision_id'', opt_str (rr_decision_id res)),
           (''redeemed'', JBool (rr_redeemed res)), (''reason'', JStr (rr_reason res)),
           (''source_id'', opt_str (rr_source_id res)), (''name'', opt_str (rr_name res)),
           (''contract_version'', JStr DECISION_CONTRACT_VERSION)]))))))"

text \<open>
  The two audit bodies and the responses of \<open>redeem_governance_grant\<close>, from the verification's
  payload, which is \<open>None\<close> for a malformed grant.
\<close>

definition payload_get :: "(string \<times> json) list option \<Rightarrow> string \<Rightarrow> json" where
  "payload_get payload k = (case payload of None \<Rightarrow> JNull | Some kvs \<Rightarrow> get_or_null kvs k)"

definition enforcement_body ::
  "service \<Rightarrow> GovVerification \<Rightarrow> Principal \<Rightarrow> string \<Rightarrow> string \<Rightarrow> string \<Rightarrow> string \<Rightarrow> string \<Rightarrow> (string \<times> json) list" where
  "enforcement_body s v p source_id name h outcome instant_text =
     [(''grant_id'', payload_get (gv_payload v) ''grant_id''),
      (''decision_record_id'', payload_get (gv_payload v) ''decision_record_id''),
      (''correlation_id'', payload_get (gv_payload v) ''correlation_id''),
      (''issuer_key_id'', opt_str (gv_issuer_key_id v)), (''provider_id'', JStr (sv_provider_id s)),
      (''principal_id'', JStr (p_id p)), (''source_id'', JStr source_id), (''name'', JStr name),
      (''args_hash'', JStr h), (''verified'', JBool (gv_valid v)),
      (''failure_codes'', str_list (gv_failure_codes v)), (''outcome'', JStr outcome),
      (''verification_at'', JStr instant_text), (''redeemed_at'', JNull)]"

definition gov_deny ::
  "GovVerification \<Rightarrow> Principal \<Rightarrow> string \<Rightarrow> string \<Rightarrow> string \<Rightarrow> string \<Rightarrow> string \<Rightarrow> (service, response) sx" where
  "gov_deny v p source_id name h instant_text reason =
     sx_bind (sx_get (\<lambda>s. s)) (\<lambda>s.
     sx_bind (on_store (append_audit ''provider_enforcement''
       (enforcement_body s v p source_id name h (''denied:'' @ reason) instant_text))) (\<lambda>_.
     sx_return
       [(''grant_id'', payload_get (gv_payload v) ''grant_id''), (''redeemed'', JBool False), (''reason'', JStr reason),
        (''failure_codes'', str_list (gv_failure_codes v)), (''source_id'', JStr source_id), (''name'', JStr name),
        (''contract_version'', JStr DECISION_CONTRACT_VERSION)]))"

definition gov_claim ::
  "GovVerification \<Rightarrow> (string \<times> json) list \<Rightarrow> Principal \<Rightarrow> string \<Rightarrow> string \<Rightarrow> string \<Rightarrow> string \<Rightarrow> (service, response) sx" where
  "gov_claim v payload p source_id name h instant_text =
     sx_bind (sx_get (\<lambda>s. s)) (\<lambda>s.
     let gid = str_of (get_or_null payload ''grant_id'');
         row_at = (\<lambda>redeemed_at.
           \<lparr>rd_decision_record_id = str_of (get_or_null payload ''decision_record_id''),
            rd_correlation_id = (case get_or_null payload ''correlation_id'' of JStr c \<Rightarrow> Some c | _ \<Rightarrow> None),
            rd_issuer_key_id = str_of (get_or_null payload ''issuer_key_id''), rd_provider_id = sv_provider_id s,
            rd_principal_id = p_id p, rd_source_id = source_id, rd_name = name, rd_args_hash = h,
            rd_verification_at = instant_text, rd_redeemed_at = redeemed_at\<rparr>)
     in
     sx_bind (on_store (record_govgrant_redemption gid row_at
       (enforcement_body s v p source_id name h ''redeemed'' instant_text))) (\<lambda>(redeemed, reason, at).
     if \<not> redeemed then gov_deny v p source_id name h instant_text reason
     else
       sx_bind (publish ''grant.redeemed'' None (p_id p) (bus_tier_for_principal (effective_tier p))
         [(''principal_id'', JStr (p_id p)), (''grant_id'', get_or_null payload ''grant_id''),
          (''decision_id'', get_or_null payload ''decision_record_id''), (''source_id'', JStr source_id),
          (''tool'', JStr name), (''qualified_name'', JStr (qualify source_id name)), (''args_hash'', JStr h)]) (\<lambda>_.
       sx_return
         [(''grant_id'', get_or_null payload ''grant_id''), (''redeemed'', JBool True), (''reason'', JStr ''ok''),
          (''failure_codes'', JList []), (''decision_record_id'', get_or_null payload ''decision_record_id''),
          (''correlation_id'', get_or_null payload ''correlation_id''), (''source_id'', JStr source_id),
          (''name'', JStr name), (''contract_version'', JStr DECISION_CONTRACT_VERSION)])))"

definition redeem_governance_grant ::
  "deps \<Rightarrow> json \<Rightarrow> json \<Rightarrow> string \<Rightarrow> string \<Rightarrow> json \<Rightarrow> string option \<Rightarrow> (service, response) sx" where
  "redeem_governance_grant dp grant principal_v source_id name args at =
     sx_bind (sx_lift (parse_principal principal_v)) (\<lambda>p.
     sx_bind (sx_lift (check_args args)) (\<lambda>h.
     sx_bind (case at of Some t \<Rightarrow> sx_return t | None \<Rightarrow> on_store now_text) (\<lambda>instant_text.
     sx_bind (sx_get (\<lambda>s. s)) (\<lambda>s.
     sx_bind (sx_lift (verify_grant (dp_platform dp) grant (sv_trust_root s) instant_text None (sv_revocation_list s))) (\<lambda>v.
     if \<not> gv_valid v then
       (case gv_failure_codes v of
          [] \<Rightarrow> sx_raise IndexError
        | code # codes \<Rightarrow> gov_deny v p source_id name h instant_text code)
     else
       (case (gv_payload v, args) of
          (Some payload, JDict kvs) \<Rightarrow>
            sx_bind (sx_lift (scope_failures payload (p_id p) (sv_provider_id s) source_id name kvs)) (\<lambda>failures.
            case failures of
              [] \<Rightarrow> gov_claim v payload p source_id name h instant_text
            | code # codes \<Rightarrow> gov_deny v p source_id name h instant_text code)
        | _ \<Rightarrow> sx_raise TypeError))))))"

section \<open>Grants and outcomes\<close>

definition close_grant :: "string \<Rightarrow> string \<Rightarrow> (service, response) sx" where
  "close_grant grant_id reason =
     sx_bind (on_store (Store_Grants.close_grant grant_id reason)) (\<lambda>closed.
     case closed of
       None \<Rightarrow> sx_raise (ServiceError 404)
     | Some (decision_id, already) \<Rightarrow>
         sx_return [(''grant_id'', JStr grant_id), (''decision_id'', JStr decision_id), (''closed'', JBool True),
                    (''already_closed'', JBool already), (''contract_version'', JStr DECISION_CONTRACT_VERSION)])"

definition get_grant :: "string \<Rightarrow> (service, GrantView) sx" where
  "get_grant grant_id =
     sx_bind (on_store (Store_Grants.get_grant grant_id)) (\<lambda>found.
     case found of None \<Rightarrow> sx_raise (ServiceError 404) | Some g \<Rightarrow> sx_return g)"

definition GRANT_STATES :: "string list" where
  "GRANT_STATES = [''issued'', ''redeemed'', ''expired'', ''closed'']"

definition list_grants :: "string option \<Rightarrow> int \<Rightarrow> (service, GrantView list) sx" where
  "list_grants state limit =
     (if (case state of None \<Rightarrow> False | Some st \<Rightarrow> st \<notin> set GRANT_STATES) then sx_raise (ServiceError 400)
      else on_store (Store_Grants.list_grants state (max 1 (min limit 1000))))"

definition close_reported :: "string \<Rightarrow> string option \<Rightarrow> (service, response) sx" where
  "close_reported decision_id grant_id =
     (case grant_id of
        None \<Rightarrow> sx_return []
      | Some gid \<Rightarrow>
          sx_bind (on_store (Store_Grants.get_grant gid)) (\<lambda>found.
          case found of
            None \<Rightarrow> sx_raise (ServiceError 404)
          | Some g \<Rightarrow>
              if gr_decision_id (gv_row g) \<noteq> decision_id then sx_raise (ServiceError 400)
              else sx_bind (on_store (Store_Grants.close_grant gid ''outcome_reported'')) (\<lambda>_.
                   sx_return [(''grant_closed'', JBool True)])))"

definition record_outcome :: "string \<Rightarrow> string \<Rightarrow> json \<Rightarrow> string option \<Rightarrow> (service, response) sx" where
  "record_outcome decision_id outcome detail grant_id =
     (if decision_id = [] then sx_raise (ServiceError 400)
      else if detail \<noteq> JNull \<and> \<not> is_dict detail then sx_raise (ServiceError 400)
      else
        sx_bind (on_store (find_decision decision_id)) (\<lambda>found.
        case found of
          None \<Rightarrow> sx_raise (ServiceError 404)
        | Some (seq, body) \<Rightarrow>
            sx_bind (on_store (append_audit ''outcome''
              [(''decision_id'', JStr decision_id), (''decision_seq'', JInt seq), (''outcome'', JStr outcome),
               (''detail'', context_or_empty detail)])) (\<lambda>audit_seq.
            sx_bind (close_reported decision_id grant_id) (\<lambda>closed.
            sx_bind (sx_lift (case body of JDict kvs \<Rightarrow> Inr kvs | _ \<Rightarrow> Inl AttributeError)) (\<lambda>kvs.
            sx_bind (publish ''tool.executed'' (Some (bus_outcome_for_execution outcome))
              (py_str (get_or kvs ''principal'' (JStr []))) NO_PRINCIPAL_BUS_TIER
              [(''principal_id'', get_or_null kvs ''principal''), (''source_id'', get_or_null kvs ''source''),
               (''tool'', get_or_null kvs ''tool''), (''qualified_name'', get_or_null kvs ''qualified''),
               (''decision_id'', JStr decision_id), (''grant_id'', opt_str grant_id)]) (\<lambda>_.
            sx_return ([(''decision_id'', JStr decision_id), (''audit_seq'', JInt audit_seq)] @ closed)))))))"

definition read_audit :: "string option \<Rightarrow> int \<Rightarrow> (service, audit_entry list) sx" where
  "read_audit kind limit = on_store (Store_Audit.read_audit kind limit)"

definition verify_audit :: "(service, ChainVerification) sx" where
  "verify_audit = on_store verify_chain"

end
