(* ===== verification/Service_Relation.thy ===== *)
theory Service_Relation
  imports Service
begin

text \<open>
  What the handlers do to the service, for any relation between the states before and after. The
  locale \<open>service_handlers\<close> asks of a relation on stores that the primitive operations of \<open>store.py\<close>
  stay within it, and of a relation on services that it covers changes of the store within the former
  and changes of the bus; every handler that leaves the catalog and the list of decisions alone then
  stays within it. \<open>service_relation\<close> adds that list, and with it authorization, and
  \<open>catalog_handlers\<close> the steps of the catalog, and with them the handlers that take them. The theories
  on soundness, on restarting and on interleaving interpret them.
\<close>

locale service_handlers = sx_relation R + store: sx_relation S
  for R :: "service \<Rightarrow> service \<Rightarrow> bool" and S :: "store \<Rightarrow> store \<Rightarrow> bool" +
  assumes on_tables: "st_tables t = st_tables u \<Longrightarrow> st_begun t = st_begun u \<Longrightarrow> S u t"
    and store_lift: "S (sv_store s) t \<Longrightarrow> R s (s\<lparr>sv_store := t\<rparr>)"
    and bus_aside: "R s (s\<lparr>sv_bus := b\<rparr>)"
    and append_audit: "plain kind \<Longrightarrow> within S (append_audit kind body)"
    and issue_grant: "within S (issue_grant gid did pid sid name ahash issued expires ttl)"
    and redeem_store_grant: "within S (Store_Grants.redeem_grant gid ahash pid chk)"
    and close_store_grant: "within S (Store_Grants.close_grant gid reason)"
    and govgrant: "within S (record_govgrant_redemption gid row_at body)"
begin

lemma on_store: "within S m \<Longrightarrow> within R (on_store m)"
  by (rule withinI) (auto simp: on_store_def split: prod.splits dest: withinD intro: store_lift)

lemma store_pure:
  assumes "\<And>s. st_tables (snd (m s)) = st_tables s" "\<And>s. st_begun (snd (m s)) = st_begun s"
  shows "within S m"
  using assms on_tables by (simp add: within_def)

lemma store_query: "within S (query f)"
  by (rule store_pure) (auto simp: query_def sx_bind_def statement_def sx_get_def Let_def)

lemma store_clock: "within S now" "within S now_text" "within S uuid4_hex"
  by (rule store_pure; simp add: now_def now_text_def uuid4_hex_def sx_bind_def sx_return_def)+

lemma store_reads:
  "within S (get_source_command sid)" "within S (last_discovery sid)" "within S (get_meta key)"
  "within S verify_chain" "within S (find_decision did)" "within S (Store_Audit.read_audit kind limit)"
  unfolding get_source_command_def last_discovery_def get_meta_def verify_chain_def find_decision_def Store_Audit.read_audit_def
  by (intro store.within_rules store_query)+

lemma store_grant_status: "within S (grant_row_to_dict kr)"
  unfolding grant_row_to_dict_def grant_status_def by (auto intro!: store.within_rules store_clock)

lemma store_get_grant: "within S (Store_Grants.get_grant gid)"
  unfolding Store_Grants.get_grant_def
  by (auto intro!: store.within_rules store_query store_grant_status split: option.split)

lemma store_list_grants: "within S (Store_Grants.list_grants state limit)"
proof -
  have "within S (collect_grants state limit out krs)" for out krs
    by (induction krs arbitrary: out) (auto simp: Let_def intro!: store.within_rules store_grant_status)
  then show ?thesis
    unfolding Store_Grants.list_grants_def by (intro store.within_bind store_query)
qed

lemmas store_rules = store_query store_clock append_audit store_reads store_get_grant store_list_grants
  issue_grant redeem_store_grant close_store_grant govgrant

lemma publish: "within R (publish kind outcome actor tier payload)"
proof -
  have "within R (sx_modify (\<lambda>s. s\<lparr>sv_bus := (sv_bus s)\<lparr>bp_posted := bp_posted (sv_bus s) @ f s\<rparr>\<rparr>))" for f
    by (simp add: within_def sx_modify_def bus_aside)
  then show ?thesis unfolding publish_def by (auto intro!: within_rules on_store store_clock)
qed

lemma known_source: "within R (known_source sid)"
  unfolding known_source_def by (auto intro!: within_rules)

lemmas rules = within_rules on_store store_rules publish known_source

lemma discovery_failed: "within R (discovery_failed text_of sid e)"
  unfolding discovery_failed_def by (auto intro!: rules split: exn.split)

lemma get_tool: "within R (get_tool sid name)"
  unfolding get_tool_def by (auto intro!: rules)

lemma issue_for: "within R (issue_for p sid name did h ttl)"
  unfolding issue_for_def Let_def by (intro rules)

lemma publish_decision: "within R (publish_decision p sid name d did bound grant)"
  unfolding publish_decision_def Let_def by (auto intro!: rules split: option.split)

lemma last_decision_id: "within R last_decision_id"
  unfolding last_decision_id_def by (auto intro!: rules split: list.split option.split)

lemma redeem_grant: "within R (redeem_grant gid principal_v args)"
  unfolding redeem_grant_def by (auto intro!: rules)

lemma gov_deny: "within R (gov_deny v p sid name h at reason)"
  unfolding gov_deny_def by (intro rules) simp_all

lemma gov_claim: "within R (gov_claim v payload p sid name h at)"
  unfolding gov_claim_def Let_def by (auto intro!: rules gov_deny split: prod.split)

lemma redeem_governance: "within R (redeem_governance_grant dp grant principal_v sid name args at)"
  unfolding redeem_governance_grant_def
  by (auto intro!: rules gov_deny gov_claim split: option.split list.split json.split prod.split)

lemma close_grant: "within R (close_grant gid reason)"
  unfolding close_grant_def by (auto intro!: rules split: option.split prod.split)

lemma record_outcome: "within R (record_outcome did outcome detail gid)"
  unfolding record_outcome_def close_reported_def
  by (auto intro!: rules split: option.split prod.split json.split)

lemma reading:
  "within R (health dp)" "within R (get_grant gid)" "within R (list_grants state limit)"
  "within R (drift sid)" "within R (read_audit kind limit)" "within R verify_audit"
  "within R list_sources" "within R list_catalog" "within R (get_assertion sid name)"
  unfolding health_def get_grant_def list_grants_def drift_def read_audit_def verify_audit_def list_sources_def
    list_catalog_def get_assertion_def
  by (auto intro!: rules split: option.split prod.split)

end

text \<open>Authorization also appends to the list of decisions in memory.\<close>

locale service_relation = service_handlers +
  assumes log_aside: "R s (s\<lparr>sv_audit_log := l\<rparr>)"
begin

lemma audit_log: "within R (audit_log_append rec)"
proof -
  have "within R (sx_modify (\<lambda>s. s\<lparr>sv_audit_log := f s\<rparr>))" for f
    by (simp add: within_def sx_modify_def log_aside)
  then show ?thesis
    unfolding audit_log_append_def Let_def by (intro rules) simp_all
qed

lemma broker_call: "within R (broker_call dp p sid name ctx)"
  unfolding broker_call_def by (intro rules audit_log)

lemma authorize: "within R (authorize dp principal_v sid name context args ttl)"
  unfolding authorize_def
  by (auto intro!: rules broker_call issue_for publish_decision last_decision_id split: option.split prod.split)

end

text \<open>Registration, discovery, pushes and assertions take a step of the catalog and write it through.\<close>

lemma convert_Inr [result_simps]: "convert P n r = Inr a \<longleftrightarrow> r = Inr a"
  by (auto simp: convert_def split: sum.splits)

locale catalog_handlers = service_handlers +
  assumes catalog_aside: "cat_step (sv_catalog s) cat \<Longrightarrow> R s (s\<lparr>sv_catalog := cat\<rparr>)"
    and upserts: "within S (upsert_source src declares command)" "within S (upsert_tool tv)"
      "within S (upsert_assertion sid name rec)" "within S (record_discovery sid names)"
begin

lemma update_catalog:
  assumes "\<And>cat cat' a. f cat = Inr (cat', a) \<Longrightarrow> cat_step cat cat'"
  shows "within R (update_catalog f)"
  using assms catalog_aside refl by (intro withinI) (auto simp: update_catalog_def split: sum.splits)

lemmas catalog_rules = rules on_store [OF upserts(1)] on_store [OF upserts(2)] on_store [OF upserts(3)] on_store [OF upserts(4)]

lemma register_source: "within R (register_source sid tier transport declares command)"
  unfolding register_source_def Let_def
  by (auto intro!: catalog_rules update_catalog cat_step.register)

lemma ingest_one: "within R (ingest_one sid name version claimed schema)"
  unfolding ingest_one_def
  by (auto intro!: catalog_rules update_catalog cat_step.schema split: option.split intro: cat_step.ingest)

lemma ingest: "within R (ingest dp text_of sid)"
  unfolding ingest_def Let_def
  by (auto intro!: catalog_rules ingest_one discovery_failed split: option.split)

lemma ingest_payload: "within R (ingest_payload sid tools)"
  unfolding ingest_payload_def
  by (auto intro!: catalog_rules ingest_one split: json.split)

lemma assert_tool: "within R (assert_tool sid name descriptor)"
  unfolding assert_tool_def
  by (auto intro!: catalog_rules update_catalog get_tool simp: result_simps split: option.split
      intro: cat_step.assertion)

end

end
