(* ===== verification/Service_Props.thy ===== *)
theory Service_Props
  imports Service_Relation
begin

text \<open>
  What every handler of the service keeps, whichever SQL statements fail: the catalog moves only by
  its own steps, the audit chain stays intact and only grows, and no redemption is forgotten. Both
  are relations between the states before and after that are closed under the constructs of the
  handlers, so that a handler is checked by applying rules.
\<close>

section \<open>What the store keeps\<close>

text \<open>What a grant is bound to: everything but its two latches, which are set at most once.\<close>

definition binding :: "grant_row \<Rightarrow> grant_row" where
  "binding g = g\<lparr>gr_redeemed_at := None, gr_closed_at := None\<rparr>"

lemma binding_fields:
  assumes "binding g' = binding g"
  shows "gr_principal_id g' = gr_principal_id g" "gr_source_id g' = gr_source_id g" "gr_name g' = gr_name g"
    "gr_args_hash g' = gr_args_hash g" "gr_decision_id g' = gr_decision_id g" "gr_expires_at g' = gr_expires_at g"
  using arg_cong [OF assms, of gr_principal_id] arg_cong [OF assms, of gr_source_id] arg_cong [OF assms, of gr_name]
    arg_cong [OF assms, of gr_args_hash] arg_cong [OF assms, of gr_decision_id] arg_cong [OF assms, of gr_expires_at]
  by (simp_all add: binding_def)

definition grants_kept :: "(string, grant_row) dict \<Rightarrow> (string, grant_row) dict \<Rightarrow> bool" where
  "grants_kept gs gs' \<longleftrightarrow>
     (\<forall>gid g. dict_get gs gid = Some g \<longrightarrow>
        (\<exists>g'. dict_get gs' gid = Some g' \<and> binding g' = binding g \<and>
           (gr_redeemed_at g \<noteq> None \<longrightarrow> gr_redeemed_at g' = gr_redeemed_at g)))"

lemma grants_keptD:
  "grants_kept gs gs' \<Longrightarrow> dict_get gs gid = Some g \<Longrightarrow>
     \<exists>g'. dict_get gs' gid = Some g' \<and> binding g' = binding g \<and>
        (gr_redeemed_at g \<noteq> None \<longrightarrow> gr_redeemed_at g' = gr_redeemed_at g)"
  by (simp add: grants_kept_def)

lemma grants_kept_refl [simp]: "grants_kept gs gs"
  by (simp add: grants_kept_def)

lemma grants_kept_trans: "grants_kept a b \<Longrightarrow> grants_kept b c \<Longrightarrow> grants_kept a c"
  unfolding grants_kept_def by metis

lemma grants_kept_set:
  assumes "dict_get gs gid = None \<or>
    (\<exists>g. dict_get gs gid = Some g \<and> binding g' = binding g \<and> (gr_redeemed_at g \<noteq> None \<longrightarrow> gr_redeemed_at g' = gr_redeemed_at g))"
  shows "grants_kept gs (dict_set gid g' gs)"
  using assms by (auto simp: grants_kept_def dict_simps)

lemma binding_latches [simp]:
  "binding (g\<lparr>gr_redeemed_at := a\<rparr>) = binding g" "binding (g\<lparr>gr_closed_at := b\<rparr>) = binding g"
  by (simp_all add: binding_def)

definition tables_kept :: "tables \<Rightarrow> tables \<Rightarrow> bool" where
  "tables_kept t t' \<longleftrightarrow>
     (audit_ok t \<longrightarrow> audit_ok t') \<and> (\<exists>rows. t_audit t' = t_audit t @ rows) \<and>
     grants_kept (t_grants t) (t_grants t') \<and>
     (\<forall>gid. dict_get (t_redemptions t) gid \<noteq> None \<longrightarrow> dict_get (t_redemptions t') gid \<noteq> None)"

definition kept :: "store \<Rightarrow> store \<Rightarrow> bool" where
  "kept s s' \<longleftrightarrow> (idle s \<longrightarrow> idle s' \<and> tables_kept (st_tables s) (st_tables s'))"

lemma tables_kept_refl [simp]: "tables_kept t t"
  by (auto simp: tables_kept_def)

lemma tables_kept_trans: "tables_kept t u \<Longrightarrow> tables_kept u v \<Longrightarrow> tables_kept t v"
  by (auto simp: tables_kept_def intro: grants_kept_trans)

interpretation kept: sx_relation kept
  by unfold_locales (auto simp: kept_def intro: tables_kept_trans)

lemma kept_spent: "kept s s' \<Longrightarrow> idle s \<Longrightarrow> spent s e \<Longrightarrow> spent s' e"
  by (cases e) (auto simp: kept_def tables_kept_def dest!: grants_keptD)

lemma tables_kept_appended:
  assumes "plain kind" "tables_kept t u"
  shows "tables_kept t (appended kind body (isoformat c) u)"
proof -
  have "tables_kept u (appended kind body (isoformat c) u)"
    using audit_ok_appended [OF _ assms(1) plain_isoformat]
    by (auto simp: tables_kept_def appended_tables)
  then show ?thesis by (rule tables_kept_trans [OF assms(2)])
qed

lemma tables_kept_same:
  assumes "t_audit t' = t_audit t" "t_audit_seq t' = t_audit_seq t" "t_meta t' = t_meta t"
    "t_grants t' = t_grants t" "t_redemptions t' = t_redemptions t"
  shows "tables_kept t t'"
  using assms by (auto simp: tables_kept_def audit_ok_def)

lemma kept_with_conn:
  assumes "within same_base m" "\<And>s v s'. m s = (Inr v, s') \<Longrightarrow> tables_kept (st_tables s) (st_tables s')"
  shows "within kept (with_conn m)"
proof (rule withinI)
  fix s r s' assume run: "with_conn m s = (r, s')"
  show "kept s s'"
    unfolding kept_def
  proof
    assume "idle s"
    from with_conn_atomic [OF assms(1) this run] assms(2)
    show "idle s' \<and> tables_kept (st_tables s) (st_tables s')" by (auto split: sum.splits)
  qed
qed

lemma kept_append_audit: "plain kind \<Longrightarrow> within kept (append_audit kind body)"
  unfolding append_audit_def
  by (rule kept_with_conn [OF within_append_in_txn]) (auto dest!: append_in_txn_Inr(1) intro!: tables_kept_appended)

lemma kept_upserts:
  "within kept (upsert_source src declares command)" "within kept (upsert_tool tv)"
  "within kept (upsert_assertion sid name rec)" "within kept (record_discovery sid names)"
  unfolding upsert_source_def upsert_tool_def upsert_assertion_def record_discovery_def
  by (rule kept_with_conn;
      (auto intro!: txn_rules split: option.split)?;
      auto simp: sx_simps put_source_def put_tool_def put_assertion_def put_discovery_def
        intro!: tables_kept_same split: option.splits)+

lemma kept_issue_grant: "within kept (issue_grant gid did pid sid name ahash issued expires ttl)"
proof (rule withinI)
  fix s r s' assume run: "issue_grant gid did pid sid name ahash issued expires ttl s = (r, s')"
  have g: "tables_kept t (t\<lparr>t_grants := dict_set gid row (t_grants t)\<rparr>)" if "dict_get (t_grants t) gid = None" for t row
    using that by (auto simp: tables_kept_def audit_ok_def intro: grants_kept_set)
  show "kept s s'"
    using issue_grant_spec [OF _ run]
    by (auto simp: kept_def intro!: tables_kept_appended g split: sum.splits)
qed

lemma kept_redeem_grant: "within kept (Store_Grants.redeem_grant gid ahash pid chk)"
proof (rule withinI)
  fix s r s' assume run: "Store_Grants.redeem_grant gid ahash pid chk s = (r, s')"
  have g: "tables_kept t (t\<lparr>t_grants := dict_set gid g' (t_grants t)\<rparr>)"
    if "dict_get (t_grants t) gid = Some g" "binding g' = binding g" "gr_redeemed_at g = None \<or> gr_redeemed_at g' = gr_redeemed_at g" for t g g'
    using that by (auto simp: tables_kept_def audit_ok_def intro!: grants_kept_set)
  have fresh: "gr_redeemed_at g = None"
    if "redeem_verdict t n gid ahash pid chk = Inr res" "rr_redeemed res" "dict_get (t_grants t) gid = Some g" for t n res g
    using that by (auto simp: redeem_verdict_def deny_def split: if_splits)
  have "tables_kept t t'" if "redeem_effect gid pid res t t'" "redeem_verdict t n gid ahash pid chk = Inr res" for res n t t'
    using that(1) fresh [OF that(2)]
    by (auto simp: redeem_effect_def split: if_splits intro!: tables_kept_appended g)
  then show "kept s s'"
    using redeem_grant_spec [OF _ run] by (auto simp: kept_def split: sum.splits)
qed

lemma kept_close_grant: "within kept (Store_Grants.close_grant gid reason)"
proof (rule withinI)
  fix s r s' assume run: "Store_Grants.close_grant gid reason s = (r, s')"
  have "audit_ok t \<Longrightarrow> audit_ok (close_open_grant gid at t)" "t_audit (close_open_grant gid at t) = t_audit t" for at t
    by (auto simp: close_open_grant_def audit_ok_def split: option.splits)
  then have g: "tables_kept t (close_open_grant gid at t)" for at t
    by (auto simp: tables_kept_def grants_kept_def)
  show "kept s s'"
    using close_grant_spec [OF _ run]
    by (auto simp: kept_def intro!: tables_kept_appended g split: sum.splits option.splits)
qed

lemma kept_govgrant: "within kept (record_govgrant_redemption gid row_at body)"
proof (rule withinI)
  fix s r s' assume run: "record_govgrant_redemption gid row_at body s = (r, s')"
  have g: "tables_kept t (t\<lparr>t_redemptions := dict_set gid row (t_redemptions t)\<rparr>)" for t row
    by (auto simp: tables_kept_def audit_ok_def dict_simps)
  show "kept s s'"
    using govgrant_spec [OF _ run]
    by (auto simp: kept_def intro!: tables_kept_appended g split: sum.splits if_splits)
qed

section \<open>What the service keeps\<close>

definition evolves :: "service \<Rightarrow> service \<Rightarrow> bool" where
  "evolves s s' \<longleftrightarrow>
     kept (sv_store s) (sv_store s') \<and> cat_step\<^sup>*\<^sup>* (sv_catalog s) (sv_catalog s') \<and>
     sv_trust_root s' = sv_trust_root s \<and> sv_revocation_list s' = sv_revocation_list s \<and>
     sv_provider_id s' = sv_provider_id s"

interpretation evolves: service_relation evolves kept
proof unfold_locales
  show "evolves s s" for s by (simp add: evolves_def kept.refl)
  show "evolves s t \<Longrightarrow> evolves t u \<Longrightarrow> evolves s u" for s t u
    by (auto simp: evolves_def intro: kept.trans)
  show "st_tables t = st_tables u \<Longrightarrow> st_begun t = st_begun u \<Longrightarrow> kept u t" for t u
    by (simp add: kept_def idle_def)
  show "kept (sv_store s) t \<Longrightarrow> evolves s (s\<lparr>sv_store := t\<rparr>)" for s t
    by (simp add: evolves_def)
  show "evolves s (s\<lparr>sv_audit_log := l\<rparr>)" "evolves s (s\<lparr>sv_bus := b\<rparr>)" for s l b
    by (simp_all add: evolves_def kept.refl)
qed (simp_all add: kept_append_audit kept_issue_grant kept_redeem_grant kept_close_grant kept_govgrant)

interpretation evolves: catalog_handlers evolves kept
proof unfold_locales
  show "cat_step (sv_catalog s) cat \<Longrightarrow> evolves s (s\<lparr>sv_catalog := cat\<rparr>)" for s cat
    by (auto simp: evolves_def kept.refl)
qed (rule kept_upserts)+

lemmas handler_rules = evolves.register_source evolves.ingest evolves.ingest_payload evolves.get_tool evolves.assert_tool
  evolves.authorize evolves.redeem_grant evolves.redeem_governance evolves.close_grant evolves.record_outcome evolves.reading

section \<open>Sequences of requests\<close>

datatype service_request =
    ReqRegister string json string "string list option" json
  | ReqIngest string
  | ReqPush string json
  | ReqAssert string string json
  | ReqAuthorize json string string json "json option" json
  | ReqRedeem string json json
  | ReqGovernance json json string string json "string option"
  | ReqClose string string
  | ReqOutcome string string json "string option"
  | ReqHealth
  | ReqDrift string
  | ReqGetTool string string
  | ReqListCatalog
  | ReqListSources
  | ReqGetAssertion string string
  | ReqGetGrant string
  | ReqListGrants "string option" int
  | ReqReadAudit "string option" int
  | ReqVerifyAudit

text \<open>The redemption a response reports.\<close>

definition reported :: "(string \<Rightarrow> grant_event) \<Rightarrow> response result \<Rightarrow> grant_event list" where
  "reported ev r =
     (case r of
        Inr resp \<Rightarrow> (if dict_get resp ''redeemed'' = Some (JBool True)
                     then [ev (str_of (get_or_null resp ''grant_id''))] else [])
      | Inl e \<Rightarrow> [])"

fun serve_request :: "deps \<Rightarrow> (exn \<Rightarrow> string) \<Rightarrow> service_request \<Rightarrow> service \<Rightarrow> grant_event list \<times> service" where
  "serve_request dp say (ReqRegister sid tier transport declares command) s =
     ([], snd (register_source sid tier transport declares command s))"
| "serve_request dp say (ReqIngest sid) s = ([], snd (ingest dp say sid s))"
| "serve_request dp say (ReqPush sid tools) s = ([], snd (ingest_payload sid tools s))"
| "serve_request dp say (ReqAssert sid name descriptor) s = ([], snd (assert_tool sid name descriptor s))"
| "serve_request dp say (ReqAuthorize p sid name context args ttl) s = ([], snd (authorize dp p sid name context args ttl s))"
| "serve_request dp say (ReqRedeem gid p args) s = (case redeem_grant gid p args s of (r, s') \<Rightarrow> (reported Redeemed r, s'))"
| "serve_request dp say (ReqGovernance grant p sid name args at) s =
     (case redeem_governance_grant dp grant p sid name args at s of (r, s') \<Rightarrow> (reported GovRedeemed r, s'))"
| "serve_request dp say (ReqClose gid reason) s = ([], snd (close_grant gid reason s))"
| "serve_request dp say (ReqOutcome did outcome detail gid) s = ([], snd (record_outcome did outcome detail gid s))"
| "serve_request dp say ReqHealth s = ([], snd (health dp s))"
| "serve_request dp say (ReqDrift sid) s = ([], snd (drift sid s))"
| "serve_request dp say (ReqGetTool sid name) s = ([], snd (get_tool sid name s))"
| "serve_request dp say ReqListCatalog s = ([], snd (list_catalog s))"
| "serve_request dp say ReqListSources s = ([], snd (list_sources s))"
| "serve_request dp say (ReqGetAssertion sid name) s = ([], snd (get_assertion sid name s))"
| "serve_request dp say (ReqGetGrant gid) s = ([], snd (get_grant gid s))"
| "serve_request dp say (ReqListGrants state limit) s = ([], snd (list_grants state limit s))"
| "serve_request dp say (ReqReadAudit kind limit) s = ([], snd (read_audit kind limit s))"
| "serve_request dp say ReqVerifyAudit s = ([], snd (verify_audit s))"

lemma within_snd: "within R m \<Longrightarrow> R s (snd (m s))"
  by (simp add: within_def)

lemma serve_evolves: "serve_request dp say req s = (evs, s') \<Longrightarrow> evolves s s'"
  by (cases req) (auto split: prod.splits intro: within_snd handler_rules withinD [OF evolves.redeem_grant]
      withinD [OF evolves.redeem_governance])

lemma cat_reachable_steps: "cat_step\<^sup>*\<^sup>* cat cat' \<Longrightarrow> cat_reachable cat \<Longrightarrow> cat_reachable cat'"
  by (induction rule: rtranclp_induct) (auto intro: cat_reachable.more)

lemma run_evolves: "run_events (serve_request dp say) reqs s = (evs, s') \<Longrightarrow> evolves s s'"
proof (induction reqs arbitrary: s evs)
  case Nil
  then show ?case by (simp add: evolves.refl)
next
  case (Cons req reqs)
  obtain ev1 s1 where s1: "serve_request dp say req s = (ev1, s1)" by fastforce
  then obtain ev2 where "run_events (serve_request dp say) reqs s1 = (ev2, s')"
    using Cons.prems by (auto simp: Let_def split: prod.splits)
  then show ?case using Cons.IH serve_evolves [OF s1] evolves.trans by blast
qed

text \<open>C7: The service keeps its state sound, whatever requests arrive in whatever order and
  whichever SQL statements, discoveries, signatures or policies fail in between: no transaction is
  left open, the audit chain stays verifiable and is only ever extended, and the catalog is one that
  the catalog's own operations can reach, so that nothing is invocable that a human did not vouch
  for in its present form.\<close>

theorem service_sound:
  assumes "idle (sv_store s)" "audit_ok (st_tables (sv_store s))" "cat_reachable (sv_catalog s)"
    and "run_events (serve_request dp say) reqs s = (evs, s')"
  shows "idle (sv_store s') \<and> audit_ok (st_tables (sv_store s')) \<and> cat_reachable (sv_catalog s') \<and>
    (\<exists>rows. t_audit (st_tables (sv_store s')) = t_audit (st_tables (sv_store s)) @ rows)"
proof -
  have "evolves s s'" by (rule run_evolves [OF assms(4)])
  then show ?thesis
    using assms(1-3) cat_reachable_steps by (auto simp: evolves_def kept_def tables_kept_def)
qed

definition demo_service :: service where
  "demo_service = \<lparr>sv_store = fresh_store demo_tables, sv_catalog = demo_catalog, sv_audit_log = [],
     sv_bus = new_publisher None None (FFin False 2 0), sv_trust_root = Some [], sv_revocation_list = JNull,
     sv_provider_id = ''toolconnect''\<rparr>"

definition demo_deps :: deps where
  "demo_deps = \<lparr>dp_engine = cedar_decide (\<lambda>req ents. Inr \<lparr>cr_is_allow = True, cr_reasons = None, cr_id_annotations = None,
       cr_errors = None\<rparr>), dp_platform = demo_platform, dp_decode = demo_decoder [], dp_spawn = \<lambda>c. Some demo_peer\<rparr>"

lemma demo_service_sound:
  "idle (sv_store demo_service)" "audit_ok (st_tables (sv_store demo_service))" "cat_reachable (sv_catalog demo_service)"
  by (simp_all add: demo_service_def demo_reachable demo_tables_def audit_ok_def empty_tables_def)

theorem service_sound_witness:
  "\<exists>evs s'. run_events (serve_request demo_deps (\<lambda>e. []))
      [ReqRegister ''web'' (JStr ''known'') ''mcp'' None JNull, ReqRedeem ''g'' (JDict [(''id'', JStr ''p'')]) (JDict [])] demo_service = (evs, s') \<and>
     audit_ok (st_tables (sv_store s')) \<and> cat_reachable (sv_catalog s')"
proof -
  obtain evs s' where run: "run_events (serve_request demo_deps (\<lambda>e. []))
      [ReqRegister ''web'' (JStr ''known'') ''mcp'' None JNull, ReqRedeem ''g'' (JDict [(''id'', JStr ''p'')]) (JDict [])] demo_service = (evs, s')"
    by fastforce
  then show ?thesis using service_sound [OF demo_service_sound run] by blast
qed

section \<open>One use, seen by the caller\<close>

lemma on_store_Inr [sx_simps]:
  "on_store m s = (Inr v, s') \<longleftrightarrow> (\<exists>t. m (sv_store s) = (Inr v, t) \<and> s' = s\<lparr>sv_store := t\<rparr>)"
  "on_store m s = (Inl e, s') \<longleftrightarrow> (\<exists>t. m (sv_store s) = (Inl e, t) \<and> s' = s\<lparr>sv_store := t\<rparr>)"
  by (auto simp: on_store_def split: prod.splits)

definition redeem_response :: "string \<Rightarrow> RedeemResult \<Rightarrow> response" where
  "redeem_response gid res =
     [(''grant_id'', JStr gid), (''decision_id'', opt_str (rr_decision_id res)),
      (''redeemed'', JBool (rr_redeemed res)), (''reason'', JStr (rr_reason res)),
      (''source_id'', opt_str (rr_source_id res)), (''name'', opt_str (rr_name res)),
      (''contract_version'', JStr DECISION_CONTRACT_VERSION)]"

lemma redeem_grant_Inr:
  assumes "redeem_grant gid pv args s = (Inr resp, s')"
  shows "\<exists>p h res t. parse_principal pv = Inr p \<and> check_args args = Inr h \<and>
     Store_Grants.redeem_grant gid h (p_id p) (Some (invocable (sv_catalog s))) (sv_store s) = (Inr res, t) \<and>
     evolves (s\<lparr>sv_store := t\<rparr>) s' \<and> resp = redeem_response gid res"
proof -
  define tail where "tail p h res = (if \<not> rr_redeemed res then
                   sx_bind (on_store (append_audit ''grant_redeem_denied''
                     [(''grant_id'', JStr gid), (''decision_id'', opt_str (rr_decision_id res)),
                      (''principal_id'', JStr (p_id p)), (''reason'', JStr (rr_reason res))])) (\<lambda>_. sx_return ())
                 else
                   publish ''grant.redeemed'' None (p_id p) (bus_tier_for_principal (effective_tier p))
                     [(''principal_id'', JStr (p_id p)), (''grant_id'', JStr gid),
                      (''decision_id'', opt_str (rr_decision_id res)), (''source_id'', opt_str (rr_source_id res)),
                      (''tool'', opt_str (rr_name res)),
                      (''qualified_name'', JStr (qualify (str_of (opt_str (rr_source_id res))) (str_of (opt_str (rr_name res))))),
                      (''args_hash'', JStr h)])" for p h and res :: RedeemResult
  have w: "within evolves (tail p h res)" for p h res
    unfolding tail_def by (auto intro!: evolves.catalog_rules)
  obtain p h res t where "parse_principal pv = Inr p" "check_args args = Inr h"
      "Store_Grants.redeem_grant gid h (p_id p) (Some (invocable (sv_catalog s))) (sv_store s) = (Inr res, t)"
      "tail p h res (s\<lparr>sv_store := t\<rparr>) = (Inr (), s')" "resp = redeem_response gid res"
    using assms unfolding redeem_grant_def tail_def [symmetric]
    by (auto simp: sx_simps redeem_response_def split: if_splits)
  then show ?thesis using withinD [OF w] by blast
qed

lemma reported_cases:
  "e \<in> set (reported ev r) \<Longrightarrow>
     \<exists>resp. r = Inr resp \<and> dict_get resp ''redeemed'' = Some (JBool True) \<and> e = ev (str_of (get_or_null resp ''grant_id''))"
  by (auto simp: reported_def split: sum.splits if_splits)

lemma redeem_reported:
  assumes "idle (sv_store s)" "redeem_grant gid pv args s = (r, s')" "e \<in> set (reported Redeemed r)"
  shows "\<not> spent (sv_store s) e \<and> spent (sv_store s') e"
proof -
  obtain resp where resp: "r = Inr resp" "dict_get resp ''redeemed'' = Some (JBool True)"
      "e = Redeemed (str_of (get_or_null resp ''grant_id''))"
    using reported_cases [OF assms(3)] by blast
  obtain p h res t where run:
      "Store_Grants.redeem_grant gid h (p_id p) (Some (invocable (sv_catalog s))) (sv_store s) = (Inr res, t)"
      "evolves (s\<lparr>sv_store := t\<rparr>) s'" "resp = redeem_response gid res"
    using redeem_grant_Inr [of gid pv args s resp s'] assms(2) resp(1) by blast
  have e: "e = Redeemed gid" "rr_redeemed res"
    using resp(2,3) run(3) by (simp_all add: redeem_response_def get_or_null_def)
  have op: "run_op (OpRedeem gid h (p_id p) (Some (invocable (sv_catalog s)))) (sv_store s) = ([Redeemed gid], t)"
    using run(1) e(2) by simp
  have "idle t" "\<not> spent (sv_store s) e" "spent t e"
    using run_op_ledger [OF assms(1) op] e(1) by auto
  moreover have "kept t (sv_store s')" using run(2) by (simp add: evolves_def)
  ultimately show ?thesis using kept_spent by blast
qed

lemma gov_deny_denies:
  "gov_deny v p sid name h at reason s = (Inr resp, s') \<Longrightarrow> dict_get resp ''redeemed'' = Some (JBool False)"
  by (auto simp: gov_deny_def sx_simps)

text \<open>A governance redemption that reports success went through the one-use claim of the store.\<close>

definition gov_row ::
  "service \<Rightarrow> (string \<times> json) list \<Rightarrow> Principal \<Rightarrow> string \<Rightarrow> string \<Rightarrow> string \<Rightarrow> string \<Rightarrow> string \<Rightarrow> redemption_row" where
  "gov_row s payload p sid name h at redeemed_at =
     \<lparr>rd_decision_record_id = str_of (get_or_null payload ''decision_record_id''),
      rd_correlation_id = (case get_or_null payload ''correlation_id'' of JStr c \<Rightarrow> Some c | _ \<Rightarrow> None),
      rd_issuer_key_id = str_of (get_or_null payload ''issuer_key_id''), rd_provider_id = sv_provider_id s,
      rd_principal_id = p_id p, rd_source_id = sid, rd_name = name, rd_args_hash = h,
      rd_verification_at = at, rd_redeemed_at = redeemed_at\<rparr>"

lemma gov_row_fold:
  "(\<lambda>redeemed_at. \<lparr>rd_decision_record_id = str_of (get_or_null payload ''decision_record_id''),
            rd_correlation_id = (case get_or_null payload ''correlation_id'' of JStr c \<Rightarrow> Some c | _ \<Rightarrow> None),
            rd_issuer_key_id = str_of (get_or_null payload ''issuer_key_id''), rd_provider_id = sv_provider_id s,
            rd_principal_id = p_id p, rd_source_id = sid, rd_name = name, rd_args_hash = h,
            rd_verification_at = at, rd_redeemed_at = redeemed_at\<rparr>) = gov_row s payload p sid name h at"
  by (simp add: gov_row_def fun_eq_iff)

lemma gov_claim_redeemed:
  assumes "gov_claim v payload p sid name h at s = (Inr resp, s')" "dict_get resp ''redeemed'' = Some (JBool True)"
  shows "\<exists>reason stamp t.
     record_govgrant_redemption (str_of (get_or_null payload ''grant_id'')) (gov_row s payload p sid name h at)
       (enforcement_body s v p sid name h ''redeemed'' at) (sv_store s) = (Inr (True, reason, stamp), t) \<and>
     evolves (s\<lparr>sv_store := t\<rparr>) s' \<and> get_or_null resp ''grant_id'' = get_or_null payload ''grant_id''"
proof -
  obtain redeemed reason stamp t where rec: "record_govgrant_redemption (str_of (get_or_null payload ''grant_id''))
        (gov_row s payload p sid name h at) (enforcement_body s v p sid name h ''redeemed'' at) (sv_store s) =
        (Inr (redeemed, reason, stamp), t)"
    using assms(1) by (auto simp: gov_claim_def sx_simps Let_def gov_row_fold)
  note run = assms(1) [unfolded gov_claim_def sx_bind_get Let_def gov_row_fold, simplified sx_simps rec]
  show ?thesis
  proof (cases redeemed)
    case False
    then show ?thesis using run gov_deny_denies assms(2) by auto
  next
    case True
    then obtain pl rest where pub: "publish ''grant.redeemed'' None (p_id p) (bus_tier_for_principal (effective_tier p)) pl
        (s\<lparr>sv_store := t\<rparr>) = (Inr (), s')" and resp: "resp = (''grant_id'', get_or_null payload ''grant_id'') # rest"
      using run by (auto simp: sx_simps)
    have "get_or_null resp ''grant_id'' = get_or_null payload ''grant_id''"
      unfolding resp by (subst get_or_null_def) simp
    then show ?thesis using rec True withinD [OF evolves.publish pub] by auto
  qed
qed

text \<open>The shape of a governance redemption that answers.\<close>

definition gov_answer ::
  "service \<Rightarrow> GovVerification \<Rightarrow> Principal \<Rightarrow> string \<Rightarrow> string \<Rightarrow> string \<Rightarrow> string \<Rightarrow> json \<Rightarrow> response \<Rightarrow> service \<Rightarrow> bool" where
  "gov_answer t v p sid name h instant_text args resp s' \<longleftrightarrow>
     (if \<not> gv_valid v then \<exists>code. gov_deny v p sid name h instant_text code t = (Inr resp, s')
      else \<exists>payload kvs fs. gv_payload v = Some payload \<and> args = JDict kvs \<and>
        scope_failures payload (p_id p) (sv_provider_id t) sid name kvs = Inr fs \<and>
        (case fs of [] \<Rightarrow> gov_claim v payload p sid name h instant_text t = (Inr resp, s')
         | code # codes \<Rightarrow> gov_deny v p sid name h instant_text code t = (Inr resp, s')))"

lemma redeem_governance_Inr:
  assumes "redeem_governance_grant dp grant pv sid name args at s = (Inr resp, s')"
  shows "\<exists>p h instant_text st v. parse_principal pv = Inr p \<and> check_args args = Inr h \<and>
    st_tables st = st_tables (sv_store s) \<and> st_begun st = st_begun (sv_store s) \<and>
    (at = None \<or> at = Some instant_text) \<and>
    verify_grant (dp_platform dp) grant (sv_trust_root s) instant_text None (sv_revocation_list s) = Inr v \<and>
    gov_answer (s\<lparr>sv_store := st\<rparr>) v p sid name h instant_text args resp s'"
proof -
  obtain p h where ph: "parse_principal pv = Inr p" "check_args args = Inr h"
    using assms by (auto simp: redeem_governance_grant_def sx_simps)
  obtain say st where st: "(case at of Some t \<Rightarrow> sx_return t | None \<Rightarrow> on_store now_text) s = (Inr say, s\<lparr>sv_store := st\<rparr>)"
      "st_tables st = st_tables (sv_store s)" "st_begun st = st_begun (sv_store s)" "at = None \<or> at = Some say"
  proof (cases at)
    case None
    then show ?thesis using that by (auto simp: sx_simps)
  next
    case (Some t)
    then show ?thesis using that [of t "sv_store s"] by (simp add: sx_return_def)
  qed
  let ?t = "s\<lparr>sv_store := st\<rparr>"
  note clock = sx_bind_run [where m = "case at of Some t \<Rightarrow> sx_return t | None \<Rightarrow> on_store now_text", OF st(1)]
  have run: "sx_bind (sx_lift (verify_grant (dp_platform dp) grant (sv_trust_root s) say None (sv_revocation_list s))) (\<lambda>v.
     if \<not> gv_valid v then
       (case gv_failure_codes v of
          [] \<Rightarrow> sx_raise IndexError
        | code # codes \<Rightarrow> gov_deny v p sid name h say code)
     else
       (case (gv_payload v, args) of
          (Some payload, JDict kvs) \<Rightarrow>
            sx_bind (sx_lift (scope_failures payload (p_id p) (sv_provider_id ?t) sid name kvs)) (\<lambda>failures.
            case failures of
              [] \<Rightarrow> gov_claim v payload p sid name h say
            | code # codes \<Rightarrow> gov_deny v p sid name h say code)
        | _ \<Rightarrow> sx_raise TypeError)) ?t = (Inr resp, s')"
    using assms unfolding redeem_governance_grant_def
    by (simp add: sx_bind_def [of "sx_lift r" for r] sx_lift_def ph clock sx_bind_get)
  then obtain v where v: "verify_grant (dp_platform dp) grant (sv_trust_root s) say None (sv_revocation_list s) = Inr v"
    by (auto simp: sx_simps)
  have "gov_answer ?t v p sid name h say args resp s'"
  proof (cases "gv_valid v")
    case False
    then show ?thesis using run v by (auto simp: gov_answer_def sx_simps split: list.splits)
  next
    case True
    then show ?thesis using run v
      by (cases "gv_payload v"; cases args) (auto simp: gov_answer_def sx_simps split: list.splits)
  qed
  then show ?thesis using ph st v by blast
qed

lemma gov_answer_claim:
  assumes "gov_answer t v p sid name h say args resp s'" "dict_get resp ''redeemed'' = Some (JBool True)"
  shows "\<exists>payload. gov_claim v payload p sid name h say t = (Inr resp, s')"
proof -
  have deny: "gov_deny v p sid name h say code t \<noteq> (Inr resp, s')" for code
    using gov_deny_denies [of v p sid name h say code t resp s'] assms(2) by auto
  then have valid: "gv_valid v" using assms(1) by (auto simp: gov_answer_def split: if_splits)
  then obtain payload kvs fs where fs: "case fs of [] \<Rightarrow> gov_claim v payload p sid name h say t = (Inr resp, s')
      | code # codes \<Rightarrow> gov_deny v p sid name h say code t = (Inr resp, s')"
    using assms(1) unfolding gov_answer_def by auto
  then show ?thesis using deny by (cases fs) auto
qed

lemma redeem_governance_reported:
  assumes "idle (sv_store s)" "redeem_governance_grant dp grant pv sid name args at s = (r, s')"
    and "e \<in> set (reported GovRedeemed r)"
  shows "\<not> spent (sv_store s) e \<and> spent (sv_store s') e"
proof -
  obtain resp where resp: "r = Inr resp" "dict_get resp ''redeemed'' = Some (JBool True)"
      "e = GovRedeemed (str_of (get_or_null resp ''grant_id''))"
    using reported_cases [OF assms(3)] by blast
  obtain p h say st v where run: "st_tables st = st_tables (sv_store s)" "st_begun st = st_begun (sv_store s)"
      "gov_answer (s\<lparr>sv_store := st\<rparr>) v p sid name h say args resp s'"
    using redeem_governance_Inr [of dp grant pv sid name args at s resp s'] assms(2) resp(1) by blast
  obtain payload where claim: "gov_claim v payload p sid name h say (s\<lparr>sv_store := st\<rparr>) = (Inr resp, s')"
    using gov_answer_claim [OF run(3) resp(2)] ..
  obtain reason stamp t where rec: "record_govgrant_redemption (str_of (get_or_null payload ''grant_id''))
        (gov_row (s\<lparr>sv_store := st\<rparr>) payload p sid name h say)
        (enforcement_body (s\<lparr>sv_store := st\<rparr>) v p sid name h ''redeemed'' say) st = (Inr (True, reason, stamp), t)"
      "evolves (s\<lparr>sv_store := t\<rparr>) s'" "get_or_null resp ''grant_id'' = get_or_null payload ''grant_id''"
    using gov_claim_redeemed [OF claim resp(2)] by auto
  have idle: "idle st" using assms(1) run(2) by (simp add: idle_def)
  have op: "run_op (OpGovRedeem (str_of (get_or_null payload ''grant_id''))
        (gov_row (s\<lparr>sv_store := st\<rparr>) payload p sid name h say)
        (enforcement_body (s\<lparr>sv_store := st\<rparr>) v p sid name h ''redeemed'' say)) st = ([e], t)"
    using rec(1,3) resp(3) by simp
  have t: "idle t" "\<not> spent st e" "spent t e"
    using run_op_ledger [OF idle op] by auto
  have "\<not> spent (sv_store s) e" using t(2) run(1) spent_tables [of "sv_store s" st e] by simp
  moreover have "kept t (sv_store s')" using rec(2) by (simp add: evolves_def)
  ultimately show ?thesis using kept_spent t by blast
qed

interpretation service_ledger: one_use_ledger "serve_request dp say" "\<lambda>s. idle (sv_store s)" "\<lambda>s. spent (sv_store s)" for dp say
proof
  fix s p evs s' e assume idle: "idle (sv_store s)" and run: "serve_request dp say p s = (evs, s')"
  have ev: "evolves s s'" by (rule serve_evolves [OF run])
  show "idle (sv_store s')" using ev idle by (simp add: evolves_def kept_def)
  show "spent (sv_store s) e \<Longrightarrow> spent (sv_store s') e" using ev idle kept_spent by (simp add: evolves_def) blast
  show "distinct evs" using run by (cases p) (auto simp: reported_def split: prod.splits sum.splits)
  show "e \<in> set evs \<Longrightarrow> \<not> spent (sv_store s) e \<and> spent (sv_store s') e"
    using run redeem_reported [OF idle] redeem_governance_reported [OF idle]
    by (cases p) (auto split: prod.splits)
qed

text \<open>C3: Seen by the callers, authority is spent once. Over every sequence of service requests,
  whatever fails in between, no grant and no governance grant is reported as redeemed twice; what was
  redeemed before is never reported again, and every reported redemption is durable.\<close>

theorem service_one_use:
  assumes "idle (sv_store s)" "run_events (serve_request dp say) reqs s = (evs, s')"
  shows "distinct evs \<and> list_all (\<lambda>e. \<not> spent (sv_store s) e \<and> spent (sv_store s') e) evs"
  using service_ledger.run_once [OF assms] by (simp add: list_all_iff)

theorem service_one_use_witness:
  "\<exists>evs s'. run_events (serve_request demo_deps (\<lambda>e. []))
      [ReqRedeem ''g'' (JDict [(''id'', JStr ''p'')]) (JDict []), ReqRedeem ''g'' (JDict [(''id'', JStr ''p'')]) (JDict [])]
      demo_service = (evs, s') \<and> distinct evs"
proof -
  obtain evs s' where run: "run_events (serve_request demo_deps (\<lambda>e. []))
      [ReqRedeem ''g'' (JDict [(''id'', JStr ''p'')]) (JDict []), ReqRedeem ''g'' (JDict [(''id'', JStr ''p'')]) (JDict [])]
      demo_service = (evs, s')" by fastforce
  then show ?thesis using service_one_use [OF demo_service_sound(1) run] by blast
qed

end
