(* ===== verification/Service_Authorize.thy ===== *)
theory Service_Authorize
  imports Service_Props
begin

text \<open>
  What one authorization does to the tables, as a function of the decision: the specification that
  \<open>ToolConnectService.authorize\<close> refines, whichever statements fail, and the round trip from an
  authorization to the redemption of the grant it issued.
\<close>

section \<open>Specification\<close>

text \<open>
  An authorization records its decision and, when arguments were bound and the decision is an allow,
  one grant with its record. The identifiers and instants are those the environment handed out.
\<close>

record tickets =
  tk_decision_id :: string
  tk_grant_id :: string
  tk_issued :: instant
  tk_decided_at :: string
  tk_granted_at :: string

definition decision_tables :: "Principal \<Rightarrow> string \<Rightarrow> string \<Rightarrow> Decision \<Rightarrow> tickets \<Rightarrow> tables \<Rightarrow> tables" where
  "decision_tables p sid name d k =
     appended ''decision'' (decision_record p sid name d @ [(''decision_id'', JStr (tk_decision_id k))]) (tk_decided_at k)"

definition granted_row :: "Principal \<Rightarrow> string \<Rightarrow> string \<Rightarrow> string \<Rightarrow> int \<Rightarrow> tickets \<Rightarrow> grant_row" where
  "granted_row p sid name h ttl k =
     \<lparr>gr_decision_id = tk_decision_id k, gr_principal_id = p_id p, gr_source_id = sid, gr_name = name,
      gr_args_hash = h, gr_issued_at = tk_issued k, gr_expires_at = tk_issued k + ttl * 1000000,
      gr_redeemed_at = None, gr_closed_at = None\<rparr>"

definition grant_tables :: "Principal \<Rightarrow> string \<Rightarrow> string \<Rightarrow> string \<Rightarrow> int \<Rightarrow> tickets \<Rightarrow> tables \<Rightarrow> tables" where
  "grant_tables p sid name h ttl k t =
     appended ''grant_issue'' (issue_body (tk_grant_id k) (tk_decision_id k) (p_id p) sid name h (tk_issued k)
         (tk_issued k + ttl * 1000000) (JInt ttl)) (tk_granted_at k)
       (t\<lparr>t_grants := dict_set (tk_grant_id k) (granted_row p sid name h ttl k) (t_grants t)\<rparr>)"

fun authorize_spec ::
  "(string \<times> int) option \<Rightarrow> Principal \<Rightarrow> string \<Rightarrow> string \<Rightarrow> Decision \<Rightarrow> tickets \<Rightarrow> tables \<Rightarrow> response \<times> tables" where
  "authorize_spec None p sid name d k t =
     (decision_payload d (tk_decision_id k), decision_tables p sid name d k t)"
| "authorize_spec (Some (h, ttl)) p sid name d k t =
     (if d_allowed d then
        (decision_payload d (tk_decision_id k) @
           [(''grant'', grant_json (Some \<lparr>ig_grant_id = tk_grant_id k, ig_args_hash = h,
               ig_expires_at = tk_issued k + ttl * 1000000, ig_ttl = ttl\<rparr>))],
         grant_tables p sid name h ttl k (decision_tables p sid name d k t))
      else
        (decision_payload d (tk_decision_id k) @ [(''grant'', JNull)], decision_tables p sid name d k t))"

section \<open>The steps of an authorization\<close>

text \<open>Publishing and reading the last decision touch no table, no clock and no catalog.\<close>

definition same_data :: "service \<Rightarrow> service \<Rightarrow> bool" where
  "same_data s s' \<longleftrightarrow> sv_catalog s' = sv_catalog s \<and> sv_audit_log s' = sv_audit_log s \<and>
     st_tables (sv_store s') = st_tables (sv_store s) \<and> st_begun (sv_store s') = st_begun (sv_store s) \<and>
     st_clock (sv_store s') = st_clock (sv_store s) \<and> st_faults (sv_store s') = st_faults (sv_store s)"

interpretation same_data: sx_relation same_data
  by unfold_locales (auto simp: same_data_def)

lemma same_data_publish: "within same_data (publish kind outcome actor tier payload)"
  by (rule withinI) (auto simp: publish_def same_data_def sx_bind_def sx_get_def sx_return_def sx_modify_def on_store_def
      uuid4_hex_def split: if_splits)

lemma publish_returns: "\<exists>s'. publish kind outcome actor tier payload s = (Inr (), s')"
  by (auto simp: publish_def sx_bind_def sx_get_def sx_return_def sx_modify_def on_store_def uuid4_hex_def)

lemma same_data_publish_decision: "within same_data (publish_decision p sid name d did bound grant)"
  unfolding publish_decision_def Let_def
  by (auto intro!: same_data.within_rules same_data_publish split: option.split)

lemma publish_decision_returns: "\<exists>s'. publish_decision p sid name d did bound grant s = (Inr (), s')"
proof -
  have "\<exists>s'. sx_bind (publish k1 o1 a1 t1 b1) (\<lambda>_. case grant of None \<Rightarrow> sx_return () | Some g \<Rightarrow> publish k2 o2 a2 t2 (b2 g)) s = (Inr (), s')"
    for k1 o1 a1 t1 b1 k2 o2 a2 t2 b2
  proof -
    obtain t where t: "publish k1 o1 a1 t1 b1 s = (Inr (), t)" using publish_returns by blast
    show ?thesis
      unfolding sx_bind_run [where m = "publish k1 o1 a1 t1 b1", OF t]
      using publish_returns [of k2 o2 a2 t2 _ t] by (cases grant) (auto simp: sx_return_def)
  qed
  then show ?thesis unfolding publish_decision_def Let_def .
qed

lemma decision_id_unset: "dict_get (decision_record p sid name d) ''decision_id'' = None"
  by (simp add: decision_record_def)

lemma update_new: "dict_get d k = None \<Longrightarrow> dict_set k v d = d @ [(k, v)]"
  by (induction d) (auto split: if_splits)

lemma broker_call_spec:
  assumes "idle (sv_store s)" "broker_call dp p sid name ctx s = (r, s')"
  shows "idle (sv_store s') \<and> sv_catalog s' = sv_catalog s \<and>
    (case r of
       Inl e \<Rightarrow> st_tables (sv_store s') = st_tables (sv_store s)
     | Inr d \<Rightarrow> broker_decision (dp_engine dp) (sv_catalog s) p sid name ctx = Inr d \<and>
         (\<exists>log. sv_audit_log s' = log @ [decision_record p sid name d @ [(''decision_id'', JStr (st_uuids (sv_store s) 0))]]) \<and>
         st_tables (sv_store s') = appended ''decision''
           (decision_record p sid name d @ [(''decision_id'', JStr (st_uuids (sv_store s) 0))])
           (isoformat (st_clock (sv_store s) 0)) (st_tables (sv_store s)))"
proof (cases "broker_decision (dp_engine dp) (sv_catalog s) p sid name ctx")
  case (Inl e)
  then have "r = Inl e" "s' = s" using assms(2) by (simp_all add: broker_call_def sx_bind_def sx_get_def sx_lift_def)
  then show ?thesis using assms(1) by simp
next
  case (Inr d)
  let ?body = "decision_record p sid name d @ [(''decision_id'', JStr (st_uuids (sv_store s) 0))]"
  let ?t = "(sv_store s)\<lparr>st_uuids := \<lambda>n. st_uuids (sv_store s) (Suc n)\<rparr>"
  obtain q t where q: "append_audit ''decision'' ?body ?t = (q, t)" by fastforce
  have idle: "idle ?t" using assms(1) by (simp add: idle_def)
  have run: "(r, s') = (case q of Inl e \<Rightarrow> (Inl e, s\<lparr>sv_store := t\<rparr>)
      | Inr seq \<Rightarrow> (Inr d, s\<lparr>sv_store := t, sv_audit_log := sv_audit_log s @ [?body]\<rparr>))"
    using assms(2) Inr q
    by (simp add: broker_call_def audit_log_append_def sx_bind_def sx_get_def sx_lift_def sx_return_def sx_modify_def
        on_store_def uuid4_hex_def decision_id_unset update_new Let_def split: sum.splits)
  show ?thesis using append_audit_spec [OF idle q] run Inr by (cases q) auto
qed

lemma last_decision_id_run:
  assumes "sv_audit_log s = log @ [rec @ [(''decision_id'', JStr u)]]" "dict_get rec ''decision_id'' = None"
  shows "last_decision_id s = (Inr u, s)"
  using assms by (simp add: last_decision_id_def sx_bind_def sx_get_def sx_return_def map_add_def)

lemma issue_for_spec:
  assumes "idle (sv_store s)" "issue_for p sid name did h ttl s = (r, s')"
  shows "idle (sv_store s') \<and> sv_catalog s' = sv_catalog s \<and>
    (case r of
       Inl e \<Rightarrow> st_tables (sv_store s') = st_tables (sv_store s)
     | Inr g \<Rightarrow> \<exists>k. tk_decision_id k = did \<and> dict_get (t_grants (st_tables (sv_store s))) (tk_grant_id k) = None \<and>
         tk_issued k = st_clock (sv_store s) 0 \<and> tk_grant_id k = st_uuids (sv_store s) 0 \<and>
         g = \<lparr>ig_grant_id = tk_grant_id k, ig_args_hash = h, ig_expires_at = tk_issued k + ttl * 1000000, ig_ttl = ttl\<rparr> \<and>
         st_tables (sv_store s') = grant_tables p sid name h ttl k (st_tables (sv_store s)))"
proof -
  let ?gid = "st_uuids (sv_store s) 0" and ?n = "st_clock (sv_store s) 0"
  let ?t = "(sv_store s)\<lparr>st_clock := \<lambda>n. st_clock (sv_store s) (Suc n), st_uuids := \<lambda>n. st_uuids (sv_store s) (Suc n)\<rparr>"
  obtain q t where q: "issue_grant ?gid did (p_id p) sid name h ?n (?n + ttl * 1000000) (JInt ttl) ?t = (q, t)" by fastforce
  have idle: "idle ?t" using assms(1) by (simp add: idle_def)
  have run: "(r, s') = (case q of Inl e \<Rightarrow> (Inl e, s\<lparr>sv_store := t\<rparr>)
      | Inr seq \<Rightarrow> (Inr \<lparr>ig_grant_id = ?gid, ig_args_hash = h, ig_expires_at = ?n + ttl * 1000000, ig_ttl = ttl\<rparr>, s\<lparr>sv_store := t\<rparr>))"
    using assms(2) q
    by (simp add: issue_for_def sx_bind_def sx_return_def on_store_def now_def uuid4_hex_def Let_def split: sum.splits)
  show ?thesis
  proof (cases q)
    case (Inl e)
    then show ?thesis using issue_grant_spec [OF idle q] run by auto
  next
    case (Inr seq)
    then show ?thesis
      using issue_grant_spec [OF idle q] run
      by (auto simp: grant_tables_def granted_row_def intro!: exI [of _ "\<lparr>tk_decision_id = did, tk_grant_id = ?gid,
            tk_issued = ?n, tk_decided_at = [], tk_granted_at = isoformat (st_clock (sv_store s) (Suc 0))\<rparr>"])
  qed
qed

definition grant_step ::
  "(string \<times> int) option \<Rightarrow> Principal \<Rightarrow> string \<Rightarrow> string \<Rightarrow> Decision \<Rightarrow> string \<Rightarrow> (service, IssuedGrant option) sx" where
  "grant_step req p sid name d did =
     (case req of
        Some (h, ttl) \<Rightarrow>
          (if d_allowed d
           then sx_bind (issue_for p sid name did h ttl) (\<lambda>g. sx_return (Some g))
           else sx_return None)
      | None \<Rightarrow> sx_return None)"

lemma grant_step_spec:
  assumes "idle (sv_store s)" "grant_step req p sid name d did s = (r, s')"
  shows "idle (sv_store s') \<and> sv_catalog s' = sv_catalog s \<and>
    (case r of
       Inl e \<Rightarrow> st_tables (sv_store s') = st_tables (sv_store s)
     | Inr None \<Rightarrow> (req = None \<or> \<not> d_allowed d) \<and> s' = s
     | Inr (Some g) \<Rightarrow> d_allowed d \<and> (\<exists>h ttl k. req = Some (h, ttl) \<and> tk_decision_id k = did \<and>
         dict_get (t_grants (st_tables (sv_store s))) (tk_grant_id k) = None \<and>
         tk_issued k = st_clock (sv_store s) 0 \<and> tk_grant_id k = st_uuids (sv_store s) 0 \<and>
         g = \<lparr>ig_grant_id = tk_grant_id k, ig_args_hash = h, ig_expires_at = tk_issued k + ttl * 1000000, ig_ttl = ttl\<rparr> \<and>
         st_tables (sv_store s') = grant_tables p sid name h ttl k (st_tables (sv_store s))))"
proof (cases "\<exists>h ttl. req = Some (h, ttl) \<and> d_allowed d")
  case True
  then obtain h ttl where req: "req = Some (h, ttl)" "d_allowed d" by blast
  obtain q t where q: "issue_for p sid name did h ttl s = (q, t)" by fastforce
  have run: "(r, s') = (case q of Inl e \<Rightarrow> (Inl e, t) | Inr g \<Rightarrow> (Inr (Some g), t))"
    using assms(2) req q by (simp add: grant_step_def sx_bind_def sx_return_def split: sum.splits)
  show ?thesis using issue_for_spec [OF assms(1) q] run req by (cases q) auto
next
  case False
  then have "r = Inr None" "s' = s" using assms(2)
    by (auto simp: grant_step_def sx_return_def split: option.splits prod.splits if_splits)
  then show ?thesis using False assms(1) by (cases req) auto
qed

lemma authorize_run:
  assumes "check_request ctx args ttl = Inr req" "parse_principal pv = Inr p"
    and "broker_call dp p sid name (context_or_empty ctx) s = (Inr d, s1)" "last_decision_id s1 = (Inr did, s1)"
  shows "authorize dp pv sid name ctx args ttl s =
    (case grant_step req p sid name d did s1 of
       (Inl e, s2) \<Rightarrow> (Inl e, s2)
     | (Inr grant, s2) \<Rightarrow>
         (Inr (decision_payload d did @ (if req = None then [] else [(''grant'', grant_json grant)])),
          snd (publish_decision p sid name d did (map_option fst req) grant s2)))"
proof -
  obtain q s2 where q: "grant_step req p sid name d did s1 = (q, s2)" by fastforce
  have "\<exists>s3. publish_decision p sid name d did b grant s2 = (Inr (), s3)" for b grant
    by (rule publish_decision_returns)
  then obtain s3 where "\<And>b grant. publish_decision p sid name d did b grant s2 = (Inr (), s3 b grant)" by metis
  then show ?thesis
    using assms q unfolding authorize_def grant_step_def [symmetric]
    by (auto simp: sx_bind_def [of "sx_lift x" for x] sx_lift_def sx_bind_run [where m = "broker_call dp p sid name (context_or_empty ctx)", OF assms(3)]
        sx_bind_run [where m = last_decision_id, OF assms(4)] sx_bind_def sx_return_def split: sum.splits)
qed

lemma authorize_Inl:
  assumes "idle (sv_store s)" "authorize dp pv sid name ctx args ttl s = (Inl e, s')"
  shows "idle (sv_store s') \<and> sv_catalog s' = sv_catalog s \<and>
    t_grants (st_tables (sv_store s')) = t_grants (st_tables (sv_store s))"
proof (cases "\<exists>req p. check_request ctx args ttl = Inr req \<and> parse_principal pv = Inr p")
  case False
  then have "s' = s"
    using assms(2) by (cases "check_request ctx args ttl"; cases "parse_principal pv")
      (auto simp: authorize_def sx_bind_def sx_lift_def)
  then show ?thesis using assms(1) by simp
next
  case True
  then obtain req p where rp: "check_request ctx args ttl = Inr req" "parse_principal pv = Inr p" by blast
  obtain q s1 where q: "broker_call dp p sid name (context_or_empty ctx) s = (q, s1)" by fastforce
  note bc = broker_call_spec [OF assms(1) q]
  show ?thesis
  proof (cases q)
    case (Inl e)
    then have "s' = s1"
      using assms(2) rp q by (simp add: authorize_def sx_bind_def sx_lift_def)
    then show ?thesis using bc Inl by simp
  next
    case (Inr d)
    let ?did = "st_uuids (sv_store s) 0"
    have did: "last_decision_id s1 = (Inr ?did, s1)"
      using bc Inr last_decision_id_run [OF _ decision_id_unset] by auto
    obtain g s2 where g: "grant_step req p sid name d ?did s1 = (g, s2)" by fastforce
    have "g = Inl e \<and> s2 = s'"
      using assms(2) authorize_run [OF rp q [unfolded Inr] did] g by (auto split: sum.splits)
    then show ?thesis
      using grant_step_spec [OF _ g] bc Inr by (auto simp: appended_tables)
  qed
qed

lemma authorize_Inr:
  assumes "idle (sv_store s)" "authorize dp pv sid name ctx args ttl s = (Inr resp, s')"
  shows "idle (sv_store s') \<and> sv_catalog s' = sv_catalog s \<and>
    (\<exists>req p d k. check_request ctx args ttl = Inr req \<and> parse_principal pv = Inr p \<and>
       broker_decision (dp_engine dp) (sv_catalog s) p sid name (context_or_empty ctx) = Inr d \<and>
       (resp, st_tables (sv_store s')) = authorize_spec req p sid name d k (st_tables (sv_store s)) \<and>
       (req \<noteq> None \<and> d_allowed d \<longrightarrow> dict_get (t_grants (st_tables (sv_store s))) (tk_grant_id k) = None))"
proof -
  obtain req p where rp: "check_request ctx args ttl = Inr req" "parse_principal pv = Inr p"
    using assms(2) by (auto simp: authorize_def sx_simps)
  obtain d s1 where q: "broker_call dp p sid name (context_or_empty ctx) s = (Inr d, s1)"
    using assms(2) rp by (auto simp: authorize_def sx_simps)
  note bc = broker_call_spec [OF assms(1) q]
  let ?did = "st_uuids (sv_store s) 0" and ?at = "isoformat (st_clock (sv_store s) 0)"
  have did: "last_decision_id s1 = (Inr ?did, s1)"
    using bc last_decision_id_run [OF _ decision_id_unset] by auto
  obtain g s2 where g: "grant_step req p sid name d ?did s1 = (g, s2)" by fastforce
  then obtain grant where grant: "g = Inr grant"
      "resp = decision_payload d ?did @ (if req = None then [] else [(''grant'', grant_json grant)])"
      "s' = snd (publish_decision p sid name d ?did (map_option fst req) grant s2)"
    using assms(2) authorize_run [OF rp q did] by (auto split: sum.splits)
  note gs = grant_step_spec [OF _ g]
  have same: "same_data s2 s'" unfolding grant(3) using same_data_publish_decision by (simp add: within_def)
  have rest: "idle (sv_store s')" "sv_catalog s' = sv_catalog s"
    using same gs bc by (auto simp: same_data_def idle_def)
  show ?thesis
  proof (cases grant)
    case None
    let ?k = "\<lparr>tk_decision_id = ?did, tk_grant_id = [], tk_issued = 0, tk_decided_at = ?at, tk_granted_at = []\<rparr>"
    have none: "req = None \<or> \<not> d_allowed d" "s2 = s1" using gs bc grant(1) None by auto
    have "(resp, st_tables (sv_store s')) = authorize_spec req p sid name d ?k (st_tables (sv_store s))"
      using none same bc grant(2) None
      by (cases req) (auto simp: same_data_def decision_tables_def grant_json_def)
    then show ?thesis using rest rp bc none(1) by auto
  next
    case (Some ig)
    obtain h n k where k: "req = Some (h, n)" "tk_decision_id k = ?did" "d_allowed d"
        "dict_get (t_grants (st_tables (sv_store s1))) (tk_grant_id k) = None"
        "ig = \<lparr>ig_grant_id = tk_grant_id k, ig_args_hash = h, ig_expires_at = tk_issued k + n * 1000000, ig_ttl = n\<rparr>"
        "st_tables (sv_store s2) = grant_tables p sid name h n k (st_tables (sv_store s1))"
      using gs bc grant(1) Some by auto
    have "(resp, st_tables (sv_store s')) = authorize_spec req p sid name d (k\<lparr>tk_decided_at := ?at\<rparr>) (st_tables (sv_store s))"
      using k same bc grant(2) Some
      by (auto simp: same_data_def decision_tables_def grant_tables_def granted_row_def)
    moreover have "dict_get (t_grants (st_tables (sv_store s))) (tk_grant_id k) = None"
      using k(4) bc by (simp add: appended_tables)
    ultimately show ?thesis
      using rest rp bc by (auto intro!: exI [of _ "k\<lparr>tk_decided_at := ?at\<rparr>"])
  qed
qed

lemma check_request_bounds:
  assumes "check_request ctx args ttl = Inr (Some (h, n))"
  shows "\<exists>a. args = Some a \<and> check_args a = Inr h \<and> MIN_GRANT_TTL_SECONDS \<le> n \<and> n \<le> MAX_GRANT_TTL_SECONDS"
proof -
  obtain a where a: "args = Some a" "check_args a = Inr h"
      "ttl_ok (if ttl = JNull then JInt DEFAULT_GRANT_TTL_SECONDS else ttl)"
      "n = int_of (if ttl = JNull then JInt DEFAULT_GRANT_TTL_SECONDS else ttl)"
    using assms by (auto simp: check_request_def result_simps Let_def split: if_splits option.splits)
  then show ?thesis by (cases "if ttl = JNull then JInt DEFAULT_GRANT_TTL_SECONDS else ttl") (auto simp: ttl_ok_def)
qed

text \<open>C8: An authorization refines its specification, whichever statements fail. If it returns, the
  request was well formed, the decision is the broker's on the present catalog, the response is the
  specified one, and the tables are the old ones with one decision record and, exactly when
  arguments were bound and the decision is an allow, one new grant with its record: bound to the
  caller, the tool, the digest of the arguments and a lifetime of 1 to 300 seconds. If it raises, no
  grant was issued. The catalog never changes.\<close>

theorem authorize_refines:
  assumes "idle (sv_store s)" "authorize dp pv sid name ctx args ttl s = (r, s')"
  shows "sv_catalog s' = sv_catalog s \<and>
    (case r of
       Inl e \<Rightarrow> t_grants (st_tables (sv_store s')) = t_grants (st_tables (sv_store s))
     | Inr resp \<Rightarrow> \<exists>req p d k. check_request ctx args ttl = Inr req \<and> parse_principal pv = Inr p \<and>
         broker_decision (dp_engine dp) (sv_catalog s) p sid name (context_or_empty ctx) = Inr d \<and>
         (resp, st_tables (sv_store s')) = authorize_spec req p sid name d k (st_tables (sv_store s)) \<and>
         (case req of
            None \<Rightarrow> args = None
          | Some (h, n) \<Rightarrow> \<exists>a. args = Some a \<and> check_args a = Inr h \<and> 1 \<le> n \<and> n \<le> 300) \<and>
         (req = None \<or> \<not> d_allowed d \<or> dict_get (t_grants (st_tables (sv_store s))) (tk_grant_id k) = None))"
proof (cases r)
  case (Inl e)
  then show ?thesis using authorize_Inl assms by auto
next
  case (Inr resp)
  obtain req p d k where k: "check_request ctx args ttl = Inr req" "parse_principal pv = Inr p"
      "broker_decision (dp_engine dp) (sv_catalog s) p sid name (context_or_empty ctx) = Inr d"
      "(resp, st_tables (sv_store s')) = authorize_spec req p sid name d k (st_tables (sv_store s))"
      "req \<noteq> None \<and> d_allowed d \<longrightarrow> dict_get (t_grants (st_tables (sv_store s))) (tk_grant_id k) = None"
    using authorize_Inr [OF assms(1) assms(2) [unfolded Inr]] by blast
  have none: "args = None" if "req = None"
    using k(1) that by (auto simp: check_request_def result_simps Let_def split: if_splits option.splits)
  have req: "case req of None \<Rightarrow> args = None
      | Some (h, n) \<Rightarrow> \<exists>a. args = Some a \<and> check_args a = Inr h \<and> 1 \<le> n \<and> n \<le> 300"
    using none k(1) check_request_bounds [of ctx args ttl]
    by (auto simp: MIN_GRANT_TTL_SECONDS_def MAX_GRANT_TTL_SECONDS_def split: option.split)
  have "req = None \<or> \<not> d_allowed d \<or> dict_get (t_grants (st_tables (sv_store s))) (tk_grant_id k) = None"
    using k(5) by (cases req; cases "d_allowed d") simp_all
  then show ?thesis
    using authorize_Inr [OF assms(1) assms(2) [unfolded Inr]] k(1-4) req Inr by auto
qed

section \<open>From an authorization to a redemption\<close>

lemma append_in_txn_ticks:
  "append_audit_in_txn kind body u = (Inr v, s1) \<Longrightarrow>
     st_clock s1 = (\<lambda>n. st_clock u (Suc n)) \<and> st_uuids s1 = st_uuids u"
  by (auto simp: append_audit_in_txn_def Let_def sx_simps)

lemma append_audit_ticks:
  assumes "healthy s" "idle s"
  shows "\<exists>s'. append_audit kind body s = (Inr (t_audit_seq (st_tables s')), s') \<and> healthy s' \<and> idle s' \<and>
     st_tables s' = appended kind body (isoformat (st_clock s 0)) (st_tables s) \<and>
     st_clock s' = (\<lambda>n. st_clock s (Suc n)) \<and> st_uuids s' = st_uuids s"
proof -
  obtain s1 where s1: "append_audit_in_txn kind body s = (Inr (t_audit_seq (st_tables s1)), s1)" "healthy s1"
      "st_tables s1 = appended kind body (isoformat (st_clock s 0)) (st_tables s)" "st_begun s1 = Some (base s)"
    using append_in_txn_healthy [OF assms(1)] by blast
  show ?thesis
    unfolding append_audit_def healthy_with_conn [where m = "append_audit_in_txn kind body", OF assms(1) s1(1,2)]
    using s1 append_in_txn_ticks [OF s1(1)] by (auto simp: idle_def healthy_def)
qed

lemma issue_grant_ticks:
  assumes "healthy s" "idle s" "dict_get (t_grants (st_tables s)) gid = None"
  shows "\<exists>seq s'. issue_grant gid did pid sid name h issued expires ttl s = (Inr seq, s') \<and> healthy s' \<and>
     st_clock s' = (\<lambda>n. st_clock s (Suc n))"
proof -
  let ?row = "\<lparr>gr_decision_id = did, gr_principal_id = pid, gr_source_id = sid, gr_name = name, gr_args_hash = h,
      gr_issued_at = issued, gr_expires_at = expires, gr_redeemed_at = None, gr_closed_at = None\<rparr>"
  let ?ins = "dml (insert_grant gid ?row)"
  let ?app = "append_audit_in_txn ''grant_issue'' (issue_body gid did pid sid name h issued expires ttl)"
  let ?t = "(st_tables s)\<lparr>t_grants := dict_set gid ?row (t_grants (st_tables s))\<rparr>"
  let ?s1 = "s\<lparr>st_tables := ?t, st_begun := Some (base s), st_faults := \<lambda>n. st_faults s (Suc n)\<rparr>"
  have ins: "?ins s = (Inr (), ?s1)"
    using healthy_run(4) [OF assms(1), where h = "insert_grant gid ?row"] assms(3) by (simp add: insert_grant_def)
  obtain s2 where s2: "?app ?s1 = (Inr (t_audit_seq (st_tables s2)), s2)" "healthy s2" "st_begun s2 = Some (base ?s1)"
    using append_in_txn_healthy [OF healthy_update [OF assms(1)]] by blast
  have clock: "st_clock s2 = (\<lambda>n. st_clock s (Suc n))"
    using append_in_txn_ticks [OF s2(1)] by simp
  have run: "sx_bind ?ins (\<lambda>_. ?app) s = (Inr (t_audit_seq (st_tables s2)), s2)"
    unfolding sx_bind_run [where m = ?ins and f = "\<lambda>_. ?app", OF ins] by (rule s2(1))
  show ?thesis
    unfolding issue_grant_def healthy_with_conn [where m = "sx_bind ?ins (\<lambda>_. ?app)", OF assms(1) run s2(2)]
    using s2 clock by (auto simp: healthy_def)
qed

lemma broker_call_ticks:
  assumes "healthy (sv_store s)" "idle (sv_store s)" "broker_decision (dp_engine dp) (sv_catalog s) p sid name ctx = Inr d"
  shows "\<exists>s'. broker_call dp p sid name ctx s = (Inr d, s') \<and> healthy (sv_store s') \<and>
     st_clock (sv_store s') = (\<lambda>n. st_clock (sv_store s) (Suc n)) \<and>
     st_uuids (sv_store s') = (\<lambda>n. st_uuids (sv_store s) (Suc n))"
proof -
  let ?body = "decision_record p sid name d @ [(''decision_id'', JStr (st_uuids (sv_store s) 0))]"
  let ?t = "(sv_store s)\<lparr>st_uuids := \<lambda>n. st_uuids (sv_store s) (Suc n)\<rparr>"
  have "healthy ?t" "idle ?t" using assms(1,2) by (simp_all add: idle_def)
  then obtain t where t: "append_audit ''decision'' ?body ?t = (Inr (t_audit_seq (st_tables t)), t)" "healthy t"
      "st_clock t = (\<lambda>n. st_clock ?t (Suc n))" "st_uuids t = st_uuids ?t"
    using append_audit_ticks by blast
  have "broker_call dp p sid name ctx s = (Inr d, s\<lparr>sv_store := t, sv_audit_log := sv_audit_log s @ [?body]\<rparr>)"
    using assms(3) t(1)
    by (simp add: broker_call_def audit_log_append_def sx_bind_def sx_get_def sx_lift_def sx_return_def sx_modify_def
        on_store_def uuid4_hex_def decision_id_unset update_new Let_def)
  then show ?thesis using t by simp
qed

lemma issue_for_ticks:
  assumes "healthy (sv_store s)" "idle (sv_store s)"
    and "dict_get (t_grants (st_tables (sv_store s))) (st_uuids (sv_store s) 0) = None"
  shows "\<exists>g s'. issue_for p sid name did h ttl s = (Inr g, s') \<and> healthy (sv_store s') \<and>
     st_clock (sv_store s') = (\<lambda>n. st_clock (sv_store s) (Suc (Suc n)))"
proof -
  let ?gid = "st_uuids (sv_store s) 0" and ?n = "st_clock (sv_store s) 0"
  let ?t = "(sv_store s)\<lparr>st_clock := \<lambda>n. st_clock (sv_store s) (Suc n), st_uuids := \<lambda>n. st_uuids (sv_store s) (Suc n)\<rparr>"
  have "healthy ?t" "idle ?t" "dict_get (t_grants (st_tables ?t)) ?gid = None"
    using assms by (simp_all add: idle_def)
  then obtain seq t where t: "issue_grant ?gid did (p_id p) sid name h ?n (?n + ttl * 1000000) (JInt ttl) ?t = (Inr seq, t)"
      "healthy t" "st_clock t = (\<lambda>n. st_clock ?t (Suc n))"
    using issue_grant_ticks by blast
  then show ?thesis
    by (auto simp: issue_for_def sx_bind_def sx_return_def on_store_def now_def uuid4_hex_def Let_def)
qed

text \<open>The state after an authorization that issues a grant, on a store whose statements succeed.\<close>

lemma authorize_issues:
  assumes "healthy (sv_store s)" "idle (sv_store s)"
    and "check_request ctx args ttl = Inr (Some (h, n))" "parse_principal pv = Inr p"
    and "broker_decision (dp_engine dp) (sv_catalog s) p sid name (context_or_empty ctx) = Inr d" "d_allowed d"
    and "dict_get (t_grants (st_tables (sv_store s))) (st_uuids (sv_store s) 1) = None"
  shows "\<exists>resp s' did. authorize dp pv sid name ctx args ttl s = (Inr resp, s') \<and> healthy (sv_store s') \<and>
     idle (sv_store s') \<and> sv_catalog s' = sv_catalog s \<and>
     st_clock (sv_store s') = (\<lambda>i. st_clock (sv_store s) (i + 3)) \<and>
     get_or_null resp ''allowed'' = JBool True \<and>
     get_or_null resp ''grant'' = grant_json (Some \<lparr>ig_grant_id = st_uuids (sv_store s) 1, ig_args_hash = h,
        ig_expires_at = st_clock (sv_store s) 1 + n * 1000000, ig_ttl = n\<rparr>) \<and>
     dict_get (t_grants (st_tables (sv_store s'))) (st_uuids (sv_store s) 1) =
       Some \<lparr>gr_decision_id = did, gr_principal_id = p_id p, gr_source_id = sid, gr_name = name, gr_args_hash = h,
         gr_issued_at = st_clock (sv_store s) 1, gr_expires_at = st_clock (sv_store s) 1 + n * 1000000,
         gr_redeemed_at = None, gr_closed_at = None\<rparr>"
proof -
  let ?did = "st_uuids (sv_store s) 0"
  obtain s1 where s1: "broker_call dp p sid name (context_or_empty ctx) s = (Inr d, s1)" "healthy (sv_store s1)"
      "st_clock (sv_store s1) = (\<lambda>n. st_clock (sv_store s) (Suc n))"
      "st_uuids (sv_store s1) = (\<lambda>n. st_uuids (sv_store s) (Suc n))"
    using broker_call_ticks [OF assms(1,2,5)] by blast
  note bc = broker_call_spec [OF assms(2) s1(1)]
  have did: "last_decision_id s1 = (Inr ?did, s1)"
    using bc last_decision_id_run [OF _ decision_id_unset] by auto
  have idle1: "idle (sv_store s1)" using bc by simp
  have new: "dict_get (t_grants (st_tables (sv_store s1))) (st_uuids (sv_store s1) 0) = None"
    using bc assms(7) s1(4) by (simp add: appended_tables)
  obtain g s2 where g: "issue_for p sid name ?did h n s1 = (Inr g, s2)" "healthy (sv_store s2)"
      "st_clock (sv_store s2) = (\<lambda>n. st_clock (sv_store s1) (Suc (Suc n)))"
    using issue_for_ticks [OF s1(2) idle1 new] by blast
  have step: "grant_step (Some (h, n)) p sid name d ?did s1 = (Inr (Some g), s2)"
    using g(1) assms(6) by (simp add: grant_step_def sx_bind_def sx_return_def)
  let ?s3 = "snd (publish_decision p sid name d ?did (Some h) (Some g) s2)"
  have run: "authorize dp pv sid name ctx args ttl s =
      (Inr (decision_payload d ?did @ [(''grant'', grant_json (Some g))]), ?s3)"
    using authorize_run [OF assms(3,4) s1(1) did] step by simp
  have same: "same_data s2 ?s3" using same_data_publish_decision by (simp add: within_def)
  obtain k where k: "tk_decision_id k = ?did" "tk_grant_id k = st_uuids (sv_store s) 1" "tk_issued k = st_clock (sv_store s) 1"
      "g = \<lparr>ig_grant_id = tk_grant_id k, ig_args_hash = h, ig_expires_at = tk_issued k + n * 1000000, ig_ttl = n\<rparr>"
      "st_tables (sv_store s2) = grant_tables p sid name h n k (st_tables (sv_store s1))"
    using issue_for_spec [OF idle1 g(1)] s1(3,4) by auto
  have row: "dict_get (t_grants (st_tables (sv_store ?s3))) (tk_grant_id k) = Some (granted_row p sid name h n k)"
    using same k(5) by (simp add: same_data_def grant_tables_def appended_tables dict_simps)
  have resp: "get_or_null (decision_payload d ?did @ [(''grant'', v)]) ''allowed'' = JBool True"
      "get_or_null (decision_payload d ?did @ [(''grant'', v)]) ''grant'' = v" for v
    using assms(6) by (simp_all add: decision_payload_def get_or_null_def)
  have rest: "healthy (sv_store ?s3)" "idle (sv_store ?s3)" "sv_catalog ?s3 = sv_catalog s"
      "st_clock (sv_store ?s3) = (\<lambda>i. st_clock (sv_store s) (i + 3))"
    using same g(2,3) s1(3) issue_for_spec [OF idle1 g(1)] bc
    by (simp_all add: same_data_def healthy_def idle_def numeral_3_eq_3)
  show ?thesis
    using run rest resp row k by (simp add: granted_row_def)
qed

lemma broker_allow_invocable:
  "broker_decision decide cat p sid name ctx = Inr d \<Longrightarrow> d_allowed d \<Longrightarrow> invocable cat sid name = Inr True"
  by (auto simp: broker_decision_def result_simps split: option.splits if_splits)

lemma redeem_returns:
  assumes "healthy (sv_store s)" "idle (sv_store s)" "wf_catalog (sv_catalog s)" "gid \<noteq> []"
    and "parse_principal pv = Inr p" "check_args args = Inr h"
    and "redeemable (st_tables (sv_store s)) (st_clock (sv_store s) 0) gid h (p_id p) (Some (invocable (sv_catalog s)))"
    and "dict_get (t_grants (st_tables (sv_store s))) gid = Some g"
  shows "\<exists>s'. redeem_grant gid pv args s = (Inr (redeem_response gid
     \<lparr>rr_redeemed = True, rr_reason = ''ok'', rr_decision_id = Some (gr_decision_id g), rr_source_id = Some (gr_source_id g),
      rr_name = Some (gr_name g)\<rparr>), s')"
proof -
  let ?chk = "Some (invocable (sv_catalog s))"
  have total: "\<And>f a b. ?chk = Some f \<Longrightarrow> \<exists>ok. f a b = Inr ok"
    using invocable_defined [OF assms(3)] by auto
  obtain res t where run: "Store_Grants.redeem_grant gid h (p_id p) ?chk (sv_store s) = (Inr res, t)"
    using redeem_grant_healthy [OF assms(1,2), of ?chk gid h "p_id p"] total by blast
  then have v: "redeem_verdict (st_tables (sv_store s)) (st_clock (sv_store s) 0) gid h (p_id p) ?chk = Inr res"
    using redeem_grant_spec [OF assms(2) run] by simp
  then have res: "res = \<lparr>rr_redeemed = True, rr_reason = ''ok'', rr_decision_id = Some (gr_decision_id g),
      rr_source_id = Some (gr_source_id g), rr_name = Some (gr_name g)\<rparr>"
    using assms(7,8) by (auto simp: redeem_verdict_def redeemable_def)
  have pub: "publish kind outcome actor tier payload u \<noteq> (Inl e, u')" for kind outcome actor tier payload u e u'
    using publish_returns [of kind outcome actor tier payload u] by auto
  show ?thesis
    using assms(4-6) run res
    by (auto simp: pub redeem_grant_def sx_bind_def sx_lift_def sx_get_def sx_return_def on_store_def redeem_response_def
        split: prod.splits sum.splits)
qed

lemma authorize_then_redeem:
  assumes "healthy (sv_store s)" "idle (sv_store s)" "cat_reachable (sv_catalog s)"
    and "check_request ctx (Some (JDict a)) ttl = Inr (Some (h, n))" "parse_principal pv = Inr p"
    and "broker_decision (dp_engine dp) (sv_catalog s) p sid name (context_or_empty ctx) = Inr d" "d_allowed d"
    and "dict_get (t_grants (st_tables (sv_store s))) (st_uuids (sv_store s) 1) = None" "st_uuids (sv_store s) 1 \<noteq> []"
    and "st_clock (sv_store s) 3 < st_clock (sv_store s) 1 + n * 1000000"
  shows "\<exists>did s1 s2. authorize dp pv sid name ctx (Some (JDict a)) ttl s =
      (Inr (decision_payload d did @ [(''grant'', grant_json (Some \<lparr>ig_grant_id = st_uuids (sv_store s) 1, ig_args_hash = h,
         ig_expires_at = st_clock (sv_store s) 1 + n * 1000000, ig_ttl = n\<rparr>))]), s1) \<and>
    redeem_grant (st_uuids (sv_store s) 1) pv (JDict a) s1 = (Inr (redeem_response (st_uuids (sv_store s) 1)
      \<lparr>rr_redeemed = True, rr_reason = ''ok'', rr_decision_id = Some did, rr_source_id = Some sid, rr_name = Some name\<rparr>), s2)"
proof -
  let ?gid = "st_uuids (sv_store s) 1"
  let ?ig = "\<lparr>ig_grant_id = ?gid, ig_args_hash = h, ig_expires_at = st_clock (sv_store s) 1 + n * 1000000, ig_ttl = n\<rparr>"
  obtain resp s1 did where s1: "authorize dp pv sid name ctx (Some (JDict a)) ttl s = (Inr resp, s1)" "healthy (sv_store s1)"
      "idle (sv_store s1)" "sv_catalog s1 = sv_catalog s" "st_clock (sv_store s1) = (\<lambda>i. st_clock (sv_store s) (i + 3))"
      "get_or_null resp ''allowed'' = JBool True" "get_or_null resp ''grant'' = grant_json (Some ?ig)"
      "dict_get (t_grants (st_tables (sv_store s1))) ?gid =
       Some \<lparr>gr_decision_id = did, gr_principal_id = p_id p, gr_source_id = sid, gr_name = name, gr_args_hash = h,
         gr_issued_at = st_clock (sv_store s) 1, gr_expires_at = st_clock (sv_store s) 1 + n * 1000000,
         gr_redeemed_at = None, gr_closed_at = None\<rparr>"
    using authorize_issues [OF assms(1,2,4,5,6,7,8)] by blast
  have args: "check_args (JDict a) = Inr h" using check_request_bounds [OF assms(4)] by simp
  have "redeemable (st_tables (sv_store s1)) (st_clock (sv_store s1) 0) ?gid h (p_id p) (Some (invocable (sv_catalog s1)))"
    using s1(4,5,8) assms(10) broker_allow_invocable [OF assms(6,7)] by (simp add: redeemable_def)
  moreover have "wf_catalog (sv_catalog s1)" using reachable_wf [OF assms(3)] s1(4) by simp
  ultimately obtain s2 where "redeem_grant ?gid pv (JDict a) s1 = (Inr (redeem_response ?gid
      \<lparr>rr_redeemed = True, rr_reason = ''ok'', rr_decision_id = Some did, rr_source_id = Some sid, rr_name = Some name\<rparr>), s2)"
    using redeem_returns [OF s1(2,3) _ assms(9,5) args _ s1(8)] by auto
  moreover have "resp = decision_payload d did @ [(''grant'', grant_json (Some ?ig))]"
  proof -
    obtain k where k: "(resp, st_tables (sv_store s1)) = authorize_spec (Some (h, n)) p sid name d k (st_tables (sv_store s))"
      using authorize_Inr [OF assms(2) s1(1)] assms(4,5,6) by auto
    then have resp: "resp = decision_payload d (tk_decision_id k) @ [(''grant'', grant_json (Some \<lparr>ig_grant_id = tk_grant_id k,
        ig_args_hash = h, ig_expires_at = tk_issued k + n * 1000000, ig_ttl = n\<rparr>))]"
      using assms(7) by simp
    then have "tk_grant_id k = ?gid" "get_or_null resp ''grant'' = grant_json (Some ?ig)"
      using s1(7) by (simp_all add: get_or_null_def decision_payload_def grant_json_def)
    moreover have "tk_decision_id k = did"
      using k assms(7) s1(8) \<open>tk_grant_id k = ?gid\<close>
      by (auto simp: grant_tables_def granted_row_def appended_tables dict_simps)
    ultimately show ?thesis using resp by (simp add: get_or_null_def decision_payload_def)
  qed
  ultimately show ?thesis using s1(1) by blast
qed

text \<open>A permitted call can be carried out. On a store whose statements succeed and a reachable
  catalog, a well-formed request that the broker allows returns a grant, and presenting that grant
  with the same principal and arguments before it expires is answered as redeemed, for the same
  tool. The clock readings are those of the decision record, the issue instant, the grant record
  and the redemption.\<close>

theorem authorize_redeem_roundtrip:
  assumes "healthy (sv_store s)" "idle (sv_store s)" "cat_reachable (sv_catalog s)"
    and "check_request ctx (Some (JDict a)) ttl = Inr (Some (h, n))" "parse_principal pv = Inr p"
    and "broker_decision (dp_engine dp) (sv_catalog s) p sid name (context_or_empty ctx) = Inr d" "d_allowed d"
    and "dict_get (t_grants (st_tables (sv_store s))) (st_uuids (sv_store s) 1) = None" "st_uuids (sv_store s) 1 \<noteq> []"
    and "st_clock (sv_store s) 3 < st_clock (sv_store s) 1 + n * 1000000"
  shows "\<exists>resp s1 grant resp' s2. authorize dp pv sid name ctx (Some (JDict a)) ttl s = (Inr resp, s1) \<and>
    get_or_null resp ''allowed'' = JBool True \<and> get_or_null resp ''grant'' = JDict grant \<and>
    redeem_grant (str_of (get_or_null grant ''grant_id'')) pv (JDict a) s1 = (Inr resp', s2) \<and>
    get_or_null resp' ''redeemed'' = JBool True \<and>
    get_or_null resp' ''source_id'' = JStr sid \<and> get_or_null resp' ''name'' = JStr name"
  using authorize_then_redeem [OF assms] assms(7)
  by (auto simp: grant_json_def get_or_null_def redeem_response_def opt_str_def decision_payload_def)

lemma demo_request:
  "check_request JNull (Some (JDict [])) JNull = Inr (Some (sha256_hexdigest (dumps_sorted (JDict [])), 60))"
  by (simp add: check_request_def check_args_def args_hash_def canonical_args_def convert_def ttl_ok_def
      DEFAULT_GRANT_TTL_SECONDS_def MIN_GRANT_TTL_SECONDS_def MAX_GRANT_TTL_SECONDS_def)


definition demo_principal :: json where
  "demo_principal = JDict [(''id'', JStr ''p'')]"

lemma demo_principal: "parse_principal demo_principal = Inr (Principal ''p'' ''local'' ''agent'' None)"
  by (simp add: demo_principal_def parse_principal.simps get_or_null_def get_or_def py_str_def Let_def)

lemma demo_allowed:
  "\<exists>d. broker_decision (dp_engine demo_deps) (sv_catalog demo_service) p ''docs'' ''search'' ctx = Inr d \<and> d_allowed d"
proof -
  have "invocable demo_catalog ''docs'' ''search'' = Inr True"
    by (simp add: invocable_def catalog_get_def demo_catalog_def demo_tool_def is_asserted_def
        demo_source_def tier_invocable_def)
  then show ?thesis
    by (simp add: broker_decision_def demo_deps_def demo_service_def)
      (simp add: catalog_get_def demo_catalog_def demo_tool_def cedar_decide_allowed)
qed

theorem authorize_redeem_roundtrip_witness:
  "\<exists>resp s1 grant resp' s2.
     authorize demo_deps demo_principal ''docs'' ''search'' JNull (Some (JDict [])) JNull demo_service = (Inr resp, s1) \<and>
     get_or_null resp ''grant'' = JDict grant \<and>
     redeem_grant (str_of (get_or_null grant ''grant_id'')) demo_principal (JDict []) s1 = (Inr resp', s2) \<and>
     get_or_null resp' ''redeemed'' = JBool True"
proof -
  obtain d where d: "broker_decision (dp_engine demo_deps) (sv_catalog demo_service) (Principal ''p'' ''local'' ''agent'' None)
      ''docs'' ''search'' (context_or_empty JNull) = Inr d" "d_allowed d"
    using demo_allowed by blast
  have st: "healthy (sv_store demo_service)" "dict_get (t_grants (st_tables (sv_store demo_service))) (st_uuids (sv_store demo_service) 1) = None"
      "st_uuids (sv_store demo_service) 1 \<noteq> []"
      "st_clock (sv_store demo_service) 3 < st_clock (sv_store demo_service) 1 + 60 * 1000000"
    by (simp_all add: demo_service_def demo_tables_def empty_tables_def)
  show ?thesis
    using authorize_redeem_roundtrip [OF st(1) demo_service_sound(1,3) demo_request demo_principal d st(2-4)] by blast
qed

theorem authorize_refines_witness:
  "\<exists>r s'. authorize demo_deps demo_principal ''docs'' ''search'' JNull (Some (JDict [])) JNull demo_service = (r, s') \<and>
     sv_catalog s' = sv_catalog demo_service"
proof -
  obtain r s' where run: "authorize demo_deps demo_principal ''docs'' ''search'' JNull (Some (JDict [])) JNull demo_service = (r, s')"
    by fastforce
  then show ?thesis using authorize_refines [OF demo_service_sound(1) run] by blast
qed

end
