(* ===== verification/Gateway.thy ===== *)
theory Gateway
  imports Service_Authorize
begin

text \<open>
  \<open>gateway.py\<close>: the enforcement proxy between one MCP client and one downstream server. The
  downstream process is the environment, as in \<open>Mcp_Source\<close>, with a fresh list of polls for each
  call because every call has its own deadline; \<open>lk_sent\<close> holds every message handed to its pipe,
  those included whose write then failed. The client is a text to read and a list of messages
  written, whose writes may fail. Exceptions of the link are values of \<open>fault\<close>.

  Parameters, in the record \<open>gateway_env\<close>: the service's own parameters, \<open>json.loads\<close> on frames and
  on client lines, and the texts of exceptions, which are diagnostics. Starting and stopping the
  process and printing to the error stream are left out.
\<close>

section \<open>Constants\<close>

definition PARSE_ERROR :: int where "PARSE_ERROR = -32700"
definition INVALID_REQUEST :: int where "INVALID_REQUEST = -32600"
definition METHOD_NOT_FOUND :: int where "METHOD_NOT_FOUND = -32601"
definition INVALID_PARAMS :: int where "INVALID_PARAMS = -32602"
definition INTERNAL_ERROR :: int where "INTERNAL_ERROR = -32603"
definition MAX_FRAME_BYTES :: nat where "MAX_FRAME_BYTES = 8 * 1024 * 1024"
definition MAX_LIST_PAGES :: nat where "MAX_LIST_PAGES = 100"
definition MAX_LIST_TOOLS :: nat where "MAX_LIST_TOOLS = 10000"
definition DENIED :: int where "DENIED = -32001"
definition REDEEM_DENIED :: int where "REDEEM_DENIED = -32002"
definition DOWNSTREAM_UNAVAILABLE :: int where "DOWNSTREAM_UNAVAILABLE = -32003"
definition NOT_PERMITTED :: int where "NOT_PERMITTED = -32004"

definition PASSTHROUGH_REQUESTS :: "string list" where "PASSTHROUGH_REQUESTS = [''initialize'', ''ping'']"
definition PASSTHROUGH_NOTIFICATIONS :: "string list" where "PASSTHROUGH_NOTIFICATIONS = [''notifications/initialized'']"
definition FILTERED_LIST :: string where "FILTERED_LIST = ''tools/list''"
definition GOVERNED_CALL :: string where "GOVERNED_CALL = ''tools/call''"

section \<open>int() of a JSON value\<close>

text \<open>
  A finite float is the double nearest to its decimal. Below \<open>2 ^ 53\<close> truncating the decimal
  truncates the double, because every integer there is a double; above, the double is the decimal
  rounded to 53 bits, half to even.
\<close>

fun halvings :: "nat \<Rightarrow> nat" where
  "halvings n = (if n < 2 ^ 53 then 0 else Suc (halvings (n div 2)))"

declare halvings.simps [simp del]

definition round_double :: "nat \<Rightarrow> nat" where
  "round_double n =
     (let k = halvings n; q = n div 2 ^ k; r = n mod 2 ^ k
      in if 2 ^ k < 2 * r \<or> (k \<noteq> 0 \<and> 2 ^ k = 2 * r \<and> odd q) then (q + 1) * 2 ^ k else q * 2 ^ k)"

fun py_trunc :: "pyfloat \<Rightarrow> int result" where
  "py_trunc (FFin neg d e) =
     (let n = (if e < 0 then d div 10 ^ nat (- e) else d * 10 ^ nat e); m = int (round_double n)
      in Inr (if neg then - m else m))"
| "py_trunc (FInf neg) = Inl OverflowError"
| "py_trunc FNan = Inl ValueError"

fun py_int_of :: "json \<Rightarrow> int result" where
  "py_int_of (JInt i) = Inr i"
| "py_int_of (JBool b) = Inr (if b then 1 else 0)"
| "py_int_of (JFloat f) = py_trunc f"
| "py_int_of (JStr s) = py_int s"
| "py_int_of _ = Inl TypeError"

section \<open>The link to the downstream server\<close>

datatype fault =
    TransportError string
  | RpcError int string json
  | Uncaught exn

record link =
  lk_buf :: bytes
  lk_eof :: bool
  lk_next_id :: int
  lk_polls :: "nat \<Rightarrow> poll list"
  lk_now :: "poll list"
  lk_write_fails :: "nat \<Rightarrow> bool"
  lk_sent :: "json list"

definition rpc_request :: "json \<Rightarrow> string \<Rightarrow> json \<Rightarrow> json" where
  "rpc_request req_id verb params =
     JDict [(''jsonrpc'', JStr ''2.0''), (''id'', req_id), (''method'', JStr verb), (''params'', params)]"

definition rpc_notification :: "string \<Rightarrow> json \<Rightarrow> json" where
  "rpc_notification verb params = JDict [(''jsonrpc'', JStr ''2.0''), (''method'', JStr verb), (''params'', params)]"

definition rpc_refusal :: "json \<Rightarrow> json" where
  "rpc_refusal req_id =
     JDict [(''jsonrpc'', JStr ''2.0''), (''id'', req_id), (''error'', JDict
       [(''code'', JInt METHOD_NOT_FOUND),
        (''message'', JStr ''server-initiated requests are not supported through the ToolConnect gateway'')])]"

definition link_send :: "json \<Rightarrow> link \<Rightarrow> (fault + unit) \<times> link" where
  "link_send message l =
     (if lk_write_fails l 0 then Inl (TransportError ''broken_pipe'') else Inr (),
      l\<lparr>lk_write_fails := \<lambda>n. lk_write_fails l (Suc n), lk_sent := lk_sent l @ [message]\<rparr>)"

text \<open>The loop of \<open>_read_line\<close>; the polls are those before the deadline of the present call.\<close>

fun link_fill :: "bytes \<Rightarrow> bool \<Rightarrow> poll list \<Rightarrow> (string + unit) \<times> bytes \<times> bool \<times> poll list" where
  "link_fill buf eof [] =
     (if newline \<in> set buf then (Inr (), buf, eof, []) else (Inl ''timeout'', buf, eof, []))"
| "link_fill buf eof (p # ps) =
     (if newline \<in> set buf then (Inr (), buf, eof, p # ps)
      else if eof then (Inl ''truncated_response'', buf, eof, p # ps)
      else case p of
             NotReady \<Rightarrow> link_fill buf eof ps
           | Chunk bs \<Rightarrow>
               if bs = [] then
                 (if buf = [] then (Inl ''truncated_response'', buf, True, ps) else link_fill buf True ps)
               else if newline \<notin> set (buf @ bs) \<and> MAX_FRAME_BYTES < length (buf @ bs)
                    then (Inl ''oversized_frame'', [], eof, ps)
               else link_fill (buf @ bs) eof ps)"

definition link_read_line :: "link \<Rightarrow> (fault + bytes) \<times> link" where
  "link_read_line l =
     (case link_fill (lk_buf l) (lk_eof l) (lk_now l) of
        (Inl kind, buf, eof, ps) \<Rightarrow> (Inl (TransportError kind), l\<lparr>lk_buf := buf, lk_eof := eof, lk_now := ps\<rparr>)
      | (Inr u, buf, eof, ps) \<Rightarrow>
          (Inr (takeWhile (\<lambda>b. b \<noteq> newline) buf),
           l\<lparr>lk_buf := tl (dropWhile (\<lambda>b. b \<noteq> newline) buf), lk_eof := eof, lk_now := ps\<rparr>))"

definition frame_message :: "decoder \<Rightarrow> bytes \<Rightarrow> fault + (string \<times> json) list" where
  "frame_message decode line =
     (case decode line of
        Inl e \<Rightarrow> Inl (if e = JSONDecodeError then TransportError ''malformed_json'' else Uncaught e)
      | Inr (JDict kvs) \<Rightarrow> (if is_jsonrpc (JDict kvs) then Inr kvs else Inl (TransportError ''protocol_error''))
      | Inr _ \<Rightarrow> Inl (TransportError ''protocol_error''))"

definition link_receive :: "decoder \<Rightarrow> link \<Rightarrow> (fault + (string \<times> json) list) \<times> link" where
  "link_receive decode l =
     (case link_read_line l of
        (Inl f, l') \<Rightarrow> (Inl f, l')
      | (Inr line, l') \<Rightarrow> (frame_message decode line, l'))"

text \<open>The answer to a call. An error's code is converted by \<open>int\<close>, which may raise.\<close>

definition link_answer :: "(string \<times> json) list \<Rightarrow> fault + (string \<times> json) list" where
  "link_answer msg =
     (case dict_get msg ''error'' of
        Some e \<Rightarrow>
          (let err = (case e of JDict kvs \<Rightarrow> kvs | _ \<Rightarrow> [])
           in case py_int_of (or_else (get_or_null err ''code'') (JInt INTERNAL_ERROR)) of
                Inl x \<Rightarrow> Inl (Uncaught x)
              | Inr code \<Rightarrow>
                  Inl (RpcError code (py_str (or_else (get_or_null err ''message'') (JStr ''downstream error'')))
                        (get_or_null err ''data'')))
      | None \<Rightarrow>
          (case dict_get msg ''result'' of
             Some (JDict kvs) \<Rightarrow> Inr kvs
           | Some _ \<Rightarrow> Inr []
           | None \<Rightarrow> Inl (TransportError ''protocol_error'')))"

text \<open>A frame that answers another id is skipped; a request of the server is refused towards it.\<close>

definition link_skip :: "(string \<times> json) list \<Rightarrow> link \<Rightarrow> (fault + unit) \<times> link" where
  "link_skip msg l =
     (if dict_get msg ''method'' \<noteq> None \<and> get_or_null msg ''id'' \<noteq> JNull
      then link_send (rpc_refusal (get_or_null msg ''id'')) l
      else (Inr (), l))"

definition frames_left :: "link \<Rightarrow> nat" where
  "frames_left l = length (lk_buf l) + sum_list (map poll_size (lk_now l))"

lemma link_fill_size:
  "link_fill buf eof ps = (r, buf', eof', ps') \<Longrightarrow>
     length buf' + sum_list (map poll_size ps') \<le> length buf + sum_list (map poll_size ps)"
  by (induction buf eof ps rule: link_fill.induct) (auto split: if_splits poll.splits)

lemma link_fill_Inr: "link_fill buf eof ps = (Inr u, buf', eof', ps') \<Longrightarrow> newline \<in> set buf'"
  by (induction buf eof ps rule: link_fill.induct) (auto split: if_splits poll.splits)

lemma link_read_line_consumes:
  assumes "link_read_line l = (Inr line, l')"
  shows "frames_left l' < frames_left l"
proof -
  obtain r buf eof ps where f: "link_fill (lk_buf l) (lk_eof l) (lk_now l) = (r, buf, eof, ps)"
    by (metis prod_cases4)
  then have r: "r = Inr ()" "lk_buf l' = tl (dropWhile (\<lambda>b. b \<noteq> newline) buf)" "lk_now l' = ps"
    using assms by (auto simp: link_read_line_def split: sum.splits)
  have "newline \<in> set buf" using link_fill_Inr f r(1) by simp
  then have "dropWhile (\<lambda>b. b \<noteq> newline) buf \<noteq> []" by simp
  then have "length (tl (dropWhile (\<lambda>b. b \<noteq> newline) buf)) < length buf"
    by (metis length_dropWhile_le length_tl diff_less length_greater_0_conv less_le_trans less_one
        One_nat_def)
  then show ?thesis using link_fill_size [OF f] r by (simp add: frames_left_def)
qed

lemma link_receive_consumes: "link_receive decode l = (Inr msg, l') \<Longrightarrow> frames_left l' < frames_left l"
  by (auto simp: link_receive_def split: prod.splits sum.splits dest: link_read_line_consumes)

lemma link_send_size [simp]: "frames_left (snd (link_send m l)) = frames_left l"
  by (simp add: link_send_def frames_left_def)

lemma link_skip_size: "link_skip msg l = (r, l') \<Longrightarrow> frames_left l' = frames_left l"
  by (metis link_send_size link_skip_def snd_conv)

function link_await :: "decoder \<Rightarrow> int \<Rightarrow> link \<Rightarrow> (fault + (string \<times> json) list) \<times> link" where
  "link_await decode req_id l =
     (case link_receive decode l of
        (Inl f, l') \<Rightarrow> (Inl f, l')
      | (Inr msg, l') \<Rightarrow>
          if py_eq (get_or_null msg ''id'') (JInt req_id) then (link_answer msg, l')
          else (case link_skip msg l' of
                  (Inl f, l'') \<Rightarrow> (Inl f, l'')
                | (Inr u, l'') \<Rightarrow> link_await decode req_id l''))"
  by pat_completeness auto
termination
  by (relation "measure (\<lambda>(d, i, l). frames_left l)")
    (auto dest!: link_receive_consumes [OF sym] link_skip_size [OF sym])

declare link_await.simps [simp del]

definition link_call :: "decoder \<Rightarrow> string \<Rightarrow> json \<Rightarrow> link \<Rightarrow> (fault + (string \<times> json) list) \<times> link" where
  "link_call decode verb params l =
     (let req_id = lk_next_id l
      in case link_send (rpc_request (JInt req_id) verb params)
                (l\<lparr>lk_next_id := req_id + 1, lk_now := lk_polls l 0, lk_polls := \<lambda>n. lk_polls l (Suc n)\<rparr>) of
           (Inl f, l') \<Rightarrow> (Inl f, l')
         | (Inr u, l') \<Rightarrow> link_await decode req_id l')"

definition link_notify :: "string \<Rightarrow> json \<Rightarrow> link \<Rightarrow> (fault + unit) \<times> link" where
  "link_notify verb params = link_send (rpc_notification verb params)"

text \<open>The pagination loop of \<open>_handle_tools_list\<close>.\<close>

function list_downstream ::
  "decoder \<Rightarrow> string option \<Rightarrow> string list \<Rightarrow> nat \<Rightarrow> json list \<Rightarrow> link \<Rightarrow> (fault + json list) \<times> link" where
  "list_downstream decode cursor seen_cursors pages tools l =
     (case link_call decode FILTERED_LIST (JDict (case cursor of None \<Rightarrow> [] | Some c \<Rightarrow> [(''cursor'', JStr c)])) l of
        (Inl f, l') \<Rightarrow> (Inl f, l')
      | (Inr res, l') \<Rightarrow>
          (case get_or_null res ''tools'' of
             JList page \<Rightarrow>
               if MAX_LIST_TOOLS < length (tools @ page) then (Inl (TransportError ''protocol_error''), l')
               else
                 (case get_or_null res ''nextCursor'' of
                    JNull \<Rightarrow> (Inr (tools @ page), l')
                  | JStr c \<Rightarrow>
                      if c \<in> set seen_cursors then (Inl (TransportError ''protocol_error''), l')
                      else if MAX_LIST_PAGES \<le> pages + 1 then (Inl (TransportError ''protocol_error''), l')
                      else list_downstream decode (Some c) (c # seen_cursors) (pages + 1) (tools @ page) l'
                  | _ \<Rightarrow> (Inl (TransportError ''protocol_error''), l'))
           | _ \<Rightarrow> (Inl (TransportError ''protocol_error''), l')))"
  by pat_completeness auto
termination
  by (relation "measure (\<lambda>(d, c, s, pages, ts, l). MAX_LIST_PAGES - pages)") auto

declare list_downstream.simps [simp del]

section \<open>The gateway\<close>

record gateway =
  gw_service :: service
  gw_link :: link
  gw_principal :: "(string \<times> json) list"
  gw_source_id :: string
  gw_out :: "json list"
  gw_out_fails :: "nat \<Rightarrow> bool"

record gateway_env =
  ge_deps :: deps
  ge_decode :: decoder
  ge_loads :: "string \<Rightarrow> json result"
  ge_say :: "exn \<Rightarrow> string"
  ge_tell :: "string \<Rightarrow> string"

text \<open>\<open>Gateway.__init__\<close>; a command that cannot be started has no link.\<close>

definition new_gateway ::
  "(string list \<Rightarrow> link option) \<Rightarrow> service \<Rightarrow> (string \<times> json) list \<Rightarrow> string \<Rightarrow> string list \<Rightarrow> (nat \<Rightarrow> bool)
     \<Rightarrow> fault + gateway" where
  "new_gateway spawn svc principal_v source_id command out_fails =
     (if source_id = [] then Inl (Uncaught ValueError)
      else if command = [] then Inl (Uncaught ValueError)
      else case spawn command of
             None \<Rightarrow> Inl (TransportError ''spawn_failed'')
           | Some l \<Rightarrow> Inr \<lparr>gw_service = svc, gw_link = l\<lparr>lk_buf := [], lk_eof := False, lk_next_id := 1, lk_sent := []\<rparr>,
               gw_principal = principal_v, gw_source_id = source_id, gw_out = [], gw_out_fails = out_fails\<rparr>)"

definition write_message :: "json \<Rightarrow> (gateway, unit) sx" where
  "write_message message g =
     (let g' = g\<lparr>gw_out_fails := \<lambda>n. gw_out_fails g (Suc n)\<rparr>
      in if gw_out_fails g 0 then (Inl OSError, g') else (Inr (), g'\<lparr>gw_out := gw_out g @ [message]\<rparr>))"

definition respond :: "json \<Rightarrow> (string \<times> json) list \<Rightarrow> (gateway, unit) sx" where
  "respond req_id res = write_message (JDict [(''jsonrpc'', JStr ''2.0''), (''id'', req_id), (''result'', JDict res)])"

definition refuse :: "json \<Rightarrow> int \<Rightarrow> json \<Rightarrow> json \<Rightarrow> (gateway, unit) sx" where
  "refuse req_id code message data =
     write_message (JDict [(''jsonrpc'', JStr ''2.0''), (''id'', req_id), (''error'', JDict
       ([(''code'', JInt code), (''message'', message)] @ (if data = JNull then [] else [(''data'', data)])))])"

text \<open>An exception of the link that the code does not catch is raised; the others are values.\<close>

definition on_link :: "(link \<Rightarrow> (fault + 'a) \<times> link) \<Rightarrow> (gateway, fault + 'a) sx" where
  "on_link f g =
     (case f (gw_link g) of
        (Inl (Uncaught e), l) \<Rightarrow> (Inl e, g\<lparr>gw_link := l\<rparr>)
      | (r, l) \<Rightarrow> (Inr r, g\<lparr>gw_link := l\<rparr>))"

text \<open>\<open>try: service call except ServiceError\<close>: a \<open>ServiceError\<close> is a value, the others are raised.\<close>

definition attempt :: "(service, 'a) sx \<Rightarrow> (gateway, exn + 'a) sx" where
  "attempt m g =
     (case m (gw_service g) of
        (Inr a, s) \<Rightarrow> (Inr (Inr a), g\<lparr>gw_service := s\<rparr>)
      | (Inl e, s) \<Rightarrow>
          (case e of
             ServiceError n \<Rightarrow> (Inr (Inl e), g\<lparr>gw_service := s\<rparr>)
           | _ \<Rightarrow> (Inl e, g\<lparr>gw_service := s\<rparr>)))"

definition refuse_fault :: "gateway_env \<Rightarrow> json \<Rightarrow> fault \<Rightarrow> (gateway, unit) sx" where
  "refuse_fault env req_id f =
     (case f of
        RpcError code message data \<Rightarrow> refuse req_id code (JStr message) data
      | TransportError kind \<Rightarrow>
          refuse req_id DOWNSTREAM_UNAVAILABLE (JStr (''downstream unavailable: '' @ ge_tell env kind)) JNull
      | Uncaught e \<Rightarrow> sx_raise e)"

section \<open>Dispatch\<close>

definition forward_passthrough :: "gateway_env \<Rightarrow> json \<Rightarrow> string \<Rightarrow> (string \<times> json) list \<Rightarrow> (gateway, unit) sx" where
  "forward_passthrough env req_id verb params =
     sx_bind (on_link (link_call (ge_decode env) verb (JDict params))) (\<lambda>r.
     case r of
       Inl f \<Rightarrow> refuse_fault env req_id f
     | Inr res \<Rightarrow> respond req_id res)"

text \<open>The list comprehension that filters a listing, in order, with \<open>invocable\<close> as its last test.\<close>

fun visible_tools :: "Catalog \<Rightarrow> string \<Rightarrow> json list \<Rightarrow> json list result" where
  "visible_tools cat source_id [] = Inr []"
| "visible_tools cat source_id (t # ts) =
     bind_result
       (case t of
          JDict kvs \<Rightarrow> (case get_or_null kvs ''name'' of JStr name \<Rightarrow> invocable cat source_id name | _ \<Rightarrow> Inr False)
        | _ \<Rightarrow> Inr False) (\<lambda>keep.
     bind_result (visible_tools cat source_id ts) (\<lambda>rest. Inr (if keep then t # rest else rest)))"

definition handle_tools_list :: "gateway_env \<Rightarrow> json \<Rightarrow> (gateway, unit) sx" where
  "handle_tools_list env req_id =
     sx_bind (on_link (list_downstream (ge_decode env) None [] 0 [])) (\<lambda>r.
     case r of
       Inl f \<Rightarrow> refuse_fault env req_id f
     | Inr tools \<Rightarrow>
         sx_bind (sx_get (\<lambda>g. g)) (\<lambda>g.
         sx_bind (sx_lift (visible_tools (sv_catalog (gw_service g)) (gw_source_id g) tools)) (\<lambda>filtered.
         respond req_id [(''tools'', JList filtered)])))"

definition best_effort_outcome :: "string \<Rightarrow> string \<Rightarrow> string \<Rightarrow> json \<Rightarrow> (gateway, unit) sx" where
  "best_effort_outcome decision_id grant_id outcome detail g =
     (Inr (), g\<lparr>gw_service := snd (record_outcome decision_id outcome detail (Some grant_id) (gw_service g))\<rparr>)"

text \<open>What is recorded and answered once the call has been forwarded.\<close>

definition finish_call ::
  "gateway_env \<Rightarrow> json \<Rightarrow> string \<Rightarrow> string \<Rightarrow> fault + (string \<times> json) list \<Rightarrow> (gateway, unit) sx" where
  "finish_call env req_id decision_id grant_id r =
     (case r of
        Inl (RpcError code message data) \<Rightarrow>
          sx_bind (best_effort_outcome decision_id grant_id ''executed'' (JDict [(''downstream_error'', JDict
            [(''code'', JInt code), (''message'', JStr message)])])) (\<lambda>_.
          refuse_fault env req_id (RpcError code message data))
      | Inl (TransportError kind) \<Rightarrow>
          sx_bind (best_effort_outcome decision_id grant_id ''error'' (JDict
            [(''fault_kind'', JStr kind), (''error'', JStr (ge_tell env kind))])) (\<lambda>_.
          refuse_fault env req_id (TransportError kind))
      | Inl (Uncaught e) \<Rightarrow> sx_raise e
      | Inr res \<Rightarrow>
          sx_bind (best_effort_outcome decision_id grant_id ''executed'' JNull) (\<lambda>_. respond req_id res))"

text \<open>Redeem the grant, forward the call, record its outcome.\<close>

definition redeem_and_forward ::
  "gateway_env \<Rightarrow> json \<Rightarrow> string \<Rightarrow> (string \<times> json) list \<Rightarrow> string \<Rightarrow> string \<Rightarrow> (gateway, unit) sx" where
  "redeem_and_forward env req_id name frozen_args decision_id grant_id =
     sx_bind (sx_get gw_principal) (\<lambda>who.
     sx_bind (attempt (redeem_grant grant_id (JDict who) (JDict frozen_args))) (\<lambda>r.
     case r of
       Inl e \<Rightarrow> refuse req_id INVALID_PARAMS (JStr (ge_say env e)) JNull
     | Inr redemption \<Rightarrow>
         if \<not> truthy (get_or_null redemption ''redeemed'') then
           refuse req_id REDEEM_DENIED (or_else (get_or_null redemption ''reason'') (JStr ''redeem denied''))
             (JDict [(''decision_id'', JStr decision_id), (''grant_id'', JStr grant_id)])
         else
           sx_bind (on_link (link_call (ge_decode env) GOVERNED_CALL
             (JDict [(''name'', JStr name), (''arguments'', JDict frozen_args)])))
           (finish_call env req_id decision_id grant_id)))"

definition govern_call :: "gateway_env \<Rightarrow> json \<Rightarrow> string \<Rightarrow> (string \<times> json) list \<Rightarrow> (gateway, unit) sx" where
  "govern_call env req_id name frozen_args =
     sx_bind (sx_get (\<lambda>g. g)) (\<lambda>g.
     sx_bind (attempt (authorize (ge_deps env) (JDict (gw_principal g)) (gw_source_id g) name JNull
                (Some (JDict frozen_args)) JNull)) (\<lambda>r.
     case r of
       Inl e \<Rightarrow> refuse req_id INVALID_PARAMS (JStr (ge_say env e)) JNull
     | Inr decision \<Rightarrow>
         if \<not> truthy (get_or_null decision ''allowed'') then
           refuse req_id DENIED (or_else (get_or_null decision ''reason'') (JStr ''denied''))
             (JDict [(''decision_id'', get_or_null decision ''decision_id'')])
         else
           (case get_or_null decision ''grant'' of
              JDict grant \<Rightarrow>
                redeem_and_forward env req_id name frozen_args (str_of (get_or_null decision ''decision_id''))
                  (str_of (get_or_null grant ''grant_id''))
            | _ \<Rightarrow> refuse req_id INTERNAL_ERROR (JStr ''authorize allowed but issued no grant'') JNull)))"

definition handle_tools_call :: "gateway_env \<Rightarrow> json \<Rightarrow> (string \<times> json) list \<Rightarrow> (gateway, unit) sx" where
  "handle_tools_call env req_id params =
     (case get_or_null params ''name'' of
        JStr name \<Rightarrow>
          (if name = [] then refuse req_id INVALID_PARAMS (JStr (''tools/call requires a string '' @ py_repr (JStr ''name''))) JNull
           else
             (case get_or params ''arguments'' (JDict []) of
                JNull \<Rightarrow> govern_call env req_id name []
              | JDict arguments \<Rightarrow> govern_call env req_id name arguments
              | _ \<Rightarrow> refuse req_id INVALID_PARAMS (JStr (py_repr (JStr ''arguments'') @ '' must be an object'')) JNull))
      | _ \<Rightarrow> refuse req_id INVALID_PARAMS (JStr (''tools/call requires a string '' @ py_repr (JStr ''name''))) JNull)"

definition dispatch_notification :: "string \<Rightarrow> (string \<times> json) list \<Rightarrow> (gateway, unit) sx" where
  "dispatch_notification verb params =
     (if verb \<in> set PASSTHROUGH_NOTIFICATIONS
      then sx_bind (on_link (link_notify verb (JDict params))) (\<lambda>_. sx_return ())
      else sx_return ())"

definition dispatch_request :: "gateway_env \<Rightarrow> json \<Rightarrow> string \<Rightarrow> (string \<times> json) list \<Rightarrow> (gateway, unit) sx" where
  "dispatch_request env req_id verb params =
     (if verb \<in> set PASSTHROUGH_REQUESTS then forward_passthrough env req_id verb params
      else if verb = FILTERED_LIST then handle_tools_list env req_id
      else if verb = GOVERNED_CALL then handle_tools_call env req_id params
      else refuse req_id NOT_PERMITTED
        (JStr (''method '' @ py_repr (JStr verb) @ '' is not permitted through the ToolConnect gateway'')) JNull)"

section \<open>Reading the client\<close>

definition refuse_if :: "bool \<Rightarrow> json \<Rightarrow> int \<Rightarrow> string \<Rightarrow> (gateway, unit) sx" where
  "refuse_if has_id req_id code message =
     (if has_id then refuse req_id code (JStr message) JNull else sx_return ())"

definition handle_object :: "gateway_env \<Rightarrow> (string \<times> json) list \<Rightarrow> (gateway, unit) sx" where
  "handle_object env msg =
     (let has_id = (dict_get msg ''id'' \<noteq> None); req_id = get_or_null msg ''id''
      in if get_or_null msg ''jsonrpc'' \<noteq> JStr ''2.0''
         then refuse_if has_id req_id INVALID_REQUEST ''missing or wrong jsonrpc version''
         else case get_or_null msg ''method'' of
                JStr verb \<Rightarrow>
                  (if verb = [] then refuse_if has_id req_id INVALID_REQUEST ''missing or invalid method''
                   else
                     (case (case get_or_null msg ''params'' of JNull \<Rightarrow> Some [] | JDict kvs \<Rightarrow> Some kvs | _ \<Rightarrow> None) of
                        None \<Rightarrow> refuse_if has_id req_id INVALID_PARAMS ''params must be an object''
                      | Some params \<Rightarrow>
                          sx_catch
                            (if \<not> has_id then dispatch_notification verb params
                             else dispatch_request env req_id verb params)
                            (\<lambda>e. refuse_if has_id req_id INTERNAL_ERROR (''gateway internal error: '' @ ge_say env e))))
              | _ \<Rightarrow> refuse_if has_id req_id INVALID_REQUEST ''missing or invalid method'')"

definition handle_line :: "gateway_env \<Rightarrow> string \<Rightarrow> (gateway, unit) sx" where
  "handle_line env line =
     (case ge_loads env line of
        Inl e \<Rightarrow> (if e = JSONDecodeError then refuse JNull PARSE_ERROR (JStr ''invalid JSON'') JNull else sx_raise e)
      | Inr (JList vs) \<Rightarrow>
          refuse JNull INVALID_REQUEST (JStr ''batched requests are not permitted through this gateway'') JNull
      | Inr (JDict msg) \<Rightarrow> handle_object env msg
      | Inr _ \<Rightarrow> refuse JNull INVALID_REQUEST (JStr ''message must be a JSON object'') JNull)"

definition newline_char :: char where "newline_char = char_of (10 :: nat)"

text \<open>\<open>readline(n)\<close>: at most \<open>n\<close> characters, up to and with a newline.\<close>

definition readline :: "nat \<Rightarrow> string \<Rightarrow> string \<times> string" where
  "readline n input =
     (let k = min n (Suc (length (takeWhile (\<lambda>c. c \<noteq> newline_char) input))) in (take k input, drop k input))"

definition ends_line :: "string \<Rightarrow> bool" where
  "ends_line line \<longleftrightarrow> line \<noteq> [] \<and> last line = newline_char"

lemma readline_shorter: "readline n input = (line, rest) \<Longrightarrow> line \<noteq> [] \<Longrightarrow> length rest < length input"
  by (auto simp: readline_def Let_def)

function drain :: "string \<Rightarrow> string" where
  "drain input =
     (let (line, rest) = readline MAX_FRAME_BYTES input
      in if line = [] \<or> ends_line line then rest else drain rest)"
  by pat_completeness auto
termination
  by (relation "measure length") (auto dest: readline_shorter [OF sym])

declare drain.simps [simp del]

lemma drain_length: "length (drain input) \<le> length input"
proof (induction input rule: drain.induct)
  case (1 input)
  obtain line rest where r: "readline MAX_FRAME_BYTES input = (line, rest)" by fastforce
  then have "length rest \<le> length input" by (auto simp: readline_def Let_def)
  then show ?case
    using "1.IH" [OF r [symmetric] refl] by (subst drain.simps) (auto simp: r Let_def)
qed

function run_gateway :: "gateway_env \<Rightarrow> string \<Rightarrow> gateway \<Rightarrow> gateway" where
  "run_gateway env input g =
     (let (line, rest) = readline (MAX_FRAME_BYTES + 1) input
      in if line = [] then g
         else if MAX_FRAME_BYTES < length line \<and> \<not> ends_line line
         then run_gateway env (drain rest) (snd (refuse JNull INVALID_REQUEST
                (JStr (''frame exceeds '' @ show_nat MAX_FRAME_BYTES @ '' bytes; refused'')) JNull g))
         else if strip line = [] then run_gateway env rest g
         else run_gateway env rest (snd (handle_line env (strip line) g)))"
  by pat_completeness auto
termination
  by (relation "measure (\<lambda>(env, input, g). length input)")
    (auto dest: readline_shorter [OF sym] le_less_trans [OF drain_length])

declare run_gateway.simps [simp del]

end
