(* ===== verification/Gateway_Props.thy ===== *)
theory Gateway_Props
  imports Gateway
begin

text \<open>
  The gateway's promises, for every client input, every behaviour of the downstream server and every
  failing statement: complete mediation (what is forwarded, and that each forwarded call consumed a
  grant of its own), one answer per request, and bounded, filtered listings.
\<close>

section \<open>What may be sent downstream\<close>

definition is_tool_call :: "json \<Rightarrow> bool" where
  "is_tool_call m \<longleftrightarrow> rpc_method m = JStr GOVERNED_CALL"

text \<open>Handshake, liveness probe, listing, and refusals of requests the server made itself.\<close>

definition plumbing :: "json \<Rightarrow> bool" where
  "plumbing m \<longleftrightarrow>
     (\<exists>i verb params. verb \<in> set PASSTHROUGH_REQUESTS \<and> m = rpc_request i verb params) \<or>
     (\<exists>verb params. verb \<in> set PASSTHROUGH_NOTIFICATIONS \<and> m = rpc_notification verb params) \<or>
     (\<exists>i. m = rpc_request i FILTERED_LIST (JDict [])) \<or>
     (\<exists>i c. m = rpc_request i FILTERED_LIST (JDict [(''cursor'', JStr c)])) \<or>
     (\<exists>i. m = rpc_refusal i)"

text \<open>A forwarded call is backed by a grant that was redeemed for exactly this call.\<close>

definition backed :: "tables \<Rightarrow> (string \<times> json) list \<Rightarrow> string \<Rightarrow> json \<Rightarrow> string \<Rightarrow> bool" where
  "backed t who sid m gid \<longleftrightarrow>
     (\<exists>i name args h p g. m = rpc_request i GOVERNED_CALL (JDict [(''name'', JStr name), (''arguments'', JDict args)]) \<and>
        parse_principal (JDict who) = Inr p \<and> check_args (JDict args) = Inr h \<and>
        dict_get (t_grants t) gid = Some g \<and> gr_redeemed_at g \<noteq> None \<and>
        gr_principal_id g = p_id p \<and> gr_source_id g = sid \<and> gr_name g = name \<and> gr_args_hash g = h)"

lemma rpc_methods [simp]:
  "rpc_method (rpc_request i verb params) = JStr verb" "rpc_method (rpc_notification verb params) = JStr verb"
  "rpc_method (rpc_refusal i) = JNull"
  by (simp_all add: rpc_method_def get_or_null_def rpc_request_def rpc_notification_def rpc_refusal_def)

lemma plumbing_not_call: "plumbing m \<Longrightarrow> \<not> is_tool_call m"
  by (auto simp: plumbing_def is_tool_call_def PASSTHROUGH_REQUESTS_def PASSTHROUGH_NOTIFICATIONS_def GOVERNED_CALL_def
      FILTERED_LIST_def)

definition is_refusal :: "json \<Rightarrow> bool" where
  "is_refusal m \<longleftrightarrow> (\<exists>i. m = rpc_refusal i)"

lemma refusal_plumbing: "list_all is_refusal ms \<Longrightarrow> list_all plumbing ms"
  by (auto simp: is_refusal_def plumbing_def list_all_iff)

lemma calls_of_plumbing: "list_all plumbing ms \<Longrightarrow> filter is_tool_call ms = []"
  by (induction ms) (auto dest: plumbing_not_call)

lemma backed_kept:
  assumes "backed t who sid m gid" "tables_kept t t'"
  shows "backed t' who sid m gid"
proof -
  obtain i name args h p g where b: "m = rpc_request i GOVERNED_CALL (JDict [(''name'', JStr name), (''arguments'', JDict args)])"
      "parse_principal (JDict who) = Inr p" "check_args (JDict args) = Inr h" "dict_get (t_grants t) gid = Some g"
      "gr_redeemed_at g \<noteq> None" "gr_principal_id g = p_id p" "gr_source_id g = sid" "gr_name g = name" "gr_args_hash g = h"
    using assms(1) by (auto simp: backed_def)
  obtain g' where g': "dict_get (t_grants t') gid = Some g'" "binding g' = binding g" "gr_redeemed_at g' = gr_redeemed_at g"
    using assms(2) b(4,5) grants_keptD [of "t_grants t" "t_grants t'" gid g] by (auto simp: tables_kept_def)
  show ?thesis using b g' binding_fields [OF g'(2)] by (auto simp: backed_def)
qed

section \<open>What the link sends\<close>

lemma link_receive_sent: "link_receive decode l = (r, l') \<Longrightarrow> lk_sent l' = lk_sent l"
  by (auto simp: link_receive_def link_read_line_def split: prod.splits sum.splits)

lemma link_skip_sent: "link_skip msg l = (r, l') \<Longrightarrow> \<exists>ms. lk_sent l' = lk_sent l @ ms \<and> list_all is_refusal ms"
  by (auto simp: link_skip_def link_send_def is_refusal_def split: if_splits)

lemma link_await_sent:
  "link_await decode i l = (r, l') \<Longrightarrow> \<exists>ms. lk_sent l' = lk_sent l @ ms \<and> list_all is_refusal ms"
proof (induction decode i l rule: link_await.induct)
  case (1 decode i l)
  obtain q t where q: "link_receive decode l = (q, t)" by fastforce
  note t = link_receive_sent [OF q]
  show ?case
  proof (cases q)
    case (Inl f)
    then show ?thesis using "1.prems" q t by (subst (asm) link_await.simps) simp
  next
    case (Inr msg)
    show ?thesis
    proof (cases "py_eq (get_or_null msg ''id'') (JInt i)")
      case True
      then show ?thesis using "1.prems" q t Inr by (subst (asm) link_await.simps) simp
    next
      case False
      obtain w u where w: "link_skip msg t = (w, u)" by fastforce
      obtain ms where ms: "lk_sent u = lk_sent l @ ms" "list_all is_refusal ms" using link_skip_sent [OF w] t by auto
      show ?thesis
      proof (cases w)
        case (Inl f)
        then show ?thesis using "1.prems" q Inr False w ms by (subst (asm) link_await.simps) simp
      next
        case (Inr x)
        then have "link_await decode i u = (r, l')"
          using "1.prems" q \<open>q = Inr msg\<close> False w by (subst (asm) link_await.simps) simp
        then obtain ms' where "lk_sent l' = lk_sent u @ ms'" "list_all is_refusal ms'"
          using "1.IH" [OF q [symmetric] \<open>q = Inr msg\<close> False w [symmetric] Inr] by blast
        then show ?thesis using ms by auto
      qed
    qed
  qed
qed

lemma link_call_sent:
  assumes "link_call decode verb params l = (r, l')"
  shows "\<exists>ms. lk_sent l' = lk_sent l @ rpc_request (JInt (lk_next_id l)) verb params # ms \<and> list_all is_refusal ms"
proof -
  let ?l = "l\<lparr>lk_next_id := lk_next_id l + 1, lk_now := lk_polls l 0, lk_polls := \<lambda>n. lk_polls l (Suc n)\<rparr>"
  obtain q t where q: "link_send (rpc_request (JInt (lk_next_id l)) verb params) ?l = (q, t)" by fastforce
  then have t: "lk_sent t = lk_sent l @ [rpc_request (JInt (lk_next_id l)) verb params]"
    by (auto simp: link_send_def)
  show ?thesis
  proof (cases q)
    case (Inl f)
    then show ?thesis using assms q t by (simp add: link_call_def Let_def)
  next
    case (Inr u)
    then have "link_await decode (lk_next_id l) t = (r, l')" using assms q by (simp add: link_call_def Let_def)
    then show ?thesis using link_await_sent t by fastforce
  qed
qed

definition listing_request :: "json \<Rightarrow> bool" where
  "listing_request m \<longleftrightarrow> rpc_method m = JStr FILTERED_LIST"

lemma refusals_not_listing: "list_all is_refusal ms \<Longrightarrow> filter listing_request ms = []"
  by (induction ms) (auto simp: is_refusal_def listing_request_def)

lemma list_call_sent:
  assumes "link_call decode FILTERED_LIST (JDict (case cursor of None \<Rightarrow> [] | Some c \<Rightarrow> [(''cursor'', JStr c)])) l = (r, l')"
  shows "\<exists>ms. lk_sent l' = lk_sent l @ ms \<and> list_all plumbing ms \<and> length (filter listing_request ms) = 1"
proof -
  let ?m = "rpc_request (JInt (lk_next_id l)) FILTERED_LIST (JDict (case cursor of None \<Rightarrow> [] | Some c \<Rightarrow> [(''cursor'', JStr c)]))"
  obtain ms where ms: "lk_sent l' = lk_sent l @ ?m # ms" "list_all is_refusal ms"
    using link_call_sent [OF assms] by blast
  have "plumbing ?m" by (cases cursor) (auto simp: plumbing_def)
  moreover have "listing_request ?m" by (simp add: listing_request_def)
  ultimately show ?thesis
    using ms refusal_plumbing [OF ms(2)] refusals_not_listing [OF ms(2)] by (intro exI [of _ "?m # ms"]) simp
qed

text \<open>A listing asks at most 100 pages and returns at most 10000 tools.\<close>

lemma list_downstream_bounds:
  assumes "list_downstream decode cursor seen pages tools l = (r, l')" "pages < MAX_LIST_PAGES"
  shows "(\<exists>ms. lk_sent l' = lk_sent l @ ms \<and> list_all plumbing ms \<and>
      length (filter listing_request ms) \<le> MAX_LIST_PAGES - pages) \<and>
    (case r of Inl f \<Rightarrow> True | Inr ts \<Rightarrow> length ts \<le> MAX_LIST_TOOLS)"
  using assms
proof (induction decode cursor seen pages tools l rule: list_downstream.induct)
  case (1 decode cursor seen pages tools l)
  obtain q t where q: "link_call decode FILTERED_LIST (JDict (case cursor of None \<Rightarrow> [] | Some c \<Rightarrow> [(''cursor'', JStr c)])) l = (q, t)"
    by fastforce
  obtain ms where ms: "lk_sent t = lk_sent l @ ms" "list_all plumbing ms" "length (filter listing_request ms) = 1"
    using list_call_sent [OF q] by blast
  show ?case
  proof (cases "\<exists>res page c. q = Inr res \<and> get_or_null res ''tools'' = JList page \<and> length (tools @ page) \<le> MAX_LIST_TOOLS \<and>
      get_or_null res ''nextCursor'' = JStr c \<and> c \<notin> set seen \<and> pages + 1 < MAX_LIST_PAGES")
    case False
    then have "l' = t" "case r of Inl f \<Rightarrow> True | Inr ts \<Rightarrow> length ts \<le> MAX_LIST_TOOLS"
      using "1.prems"(1) q
      by (auto simp: list_downstream.simps [of decode cursor seen pages tools l] split: sum.splits json.splits if_splits)
    then show ?thesis using ms "1.prems"(2) by auto
  next
    case True
    then obtain res page c where c: "q = Inr res" "get_or_null res ''tools'' = JList page" "length (tools @ page) \<le> MAX_LIST_TOOLS"
        "get_or_null res ''nextCursor'' = JStr c" "c \<notin> set seen" "pages + 1 < MAX_LIST_PAGES" by blast
    then have rec: "list_downstream decode (Some c) (c # seen) (pages + 1) (tools @ page) t = (r, l')"
      using "1.prems"(1) q by (simp add: list_downstream.simps [of decode cursor seen pages tools l])
    obtain ms' where ms': "lk_sent l' = lk_sent t @ ms'" "list_all plumbing ms'"
        "length (filter listing_request ms') \<le> MAX_LIST_PAGES - (pages + 1)"
        "case r of Inl f \<Rightarrow> True | Inr ts \<Rightarrow> length ts \<le> MAX_LIST_TOOLS"
      using "1.IH" [OF q [symmetric] c(1,2) _ c(4,5) _ rec c(6)] c(3,6) by auto
    show ?thesis
      using ms ms' c(6) by (intro conjI exI [of _ "ms @ ms'"]) auto
  qed
qed

section \<open>Complete mediation\<close>

text \<open>
  Between two states of the gateway: the messages sent are plumbing or calls, and the calls are
  backed one to one by grants that were unredeemed before and are redeemed after.
\<close>

abbreviation gw_store :: "gateway \<Rightarrow> store" where
  "gw_store g \<equiv> sv_store (gw_service g)"

definition forwards :: "gateway \<Rightarrow> gateway \<Rightarrow> json list \<Rightarrow> string list \<Rightarrow> bool" where
  "forwards g g' ms gids \<longleftrightarrow>
     lk_sent (gw_link g') = lk_sent (gw_link g) @ ms \<and> list_all (\<lambda>m. plumbing m \<or> is_tool_call m) ms \<and>
     list_all2 (backed (st_tables (gw_store g')) (gw_principal g) (gw_source_id g)) (filter is_tool_call ms) gids \<and>
     distinct gids \<and>
     list_all (\<lambda>gid. \<not> spent (gw_store g) (Redeemed gid) \<and> spent (gw_store g') (Redeemed gid)) gids"

definition mediates :: "gateway \<Rightarrow> gateway \<Rightarrow> bool" where
  "mediates g g' \<longleftrightarrow>
     (idle (gw_store g) \<longrightarrow>
        gw_principal g' = gw_principal g \<and> gw_source_id g' = gw_source_id g \<and>
        evolves (gw_service g) (gw_service g') \<and> (\<exists>ms gids. forwards g g' ms gids))"

lemma evolves_idle: "evolves s s' \<Longrightarrow> idle (sv_store s) \<Longrightarrow> idle (sv_store s')"
  by (simp add: evolves_def kept_def)

lemma evolves_tables: "evolves s s' \<Longrightarrow> idle (sv_store s) \<Longrightarrow> tables_kept (st_tables (sv_store s)) (st_tables (sv_store s'))"
  by (simp add: evolves_def kept_def)

lemma evolves_spent: "evolves s s' \<Longrightarrow> idle (sv_store s) \<Longrightarrow> spent (sv_store s) e \<Longrightarrow> spent (sv_store s') e"
  by (auto simp: evolves_def intro: kept_spent)

lemma forwards_quiet:
  assumes "lk_sent (gw_link g') = lk_sent (gw_link g) @ ms" "list_all plumbing ms"
  shows "forwards g g' ms []"
  using assms calls_of_plumbing [OF assms(2)] by (auto simp: forwards_def list_all_iff)

lemma forwards_trans:
  assumes "forwards g h ms gids" "forwards h k ms' gids'" "idle (gw_store g)"
    and "evolves (gw_service g) (gw_service h)" "evolves (gw_service h) (gw_service k)"
    and "gw_principal h = gw_principal g" "gw_source_id h = gw_source_id g"
  shows "forwards g k (ms @ ms') (gids @ gids')"
proof -
  have idle: "idle (gw_store h)" by (rule evolves_idle [OF assms(4,3)])
  have b: "list_all2 (backed (st_tables (gw_store k)) (gw_principal g) (gw_source_id g)) (filter is_tool_call ms) gids"
    using assms(1) backed_kept [OF _ evolves_tables [OF assms(5) idle]]
    by (auto simp: forwards_def elim!: list_all2_mono)
  have new: "\<not> spent (gw_store g) (Redeemed gid)" if "gid \<in> set gids'" for gid
    using assms(2) that evolves_spent [OF assms(4,3)] unfolding forwards_def list_all_iff by blast
  have old: "spent (gw_store k) (Redeemed gid)" if "gid \<in> set gids" for gid
    using assms(1) that evolves_spent [OF assms(5) idle] unfolding forwards_def list_all_iff by blast
  have "set gids \<inter> set gids' = {}" using assms(1,2) unfolding forwards_def list_all_iff by blast
  then show ?thesis
    using assms(1,2,6,7) b new old by (auto simp del: spent.simps simp: forwards_def list_all_iff intro: list_all2_appendI)
qed

interpretation mediates: sx_relation mediates
proof unfold_locales
  show "mediates g g" for g
    using forwards_quiet [of g g "[]"] by (auto simp: mediates_def evolves.refl)
  show "mediates g k" if gh: "mediates g h" and hk: "mediates h k" for g h k
    unfolding mediates_def
  proof
    assume idle: "idle (gw_store g)"
    then have h: "gw_principal h = gw_principal g" "gw_source_id h = gw_source_id g" "evolves (gw_service g) (gw_service h)"
      using gh by (simp_all add: mediates_def)
    have "idle (gw_store h)" by (rule evolves_idle [OF h(3) idle])
    then have k: "gw_principal k = gw_principal h" "gw_source_id k = gw_source_id h" "evolves (gw_service h) (gw_service k)"
      using hk by (simp_all add: mediates_def)
    have "\<exists>ms gids. forwards g k ms gids"
      using gh hk idle \<open>idle (gw_store h)\<close> forwards_trans [OF _ _ idle h(3) k(3) h(1,2)] unfolding mediates_def by blast
    then show "gw_principal k = gw_principal g \<and> gw_source_id k = gw_source_id g \<and>
        evolves (gw_service g) (gw_service k) \<and> (\<exists>ms gids. forwards g k ms gids)"
      using h k evolves.trans [OF h(3) k(3)] by simp
  qed
qed

lemma mediates_quiet:
  assumes "gw_principal g' = gw_principal g" "gw_source_id g' = gw_source_id g"
    and "evolves (gw_service g) (gw_service g')"
    and "\<exists>ms. lk_sent (gw_link g') = lk_sent (gw_link g) @ ms \<and> list_all plumbing ms"
  shows "mediates g g'"
  using assms forwards_quiet unfolding mediates_def by blast

lemma mediates_write: "within mediates (write_message m)"
  by (rule withinI) (auto simp: write_message_def Let_def evolves.refl intro!: mediates_quiet split: if_splits)

lemma mediates_answers: "within mediates (respond i res)" "within mediates (refuse i code message data)"
  unfolding respond_def refuse_def by (rule mediates_write)+

lemma mediates_refuse_fault: "within mediates (refuse_fault env i f)"
  unfolding refuse_fault_def by (auto intro!: mediates_answers mediates.within_rules split: fault.split)

lemma mediates_on_link:
  assumes "\<And>l r l'. f l = (r, l') \<Longrightarrow> \<exists>ms. lk_sent l' = lk_sent l @ ms \<and> list_all plumbing ms"
  shows "within mediates (on_link f)"
proof (rule withinI)
  fix g r g' assume run: "on_link f g = (r, g')"
  obtain q l where q: "f (gw_link g) = (q, l)" by fastforce
  then have "g' = g\<lparr>gw_link := l\<rparr>" using run by (auto simp: on_link_def split: sum.splits fault.splits)
  then show "mediates g g'" using assms [OF q] by (intro mediates_quiet) (auto simp: evolves.refl)
qed

lemma attempt_service: "attempt m g = (r, g') \<Longrightarrow> g' = g\<lparr>gw_service := snd (m (gw_service g))\<rparr>"
  by (auto simp: attempt_def split: prod.splits sum.splits exn.splits)

lemma attempt_Inr:
  "attempt m g = (Inr (Inr a), g') \<longleftrightarrow> (\<exists>s. m (gw_service g) = (Inr a, s) \<and> g' = g\<lparr>gw_service := s\<rparr>)"
  by (auto simp: attempt_def split: prod.splits sum.splits exn.splits)

lemma mediates_attempt: "within evolves m \<Longrightarrow> within mediates (attempt m)"
  by (rule withinI, drule attempt_service, rule mediates_quiet) (simp_all add: within_def)

lemma mediates_outcome: "within mediates (best_effort_outcome did gid outcome detail)"
  using evolves.record_outcome
  by (intro withinI mediates_quiet) (auto simp: best_effort_outcome_def within_def)

lemma mediates_finish_call: "within mediates (finish_call env i did gid r)"
  unfolding finish_call_def
  by (auto intro!: mediates.within_rules mediates_outcome mediates_refuse_fault mediates_answers split: sum.split fault.split)

text \<open>A reported redemption: the grant was unspent, was issued for this principal and digest, and is spent now.\<close>

lemma redeemed_grant:
  assumes "idle (sv_store s)" "redeem_grant gid pv args s = (Inr resp, s')" "truthy (get_or_null resp ''redeemed'')"
  shows "\<exists>p h g g'. parse_principal pv = Inr p \<and> check_args args = Inr h \<and>
    dict_get (t_grants (st_tables (sv_store s))) gid = Some g \<and> gr_redeemed_at g = None \<and>
    gr_principal_id g = p_id p \<and> gr_args_hash g = h \<and>
    dict_get (t_grants (st_tables (sv_store s'))) gid = Some g' \<and> binding g' = binding g \<and> gr_redeemed_at g' \<noteq> None"
proof -
  obtain p h res t where run: "parse_principal pv = Inr p" "check_args args = Inr h"
      "Store_Grants.redeem_grant gid h (p_id p) (Some (invocable (sv_catalog s))) (sv_store s) = (Inr res, t)"
      "evolves (s\<lparr>sv_store := t\<rparr>) s'" "resp = redeem_response gid res"
    using redeem_grant_Inr [OF assms(2)] by blast
  have res: "rr_redeemed res" using assms(3) run(5) by (simp add: redeem_response_def get_or_null_def)
  note spec = redeem_grant_spec [OF assms(1) run(3)]
  obtain g at where g: "dict_get (t_grants (st_tables (sv_store s))) gid = Some g"
      "dict_get (t_grants (st_tables t)) gid = Some (g\<lparr>gr_redeemed_at := Some at\<rparr>)"
    using spec res by (auto simp: redeem_effect_def appended_tables dict_simps)
  have v: "gr_redeemed_at g = None" "gr_principal_id g = p_id p" "gr_args_hash g = h"
    using spec res g(1) by (auto simp: redeem_verdict_def deny_def split: if_splits)
  have "idle t" using spec by simp
  then have "tables_kept (st_tables t) (st_tables (sv_store s'))" using evolves_tables [OF run(4)] by simp
  then obtain g' where "dict_get (t_grants (st_tables (sv_store s'))) gid = Some g'" "binding g' = binding g"
      "gr_redeemed_at g' \<noteq> None"
    using grants_keptD [OF _ g(2), of "t_grants (st_tables (sv_store s'))"] by (auto simp: tables_kept_def)
  then show ?thesis using run(1,2) g(1) v by blast
qed

lemma redeem_then_call:
  assumes "redeem_grant gid (JDict (gw_principal g)) (JDict args) (gw_service g) = (Inr red, s1)"
    and "truthy (get_or_null red ''redeemed'')"
    and "on_link (link_call decode GOVERNED_CALL (JDict [(''name'', JStr name), (''arguments'', JDict args)]))
      (g\<lparr>gw_service := s1\<rparr>) = (r, g')"
    and "idle (gw_store g) \<longrightarrow> (\<exists>row. dict_get (t_grants (st_tables (gw_store g))) gid = Some row \<and>
      gr_source_id row = gw_source_id g \<and> gr_name row = name)"
  shows "mediates g g'"
proof -
  let ?m = "rpc_request (JInt (lk_next_id (gw_link g))) GOVERNED_CALL (JDict [(''name'', JStr name), (''arguments'', JDict args)])"
  obtain q l where q: "link_call decode GOVERNED_CALL (JDict [(''name'', JStr name), (''arguments'', JDict args)]) (gw_link g) = (q, l)"
    by fastforce
  then have g': "g' = g\<lparr>gw_service := s1, gw_link := l\<rparr>"
    using assms(3) by (auto simp: on_link_def split: sum.splits fault.splits)
  obtain ms where ms: "lk_sent l = lk_sent (gw_link g) @ ?m # ms" "list_all is_refusal ms"
    using link_call_sent [OF q] by blast
  have ev: "evolves (gw_service g) s1" by (rule withinD [OF evolves.redeem_grant assms(1)])
  have "forwards g g' (?m # ms) [gid]" if idle: "idle (gw_store g)"
  proof -
    obtain row where row: "dict_get (t_grants (st_tables (gw_store g))) gid = Some row"
        "gr_source_id row = gw_source_id g" "gr_name row = name" using assms(4) idle by blast
    obtain p h row' where b: "parse_principal (JDict (gw_principal g)) = Inr p" "check_args (JDict args) = Inr h"
        "gr_redeemed_at row = None" "gr_principal_id row = p_id p" "gr_args_hash row = h"
        "dict_get (t_grants (st_tables (sv_store s1))) gid = Some row'" "binding row' = binding row" "gr_redeemed_at row' \<noteq> None"
      using redeemed_grant [OF idle assms(1,2)] row(1) by auto
    have "backed (st_tables (gw_store g')) (gw_principal g) (gw_source_id g) ?m gid"
      using b row binding_fields [OF b(7)] g' by (auto simp: backed_def)
    moreover have "filter is_tool_call (?m # ms) = [?m]"
      using calls_of_plumbing [OF refusal_plumbing [OF ms(2)]] by (simp add: is_tool_call_def)
    moreover have "list_all (\<lambda>m. plumbing m \<or> is_tool_call m) (?m # ms)"
      using refusal_plumbing [OF ms(2)] by (simp add: is_tool_call_def list_all_iff)
    ultimately show ?thesis using ms(1) b row(1) g' by (auto simp: forwards_def)
  qed
  then show ?thesis using ev g' by (auto simp: mediates_def)
qed

lemma redeem_and_forward_mediates:
  assumes "redeem_and_forward env i name args did gid g = (r, g')"
    and "idle (gw_store g) \<longrightarrow> (\<exists>row. dict_get (t_grants (st_tables (gw_store g))) gid = Some row \<and>
      gr_source_id row = gw_source_id g \<and> gr_name row = name)"
  shows "mediates g g'"
proof -
  let ?redeem = "redeem_grant gid (JDict (gw_principal g)) (JDict args)"
  let ?call = "on_link (link_call (ge_decode env) GOVERNED_CALL (JDict [(''name'', JStr name), (''arguments'', JDict args)]))"
  obtain q g1 where q: "attempt ?redeem g = (q, g1)" by fastforce
  have m1: "mediates g g1" by (rule withinD [OF mediates_attempt [OF evolves.redeem_grant] q])
  note run = assms(1) [unfolded redeem_and_forward_def sx_bind_get]
  show ?thesis
  proof (cases "\<exists>red. q = Inr (Inr red) \<and> truthy (get_or_null red ''redeemed'')")
    case False
    have "mediates g1 g'"
    proof (cases q)
      case (Inl e)
      then show ?thesis using run q by (simp add: sx_bind_stop [where m = "attempt ?redeem"] mediates.refl)
    next
      case (Inr a)
      then show ?thesis
        using run q False by (auto simp: sx_bind_run [where m = "attempt ?redeem"] dest: withinD [OF mediates_answers(2)]
            split: sum.splits)
    qed
    then show ?thesis by (rule mediates.trans [OF m1])
  next
    case True
    then obtain red where red: "q = Inr (Inr red)" "truthy (get_or_null red ''redeemed'')" by blast
    obtain s1 where s1: "?redeem (gw_service g) = (Inr red, s1)" "g1 = g\<lparr>gw_service := s1\<rparr>"
      using q red(1) by (auto simp: attempt_Inr)
    have run': "sx_bind ?call (finish_call env i did gid) g1 = (r, g')"
      using run red q by (simp add: sx_bind_run [where m = "attempt ?redeem"])
    obtain w g2 where w: "?call g1 = (w, g2)" by fastforce
    have m2: "mediates g g2" by (rule redeem_then_call [OF s1(1) red(2) w [unfolded s1(2)] assms(2)])
    have "mediates g2 g'"
    proof (cases w)
      case (Inl e)
      then show ?thesis using run' w by (simp add: sx_bind_stop [where m = ?call] mediates.refl)
    next
      case (Inr a)
      then show ?thesis using run' w withinD [OF mediates_finish_call] by (simp add: sx_bind_run [where m = ?call])
    qed
    then show ?thesis by (rule mediates.trans [OF m2])
  qed
qed

text \<open>An allowing authorization with arguments leaves a grant for this source and tool.\<close>

lemma authorize_issued_row:
  assumes "idle (sv_store s)" "authorize dp pv sid name ctx (Some a) ttl s = (Inr resp, s')"
    and "get_or_null resp ''grant'' = JDict grant"
  shows "\<exists>row. dict_get (t_grants (st_tables (sv_store s'))) (str_of (get_or_null grant ''grant_id'')) = Some row \<and>
    gr_source_id row = sid \<and> gr_name row = name \<and> is_str (get_or_null grant ''grant_id'')"
proof -
  obtain req p d k where k: "check_request ctx (Some a) ttl = Inr req"
      "(resp, st_tables (sv_store s')) = authorize_spec req p sid name d k (st_tables (sv_store s))"
    using authorize_Inr [OF assms(1,2)] by blast
  obtain h n where req: "req = Some (h, n)"
    using k(1) by (auto simp: check_request_def result_simps Let_def split: if_splits)
  have last: "get_or_null (decision_payload d did @ [(''grant'', v)]) ''grant'' = v" for did v
    by (simp add: decision_payload_def get_or_null_def)
  show ?thesis
  proof (cases "d_allowed d")
    case True
    then have "grant = [(''grant_id'', JStr (tk_grant_id k)), (''args_hash'', JStr h),
        (''expires_at'', JStr (isoformat (tk_issued k + n * 1000000))), (''ttl_seconds'', JInt n)]"
        and t: "st_tables (sv_store s') = grant_tables p sid name h n k (decision_tables p sid name d k (st_tables (sv_store s)))"
      using k(2) req assms(3) by (auto simp: last grant_json_def)
    then show ?thesis
      by (simp add: get_or_null_def grant_tables_def granted_row_def appended_tables dict_simps)
  next
    case False
    then show ?thesis using k(2) req assms(3) by (auto simp: last)
  qed
qed

lemma mediates_govern_call: "within mediates (govern_call env i name args)"
proof (rule withinI)
  fix g r g' assume run: "govern_call env i name args g = (r, g')"
  let ?auth = "authorize (ge_deps env) (JDict (gw_principal g)) (gw_source_id g) name JNull (Some (JDict args)) JNull"
  obtain q g1 where q: "attempt ?auth g = (q, g1)" by fastforce
  have m1: "mediates g g1" by (rule withinD [OF mediates_attempt [OF evolves.authorize] q])
  note run = run [unfolded govern_call_def sx_bind_get]
  have "mediates g1 g'" if idle: "idle (gw_store g)"
  proof (cases "\<exists>dec grant. q = Inr (Inr dec) \<and> truthy (get_or_null dec ''allowed'') \<and> get_or_null dec ''grant'' = JDict grant")
    case True
    then obtain dec grant where dec: "q = Inr (Inr dec)" "truthy (get_or_null dec ''allowed'')" "get_or_null dec ''grant'' = JDict grant"
      by blast
    obtain s1 where s1: "?auth (gw_service g) = (Inr dec, s1)" "g1 = g\<lparr>gw_service := s1\<rparr>"
      using q dec(1) by (auto simp: attempt_Inr)
    have fwd: "redeem_and_forward env i name args (str_of (get_or_null dec ''decision_id'')) (str_of (get_or_null grant ''grant_id'')) g1 = (r, g')"
      using run q dec by (simp add: sx_bind_run [where m = "attempt ?auth"])
    have row: "\<exists>row. dict_get (t_grants (st_tables (gw_store g1))) (str_of (get_or_null grant ''grant_id'')) = Some row \<and>
        gr_source_id row = gw_source_id g1 \<and> gr_name row = name"
      using authorize_issued_row [OF idle s1(1) dec(3)] s1(2) by auto
    show ?thesis by (rule redeem_and_forward_mediates [OF fwd impI [OF row]])
  next
    case False
    show ?thesis
    proof (cases q)
      case (Inl e)
      then show ?thesis using run q by (simp add: sx_bind_stop [where m = "attempt ?auth"] mediates.refl)
    next
      case (Inr a)
      then show ?thesis
        using run q False by (auto simp: sx_bind_run [where m = "attempt ?auth"] dest: withinD [OF mediates_answers(2)]
            split: sum.splits if_splits json.splits)
    qed
  qed
  then show "mediates g g'" using mediates.trans [OF m1] by (cases "idle (gw_store g)") (auto simp: mediates_def)
qed

lemma mediates_tools_call: "within mediates (handle_tools_call env i params)"
  unfolding handle_tools_call_def
  by (auto intro!: mediates_govern_call mediates_answers split: json.split)

lemma mediates_tools_list: "within mediates (handle_tools_list env i)"
proof -
  have "within mediates (on_link (list_downstream decode None [] 0 []))" for decode
  proof (rule mediates_on_link)
    fix l r l' assume "list_downstream decode None [] 0 [] l = (r, l')"
    from list_downstream_bounds [OF this] show "\<exists>ms. lk_sent l' = lk_sent l @ ms \<and> list_all plumbing ms"
      by (auto simp: MAX_LIST_PAGES_def)
  qed
  then show ?thesis
    unfolding handle_tools_list_def
    by (auto intro!: mediates.within_rules mediates_refuse_fault mediates_answers split: sum.split)
qed

lemma mediates_passthrough:
  assumes "verb \<in> set PASSTHROUGH_REQUESTS"
  shows "within mediates (forward_passthrough env i verb params)"
proof -
  have "within mediates (on_link (link_call decode verb (JDict params)))" for decode
  proof (rule mediates_on_link)
    fix l r l' assume "link_call decode verb (JDict params) l = (r, l')"
    then obtain ms where ms: "lk_sent l' = lk_sent l @ rpc_request (JInt (lk_next_id l)) verb (JDict params) # ms" "list_all is_refusal ms"
      using link_call_sent by blast
    have "plumbing (rpc_request (JInt (lk_next_id l)) verb (JDict params))"
      using assms unfolding plumbing_def by blast
    then show "\<exists>ms. lk_sent l' = lk_sent l @ ms \<and> list_all plumbing ms"
      using ms refusal_plumbing [OF ms(2)] by (intro exI [of _ "rpc_request (JInt (lk_next_id l)) verb (JDict params) # ms"]) simp
  qed
  then show ?thesis
    unfolding forward_passthrough_def
    by (auto intro!: mediates.within_rules mediates_refuse_fault mediates_answers split: sum.split)
qed

lemma mediates_notification: "within mediates (dispatch_notification verb params)"
proof -
  have "within mediates (on_link (link_notify verb (JDict params)))" if "verb \<in> set PASSTHROUGH_NOTIFICATIONS"
    using that by (intro mediates_on_link) (auto simp: link_notify_def link_send_def plumbing_def)
  then show ?thesis
    unfolding dispatch_notification_def by (auto intro!: mediates.within_rules)
qed

lemma mediates_request: "within mediates (dispatch_request env i verb params)"
  unfolding dispatch_request_def
  by (auto intro!: mediates_passthrough mediates_tools_list mediates_tools_call mediates_answers)

lemma mediates_refuse_if: "within mediates (refuse_if has_id i code message)"
  unfolding refuse_if_def by (auto intro!: mediates.within_rules mediates_answers)

lemma mediates_handle_line: "within mediates (handle_line env line)"
  unfolding handle_line_def handle_object_def Let_def
  by (auto intro!: mediates.within_rules mediates_refuse_if mediates_answers mediates_notification mediates_request
      split: sum.split json.split option.split)

text \<open>A reflexive and transitive relation that every handled line and every refusal keeps, the session keeps.\<close>

lemma run_gateway_within:
  assumes "sx_relation R" "\<And>line. within R (handle_line env line)"
    and "\<And>message. within R (refuse JNull INVALID_REQUEST message JNull)"
  shows "R g (run_gateway env input g)"
  using assms
proof (induction env input g rule: run_gateway.induct)
  case (1 env input g)
  note rel = sx_relation.refl [OF "1.prems"(1)] sx_relation.trans [OF "1.prems"(1)]
  obtain line rest where l: "readline (MAX_FRAME_BYTES + 1) input = (line, rest)" by fastforce
  define ref where "ref = refuse JNull INVALID_REQUEST (JStr (''frame exceeds '' @ show_nat MAX_FRAME_BYTES @ '' bytes; refused'')) JNull"
  have step: "R g (snd (ref g))" "R g (snd (handle_line env (strip line) g))"
    using "1.prems"(2,3) by (simp_all add: within_def ref_def)
  note IH1 = "1.IH"(1) [OF l [symmetric] refl _ _ "1.prems", folded ref_def]
    and IH2 = "1.IH"(2) [OF l [symmetric] refl _ _ _ "1.prems"] and IH3 = "1.IH"(3) [OF l [symmetric] refl _ _ _ "1.prems"]
  note run = run_gateway.simps [of env input g, unfolded l Let_def prod.case, folded ref_def]
  consider "line = []" | "line \<noteq> []" "MAX_FRAME_BYTES < length line \<and> \<not> ends_line line"
    | "line \<noteq> []" "\<not> (MAX_FRAME_BYTES < length line \<and> \<not> ends_line line)" "strip line = []"
    | "line \<noteq> []" "\<not> (MAX_FRAME_BYTES < length line \<and> \<not> ends_line line)" "strip line \<noteq> []" by blast
  then show ?case
  proof cases
    case 1
    then show ?thesis using rel(1) by (simp add: run)
  next
    case 2
    then show ?thesis unfolding run using rel(2) [OF step(1) IH1 [OF 2]] by simp
  next
    case 3
    then show ?thesis unfolding run using IH2 [OF 3] by auto
  next
    case 4
    then show ?thesis unfolding run using rel(2) [OF step(2) IH3 [OF 4]] by auto
  qed
qed

lemma mediates_run: "mediates g (run_gateway env input g)"
  by (rule run_gateway_within [OF mediates.sx_relation_axioms mediates_handle_line mediates_answers(2)])

text \<open>C1: Nothing reaches the downstream server unmediated. Whatever the client sends and the server
  answers over a whole session, and whichever statements and writes fail, every message handed to
  the server's pipe is a handshake, a probe, a listing request, a refusal of the server's own
  requests, or a tool call; and the tool calls are matched one to one by distinct grants of this
  principal and source that were unredeemed when the session began, were bound to the name and to
  the digest of exactly the forwarded arguments, and are redeemed at its end.\<close>

theorem gateway_mediates:
  assumes "new_gateway spawn svc who sid command fails = Inr g" "idle (sv_store svc)"
  shows "let sent = lk_sent (gw_link (run_gateway env input g)); st = gw_store (run_gateway env input g)
    in list_all (\<lambda>m. plumbing m \<or> is_tool_call m) sent \<and>
       (\<exists>gids. distinct gids \<and> list_all2 (backed (st_tables st) who sid) (filter is_tool_call sent) gids \<and>
          list_all (\<lambda>gid. \<not> spent (sv_store svc) (Redeemed gid)) gids)"
proof -
  have g: "gw_service g = svc" "gw_principal g = who" "gw_source_id g = sid" "lk_sent (gw_link g) = []"
    using assms(1) by (auto simp: new_gateway_def split: if_splits option.splits)
  obtain ms gids where "forwards g (run_gateway env input g) ms gids"
    using mediates_run [of g env input] assms(2) g(1) by (auto simp: mediates_def)
  then show ?thesis
    unfolding Let_def using g by (auto simp del: spent.simps simp: forwards_def list_all_iff)
qed

definition demo_link :: link where
  "demo_link = \<lparr>lk_buf = [], lk_eof = False, lk_next_id = 1, lk_polls = \<lambda>n. [], lk_now = [],
     lk_write_fails = \<lambda>n. False, lk_sent = []\<rparr>"

definition demo_gateway :: gateway where
  "demo_gateway = \<lparr>gw_service = demo_service, gw_link = demo_link, gw_principal = [(''id'', JStr ''p'')],
     gw_source_id = ''docs'', gw_out = [], gw_out_fails = \<lambda>n. False\<rparr>"

definition demo_env :: gateway_env where
  "demo_env = \<lparr>ge_deps = demo_deps, ge_decode = demo_decoder [],
     ge_loads = \<lambda>line. Inr (rpc_request (JInt 7) ''tools/call'' (JDict [(''name'', JStr ''search'')])),
     ge_say = \<lambda>e. [], ge_tell = \<lambda>k. k\<rparr>"

lemma demo_new_gateway:
  "new_gateway (\<lambda>c. Some demo_link) demo_service [(''id'', JStr ''p'')] ''docs'' [''server''] (\<lambda>n. False) = Inr demo_gateway"
  by (simp add: new_gateway_def demo_gateway_def demo_link_def)

theorem gateway_mediates_witness:
  "\<exists>gids. distinct gids \<and>
     list_all2 (backed (st_tables (gw_store (run_gateway demo_env ''call'' demo_gateway))) [(''id'', JStr ''p'')] ''docs'')
       (filter is_tool_call (lk_sent (gw_link (run_gateway demo_env ''call'' demo_gateway)))) gids"
  using gateway_mediates [OF demo_new_gateway demo_service_sound(1), of demo_env "''call''"] by (auto simp: Let_def)

section \<open>One answer per request\<close>

definition same_out :: "gateway \<Rightarrow> gateway \<Rightarrow> bool" where
  "same_out g g' \<longleftrightarrow> gw_out g' = gw_out g \<and> gw_out_fails g' = gw_out_fails g"

interpretation same_out: sx_relation same_out
  by unfold_locales (auto simp: same_out_def)

definition client_up :: "gateway \<Rightarrow> bool" where
  "client_up g \<longleftrightarrow> (\<forall>n. \<not> gw_out_fails g n)"

fun response_id :: "json \<Rightarrow> json" where
  "response_id (JDict kvs) = get_or_null kvs ''id''"
| "response_id _ = JNull"

definition answered :: "json \<Rightarrow> gateway \<Rightarrow> gateway \<Rightarrow> bool" where
  "answered i g g' \<longleftrightarrow> (\<exists>x. gw_out g' = gw_out g @ [x] \<and> response_id x = i)"

text \<open>A handler answers once when it returns, and writes nothing when it raises.\<close>

definition answers :: "json \<Rightarrow> (gateway, unit) sx \<Rightarrow> bool" where
  "answers i m \<longleftrightarrow> (\<forall>g r g'. client_up g \<longrightarrow> m g = (r, g') \<longrightarrow>
     client_up g' \<and> (case r of Inl e \<Rightarrow> gw_out g' = gw_out g | Inr u \<Rightarrow> answered i g g'))"

lemma answersD:
  "answers i m \<Longrightarrow> client_up g \<Longrightarrow> m g = (r, g') \<Longrightarrow>
     client_up g' \<and> (case r of Inl e \<Rightarrow> gw_out g' = gw_out g | Inr u \<Rightarrow> answered i g g')"
  by (simp add: answers_def)

lemma same_out_on_link: "within same_out (on_link f)"
  by (rule withinI) (auto simp: on_link_def same_out_def split: prod.splits sum.splits fault.splits)

lemma same_out_attempt: "within same_out (attempt m)"
  by (rule withinI) (auto simp: same_out_def dest: attempt_service)

lemma same_out_outcome: "within same_out (best_effort_outcome did gid outcome detail)"
  by (rule withinI) (auto simp: same_out_def best_effort_outcome_def)

lemma answers_write:
  "response_id x = i \<Longrightarrow> client_up g \<Longrightarrow>
     \<exists>g'. write_message x g = (Inr (), g') \<and> client_up g' \<and> answered i g g'"
  by (auto simp: answered_def client_up_def write_message_def Let_def)

lemma refuse_run:
  "client_up g \<Longrightarrow> \<exists>g'. refuse i code message data g = (Inr (), g') \<and> client_up g' \<and> answered i g g'"
  unfolding refuse_def by (rule answers_write) (simp add: get_or_null_def)

lemma answers_refuse: "answers i (refuse i code message data)"
  using refuse_run [of _ i code message data] by (fastforce simp: answers_def)

lemma answers_respond: "answers i (respond i res)"
proof -
  have "\<exists>g'. respond i res g = (Inr (), g') \<and> client_up g' \<and> answered i g g'" if "client_up g" for g
    unfolding respond_def by (rule answers_write [OF _ that]) (simp add: get_or_null_def)
  then show ?thesis by (fastforce simp: answers_def)
qed

lemma answers_raise: "answers i (sx_raise e)"
  by (auto simp: answers_def sx_raise_def)

lemma answers_bind:
  assumes "within same_out m" "\<And>a. answers i (f a)"
  shows "answers i (sx_bind m f)"
  unfolding answers_def
proof (intro allI impI)
  fix g r g' assume up: "client_up g" and run: "sx_bind m f g = (r, g')"
  obtain q h where m: "m g = (q, h)" by fastforce
  have h: "gw_out h = gw_out g" "client_up h"
    using withinD [OF assms(1) m] up by (auto simp: same_out_def client_up_def)
  show "client_up g' \<and> (case r of Inl e \<Rightarrow> gw_out g' = gw_out g | Inr u \<Rightarrow> answered i g g')"
  proof (cases q)
    case (Inl e)
    then show ?thesis using run m h by (auto simp: sx_bind_def)
  next
    case (Inr a)
    then have "f a h = (r, g')" using run m by (simp add: sx_bind_def)
    from answersD [OF assms(2) h(2) this] h(1) show ?thesis by (simp add: answered_def split: sum.splits)
  qed
qed

lemmas answer_rules = answers_bind answers_raise answers_refuse answers_respond same_out_on_link same_out_attempt
  same_out_outcome same_out.within_get same_out.within_lift

lemma answers_fault: "answers i (refuse_fault env i f)"
  unfolding refuse_fault_def by (auto intro!: answer_rules split: fault.split)

lemma answers_finish_call: "answers i (finish_call env i did gid r)"
  unfolding finish_call_def by (auto intro!: answer_rules answers_fault split: sum.split fault.split)

lemma answers_govern_call: "answers i (govern_call env i name args)"
proof -
  have "answers i (redeem_and_forward env i name args did gid)" for did gid
    unfolding redeem_and_forward_def by (auto intro!: answer_rules answers_finish_call split: sum.split)
  then show ?thesis
    unfolding govern_call_def by (auto intro!: answer_rules split: sum.split json.split)
qed

lemma answers_request: "answers i (dispatch_request env i verb params)"
  unfolding dispatch_request_def forward_passthrough_def handle_tools_list_def handle_tools_call_def
  by (auto intro!: answer_rules answers_fault answers_govern_call split: sum.split json.split)

lemma catch_answers:
  assumes "answers i m" "client_up g"
  shows "\<exists>g'. sx_catch m (\<lambda>e. refuse i code (msg e) data) g = (Inr (), g') \<and> client_up g' \<and> answered i g g'"
proof -
  obtain q h where m: "m g = (q, h)" by fastforce
  note h = answersD [OF assms m]
  show ?thesis
  proof (cases q)
    case (Inl e)
    then have "client_up h" "gw_out h = gw_out g" using h by simp_all
    then show ?thesis using refuse_run [of h i code "msg e" data] m Inl by (auto simp: sx_catch_def answered_def)
  next
    case (Inr u)
    then show ?thesis using h m by (simp add: sx_catch_def)
  qed
qed

lemma refuse_if_run:
  "client_up g \<Longrightarrow> \<exists>g'. refuse_if has_id i code message g = (Inr (), g') \<and> client_up g' \<and>
     (if has_id then answered i g g' else gw_out g' = gw_out g)"
  using refuse_run [of g i code "JStr message" JNull] by (auto simp: refuse_if_def sx_return_def)

lemma notification_run: "\<exists>g'. dispatch_notification verb params g = (Inr (), g') \<and> same_out g g'"
  by (auto simp: dispatch_notification_def sx_bind_def on_link_def link_notify_def link_send_def sx_return_def same_out_def
      split: prod.splits sum.splits)

lemma handle_object_run:
  assumes "client_up g"
  shows "\<exists>g'. handle_object env msg g = (Inr (), g') \<and>
    (case dict_get msg ''id'' of None \<Rightarrow> gw_out g' = gw_out g | Some i \<Rightarrow> answered i g g')"
proof (cases "dict_get msg ''id''")
  case None
  have refused: "\<exists>g'. refuse_if False i code message g = (Inr (), g') \<and> gw_out g' = gw_out g" for i code message
    by (simp add: refuse_if_def sx_return_def)
  have "\<exists>g'. sx_catch (dispatch_notification verb params) h g = (Inr (), g') \<and> gw_out g' = gw_out g" for verb params h
    using notification_run [of verb params g] by (auto simp: sx_catch_def same_out_def)
  then show ?thesis
    using None refused by (auto simp: handle_object_def Let_def split: json.splits option.splits)
next
  case (Some i)
  then have i: "get_or_null msg ''id'' = i" by (simp add: get_or_null_def)
  have refused: "\<exists>g'. refuse_if True i code message g = (Inr (), g') \<and> answered i g g'" for code message
    using refuse_if_run [OF assms, of True i code message] by auto
  have "\<exists>g'. sx_catch (dispatch_request env i verb params) (\<lambda>e. refuse_if True i code (text_of e)) g = (Inr (), g') \<and> answered i g g'"
    for verb params code text_of
    using catch_answers [OF answers_request [of i env verb params] assms, of code "\<lambda>e. JStr (text_of e)" JNull]
    by (auto simp: refuse_if_def)
  then show ?thesis
    using Some i refused by (auto simp: handle_object_def Let_def split: json.splits option.splits)
qed

text \<open>C15: Every request is answered exactly once, and nothing else is. While the client accepts what is
  written, handling any line returns for every behaviour of the downstream server and every failing
  statement: a message with an id gets exactly one response, carrying that id, also when the handler
  raised; a notification gets none; a line that is not JSON, a batch and a value that is not an
  object get one refusal with the null id. Only an exception of the JSON decoder other than its
  decode error escapes, before anything is written.\<close>

theorem gateway_answers_once:
  assumes "client_up g" "handle_line env line g = (r, g')"
  shows "case ge_loads env line of
      Inl e \<Rightarrow> (if e = JSONDecodeError then r = Inr () \<and> answered JNull g g' else r = Inl e \<and> g' = g)
    | Inr (JDict msg) \<Rightarrow> r = Inr () \<and>
        (case dict_get msg ''id'' of None \<Rightarrow> gw_out g' = gw_out g | Some i \<Rightarrow> answered i g g')
    | Inr v \<Rightarrow> r = Inr () \<and> answered JNull g g'"
proof -
  have refused: "r = Inr () \<and> answered JNull g g'" if "refuse JNull code message data g = (r, g')" for code message data
    using refuse_run [OF assms(1), of JNull code message data] that by auto
  have "r = Inr () \<and> (case dict_get msg ''id'' of None \<Rightarrow> gw_out g' = gw_out g | Some i \<Rightarrow> answered i g g')"
    if "handle_object env msg g = (r, g')" for msg
    using handle_object_run [OF assms(1), of env msg] that by auto
  then show ?thesis
    using assms(2) refused
    by (auto simp: handle_line_def sx_raise_def split: sum.splits json.splits if_splits)
qed

theorem gateway_answers_once_witness:
  "\<exists>r g'. handle_line demo_env ''call'' demo_gateway = (r, g') \<and> answered (JInt 7) demo_gateway g'"
proof -
  obtain r g' where run: "handle_line demo_env ''call'' demo_gateway = (r, g')" by fastforce
  have up: "client_up demo_gateway" by (simp add: client_up_def demo_gateway_def)
  from gateway_answers_once [OF up run] run show ?thesis by (simp add: demo_env_def rpc_request_def)
qed

section \<open>Listings\<close>

lemma visible_tools_invocable:
  "visible_tools cat sid ts = Inr vs \<Longrightarrow>
     set vs \<subseteq> set ts \<and> length vs \<le> length ts \<and>
     list_all (\<lambda>v. \<exists>kvs name. v = JDict kvs \<and> get_or_null kvs ''name'' = JStr name \<and> invocable cat sid name = Inr True) vs"
proof (induction ts arbitrary: vs)
  case (Cons t ts)
  obtain keep rest where kr: "(case t of
          JDict kvs \<Rightarrow> (case get_or_null kvs ''name'' of JStr name \<Rightarrow> invocable cat sid name | _ \<Rightarrow> Inr False)
        | _ \<Rightarrow> Inr False) = Inr keep" "visible_tools cat sid ts = Inr rest" "vs = (if keep then t # rest else rest)"
    using Cons.prems by (auto simp: result_simps)
  have "\<exists>kvs name. t = JDict kvs \<and> get_or_null kvs ''name'' = JStr name \<and> invocable cat sid name = Inr True" if keep
    using kr(1) that by (auto split: json.splits)
  then show ?case using Cons.IH [OF kr(2)] kr(3) by auto
qed simp



section \<open>Permitted calls go through\<close>

definition same_link :: "gateway \<Rightarrow> gateway \<Rightarrow> bool" where
  "same_link g g' \<longleftrightarrow> gw_link g' = gw_link g"

interpretation same_link: sx_relation same_link
  by unfold_locales (auto simp: same_link_def)

lemma same_link_finish_call: "within same_link (finish_call env i did gid r)"
proof -
  have w: "within same_link (write_message m)" for m
    by (rule withinI) (auto simp: write_message_def same_link_def Let_def split: if_splits)
  have "within same_link (best_effort_outcome did gid outcome detail)" for outcome detail
    by (rule withinI) (auto simp: best_effort_outcome_def same_link_def)
  then show ?thesis
    unfolding finish_call_def refuse_fault_def respond_def refuse_def
    by (auto intro!: same_link.within_rules w split: sum.split fault.split)
qed

lemma call_then_finish_sent:
  assumes "sx_bind (on_link (link_call decode verb params)) (finish_call env i did gid) g = (r, g')"
  shows "\<exists>ms. lk_sent (gw_link g') = lk_sent (gw_link g) @ rpc_request (JInt (lk_next_id (gw_link g))) verb params # ms \<and>
    list_all is_refusal ms"
proof -
  obtain q l where q: "link_call decode verb params (gw_link g) = (q, l)" by fastforce
  obtain w h where w: "on_link (link_call decode verb params) g = (w, h)" by fastforce
  then have h: "gw_link h = l" using q by (auto simp: on_link_def split: sum.splits fault.splits)
  have "gw_link g' = l"
  proof (cases w)
    case (Inl e)
    then show ?thesis using assms w h by (simp add: sx_bind_def)
  next
    case (Inr a)
    then have "finish_call env i did gid a h = (r, g')" using assms w by (simp add: sx_bind_def)
    from withinD [OF same_link_finish_call this] h show ?thesis by (simp add: same_link_def)
  qed
  then show ?thesis using link_call_sent [OF q] by simp
qed

text \<open>The gateway forwards what is permitted. On a store whose statements succeed and a reachable
  catalog, a \<open>tools/call\<close> for a tool the broker allows to the gateway's principal is sent to the
  downstream server, with exactly the client's arguments and before anything else, provided the
  fresh grant id is new and less than the default 60 seconds pass between the issue and the
  redemption.\<close>

theorem permitted_call_forwarded:
  assumes "healthy (gw_store g)" "idle (gw_store g)" "cat_reachable (sv_catalog (gw_service g))"
    and "parse_principal (JDict (gw_principal g)) = Inr p" "check_args (JDict args) = Inr h" "name \<noteq> []"
    and "broker_decision (dp_engine (ge_deps env)) (sv_catalog (gw_service g)) p (gw_source_id g) name (JDict []) = Inr d" "d_allowed d"
    and "dict_get (t_grants (st_tables (gw_store g))) (st_uuids (gw_store g) 1) = None" "st_uuids (gw_store g) 1 \<noteq> []"
    and "st_clock (gw_store g) 3 < st_clock (gw_store g) 1 + 60 * 1000000"
  shows "\<exists>ms. lk_sent (gw_link (snd (handle_tools_call env i [(''name'', JStr name), (''arguments'', JDict args)] g))) =
      lk_sent (gw_link g) @ rpc_request (JInt (lk_next_id (gw_link g))) GOVERNED_CALL
        (JDict [(''name'', JStr name), (''arguments'', JDict args)]) # ms \<and> list_all is_refusal ms"
proof -
  let ?who = "JDict (gw_principal g)" and ?gid = "st_uuids (gw_store g) 1"
  let ?auth = "authorize (ge_deps env) ?who (gw_source_id g) name JNull (Some (JDict args)) JNull"
  let ?ig = "\<lparr>ig_grant_id = ?gid, ig_args_hash = h, ig_expires_at = st_clock (gw_store g) 1 + 60 * 1000000, ig_ttl = 60\<rparr>"
  have req: "check_request JNull (Some (JDict args)) JNull = Inr (Some (h, 60))"
    using assms(5) by (simp add: check_request_def ttl_ok_def DEFAULT_GRANT_TTL_SECONDS_def MIN_GRANT_TTL_SECONDS_def
        MAX_GRANT_TTL_SECONDS_def)
  have ctx: "context_or_empty JNull = JDict []" by (simp add: context_or_empty_def)
  obtain did s1 s2 where s1: "?auth (gw_service g) = (Inr (decision_payload d did @ [(''grant'', grant_json (Some ?ig))]), s1)"
      and s2: "redeem_grant ?gid ?who (JDict args) s1 = (Inr (redeem_response ?gid
        \<lparr>rr_redeemed = True, rr_reason = ''ok'', rr_decision_id = Some did, rr_source_id = Some (gw_source_id g), rr_name = Some name\<rparr>), s2)"
    using authorize_then_redeem [OF assms(1,2,3) req assms(4) _ assms(8-11), of "ge_deps env" "gw_source_id g" name] assms(7) ctx by metis
  let ?g2 = "g\<lparr>gw_service := s2\<rparr>"
  let ?call = "link_call (ge_decode env) GOVERNED_CALL (JDict [(''name'', JStr name), (''arguments'', JDict args)])"
  have run: "handle_tools_call env i [(''name'', JStr name), (''arguments'', JDict args)] g =
      sx_bind (on_link ?call) (finish_call env i did ?gid) ?g2"
    using assms(6,8) s1 s2
    by (simp add: handle_tools_call_def get_or_def get_or_null_def govern_call_def redeem_and_forward_def sx_bind_get
        sx_bind_def [of "attempt m" for m] attempt_def grant_json_def redeem_response_def decision_payload_def)
  obtain r g' where fin: "sx_bind (on_link ?call) (finish_call env i did ?gid) ?g2 = (r, g')"
    by fastforce
  show ?thesis unfolding run fin snd_conv using call_then_finish_sent [OF fin] by simp
qed

theorem permitted_call_forwarded_witness:
  "\<exists>ms. lk_sent (gw_link (snd (handle_tools_call demo_env (JInt 7) [(''name'', JStr ''search''), (''arguments'', JDict [])] demo_gateway))) =
      rpc_request (JInt 1) GOVERNED_CALL (JDict [(''name'', JStr ''search''), (''arguments'', JDict [])]) # ms"
proof -
  have g: "gw_service demo_gateway = demo_service" "gw_principal demo_gateway = [(''id'', JStr ''p'')]" "gw_source_id demo_gateway = ''docs''"
      "lk_sent (gw_link demo_gateway) = []" "lk_next_id (gw_link demo_gateway) = 1" "ge_deps demo_env = demo_deps"
    by (simp_all add: demo_gateway_def demo_link_def demo_env_def)
  obtain d where d: "broker_decision (dp_engine demo_deps) (sv_catalog demo_service) (Principal ''p'' ''local'' ''agent'' None)
      ''docs'' ''search'' (JDict []) = Inr d" "d_allowed d"
    using demo_allowed by blast
  have args: "check_args (JDict []) = Inr (sha256_hexdigest (dumps_sorted (JDict [])))"
    by (simp add: check_args_def args_hash_def canonical_args_def convert_def)
  have st: "healthy (sv_store demo_service)" "dict_get (t_grants (st_tables (sv_store demo_service))) (st_uuids (sv_store demo_service) 1) = None"
      "st_uuids (sv_store demo_service) 1 \<noteq> []"
      "st_clock (sv_store demo_service) 3 < st_clock (sv_store demo_service) 1 + 60 * 1000000"
    by (simp_all add: demo_service_def demo_tables_def empty_tables_def)
  show ?thesis
    using permitted_call_forwarded [where g = demo_gateway and env = demo_env and i = "JInt 7", unfolded g, OF st(1) demo_service_sound(1,3) demo_principal [unfolded demo_principal_def] args _ d st(2-4)]
    by auto
qed

end
