(* ===== verification/Rate_Limiter.thy ===== *)
theory Rate_Limiter
  imports Prelude
begin

text \<open>
  \<open>_RateLimiter\<close> of \<open>server.py\<close>: per client, the times of the requests admitted in the last window.
  Clock readings are integers, in microseconds. The code keeps only recent hits and sweeps clients
  that went away; the reference definition \<open>admitted\<close> keeps the whole history and counts. Both give
  the same answers.
\<close>

section \<open>The limiter\<close>

record limiter =
  rl_per_window :: int
  rl_window :: int
  rl_hits :: "(string, int list) dict"
  rl_last_sweep :: int

definition new_limiter :: "int \<Rightarrow> int \<Rightarrow> limiter" where
  "new_limiter per_window window = \<lparr>rl_per_window = per_window, rl_window = window, rl_hits = [], rl_last_sweep = 0\<rparr>"

definition limiter_enabled :: "limiter \<Rightarrow> bool" where
  "limiter_enabled l \<longleftrightarrow> 0 < rl_per_window l"

text \<open>\<open>while dq and dq[0] < cutoff: dq.popleft()\<close>\<close>

fun trim :: "int \<Rightarrow> int list \<Rightarrow> int list" where
  "trim cutoff [] = []"
| "trim cutoff (t # ts) = (if t < cutoff then trim cutoff ts else t # ts)"

fun sweep_hits :: "int \<Rightarrow> (string, int list) dict \<Rightarrow> (string, int list) dict" where
  "sweep_hits cutoff [] = []"
| "sweep_hits cutoff ((k, dq) # hits) =
     (if trim cutoff dq = [] then sweep_hits cutoff hits else (k, trim cutoff dq) # sweep_hits cutoff hits)"

definition sweep :: "int \<Rightarrow> int \<Rightarrow> limiter \<Rightarrow> limiter" where
  "sweep cutoff now l =
     (if now - rl_last_sweep l < rl_window l then l
      else l\<lparr>rl_last_sweep := now, rl_hits := sweep_hits cutoff (rl_hits l)\<rparr>)"

definition limiter_check :: "string \<Rightarrow> int \<Rightarrow> limiter \<Rightarrow> (bool \<times> int) \<times> limiter" where
  "limiter_check key now l =
     (if \<not> limiter_enabled l then ((True, 0), l)
      else
        let cutoff = now - rl_window l;
            l1 = sweep cutoff now l;
            dq = trim cutoff (case dict_get (rl_hits l1) key of Some dq \<Rightarrow> dq | None \<Rightarrow> [])
        in if rl_per_window l \<le> int (length dq)
           then ((False, max 0 (rl_window l - (now - hd dq))), l1\<lparr>rl_hits := dict_set key dq (rl_hits l1)\<rparr>)
           else ((True, 0), l1\<lparr>rl_hits := dict_set key (dq @ [now]) (rl_hits l1)\<rparr>))"

fun run_checks :: "(string \<times> int) list \<Rightarrow> limiter \<Rightarrow> (bool \<times> int) list \<times> limiter" where
  "run_checks [] l = ([], l)"
| "run_checks ((key, now) # reqs) l =
     (let (a, l1) = limiter_check key now l; (as, l2) = run_checks reqs l1 in (a # as, l2))"

section \<open>Reference definition\<close>

text \<open>The admitted requests of a client that lie in the window ending now.\<close>

definition recent :: "int \<Rightarrow> string \<Rightarrow> int \<Rightarrow> (string \<times> int) list \<Rightarrow> int list" where
  "recent window key now history = [t. (k, t) \<leftarrow> history, k = key \<and> now - window \<le> t]"

fun admitted :: "int \<Rightarrow> int \<Rightarrow> (string \<times> int) list \<Rightarrow> (string \<times> int) list \<Rightarrow> bool list" where
  "admitted per_window window history [] = []"
| "admitted per_window window history ((key, now) # reqs) =
     (let ok = int (length (recent window key now history)) < per_window
      in ok # admitted per_window window (if ok then history @ [(key, now)] else history) reqs)"

section \<open>The simulation\<close>

lemma trim_dropWhile: "trim cutoff ts = dropWhile (\<lambda>t. t < cutoff) ts"
  by (induction ts) auto

lemma trim_sorted: "sorted ts \<Longrightarrow> trim cutoff ts = filter (\<lambda>t. cutoff \<le> t) ts"
  by (induction ts) (auto intro!: filter_True [symmetric])

definition hits_of :: "limiter \<Rightarrow> string \<Rightarrow> int list" where
  "hits_of l key = (case dict_get (rl_hits l) key of Some dq \<Rightarrow> dq | None \<Rightarrow> [])"

lemma sweep_hits_keys: "k \<in> set (dict_keys (sweep_hits cutoff hits)) \<Longrightarrow> k \<in> set (dict_keys hits)"
  by (induction hits rule: sweep_hits.induct) (auto split: if_splits)

lemma sweep_hits_get:
  "wf_dict hits \<Longrightarrow>
   dict_get (sweep_hits cutoff hits) key =
     (case dict_get hits key of None \<Rightarrow> None | Some dq \<Rightarrow> if trim cutoff dq = [] then None else Some (trim cutoff dq))"
proof (induction cutoff hits rule: sweep_hits.induct)
  case (2 cutoff k dq hits)
  have "key = k \<Longrightarrow> dict_get (sweep_hits cutoff hits) key = None"
    using 2(3) sweep_hits_keys [of k cutoff hits] by (auto simp: wf_dict_def map_of_eq_None_iff)
  then show ?case using 2 by (auto simp: wf_dict_def)
qed simp

lemma wf_sweep_hits: "wf_dict hits \<Longrightarrow> wf_dict (sweep_hits cutoff hits)"
proof (induction cutoff hits rule: sweep_hits.induct)
  case (2 cutoff k dq hits)
  then show ?case using sweep_hits_keys [of k cutoff hits] by (auto simp: wf_dict_def)
qed simp

text \<open>The hits kept for a client are the admitted ones, less some that are out of every window from now on.\<close>

definition tracks :: "(string \<times> int) list \<Rightarrow> int \<Rightarrow> limiter \<Rightarrow> bool" where
  "tracks history now l \<longleftrightarrow>
     wf_dict (rl_hits l) \<and>
     (\<forall>key. sorted (hits_of l key) \<and> (\<forall>t \<in> set (hits_of l key). t \<le> now) \<and>
        int (length (hits_of l key)) \<le> rl_per_window l) \<and>
     (\<forall>key later. now \<le> later \<longrightarrow> trim (later - rl_window l) (hits_of l key) = recent (rl_window l) key later history)"

lemma tracks_new: "0 \<le> per_window \<Longrightarrow> tracks [] now (new_limiter per_window window)"
  by (simp add: tracks_def new_limiter_def hits_of_def recent_def)

lemma trim_trim: "c \<le> c' \<Longrightarrow> trim c' (trim c ts) = trim c' ts"
  by (induction ts) auto

lemma trim_subset: "t \<in> set (trim c ts) \<Longrightarrow> t \<in> set ts"
  by (simp add: trim_dropWhile set_dropWhileD)

lemma trim_length: "length (trim c ts) \<le> length ts"
  by (simp add: trim_dropWhile length_dropWhile_le)

lemma trim_keeps_sorted: "sorted ts \<Longrightarrow> sorted (trim c ts)"
  by (simp add: trim_dropWhile sorted_dropWhile)

lemma sweep_fields [simp]:
  "rl_per_window (sweep c now l) = rl_per_window l" "rl_window (sweep c now l) = rl_window l"
  by (simp_all add: sweep_def)

lemma hits_of_sweep:
  "wf_dict (rl_hits l) \<Longrightarrow> hits_of (sweep c now l) key \<in> {hits_of l key, trim c (hits_of l key)}"
  by (auto simp: hits_of_def sweep_def sweep_hits_get split: option.split)

lemma tracks_trimmed:
  assumes "tracks history now0 l" "now0 \<le> now" "wf_dict (rl_hits l')"
    "rl_per_window l' = rl_per_window l" "rl_window l' = rl_window l"
    "\<And>key. hits_of l' key \<in> {hits_of l key, trim (now - rl_window l) (hits_of l key)}"
  shows "tracks history now l'"
proof -
  have t: "trim (later - rl_window l) (hits_of l' key) = trim (later - rl_window l) (hits_of l key)" if "now \<le> later" for key later
    using assms(6) [of key] that by (auto simp: trim_trim)
  have k: "sorted (hits_of l' key) \<and> (\<forall>t \<in> set (hits_of l' key). t \<le> now) \<and> int (length (hits_of l' key)) \<le> rl_per_window l" for key
  proof -
    have l: "sorted (hits_of l key)" "\<forall>t \<in> set (hits_of l key). t \<le> now0" "int (length (hits_of l key)) \<le> rl_per_window l"
      using assms(1) by (simp_all add: tracks_def)
    have "set (hits_of l' key) \<subseteq> set (hits_of l key)" "length (hits_of l' key) \<le> length (hits_of l key)" "sorted (hits_of l' key)"
      using assms(6) [of key] l(1) by (auto simp: trim_length trim_keeps_sorted dest: trim_subset)
    then show ?thesis using l(2,3) assms(2) by force
  qed
  have "trim (later - rl_window l) (hits_of l key) = recent (rl_window l) key later history" if "now \<le> later" for key later
    using assms(1,2) that by (simp add: tracks_def)
  then show ?thesis using assms(3,4,5) t k by (simp add: tracks_def)
qed

lemma wf_sweep: "wf_dict (rl_hits l) \<Longrightarrow> wf_dict (rl_hits (sweep c now l))"
  by (simp add: sweep_def wf_sweep_hits)

lemma hits_of_set:
  "hits_of (l\<lparr>rl_hits := dict_set key dq (rl_hits l)\<rparr>) k = (if k = key then dq else hits_of l k)"
  by (simp add: hits_of_def dict_simps)

lemma recent_admit:
  "recent w k later (history @ [(key, now)]) =
     recent w k later history @ (if k = key \<and> later - w \<le> now then [now] else [])"
  by (simp add: recent_def)

lemma trim_snoc: "\<forall>t \<in> set ts. t \<le> now \<Longrightarrow> trim c (ts @ [now]) = trim c ts @ (if c \<le> now then [now] else [])"
  by (induction ts) auto

text \<open>One check: its answer is the reference's, and the limiter goes on tracking the history.\<close>

lemma check_tracks:
  assumes "limiter_enabled l" "tracks history now0 l" "now0 \<le> now" "limiter_check key now l = ((ok, retry), l')"
  shows "ok \<longleftrightarrow> int (length (recent (rl_window l) key now history)) < rl_per_window l"
    and "tracks (if ok then history @ [(key, now)] else history) now l'"
    and "rl_per_window l' = rl_per_window l \<and> rl_window l' = rl_window l"
    and "\<not> ok \<Longrightarrow> hits_of l' key \<noteq> [] \<and> hd (hits_of l' key) + rl_window l \<le> now + retry"
proof -
  let ?c = "now - rl_window l" and ?l1 = "sweep (now - rl_window l) now l"
  let ?dq = "trim ?c (hits_of ?l1 key)"
  have wf: "wf_dict (rl_hits l)" using assms(2) by (simp add: tracks_def)
  have t1: "tracks history now ?l1"
    using tracks_trimmed [OF assms(2,3) wf_sweep [OF wf], of ?c now] hits_of_sweep [OF wf] by auto
  have dq: "?dq = recent (rl_window l) key now history" using t1 by (simp add: tracks_def)
  have run: "limiter_check key now l =
      (if rl_per_window l \<le> int (length ?dq)
       then ((False, max 0 (rl_window l - (now - hd ?dq))), ?l1\<lparr>rl_hits := dict_set key ?dq (rl_hits ?l1)\<rparr>)
       else ((True, 0), ?l1\<lparr>rl_hits := dict_set key (?dq @ [now]) (rl_hits ?l1)\<rparr>))"
    using assms(1) by (simp add: limiter_check_def hits_of_def Let_def)
  show ok: "ok \<longleftrightarrow> int (length (recent (rl_window l) key now history)) < rl_per_window l"
    using run assms(4) by (auto simp: dq split: if_splits)
  show "rl_per_window l' = rl_per_window l \<and> rl_window l' = rl_window l"
    using run assms(4) by (auto split: if_splits)
  define l2 where "l2 = ?l1\<lparr>rl_hits := dict_set key ?dq (rl_hits ?l1)\<rparr>"
  have t2: "tracks history now l2"
    using tracks_trimmed [OF t1 order_refl, of l2] wf_sweep [OF wf] by (simp add: l2_def hits_of_set)
  show "tracks (if ok then history @ [(key, now)] else history) now l'"
  proof (cases ok)
    case False
    then show ?thesis using run assms(4) t2 by (auto simp: l2_def split: if_splits)
  next
    case True
    have l': "l' = l2\<lparr>rl_hits := dict_set key (?dq @ [now]) (rl_hits l2)\<rparr>" "int (length ?dq) < rl_per_window l"
      using True run assms(4) by (auto simp: l2_def split: if_splits)
    have h: "hits_of l2 key = ?dq" by (simp add: l2_def hits_of_set)
    have fields: "rl_window l2 = rl_window l" "rl_per_window l2 = rl_per_window l" by (simp_all add: l2_def)
    have "\<forall>t \<in> set (hits_of l2 key). t \<le> now" "sorted (hits_of l2 key)" using t2 by (simp_all add: tracks_def)
    then have le: "\<forall>t \<in> set ?dq. t \<le> now" "sorted ?dq" by (simp_all add: h)
    have new: "hits_of l' k = (if k = key then ?dq @ [now] else hits_of l2 k)" for k by (simp add: l'(1) hits_of_set)
    have old: "trim (later - rl_window l) (hits_of l2 k) = recent (rl_window l) k later history" if "now \<le> later" for k later
      using t2 that by (simp add: tracks_def fields)
    have "trim (later - rl_window l) (hits_of l' k) = recent (rl_window l) k later (history @ [(key, now)])" if "now \<le> later" for k later
      using old [OF that, of k] h by (auto simp: new recent_admit trim_snoc [OF le(1)])
    moreover have "sorted (hits_of l' k) \<and> (\<forall>t \<in> set (hits_of l' k). t \<le> now) \<and> int (length (hits_of l' k)) \<le> rl_per_window l" for k
      using t2 le l'(2) by (simp add: new tracks_def fields sorted_append)
    moreover have "wf_dict (rl_hits l')" "rl_window l' = rl_window l" "rl_per_window l' = rl_per_window l"
      using t2 by (simp_all add: l'(1) tracks_def fields)
    ultimately show ?thesis using True by (simp add: tracks_def)
  qed
  show "hits_of l' key \<noteq> [] \<and> hd (hits_of l' key) + rl_window l \<le> now + retry" if "\<not> ok"
    using that run assms(1,4) by (auto simp: hits_of_set limiter_enabled_def split: if_splits)
qed

lemma refused_then_admitted:
  assumes "limiter_enabled l" "tracks history now0 l" "now0 \<le> now" "limiter_check key now l = ((False, retry), l')"
    "now + retry < later" "0 \<le> retry"
  shows "fst (fst (limiter_check key later l'))"
proof -
  note c = check_tracks [OF assms(1-4)]
  have en: "limiter_enabled l'" using assms(1) c(3) by (simp add: limiter_enabled_def)
  have t: "tracks history now l'" using c(2) by simp
  obtain ok r l2 where run: "limiter_check key later l' = ((ok, r), l2)" by (metis surj_pair)
  obtain t0 ts where dq: "hits_of l' key = t0 # ts" "t0 < later - rl_window l'"
    using c(3,4) assms(5) by (cases "hits_of l' key") auto
  have "recent (rl_window l') key later history = trim (later - rl_window l') (hits_of l' key)"
    using t assms(5,6) by (simp add: tracks_def)
  then have "length (recent (rl_window l') key later history) < length (hits_of l' key)"
    using dq trim_length [of "later - rl_window l'" ts] by simp
  moreover have "int (length (hits_of l' key)) \<le> rl_per_window l'" using t by (simp add: tracks_def)
  ultimately show ?thesis using check_tracks(1) [OF en t _ run] assms(5,6) run by simp
qed

lemma run_checks_admitted:
  assumes "limiter_enabled l" "tracks history now0 l" "sorted (now0 # map snd reqs)"
  shows "map fst (fst (run_checks reqs l)) = admitted (rl_per_window l) (rl_window l) history reqs"
  using assms
proof (induction reqs arbitrary: l history now0)
  case (Cons req reqs)
  obtain key now where req: "req = (key, now)" by fastforce
  obtain ok retry l1 where run: "limiter_check key now l = ((ok, retry), l1)" by (metis surj_pair)
  have "now0 \<le> now" using Cons.prems(3) req by simp
  note c = check_tracks [OF Cons.prems(1,2) this run]
  have "limiter_enabled l1" using Cons.prems(1) c(3) by (simp add: limiter_enabled_def)
  note IH = Cons.IH [OF this c(2)]
  obtain as l2 where rest: "run_checks reqs l1 = (as, l2)" by fastforce
  have "map fst as = admitted (rl_per_window l) (rl_window l) (if ok then history @ [(key, now)] else history) reqs"
    using IH Cons.prems(3) c(3) req rest by simp
  then show ?case using c(1) by (simp add: req run rest Let_def)
qed simp

section \<open>Properties\<close>

text \<open>C22: the rate limiter refines the reference that keeps every admitted request and counts those of
  the client in the window ending now: over every sequence of requests with a clock that does not
  run backwards, expiry and sweeping change no answer.
\<close>

theorem limiter_refines:
  assumes "0 < per_window" "sorted (map snd reqs)"
  shows "map fst (fst (run_checks reqs (new_limiter per_window window))) = admitted per_window window [] reqs"
proof (cases reqs)
  case (Cons req rest)
  have "limiter_enabled (new_limiter per_window window)"
    using assms(1) by (simp add: limiter_enabled_def new_limiter_def)
  moreover have "sorted (snd req # map snd reqs)" using assms(2) Cons by simp
  ultimately show ?thesis
    using run_checks_admitted [of _ "[]" "snd req" reqs] tracks_new [of per_window "snd req" window] assms(1)
    by (simp add: new_limiter_def)
qed simp

theorem limiter_refines_witness:
  "map fst (fst (run_checks [(''a'', 5), (''a'', 6), (''b'', 6), (''a'', 7), (''a'', 70)] (new_limiter 2 60))) =
     [True, True, True, False, True] \<and> 0 < (2::int)"
proof -
  have "map fst (fst (run_checks [(''a'', 5), (''a'', 6), (''b'', 6), (''a'', 7), (''a'', 70)] (new_limiter 2 60))) =
      admitted 2 60 [] [(''a'', 5), (''a'', 6), (''b'', 6), (''a'', 7), (''a'', 70)]"
    by (rule limiter_refines) simp_all
  also have "\<dots> = [True, True, True, False, True]" by (simp add: recent_def Let_def)
  finally show ?thesis by simp
qed

end
