(* ===== verification/Server.thy ===== *)
theory Server
  imports Gateway_Props Rate_Limiter
begin

text \<open>
  \<open>server.py\<close>: the HTTP front of the service. A \<open>handler\<close> holds what the code reaches from one
  connection: the service, the limiter with its clock readings, the configured token, the bytes on
  the connection after the current request's headers, the answers written and whether the
  connection is closed after them. \<open>http.server\<close> has parsed the request line and headers into a
  \<open>http_request\<close>; header values are text over the code points 0 to 255, as the standard library
  decodes them.

  Parameters, in the record \<open>server_env\<close>: those of the service, \<open>json.loads\<close> on a body, what
  \<open>urlparse\<close>, \<open>unquote\<close> and \<open>parse_qs\<close> make of a request target (the path, and the last value of
  each query field), \<open>float\<close> of a text, and the texts of exceptions. Bodies are untyped JSON while
  three parameters of the service are annotated as texts: what the service does with a value outside
  the annotation is the parameter \<open>sd_untyped\<close>, which the properties leave arbitrary or assume only
  to keep what every operation of the service keeps. The
  writes of answers to the socket, the accept loop and the lock around the service are left out.
\<close>

section \<open>Constants and data\<close>

definition LOOPBACK_HOSTS :: "string list" where
  "LOOPBACK_HOSTS = [''127.0.0.1'', ''::1'', ''localhost'']"

definition MAX_BODY :: int where "MAX_BODY = 2 ^ 20"

record http_request =
  rq_method :: string
  rq_target :: string
  rq_client :: "string option"
  rq_authorization :: "string option"
  rq_content_length :: "string option"

record http_response =
  hr_status :: int
  hr_body :: json
  hr_headers :: "(string \<times> string) list"

record handler =
  hn_service :: service
  hn_limiter :: limiter
  hn_clock :: "nat \<Rightarrow> int"
  hn_token :: "string option"
  hn_in :: bytes
  hn_close :: bool
  hn_out :: "http_response list"

datatype untyped_call =
    UntypedDeclares string json string json json
  | UntypedGrantId string string json json
  | UntypedAt json json string string json json

record server_env =
  sd_deps :: deps
  sd_say :: "exn \<Rightarrow> string"
  sd_json :: decoder
  sd_url :: "string \<Rightarrow> (string \<times> (string, string) dict) result"
  sd_float :: "string \<Rightarrow> pyfloat result"
  sd_untyped :: "untyped_call \<Rightarrow> (service, response) sx"

section \<open>Plumbing\<close>

definition on_service :: "(service, 'a) sx \<Rightarrow> (handler, 'a) sx" where
  "on_service m h = (case m (hn_service h) of (r, s) \<Rightarrow> (r, h\<lparr>hn_service := s\<rparr>))"

definition send_json :: "int \<Rightarrow> json \<Rightarrow> (string \<times> string) list \<Rightarrow> (handler, unit) sx" where
  "send_json status payload extra_headers =
     sx_modify (\<lambda>h. h\<lparr>hn_out := hn_out h @ [\<lparr>hr_status = status, hr_body = payload, hr_headers = extra_headers\<rparr>]\<rparr>)"

definition send_error :: "int \<Rightarrow> string \<Rightarrow> (string \<times> string) list \<Rightarrow> (handler, unit) sx" where
  "send_error status message extra_headers =
     send_json status (JDict [(''error'', JDict [(''status'', JInt status), (''message'', JStr message)])]) extra_headers"

definition client_key :: "http_request \<Rightarrow> string" where
  "client_key req = (case rq_client req of Some ip \<Rightarrow> ip | None \<Rightarrow> ''unknown'')"

text \<open>\<open>hmac.compare_digest\<close> on texts: only ASCII is accepted.\<close>

definition is_ascii :: "string \<Rightarrow> bool" where
  "is_ascii s \<longleftrightarrow> list_all (\<lambda>c. of_char c < (128::nat)) s"

definition compare_digest :: "string \<Rightarrow> string \<Rightarrow> bool result" where
  "compare_digest a b = (if is_ascii a \<and> is_ascii b then Inr (a = b) else Inl TypeError)"

definition authenticated :: "string option \<Rightarrow> http_request \<Rightarrow> bool result" where
  "authenticated token req =
     (case token of
        None \<Rightarrow> Inr True
      | Some tk \<Rightarrow>
          if tk = [] then Inr True
          else
            let header = (case rq_authorization req of Some v \<Rightarrow> v | None \<Rightarrow> []);
                scheme = takeWhile (\<lambda>c. c \<noteq> CHR '' '') header;
                presented = drop (Suc (length scheme)) header
            in if lower scheme \<noteq> ''bearer'' \<or> presented = [] then Inr False
               else compare_digest (strip presented) tk)"

definition content_length :: "http_request \<Rightarrow> int result" where
  "content_length req = (case rq_content_length req of None \<Rightarrow> Inr 0 | Some v \<Rightarrow> if v = [] then Inr 0 else py_int v)"

text \<open>The loop of \<open>_drain_body\<close>: chunks of at most 65536 bytes until enough is read or the stream ends.\<close>

function drain_chunks :: "int \<Rightarrow> bytes \<Rightarrow> bytes" where
  "drain_chunks remaining inp =
     (if remaining \<le> 0 then inp
      else
        let chunk = take (nat (min remaining 65536)) inp
        in if chunk = [] then inp
           else drain_chunks (remaining - int (length chunk)) (drop (length chunk) inp))"
  by auto
termination by (relation "measure (\<lambda>(remaining, inp). nat remaining)") auto

declare drain_chunks.simps [simp del]

definition drain_body :: "http_request \<Rightarrow> (handler, unit) sx" where
  "drain_body req =
     sx_bind (sx_lift (content_length req)) (\<lambda>length.
     sx_modify (\<lambda>h. h\<lparr>hn_in := drain_chunks (min length (MAX_BODY + 1)) (hn_in h)\<rparr>))"

text \<open>\<open>rfile.read(n)\<close>: at most \<open>n\<close> bytes, everything for -1, a \<open>ValueError\<close> below.\<close>

definition rfile_read :: "int \<Rightarrow> (handler, bytes) sx" where
  "rfile_read n h =
     (if n < -1 then (Inl ValueError, h)
      else if n = -1 then (Inr (hn_in h), h\<lparr>hn_in := []\<rparr>)
      else (Inr (take (nat n) (hn_in h)), h\<lparr>hn_in := drop (nat n) (hn_in h)\<rparr>))"

definition empty_object :: bytes where
  "empty_object = [0x7B, 0x7D]"

definition read_body :: "server_env \<Rightarrow> http_request \<Rightarrow> (handler, (string \<times> json) list) sx" where
  "read_body env req =
     sx_bind (sx_lift (content_length req)) (\<lambda>length.
     if MAX_BODY < length then sx_raise (ServiceError 413)
     else
       sx_bind (if length \<noteq> 0 then rfile_read length else sx_return empty_object) (\<lambda>raw.
       sx_bind (sx_lift (convert (\<lambda>e. e = JSONDecodeError) 400
                  (sd_json env (if raw = [] then empty_object else raw)))) (\<lambda>parsed.
       case parsed of JDict kvs \<Rightarrow> sx_return kvs | _ \<Rightarrow> sx_raise (ServiceError 400))))"

section \<open>Route patterns\<close>

text \<open>
  The patterns are anchored with \<open>^\<close> and \<open>$\<close>; \<open>$\<close> also matches before a final newline, \<open>.\<close> matches
  anything but a newline and \<open>[^/]\<close> anything but a slash. A greedy capture takes the longest text
  that leaves a match.
\<close>

fun strip_prefix :: "string \<Rightarrow> string \<Rightarrow> string option" where
  "strip_prefix [] s = Some s"
| "strip_prefix (p # ps) [] = None"
| "strip_prefix (p # ps) (c # cs) = (if p = c then strip_prefix ps cs else None)"

definition strip_suffix :: "string \<Rightarrow> string \<Rightarrow> string option" where
  "strip_suffix suf s = map_option rev (strip_prefix (rev suf) (rev s))"

definition line_ends :: "string \<Rightarrow> string list" where
  "line_ends s = s # (if s \<noteq> [] \<and> last s = CHR 0x0A then [butlast s] else [])"

definition dot_plus :: "string \<Rightarrow> bool" where
  "dot_plus s \<longleftrightarrow> s \<noteq> [] \<and> CHR 0x0A \<notin> set s"

definition segment :: "string \<Rightarrow> bool" where
  "segment s \<longleftrightarrow> s \<noteq> [] \<and> CHR ''/'' \<notin> set s"

definition capture :: "(string \<Rightarrow> bool) \<Rightarrow> string \<Rightarrow> string \<Rightarrow> string \<Rightarrow> string option" where
  "capture ok pre suf path =
     (case strip_prefix pre path of
        None \<Rightarrow> None
      | Some rest \<Rightarrow> find ok (List.map_filter (strip_suffix suf) (line_ends rest)))"

text \<open>\<open>(?P<sid>.+)/(?P<name>[^/]+)$\<close>: the name is what follows the last slash.\<close>

definition capture_pair :: "string \<Rightarrow> string \<Rightarrow> (string \<times> string) option" where
  "capture_pair pre path =
     (case strip_prefix pre path of
        None \<Rightarrow> None
      | Some rest \<Rightarrow>
          let name = rev (takeWhile (\<lambda>c. c \<noteq> CHR ''/'') (rev rest));
              sid = take (length rest - Suc (length name)) rest
          in if length name < length rest \<and> name \<noteq> [] \<and> dot_plus sid then Some (sid, name) else None)"

definition match_ingest :: "string \<Rightarrow> string option" where "match_ingest = capture dot_plus ''/sources/'' ''/ingest''"
definition match_push :: "string \<Rightarrow> string option" where "match_push = capture dot_plus ''/sources/'' ''/tools''"
definition match_catalog :: "string \<Rightarrow> (string \<times> string) option" where "match_catalog = capture_pair ''/catalog/''"
definition match_assertion :: "string \<Rightarrow> (string \<times> string) option" where "match_assertion = capture_pair ''/assertions/''"
definition match_drift :: "string \<Rightarrow> string option" where "match_drift = capture dot_plus ''/drift/'' ''''"
definition match_outcome :: "string \<Rightarrow> string option" where "match_outcome = capture segment ''/decisions/'' ''/outcome''"
definition match_grant_redeem :: "string \<Rightarrow> string option" where "match_grant_redeem = capture segment ''/grants/'' ''/redeem''"
definition match_grant_close :: "string \<Rightarrow> string option" where "match_grant_close = capture segment ''/grants/'' ''/close''"
definition match_grant :: "string \<Rightarrow> string option" where "match_grant = capture segment ''/grants/'' ''''"

section \<open>Answers of the service as JSON\<close>

definition grant_view_json :: "GrantView \<Rightarrow> json" where
  "grant_view_json g =
     JDict [(''grant_id'', JStr (gv_grant_id g)), (''decision_id'', JStr (gr_decision_id (gv_row g))),
       (''principal_id'', JStr (gr_principal_id (gv_row g))), (''source_id'', JStr (gr_source_id (gv_row g))),
       (''name'', JStr (gr_name (gv_row g))), (''args_hash'', JStr (gr_args_hash (gv_row g))),
       (''issued_at'', JStr (isoformat (gr_issued_at (gv_row g)))), (''expires_at'', JStr (isoformat (gr_expires_at (gv_row g)))),
       (''redeemed_at'', opt_str (gr_redeemed_at (gv_row g))), (''closed_at'', opt_str (gr_closed_at (gv_row g))),
       (''status'', JStr (gv_status g))]"

definition audit_entry_json :: "audit_entry \<Rightarrow> json" where
  "audit_entry_json e =
     JDict [(''seq'', JInt (ae_seq e)), (''kind'', JStr (ae_kind e)), (''body'', ae_body e),
       (''created_at'', JStr (ae_created_at e)), (''record_hash'', JStr (ae_record_hash e))]"

definition chain_as_dict :: "ChainVerification \<Rightarrow> json" where
  "chain_as_dict c =
     JDict [(''ok'', JBool (cv_ok c)), (''records'', JInt (int (cv_records c))),
       (''broken_at'', case cv_broken_at c of None \<Rightarrow> JNull | Some n \<Rightarrow> JInt n), (''detail'', JStr (cv_detail c))]"

section \<open>Routing\<close>

text \<open>A value for a parameter annotated \<open>str | None\<close>, or \<open>list[str] | None\<close> tested for truth.\<close>

fun typed_text :: "json \<Rightarrow> string option option" where
  "typed_text JNull = Some None"
| "typed_text (JStr s) = Some (Some s)"
| "typed_text _ = None"

definition typed_texts :: "json \<Rightarrow> string list option option" where
  "typed_texts v =
     (if \<not> truthy v then Some None
      else case v of JList vs \<Rightarrow> (if list_all is_str vs then Some (Some (map str_of vs)) else None) | _ \<Rightarrow> None)"

definition call_service :: "(service, response) sx \<Rightarrow> (handler, json) sx" where
  "call_service m = sx_bind (on_service m) (\<lambda>r. sx_return (JDict r))"

definition text_field :: "(string \<times> json) list \<Rightarrow> string \<Rightarrow> string \<Rightarrow> string" where
  "text_field b k dflt = py_str (get_or b k (JStr dflt))"

definition principal_field :: "(string \<times> json) list \<Rightarrow> json" where
  "principal_field b = or_else (get_or_null b ''principal'') (JDict [])"

definition query_limit :: "(string, string) dict \<Rightarrow> int result" where
  "query_limit params =
     bind_result (py_int (case dict_get params ''limit'' of Some v \<Rightarrow> v | None \<Rightarrow> ''100'')) (\<lambda>limit.
     Inr (max 1 (min limit 1000)))"

definition kind_ok :: "string \<Rightarrow> bool" where
  "kind_ok kind \<longleftrightarrow> kind \<noteq> [] \<and> list_all (\<lambda>c. (CHR ''a'' \<le> c \<and> c \<le> CHR ''z'') \<or> c = CHR ''_'') kind"

text \<open>\<open>float(b.get("timeout", 10.0))\<close>: only whether it raises matters here.\<close>

definition check_timeout :: "server_env \<Rightarrow> json \<Rightarrow> unit result" where
  "check_timeout env v =
     (case v of
        JInt n \<Rightarrow> (if \<bar>n\<bar> < 2 ^ 1024 - 2 ^ 970 then Inr () else Inl OverflowError)
      | JFloat f \<Rightarrow> Inr ()
      | JBool b \<Rightarrow> Inr ()
      | JStr s \<Rightarrow> bind_result (sd_float env s) (\<lambda>f. Inr ())
      | _ \<Rightarrow> Inl TypeError)"

definition no_route :: "(handler, json) sx" where
  "no_route = sx_raise (ServiceError 404)"

definition route_audit :: "(string, string) dict \<Rightarrow> (handler, json) sx" where
  "route_audit params =
     sx_bind (sx_lift (query_limit params)) (\<lambda>limit.
     let kind = dict_get params ''kind'' in
     if (case kind of None \<Rightarrow> False | Some k \<Rightarrow> \<not> kind_ok k) then sx_raise (ServiceError 400)
     else sx_bind (on_service (read_audit kind limit)) (\<lambda>es.
          sx_return (JDict [(''records'', JList (map audit_entry_json es))])))"

definition route_grants :: "(string, string) dict \<Rightarrow> (handler, json) sx" where
  "route_grants params =
     sx_bind (sx_lift (query_limit params)) (\<lambda>limit.
     sx_bind (on_service (list_grants (dict_get params ''state'') limit)) (\<lambda>gs.
     sx_return (JDict [(''grants'', JList (map grant_view_json gs))])))"

definition route_get :: "server_env \<Rightarrow> string \<Rightarrow> (string, string) dict \<Rightarrow> (handler, json) sx" where
  "route_get env path params =
     (if path = ''/health'' then call_service (health (sd_deps env))
      else if path = ''/sources'' then
        sx_bind (on_service list_sources) (\<lambda>xs. sx_return (JDict [(''sources'', JList xs)]))
      else if path = ''/catalog'' then
        sx_bind (on_service list_catalog) (\<lambda>xs. sx_return (JDict [(''tools'', JList (map JDict xs))]))
      else if path = ''/audit'' then route_audit params
      else if path = ''/audit/verify'' then
        sx_bind (on_service verify_audit) (\<lambda>c. sx_return (chain_as_dict c))
      else case match_catalog path of
        Some (sid, name) \<Rightarrow> call_service (get_tool sid name)
      | None \<Rightarrow>
     (case match_assertion path of
        Some (sid, name) \<Rightarrow> call_service (get_assertion sid name)
      | None \<Rightarrow>
     (case match_drift path of
        Some sid \<Rightarrow> call_service (drift sid)
      | None \<Rightarrow>
     (if path = ''/grants'' then route_grants params
      else case match_grant path of
        Some gid \<Rightarrow> sx_bind (on_service (get_grant gid)) (\<lambda>g. sx_return (grant_view_json g))
      | None \<Rightarrow> no_route))))"

definition post_source :: "server_env \<Rightarrow> (string \<times> json) list \<Rightarrow> (handler, json) sx" where
  "post_source env b =
     (let sid = text_field b ''source_id'' ''''; tier = JStr (text_field b ''tier'' ''untrusted'');
          transport = text_field b ''transport'' ''mcp''; declares = get_or_null b ''declares'';
          command = get_or_null b ''command''
      in call_service
           (case typed_texts declares of
              Some ds \<Rightarrow> register_source sid tier transport ds command
            | None \<Rightarrow> sd_untyped env (UntypedDeclares sid tier transport declares command)))"

definition post_authorize :: "server_env \<Rightarrow> (string \<times> json) list \<Rightarrow> (handler, json) sx" where
  "post_authorize env b =
     call_service (authorize (sd_deps env) (principal_field b) (text_field b ''source_id'' '''') (text_field b ''name'' '''')
       (get_or_null b ''context'') (dict_get b ''args'') (get_or_null b ''ttl_seconds''))"

definition post_ingest :: "server_env \<Rightarrow> string \<Rightarrow> (string \<times> json) list \<Rightarrow> (handler, json) sx" where
  "post_ingest env sid b =
     sx_bind (sx_lift (check_timeout env (get_or b ''timeout'' (JFloat (FFin False 1 1))))) (\<lambda>_.
     call_service (ingest (sd_deps env) (sd_say env) sid))"

definition post_outcome :: "server_env \<Rightarrow> string \<Rightarrow> (string \<times> json) list \<Rightarrow> (handler, json) sx" where
  "post_outcome env decision_id b =
     (let outcome = text_field b ''outcome'' ''''; detail = get_or_null b ''detail''; grant_id = get_or_null b ''grant_id''
      in call_service
           (case typed_text grant_id of
              Some gid \<Rightarrow> record_outcome decision_id outcome detail gid
            | None \<Rightarrow> sd_untyped env (UntypedGrantId decision_id outcome detail grant_id)))"

definition post_redemption :: "server_env \<Rightarrow> (string \<times> json) list \<Rightarrow> (handler, json) sx" where
  "post_redemption env b =
     (let grant = get_or_null b ''grant''; p = principal_field b; sid = text_field b ''source_id'' '''';
          name = text_field b ''name'' ''''; args = get_or_null b ''args''; at = get_or_null b ''at''
      in call_service
           (case typed_text at of
              Some t \<Rightarrow> redeem_governance_grant (sd_deps env) grant p sid name args t
            | None \<Rightarrow> sd_untyped env (UntypedAt grant p sid name args at)))"

definition route_post :: "server_env \<Rightarrow> http_request \<Rightarrow> string \<Rightarrow> (handler, json) sx" where
  "route_post env req path =
     (let with_body = sx_bind (read_body env req)
      in
      if path = ''/sources'' then with_body (post_source env)
      else if path = ''/authorize'' then with_body (post_authorize env)
      else case match_ingest path of
        Some sid \<Rightarrow> with_body (post_ingest env sid)
      | None \<Rightarrow>
     (case match_push path of
        Some sid \<Rightarrow> with_body (\<lambda>b. call_service (ingest_payload sid (get_or b ''tools'' (JList []))))
      | None \<Rightarrow>
     (if path = ''/assertions'' then
        with_body (\<lambda>b. call_service (assert_tool (text_field b ''source_id'' '''') (text_field b ''name'' '''')
          (or_else (get_or_null b ''descriptor'') (JDict []))))
      else case match_outcome path of
        Some decision_id \<Rightarrow> with_body (post_outcome env decision_id)
      | None \<Rightarrow>
     (case match_grant_redeem path of
        Some gid \<Rightarrow> with_body (\<lambda>b. call_service (redeem_grant gid (principal_field b) (get_or_null b ''args'')))
      | None \<Rightarrow>
     (if path = ''/redemptions'' then with_body (post_redemption env)
      else case match_grant_close path of
        Some gid \<Rightarrow> with_body (\<lambda>b. call_service (close_grant gid (text_field b ''reason'' ''explicit_close'')))
      | None \<Rightarrow> no_route)))))"

text \<open>\<open>path.rstrip("/") or "/"\<close>\<close>

definition route_path :: "string \<Rightarrow> string" where
  "route_path path = (if rstrip_slash path = [] then ''/'' else rstrip_slash path)"

definition route :: "server_env \<Rightarrow> http_request \<Rightarrow> string \<Rightarrow> (string, string) dict \<Rightarrow> (handler, json) sx" where
  "route env req path params =
     (if rq_method req = ''GET'' then route_get env (route_path path) params
      else if rq_method req = ''POST'' then route_post env req (route_path path)
      else no_route)"

section \<open>Dispatch\<close>

definition limiter_step :: "http_request \<Rightarrow> (handler, bool \<times> int) sx" where
  "limiter_step req h =
     (if \<not> limiter_enabled (hn_limiter h) then (Inr (True, 0), h)
      else case limiter_check (client_key req) (hn_clock h 0) (hn_limiter h) of
             (a, l) \<Rightarrow> (Inr a, h\<lparr>hn_limiter := l, hn_clock := \<lambda>n. hn_clock h (Suc n)\<rparr>))"

definition route_failed :: "server_env \<Rightarrow> exn \<Rightarrow> (handler, unit) sx" where
  "route_failed env e =
     (case e of
        ServiceError status \<Rightarrow>
          sx_bind (if status = 413 then sx_modify (\<lambda>h. h\<lparr>hn_close := True\<rparr>) else sx_return ()) (\<lambda>_.
          send_error status (sd_say env e) [])
      | _ \<Rightarrow> send_error 500 (''internal error: '' @ sd_say env e) [])"

definition serve_route :: "server_env \<Rightarrow> http_request \<Rightarrow> (handler, unit) sx" where
  "serve_route env req =
     sx_bind (sx_lift (sd_url env (rq_target req))) (\<lambda>(path, params) h.
       case route env req path params h of
         (Inl e, h') \<Rightarrow> route_failed env e h'
       | (Inr result, h') \<Rightarrow> send_json 200 result [] h')"

definition dispatch :: "server_env \<Rightarrow> http_request \<Rightarrow> (handler, unit) sx" where
  "dispatch env req =
     sx_bind (limiter_step req) (\<lambda>(allowed, retry).
     if \<not> allowed then
       sx_bind (drain_body req) (\<lambda>_.
       send_error 429 ''rate limit exceeded'' [(''Retry-After'', show_int (retry div 1000000 + 1))])
     else
       sx_bind (sx_get hn_token) (\<lambda>token.
       sx_bind (sx_lift (authenticated token req)) (\<lambda>ok.
       if \<not> ok then
         sx_bind (drain_body req) (\<lambda>_.
         send_error 401 ''missing or invalid bearer token'' [(''WWW-Authenticate'', ''Bearer'')])
       else serve_route env req)))"

text \<open>An exception that leaves \<open>_dispatch\<close> ends the connection without an answer.\<close>

definition handle_request :: "server_env \<Rightarrow> http_request \<Rightarrow> handler \<Rightarrow> handler" where
  "handle_request env req h = snd (sx_catch (dispatch env req) (\<lambda>e. sx_modify (\<lambda>h. h\<lparr>hn_close := True\<rparr>)) h)"

definition make_server :: "service \<Rightarrow> string \<Rightarrow> string option \<Rightarrow> int \<Rightarrow> (nat \<Rightarrow> int) \<Rightarrow> handler result" where
  "make_server service host token rate_limit_per_min clock =
     (if host \<notin> set LOOPBACK_HOSTS \<and> non_empty token = None then Inl ValueError
      else Inr \<lparr>hn_service = service, hn_limiter = new_limiter rate_limit_per_min 60000000, hn_clock = clock,
                hn_token = non_empty token, hn_in = [], hn_close = False, hn_out = []\<rparr>)"

end
