(* ===== verification/Server_Props.thy ===== *)
theory Server_Props
  imports Server
begin

text \<open>
  What the HTTP front promises: nothing reaches the service without the configured token, every
  answer is either what the service returned or an error object, the identifiers in a path are
  those the caller put there, and where the byte stream of a kept connection stays in step.
\<close>

section \<open>One request\<close>

definition rejected :: "http_request \<Rightarrow> handler \<Rightarrow> bool" where
  "rejected req h \<longleftrightarrow>
     (limiter_enabled (hn_limiter h) \<and> \<not> fst (fst (limiter_check (client_key req) (hn_clock h 0) (hn_limiter h)))) \<or>
     authenticated (hn_token h) req = Inr False"

text \<open>The handler after the limiter has recorded the request.\<close>

definition after_limit :: "http_request \<Rightarrow> handler \<Rightarrow> handler" where
  "after_limit req h = snd (limiter_step req h)"

lemma after_limit_fields [simp]:
  "hn_service (after_limit req h) = hn_service h" "hn_token (after_limit req h) = hn_token h" "hn_in (after_limit req h) = hn_in h"
  "hn_close (after_limit req h) = hn_close h" "hn_out (after_limit req h) = hn_out h"
  by (simp_all add: after_limit_def limiter_step_def split: prod.split)

definition error_answer :: "http_response \<Rightarrow> bool" where
  "error_answer r \<longleftrightarrow> (\<exists>message. hr_body r = JDict [(''error'', JDict [(''status'', JInt (hr_status r)), (''message'', JStr message)])])"

lemma send_error_run:
  "send_error status message extra h = (Inr (), h\<lparr>hn_out := hn_out h @ [\<lparr>hr_status = status,
     hr_body = JDict [(''error'', JDict [(''status'', JInt status), (''message'', JStr message)])], hr_headers = extra\<rparr>]\<rparr>)"
  by (simp add: send_error_def send_json_def sx_modify_def)

lemma drain_chunks_drop: "drain_chunks n inp = drop (nat n) inp"
proof (induction n inp rule: drain_chunks.induct)
  case (1 n inp)
  show ?case
  proof (cases "n \<le> 0 \<or> inp = []")
    case True
    then show ?thesis by (subst drain_chunks.simps) auto
  next
    case False
    let ?chunk = "take (nat (min n 65536)) inp"
    have ne: "?chunk \<noteq> []" using False by auto
    have "drain_chunks n inp = drain_chunks (n - int (length ?chunk)) (drop (length ?chunk) inp)"
      using False ne by (subst drain_chunks.simps) (simp add: Let_def)
    also have "\<dots> = drop (nat (n - int (length ?chunk))) (drop (length ?chunk) inp)"
      using 1 False ne by simp
    also have "\<dots> = drop (nat n) inp"
    proof (cases "length ?chunk = nat (min n 65536)")
      case True
      then show ?thesis using False by (simp add: nat_diff_distrib)
    next
      case False
      then have "length inp < nat (min n 65536)" by (simp split: if_splits)
      then show ?thesis by auto
    qed
    finally show ?thesis .
  qed
qed

lemma drain_body_run:
  "drain_body req h =
     (case content_length req of
        Inl e \<Rightarrow> (Inl e, h)
      | Inr n \<Rightarrow> (Inr (), h\<lparr>hn_in := drop (nat (min n (MAX_BODY + 1))) (hn_in h)\<rparr>))"
  by (simp add: drain_body_def sx_bind_def sx_lift_def sx_modify_def drain_chunks_drop split: sum.split)

lemma dispatch_admitted:
  assumes "\<not> rejected req h"
  shows "dispatch env req h =
    (case authenticated (hn_token h) req of Inl e \<Rightarrow> (Inl e, after_limit req h) | Inr ok \<Rightarrow> serve_route env req (after_limit req h))"
  using assms
  by (auto simp: dispatch_def sx_bind_def limiter_step_def rejected_def after_limit_def sx_get_def sx_lift_def
      split: prod.split sum.split)

lemma dispatch_rejected:
  assumes "rejected req h"
  obtains status message extra where "status \<in> {401, 429}"
    "dispatch env req h = sx_bind (drain_body req) (\<lambda>_. send_error status message extra) (after_limit req h)"
proof (cases "fst (limiter_step req h)")
  case (Inl e)
  then show ?thesis by (simp add: limiter_step_def split: if_splits prod.splits)
next
  case (Inr a)
  obtain allowed retry where a: "a = (allowed, retry)" by fastforce
  have run: "limiter_step req h = (Inr (allowed, retry), after_limit req h)"
    using Inr a by (simp add: after_limit_def prod_eq_iff)
  show ?thesis
  proof (cases allowed)
    case False
    then show ?thesis using that [of 429] run by (simp add: dispatch_def sx_bind_run [where m = "limiter_step req", OF run])
  next
    case True
    then have "authenticated (hn_token h) req = Inr False"
      using assms run by (auto simp: rejected_def limiter_step_def split: if_splits prod.splits)
    then have "sx_lift (authenticated (hn_token h) req) (after_limit req h) = (Inr False, after_limit req h)"
      by (simp add: sx_lift_def)
    note auth = sx_bind_run [where m = "sx_lift (authenticated (hn_token h) req)", OF this]
    show ?thesis
      using that [of 401] True
      by (simp add: dispatch_def sx_bind_run [where m = "limiter_step req", OF run] sx_bind_get auth)
  qed
qed

lemma handle_rejected:
  assumes "rejected req h"
  shows "hn_service (handle_request env req h) = hn_service h \<and> hn_token (handle_request env req h) = hn_token h \<and>
    (content_length req = Inl ValueError \<and> hn_close (handle_request env req h) \<and> hn_out (handle_request env req h) = hn_out h \<or>
     (\<exists>n r. content_length req = Inr n \<and> hn_out (handle_request env req h) = hn_out h @ [r] \<and> error_answer r \<and>
        hr_status r \<in> {401, 429} \<and> hn_close (handle_request env req h) = hn_close h \<and>
        hn_in (handle_request env req h) = drop (nat (min n (MAX_BODY + 1))) (hn_in h)))"
proof -
  obtain status message extra where st: "status \<in> {401, 429}"
    and run: "dispatch env req h = sx_bind (drain_body req) (\<lambda>_. send_error status message extra) (after_limit req h)"
    using dispatch_rejected [OF assms] by metis
  have "content_length req = Inl e \<Longrightarrow> e = ValueError" for e
    by (auto simp: content_length_def py_int_def Let_def split: option.splits if_splits)
  then show ?thesis
    using st run
    by (auto simp: handle_request_def sx_catch_def sx_bind_def drain_body_run send_error_run sx_modify_def error_answer_def
        split: sum.splits)
qed

lemma route_failed_run:
  "\<exists>r. route_failed env e h =
     (Inr (), h\<lparr>hn_close := hn_close h \<or> e = ServiceError 413, hn_out := hn_out h @ [r]\<rparr>) \<and> error_answer r \<and>
     hr_status r = (case e of ServiceError n \<Rightarrow> n | _ \<Rightarrow> 500)"
  by (cases e) (auto simp: route_failed_def sx_bind_def sx_return_def sx_modify_def send_error_run error_answer_def)

definition outcome_of :: "server_env \<Rightarrow> http_request \<Rightarrow> handler \<Rightarrow> (json result \<times> handler) option" where
  "outcome_of env req h =
     (case (authenticated (hn_token h) req, sd_url env (rq_target req)) of
        (Inr ok, Inr (path, params)) \<Rightarrow> Some (route env req path params (after_limit req h))
      | _ \<Rightarrow> None)"

lemma handle_admitted:
  assumes "\<not> rejected req h"
  shows "case outcome_of env req h of
      None \<Rightarrow> handle_request env req h = (after_limit req h)\<lparr>hn_close := True\<rparr>
    | Some (Inr result, h1) \<Rightarrow>
        handle_request env req h = h1\<lparr>hn_out := hn_out h1 @ [\<lparr>hr_status = 200, hr_body = result, hr_headers = []\<rparr>]\<rparr>
    | Some (Inl e, h1) \<Rightarrow>
        (\<exists>r. handle_request env req h = h1\<lparr>hn_close := hn_close h1 \<or> e = ServiceError 413, hn_out := hn_out h1 @ [r]\<rparr> \<and>
           error_answer r \<and> hr_status r = (case e of ServiceError n \<Rightarrow> n | _ \<Rightarrow> 500))"
proof (cases "authenticated (hn_token h) req")
  case (Inl e)
  then show ?thesis using dispatch_admitted [OF assms, of env]
    by (simp add: outcome_of_def handle_request_def sx_catch_def sx_modify_def)
next
  case auth: (Inr ok)
  note run = dispatch_admitted [OF assms, of env]
  show ?thesis
  proof (cases "sd_url env (rq_target req)")
    case (Inl e)
    then show ?thesis using auth run
      by (simp add: outcome_of_def handle_request_def sx_catch_def sx_modify_def serve_route_def sx_bind_def sx_lift_def)
  next
    case (Inr pq)
    obtain path params where pq: "pq = (path, params)" by fastforce
    obtain res h1 where route: "route env req path params (after_limit req h) = (res, h1)" by fastforce
    show ?thesis
    proof (cases res)
      case (Inl e)
      then show ?thesis using auth run Inr pq route route_failed_run [of env e h1]
        by (auto simp: outcome_of_def handle_request_def sx_catch_def serve_route_def sx_bind_def sx_lift_def)
    next
      case (Inr result)
      then show ?thesis using auth run \<open>sd_url env (rq_target req) = Inr pq\<close> pq route
        by (simp add: outcome_of_def handle_request_def sx_catch_def serve_route_def sx_bind_def sx_lift_def
            send_json_def sx_modify_def)
    qed
  qed
qed

section \<open>Sessions\<close>

text \<open>Requests of any number of connections, each with the bytes its client sends after the headers.\<close>

fun serve_all :: "server_env \<Rightarrow> (http_request \<times> bytes) list \<Rightarrow> handler \<Rightarrow> handler" where
  "serve_all env [] h = h"
| "serve_all env ((req, body) # reqs) h = serve_all env reqs (handle_request env req (h\<lparr>hn_in := body, hn_close := False\<rparr>))"

definition presents :: "string \<Rightarrow> http_request \<Rightarrow> bool" where
  "presents tk req \<longleftrightarrow> is_ascii tk \<and>
     (\<exists>scheme rest. rq_authorization req = Some (scheme @ '' '' @ rest) \<and> CHR '' '' \<notin> set scheme \<and>
        lower scheme = ''bearer'' \<and> strip rest = tk)"

lemma takeWhile_split: "x \<notin> set xs \<Longrightarrow> takeWhile (\<lambda>c. c \<noteq> x) (xs @ x # ys) = xs"
  by (induction xs) auto

lemma split_at: "x \<in> set xs \<Longrightarrow> xs = takeWhile (\<lambda>c. c \<noteq> x) xs @ x # drop (Suc (length (takeWhile (\<lambda>c. c \<noteq> x) xs))) xs"
  by (induction xs) auto

lemma takeWhile_all: "x \<notin> set xs \<Longrightarrow> takeWhile (\<lambda>c. c \<noteq> x) xs = xs"
  by (induction xs) auto

lemma authenticated_iff:
  assumes "tk \<noteq> []"
  shows "authenticated (Some tk) req = Inr True \<longleftrightarrow> presents tk req"
proof
  assume a: "authenticated (Some tk) req = Inr True"
  obtain v where v: "rq_authorization req = Some v"
    using a assms by (cases "rq_authorization req") (auto simp: authenticated_def Let_def lower_def)
  let ?s = "takeWhile (\<lambda>c. c \<noteq> CHR '' '') v" and ?p = "drop (Suc (length (takeWhile (\<lambda>c. c \<noteq> CHR '' '') v))) v"
  have c: "lower ?s = ''bearer''" "?p \<noteq> []" "compare_digest (strip ?p) tk = Inr True"
    using a assms v by (auto simp: authenticated_def Let_def split: if_splits)
  have "CHR '' '' \<in> set v"
  proof (rule ccontr)
    assume "CHR '' '' \<notin> set v"
    with c(2) show False by (simp add: takeWhile_all)
  qed
  then have "v = ?s @ '' '' @ ?p" using split_at by simp
  then have "rq_authorization req = Some (?s @ '' '' @ ?p)" unfolding v by (rule arg_cong)
  moreover have "CHR '' '' \<notin> set ?s" by (auto dest: set_takeWhileD)
  moreover have "is_ascii tk" "strip ?p = tk" using c(3) by (simp_all add: compare_digest_def split: if_splits)
  ultimately show "presents tk req" unfolding presents_def using c(1) by blast
next
  assume "presents tk req"
  then obtain scheme rest where p: "is_ascii tk" "rq_authorization req = Some (scheme @ '' '' @ rest)"
      "CHR '' '' \<notin> set scheme" "lower scheme = ''bearer''" "strip rest = tk"
    by (auto simp: presents_def)
  have "takeWhile (\<lambda>c. c \<noteq> CHR '' '') (scheme @ '' '' @ rest) = scheme" using takeWhile_split [OF p(3)] by simp
  moreover have "rest \<noteq> []" using p(5) assms by (auto simp: strip_def)
  ultimately show "authenticated (Some tk) req = Inr True"
    using p assms by (simp add: authenticated_def compare_digest_def)
qed

section \<open>What a route depends on\<close>

text \<open>Routes see the service and the bytes of the connection, and nothing else of the handler.\<close>

definition seen :: "handler \<Rightarrow> service \<times> bytes" where
  "seen h = (hn_service h, hn_in h)"

definition sees_only :: "(handler, 'a) sx \<Rightarrow> bool" where
  "sees_only m \<longleftrightarrow> (\<forall>h h'. seen h = seen h' \<longrightarrow> fst (m h) = fst (m h') \<and> seen (snd (m h)) = seen (snd (m h')))"

lemma sees_only_simple:
  "sees_only (sx_return a)" "sees_only (sx_raise e)" "sees_only (sx_lift r)" "sees_only (on_service m)" "sees_only (rfile_read n)"
  by (auto simp: sees_only_def sx_return_def sx_raise_def sx_lift_def on_service_def rfile_read_def seen_def split: prod.splits)

lemma sees_only_bind:
  assumes "sees_only m" "\<And>a. sees_only (f a)"
  shows "sees_only (sx_bind m f)"
  unfolding sees_only_def
proof (intro allI impI)
  fix h h' :: handler assume s: "seen h = seen h'"
  obtain r t r' t' where m: "m h = (r, t)" "m h' = (r', t')" by (metis surj_pair)
  have "r = r'" "seen t = seen t'" using assms(1) s m unfolding sees_only_def by (metis fst_conv snd_conv)+
  then show "fst (sx_bind m f h) = fst (sx_bind m f h') \<and> seen (snd (sx_bind m f h)) = seen (snd (sx_bind m f h'))"
  proof (cases r)
    case (Inr a)
    have "fst (f a t) = fst (f a t') \<and> seen (snd (f a t)) = seen (snd (f a t'))"
      using assms(2) [of a] \<open>seen t = seen t'\<close> unfolding sees_only_def by blast
    then show ?thesis using m Inr \<open>r = r'\<close> by (simp add: sx_bind_def)
  next
    case (Inl e)
    then show ?thesis using m \<open>r = r'\<close> \<open>seen t = seen t'\<close> by (simp add: sx_bind_def)
  qed
qed

lemma sees_only_branch:
  "sees_only m \<Longrightarrow> sees_only m' \<Longrightarrow> sees_only (if c then m else m')"
  "sees_only m \<Longrightarrow> (\<And>x. sees_only (f x)) \<Longrightarrow> sees_only (case opt of None \<Rightarrow> m | Some x \<Rightarrow> f x)"
  "(\<And>x y. sees_only (gg x y)) \<Longrightarrow> sees_only (case xy of (x, y) \<Rightarrow> gg x y)"
  by (auto split: option.split prod.split)

lemmas sees_only_rules = sees_only_simple sees_only_bind sees_only_branch

lemma sees_only_call: "sees_only (call_service m)"
  unfolding call_service_def by (intro sees_only_rules)

lemma sees_only_body: "sees_only (read_body env req)"
  unfolding read_body_def by (intro sees_only_rules) (simp add: sees_only_simple split: json.split)

lemma sees_only_get: "sees_only (route_get env path params)"
  unfolding route_get_def route_audit_def route_grants_def no_route_def Let_def
  by (intro sees_only_rules sees_only_call)

lemma sees_only_posts:
  "sees_only (post_source env b)" "sees_only (post_authorize env b)" "sees_only (post_ingest env sid b)"
  "sees_only (post_outcome env did b)" "sees_only (post_redemption env b)"
  unfolding post_source_def post_authorize_def post_ingest_def post_outcome_def post_redemption_def Let_def
  by (intro sees_only_rules sees_only_call)+

lemma sees_only_post: "sees_only (route_post env req path)"
  unfolding route_post_def no_route_def Let_def
  by (intro sees_only_rules sees_only_call sees_only_posts sees_only_body)

lemma sees_only_route: "sees_only (route env req path params)"
  by (simp add: route_def sees_only_get sees_only_post no_route_def sees_only_simple)

text \<open>A route changes nothing but the service and the unread bytes.\<close>

definition same_front :: "handler \<Rightarrow> handler \<Rightarrow> bool" where
  "same_front h h' \<longleftrightarrow> hn_limiter h' = hn_limiter h \<and> hn_clock h' = hn_clock h \<and> hn_token h' = hn_token h \<and>
     hn_close h' = hn_close h \<and> hn_out h' = hn_out h"

interpretation front: sx_relation same_front
  by unfold_locales (auto simp: same_front_def)

lemma within_branch:
  "within R m \<Longrightarrow> within R m' \<Longrightarrow> within R (if c then m else m')"
  "within R m \<Longrightarrow> (\<And>x. within R (f x)) \<Longrightarrow> within R (case opt of None \<Rightarrow> m | Some x \<Rightarrow> f x)"
  "(\<And>x y. within R (gg x y)) \<Longrightarrow> within R (case xy of (x, y) \<Rightarrow> gg x y)"
  by (auto split: option.split prod.split)

lemma front_steps: "within same_front (on_service m)" "within same_front (rfile_read n)"
  by (auto simp: within_def same_front_def on_service_def rfile_read_def split: prod.split)

lemmas front_rules = front.within_return front.within_raise front.within_lift front.within_bind within_branch front_steps

lemma front_call: "within same_front (call_service m)"
  unfolding call_service_def by (intro front_rules)

lemma front_body: "within same_front (read_body env req)"
  unfolding read_body_def by (intro front_rules) (simp add: front_rules split: json.split)

lemma front_get: "within same_front (route_get env path params)"
  unfolding route_get_def route_audit_def route_grants_def no_route_def Let_def
  by (intro front_rules front_call)

lemma front_posts:
  "within same_front (post_source env b)" "within same_front (post_authorize env b)" "within same_front (post_ingest env sid b)"
  "within same_front (post_outcome env did b)" "within same_front (post_redemption env b)"
  unfolding post_source_def post_authorize_def post_ingest_def post_outcome_def post_redemption_def Let_def
  by (intro front_rules front_call)+

lemma front_post: "within same_front (route_post env req path)"
  unfolding route_post_def no_route_def Let_def
  by (intro front_rules front_call front_posts front_body)

lemma front_route: "within same_front (route env req path params)"
  by (simp add: route_def front_get front_post no_route_def front_rules)

section \<open>Unauthenticated requests\<close>

lemma outcome_front: "outcome_of env req h = Some (r, h1) \<Longrightarrow> same_front (after_limit req h) h1"
  by (auto simp: outcome_of_def split: sum.splits prod.splits intro: withinD [OF front_route])

lemma handle_admitted_cases:
  assumes "\<not> rejected req h"
  obtains
    (raised) "outcome_of env req h = None" "handle_request env req h = (after_limit req h)\<lparr>hn_close := True\<rparr>"
  | (answered) result h1 where "outcome_of env req h = Some (Inr result, h1)" "same_front (after_limit req h) h1"
      "handle_request env req h = h1\<lparr>hn_out := hn_out h @ [\<lparr>hr_status = 200, hr_body = result, hr_headers = []\<rparr>]\<rparr>"
  | (failed) e h1 r where "outcome_of env req h = Some (Inl e, h1)" "same_front (after_limit req h) h1"
      "handle_request env req h = h1\<lparr>hn_close := hn_close h \<or> e = ServiceError 413, hn_out := hn_out h @ [r]\<rparr>"
      "error_answer r" "hr_status r = (case e of ServiceError n \<Rightarrow> n | _ \<Rightarrow> 500)"
proof (cases "outcome_of env req h")
  case None
  then show ?thesis using handle_admitted [OF assms, of env] raised by simp
next
  case (Some qh)
  obtain q h1 where qh: "qh = (q, h1)" by fastforce
  have f: "same_front (after_limit req h) h1" using outcome_front Some qh by blast
  show ?thesis
  proof (cases q)
    case (Inl e)
    then obtain r where "handle_request env req h = h1\<lparr>hn_close := hn_close h1 \<or> e = ServiceError 413, hn_out := hn_out h1 @ [r]\<rparr>"
        "error_answer r" "hr_status r = (case e of ServiceError n \<Rightarrow> n | _ \<Rightarrow> 500)"
      using handle_admitted [OF assms, of env] Some qh by auto
    then show ?thesis using failed [of e h1 r] Some qh Inl f by (simp add: same_front_def)
  next
    case (Inr result)
    then show ?thesis using handle_admitted [OF assms, of env] answered [of result h1] Some qh f by (simp add: same_front_def)
  qed
qed

lemma handle_keeps_token: "hn_token (handle_request env req h) = hn_token h"
proof (cases "rejected req h")
  case True
  then show ?thesis using handle_rejected by blast
next
  case False
  then show ?thesis by (cases rule: handle_admitted_cases [of req h env]) (auto simp: same_front_def)
qed

lemma off_limiter:
  assumes "\<not> limiter_enabled (hn_limiter h)"
  shows "after_limit req h = h" "hn_limiter (handle_request env req h) = hn_limiter h"
proof -
  show a: "after_limit req h = h" using assms by (simp add: after_limit_def limiter_step_def)
  show "hn_limiter (handle_request env req h) = hn_limiter h"
  proof (cases "rejected req h")
    case True
    obtain status message extra where
      "dispatch env req h = sx_bind (drain_body req) (\<lambda>_. send_error status message extra) (after_limit req h)"
      using dispatch_rejected [OF True] by metis
    then show ?thesis
      by (auto simp: a handle_request_def sx_catch_def sx_bind_def drain_body_run send_error_run sx_modify_def split: sum.splits)
  next
    case False
    then show ?thesis by (cases rule: handle_admitted_cases [of req h env]) (auto simp: a same_front_def)
  qed
qed

lemma handle_unpresented:
  assumes "hn_token h = Some tk" "tk \<noteq> []" "\<not> presents tk req"
  shows "hn_service (handle_request env req h) = hn_service h"
    and "\<exists>rs. hn_out (handle_request env req h) = hn_out h @ rs \<and> (\<forall>r \<in> set rs. error_answer r \<and> hr_status r \<in> {401, 429})"
proof -
  have auth: "authenticated (hn_token h) req \<noteq> Inr True" using assms authenticated_iff by simp
  have "hn_service (handle_request env req h) = hn_service h \<and>
    (\<exists>rs. hn_out (handle_request env req h) = hn_out h @ rs \<and> (\<forall>r \<in> set rs. error_answer r \<and> hr_status r \<in> {401, 429}))"
  proof (cases "rejected req h")
    case True
    then show ?thesis using handle_rejected [OF True, of env] by auto
  next
    case False
    then have "outcome_of env req h = None"
      using auth by (cases "authenticated (hn_token h) req") (auto simp: outcome_of_def rejected_def)
    then show ?thesis using handle_admitted [OF False, of env] by simp
  qed
  then show "hn_service (handle_request env req h) = hn_service h"
    "\<exists>rs. hn_out (handle_request env req h) = hn_out h @ rs \<and> (\<forall>r \<in> set rs. error_answer r \<and> hr_status r \<in> {401, 429})"
    by blast+
qed

lemma handle_sees:
  assumes "seen h = seen h'" "hn_token h = hn_token h'"
    "\<not> limiter_enabled (hn_limiter h)" "\<not> limiter_enabled (hn_limiter h')"
  shows "hn_service (handle_request env req h) = hn_service (handle_request env req h')"
proof (cases "rejected req h")
  case True
  then have "rejected req h'" using assms by (simp add: rejected_def)
  with True show ?thesis using handle_rejected assms(1) by (metis fst_conv seen_def)
next
  case False
  then have F': "\<not> rejected req h'" using assms by (simp add: rejected_def)
  have r: "fst (route env req path params h) = fst (route env req path params h')"
      "seen (snd (route env req path params h)) = seen (snd (route env req path params h'))" for path params
    using sees_only_route assms(1) unfolding sees_only_def by blast+
  show ?thesis
  proof (cases "outcome_of env req h")
    case None
    then have "outcome_of env req h' = None" using assms(2) by (auto simp: outcome_of_def split: sum.splits)
    then show ?thesis using None handle_admitted [OF False, of env] handle_admitted [OF F', of env] assms(1)
      by (simp add: seen_def)
  next
    case (Some rh)
    then obtain path params where o: "outcome_of env req h = Some (route env req path params h)"
        "outcome_of env req h' = Some (route env req path params h')"
      using assms(2) off_limiter(1) [OF assms(3)] off_limiter(1) [OF assms(4)]
      by (auto simp: outcome_of_def split: sum.splits prod.splits)
    obtain q h1 q' h1' where q: "route env req path params h = (q, h1)" "route env req path params h' = (q', h1')"
      by (metis surj_pair)
    have "q = q'" "hn_service h1 = hn_service h1'" using r [of path params] q by (simp_all add: seen_def)
    then show ?thesis
      using handle_admitted [OF False, of env] handle_admitted [OF F', of env] o q by (cases q') auto
  qed
qed

lemma serve_all_filter:
  assumes "hn_token h = Some tk" "tk \<noteq> []" "\<not> limiter_enabled (hn_limiter h)"
    "hn_token h' = Some tk" "\<not> limiter_enabled (hn_limiter h')" "hn_service h = hn_service h'"
  shows "hn_service (serve_all env reqs h) = hn_service (serve_all env (filter (\<lambda>(req, body). presents tk req) reqs) h')"
  using assms
proof (induction reqs arbitrary: h h')
  case (Cons rb reqs)
  obtain req body where rb: "rb = (req, body)" by fastforce
  let ?go = "\<lambda>h. handle_request env req (h\<lparr>hn_in := body, hn_close := False\<rparr>)"
  have k: "hn_token (?go h) = Some tk" "\<not> limiter_enabled (hn_limiter (?go h))"
    "hn_token (?go h') = Some tk" "\<not> limiter_enabled (hn_limiter (?go h'))"
    using Cons.prems by (simp_all add: handle_keeps_token off_limiter(2))
  show ?case
  proof (cases "presents tk req")
    case True
    have "hn_service (?go h) = hn_service (?go h')" by (rule handle_sees) (use Cons.prems in \<open>simp_all add: seen_def\<close>)
    from Cons.IH [OF k(1) Cons.prems(2) k(2) k(3) k(4) this] show ?thesis by (simp add: rb True)
  next
    case False
    have "hn_service (?go h) = hn_service h'" using handle_unpresented(1) [OF _ Cons.prems(2) False] Cons.prems by simp
    from Cons.IH [OF k(1) Cons.prems(2) k(2) Cons.prems(4,5) this] show ?thesis by (simp add: rb False)
  qed
qed simp

lemma serve_all_unpresented:
  assumes "hn_token h = Some tk" "tk \<noteq> []" "\<forall>(req, body) \<in> set reqs. \<not> presents tk req"
  shows "hn_service (serve_all env reqs h) = hn_service h \<and>
    (\<exists>rs. hn_out (serve_all env reqs h) = hn_out h @ rs \<and> (\<forall>r \<in> set rs. error_answer r \<and> hr_status r \<in> {401, 429}))"
  using assms
proof (induction reqs arbitrary: h)
  case (Cons rb reqs)
  obtain req body where rb: "rb = (req, body)" by fastforce
  let ?h = "h\<lparr>hn_in := body, hn_close := False\<rparr>"
  have p: "\<not> presents tk req" "hn_token ?h = Some tk" using Cons.prems rb by auto
  note one = handle_unpresented [OF p(2) Cons.prems(2) p(1), of env]
  have "hn_token (handle_request env req ?h) = Some tk" using p(2) by (simp add: handle_keeps_token)
  from Cons.IH [OF this Cons.prems(2)] show ?case
    using Cons.prems(3) one by (auto simp: rb)
qed simp


section \<open>Answers\<close>

lemma answer_origin:
  "\<exists>rs. hn_out (handle_request env req h) = hn_out h @ rs \<and> length rs \<le> 1 \<and>
     (rs = [] \<longrightarrow> hn_close (handle_request env req h) \<and> hn_service (handle_request env req h) = hn_service h) \<and>
     (\<forall>r \<in> set rs. error_answer r \<or>
        authenticated (hn_token h) req = Inr True \<and>
        (\<exists>path params result h1. sd_url env (rq_target req) = Inr (path, params) \<and>
           route env req path params (after_limit req h) = (Inr result, h1) \<and>
           hr_status r = 200 \<and> hr_body r = result \<and> hn_service (handle_request env req h) = hn_service h1))"
proof (cases "rejected req h")
  case True
  then show ?thesis using handle_rejected [OF True, of env] by force
next
  case False
  have ok: "authenticated (hn_token h) req = Inr True" if "outcome_of env req h \<noteq> None"
    using that False by (auto simp: outcome_of_def rejected_def split: sum.splits prod.splits)
  from False show ?thesis
  proof (cases rule: handle_admitted_cases [of req h env])
    case raised
    then show ?thesis by simp
  next
    case (answered result h1)
    then obtain path params where "sd_url env (rq_target req) = Inr (path, params)"
        "route env req path params (after_limit req h) = (Inr result, h1)"
      by (auto simp: outcome_of_def split: sum.splits prod.splits)
    then show ?thesis using answered ok by auto
  next
    case failed
    then show ?thesis by auto
  qed
qed

text \<open>C23: each request gets at most one answer. An answer that is not an error object is the value the
  route returned, with status 200, after the token was accepted: a crash, a refusal or a rejected
  request never looks like an allow. Without an answer the connection is closed and the service
  untouched.
\<close>

theorem server_answers_honestly:
  "\<exists>rs. hn_out (handle_request env req h) = hn_out h @ rs \<and> length rs \<le> 1 \<and>
     (rs = [] \<longrightarrow> hn_close (handle_request env req h) \<and> hn_service (handle_request env req h) = hn_service h) \<and>
     (\<forall>r \<in> set rs. error_answer r \<or>
        authenticated (hn_token h) req = Inr True \<and>
        (\<exists>path params result h1. sd_url env (rq_target req) = Inr (path, params) \<and>
           route env req path params (after_limit req h) = (Inr result, h1) \<and>
           hr_status r = 200 \<and> hr_body r = result \<and> hn_service (handle_request env req h) = hn_service h1))"
  by (rule answer_origin)

section \<open>Framing of kept connections\<close>

text \<open>The routes that read the request body.\<close>

definition body_route :: "string \<Rightarrow> bool" where
  "body_route path \<longleftrightarrow>
     path = ''/sources'' \<or> path = ''/authorize'' \<or> match_ingest path \<noteq> None \<or> match_push path \<noteq> None \<or>
     path = ''/assertions'' \<or> match_outcome path \<noteq> None \<or> match_grant_redeem path \<noteq> None \<or>
     path = ''/redemptions'' \<or> match_grant_close path \<noteq> None"

definition same_in :: "handler \<Rightarrow> handler \<Rightarrow> bool" where
  "same_in h h' \<longleftrightarrow> hn_in h' = hn_in h"

interpretation unread: sx_relation same_in
  by unfold_locales (auto simp: same_in_def)

lemma unread_service: "within same_in (on_service m)"
  by (auto simp: within_def same_in_def on_service_def split: prod.split)

lemmas unread_rules = unread.within_return unread.within_raise unread.within_lift unread.within_bind within_branch unread_service

lemma unread_call: "within same_in (call_service m)"
  unfolding call_service_def by (intro unread_rules)

lemma unread_get: "within same_in (route_get env path params)"
  unfolding route_get_def route_audit_def route_grants_def no_route_def Let_def
  by (intro unread_rules unread_call)

lemma unread_posts:
  "within same_in (post_source env b)" "within same_in (post_authorize env b)" "within same_in (post_ingest env sid b)"
  "within same_in (post_outcome env did b)" "within same_in (post_redemption env b)"
  unfolding post_source_def post_authorize_def post_ingest_def post_outcome_def post_redemption_def Let_def
  by (intro unread_rules unread_call)+

definition reads_if :: "bool \<Rightarrow> server_env \<Rightarrow> http_request \<Rightarrow> (handler, json) sx \<Rightarrow> bool" where
  "reads_if P env req m \<longleftrightarrow>
     (if P then \<exists>k. m = sx_bind (read_body env req) k \<and> (\<forall>b. within same_in (k b)) else m = no_route)"

lemma reads_if_rules:
  "reads_if False env req no_route"
  "(\<And>b. within same_in (k b)) \<Longrightarrow> reads_if P env req m \<Longrightarrow>
     reads_if (c \<or> P) env req (if c then sx_bind (read_body env req) k else m)"
  "(\<And>x b. within same_in (kk x b)) \<Longrightarrow> reads_if P env req m \<Longrightarrow>
     reads_if (opt \<noteq> None \<or> P) env req (case opt of Some x \<Rightarrow> sx_bind (read_body env req) (kk x) | None \<Rightarrow> m)"
  by (auto simp: reads_if_def split: option.split)

lemma route_post_reads: "reads_if (body_route path) env req (route_post env req path)"
proof -
  have "reads_if (body_route path \<or> False) env req (route_post env req path)"
    unfolding body_route_def route_post_def Let_def disj_assoc
    by (intro reads_if_rules unread_call unread_posts)
  then show ?thesis by simp
qed

lemma read_body_stream:
  assumes "content_length req = Inr (int n)" "read_body env req h = (r, h')"
  shows "(r = Inl (ServiceError 413) \<and> MAX_BODY < int n \<and> h' = h) \<or> (int n \<le> MAX_BODY \<and> hn_in h' = drop n (hn_in h))"
proof (cases "MAX_BODY < int n")
  case True
  then show ?thesis using assms by (simp add: read_body_def sx_simps sx_bind_def sx_lift_def sx_raise_def)
next
  case False
  obtain q h1 where read: "(if int n \<noteq> 0 then rfile_read (int n) else sx_return empty_object) h = (q, h1)" by fastforce
  have h1: "hn_in h1 = drop n (hn_in h)" "\<exists>raw. q = Inr raw"
    using read by (auto simp: rfile_read_def sx_return_def split: if_splits)
  then obtain raw where q: "q = Inr raw" by blast
  let ?rest = "\<lambda>raw. sx_bind (sx_lift (convert (\<lambda>e. e = JSONDecodeError) 400 (sd_json env (if raw = [] then empty_object else raw))))
    (\<lambda>parsed. case parsed of JDict kvs \<Rightarrow> sx_return kvs | _ \<Rightarrow> sx_raise (ServiceError 400)) :: (handler, (string \<times> json) list) sx"
  have w: "within same_in (?rest raw)"
    by (intro unread_rules) (simp add: unread_rules split: json.split)
  have "read_body env req h = ?rest raw h1"
    using assms(1) False read q by (simp add: read_body_def sx_bind_def sx_lift_def)
  then have "?rest raw h1 = (r, h')" using assms(2) by (rule trans [OF sym])
  from withinD [OF w this] show ?thesis using h1 False by (simp add: same_in_def)
qed

lemma unrouted:
  assumes "rq_method req = ''POST''" "\<not> body_route (route_path path)"
  shows "route env req path params = no_route"
  using route_post_reads [of "route_path path" env req] assms by (simp add: route_def reads_if_def)

lemma unread_route:
  assumes "\<not> (rq_method req = ''POST'' \<and> body_route (route_path path))"
  shows "within same_in (route env req path params)"
  using assms route_post_reads [of "route_path path" env req]
  by (auto simp: route_def unread_get reads_if_def no_route_def unread.within_raise)

lemma body_route_stream:
  assumes "rq_method req = ''POST''" "body_route (route_path path)" "content_length req = Inr (int n)"
    "route env req path params h = (r, h')"
  shows "r = Inl (ServiceError 413) \<or> hn_in h' = drop n (hn_in h)"
proof -
  obtain k where k: "route env req path params = sx_bind (read_body env req) k" "\<And>b. within same_in (k b)"
    using route_post_reads [of "route_path path" env req] assms(1,2) by (auto simp: route_def reads_if_def)
  obtain q h1 where body: "read_body env req h = (q, h1)" by fastforce
  note stream = read_body_stream [OF assms(3) body]
  show ?thesis
  proof (cases q)
    case (Inl e)
    then show ?thesis using stream assms(4) body k(1) by (auto simp: sx_bind_def)
  next
    case (Inr b)
    then have "same_in h1 h'" using withinD [OF k(2)] assms(4) body k(1) by (simp add: sx_bind_def)
    then show ?thesis using stream Inr by (auto simp: same_in_def)
  qed
qed

lemma rejected_framing:
  assumes "rejected req h" "content_length req = Inr (int n)" "n \<le> length (hn_in h)"
  shows "hn_close (handle_request env req h) = hn_close h \<and>
    (hn_in (handle_request env req h) = drop n (hn_in h) \<longleftrightarrow> int n \<le> MAX_BODY + 1)"
proof -
  have "hn_in (handle_request env req h) = drop (nat (min (int n) (MAX_BODY + 1))) (hn_in h)"
      "hn_close (handle_request env req h) = hn_close h"
    using handle_rejected [OF assms(1), of env] assms(2) by auto
  moreover have "drop (nat (min (int n) (MAX_BODY + 1))) (hn_in h) = drop n (hn_in h) \<longleftrightarrow> int n \<le> MAX_BODY + 1"
  proof (cases "int n \<le> MAX_BODY + 1")
    case False
    then have "nat (MAX_BODY + 1) < n" by (simp add: MAX_BODY_def)
    then have "length (drop (nat (MAX_BODY + 1)) (hn_in h)) \<noteq> length (drop n (hn_in h))" using assms(3) by simp
    then have "drop (nat (MAX_BODY + 1)) (hn_in h) \<noteq> drop n (hn_in h)" by metis
    then show ?thesis using False by simp
  qed simp
  ultimately show ?thesis by simp
qed

lemma admitted_framing:
  assumes "\<not> rejected req h" "outcome_of env req h = Some (route env req path params (after_limit req h))"
    "content_length req = Inr (int n)" "rq_method req = ''POST''" "body_route (route_path path)"
  shows "hn_close (handle_request env req h) \<or> hn_in (handle_request env req h) = drop n (hn_in h)"
  using assms(1)
proof (cases rule: handle_admitted_cases [of req h env])
  case (answered result h1)
  then show ?thesis using body_route_stream [OF assms(4,5,3), of env params "after_limit req h"] assms(2) by auto
next
  case (failed e h1 r)
  then show ?thesis using body_route_stream [OF assms(4,5,3), of env params "after_limit req h"] assms(2) by auto
qed (use assms(2) in simp)

lemma unread_framing:
  assumes "\<not> rejected req h" "outcome_of env req h = Some (route env req path params (after_limit req h))"
    "\<not> (rq_method req = ''POST'' \<and> body_route (route_path path))"
  shows "hn_in (handle_request env req h) = hn_in h"
proof -
  have in1: "route env req path params (after_limit req h) = (q, h1) \<Longrightarrow> hn_in h1 = hn_in h" for q h1
    using withinD [OF unread_route [OF assms(3)]] by (fastforce simp: same_in_def)
  from assms(1) show ?thesis
  proof (cases rule: handle_admitted_cases [of req h env])
    case (answered result h1)
    then show ?thesis using in1 assms(2) by auto
  next
    case (failed e h1 r)
    then show ?thesis using in1 assms(2) by auto
  qed (use assms(2) in simp)
qed

lemma unrouted_answer:
  assumes "\<not> rejected req h" "outcome_of env req h = Some (route env req path params (after_limit req h))"
    "rq_method req = ''POST''" "\<not> body_route (route_path path)"
  shows "hn_close (handle_request env req h) = hn_close h \<and> hr_status (last (hn_out (handle_request env req h))) = 404"
  using assms(1)
proof (cases rule: handle_admitted_cases [of req h env])
  case (failed e h1 r)
  then show ?thesis using unrouted [OF assms(3,4)] assms(2) by (auto simp: no_route_def sx_raise_def)
qed (use unrouted [OF assms(3,4)] assms(2) in \<open>auto simp: no_route_def sx_raise_def\<close>)

text \<open>C24: after a request that announces \<open>n\<close> body bytes, all of which have arrived: a route that reads
  the body leaves the connection closed or exactly behind the body. A rejected request drains at
  most one byte more than the body limit and keeps the connection, so it is behind the body exactly
  when the body is not longer than that. Every other request reads nothing: an unrouted POST is
  answered 404 on an open connection whose next bytes are the unread body.
\<close>

theorem framing_exact:
  assumes "content_length req = Inr (int n)" "n \<le> length (hn_in h)" "\<not> hn_close h"
    "sd_url env (rq_target req) = Inr (path, params)" "authenticated (hn_token h) req = Inr ok"
  shows "if rejected req h then
      \<not> hn_close (handle_request env req h) \<and>
      (hn_in (handle_request env req h) = drop n (hn_in h) \<longleftrightarrow> int n \<le> MAX_BODY + 1)
    else if rq_method req = ''POST'' \<and> body_route (route_path path) then
      hn_close (handle_request env req h) \<or> hn_in (handle_request env req h) = drop n (hn_in h)
    else
      hn_in (handle_request env req h) = hn_in h \<and>
      (rq_method req = ''POST'' \<longrightarrow>
         \<not> hn_close (handle_request env req h) \<and> hr_status (last (hn_out (handle_request env req h))) = 404)"
proof -
  have out: "outcome_of env req h = Some (route env req path params (after_limit req h))"
    using assms(4,5) by (simp add: outcome_of_def)
  show ?thesis
    using assms(3) rejected_framing [OF _ assms(1,2), of env] admitted_framing [OF _ out assms(1)]
      unread_framing [OF _ out] unrouted_answer [OF _ out] by auto
qed

section \<open>Paths\<close>

lemma strip_prefix_append [simp]: "strip_prefix p (p @ s) = Some s"
  by (induction p) auto

lemma strip_suffix_append [simp]: "strip_suffix p (s @ p) = Some s"
  by (simp add: strip_suffix_def)

lemma strip_suffix_Nil [simp]: "strip_suffix [] s = Some s"
  by (simp add: strip_suffix_def)

lemma capture_hit: "ok x \<Longrightarrow> capture ok pre suf (pre @ x @ suf) = Some x"
  by (simp add: capture_def line_ends_def map_filter_simps)

lemma strip_prefix_Some: "strip_prefix p s = Some r \<longleftrightarrow> s = p @ r"
  by (induction p s rule: strip_prefix.induct) auto

lemma strip_suffix_Some: "strip_suffix p s = Some r \<longleftrightarrow> s = r @ p"
  by (auto simp: strip_suffix_def strip_prefix_Some) (metis rev_append rev_rev_ident)+

lemma capture_pair_hit:
  assumes "dot_plus sid" "segment name"
  shows "capture_pair pre (pre @ sid @ ''/'' @ name) = Some (sid, name)"
proof -
  have "takeWhile (\<lambda>c. c \<noteq> CHR ''/'') (rev (sid @ ''/'' @ name)) = rev name"
    using takeWhile_split [of "CHR ''/''" "rev name" "rev sid"] assms(2) by (simp add: segment_def)
  then show ?thesis using assms by (simp add: capture_pair_def Let_def dot_plus_def segment_def)
qed

lemma route_path_id: "path \<noteq> [] \<Longrightarrow> last path \<noteq> CHR ''/'' \<Longrightarrow> route_path path = path"
  by (cases path rule: rev_cases) (auto simp: route_path_def rstrip_slash_def)

lemma last_segment: "segment name \<Longrightarrow> last (pre @ name) \<noteq> CHR ''/'' \<and> pre @ name \<noteq> []"
  by (auto simp: segment_def last_append) (metis last_in_set)

lemma capture_miss: "strip_prefix pre path = None \<Longrightarrow> capture ok pre suf path = None"
  by (simp add: capture_def)

lemma capture_other_suffix:
  assumes "\<And>r. path \<noteq> r @ suf" "\<And>r. path \<noteq> r @ suf @ [CHR 0x0A]"
  shows "capture ok pre suf path = None"
proof -
  have "strip_suffix suf rest = None" if "path = pre @ rest" for rest
    using assms(1) [of "pre @ _"] that by (auto simp: strip_suffix_Some simp flip: not_Some_eq)
  moreover have "strip_suffix suf (butlast rest) = None" if "path = pre @ rest" "rest \<noteq> []" "last rest = CHR 0x0A" for rest
  proof -
    have "rest = butlast rest @ [CHR 0x0A]" using that by (metis append_butlast_last_id)
    then show ?thesis using assms(2) [of "pre @ _"] that by (auto simp: strip_suffix_Some simp flip: not_Some_eq)
  qed
  ultimately show ?thesis
    by (auto simp: capture_def line_ends_def map_filter_simps strip_prefix_Some split: option.split)
qed

lemma route_plain:
  assumes "path \<noteq> []" "last path \<noteq> CHR ''/''"
  shows "rq_method req = ''GET'' \<Longrightarrow> route env req path params = route_get env path params"
    and "rq_method req = ''POST'' \<Longrightarrow> route env req path params = route_post env req path"
  using route_path_id [OF assms] by (simp_all add: route_def)

lemma get_routes:
  assumes "dot_plus sid" "segment name"
  shows "route_get env (''/catalog/'' @ sid @ ''/'' @ name) params = call_service (get_tool sid name)"
    and "route_get env (''/assertions/'' @ sid @ ''/'' @ name) params = call_service (get_assertion sid name)"
    and "route_get env (''/drift/'' @ sid) params = call_service (drift sid)"
    and "route_get env (''/grants/'' @ name) params = sx_bind (on_service (get_grant name)) (\<lambda>g. sx_return (grant_view_json g))"
  using capture_pair_hit [OF assms, of "''/catalog/''"] capture_pair_hit [OF assms, of "''/assertions/''"]
    capture_hit [of dot_plus sid "''/drift/''" "[]"] capture_hit [of segment name "''/grants/''" "[]"] assms
  by (simp_all add: route_get_def match_catalog_def match_assertion_def match_drift_def match_grant_def capture_pair_def capture_miss)

lemma push_not_ingest: "match_ingest (''/sources/'' @ sid @ ''/tools'') = None"
  unfolding match_ingest_def
proof (rule capture_other_suffix)
  fix r
  show "''/sources/'' @ sid @ ''/tools'' \<noteq> r @ ''/ingest''" by (auto dest: arg_cong [where f = last])
  show "''/sources/'' @ sid @ ''/tools'' \<noteq> r @ ''/ingest'' @ [CHR 0x0A]" by (auto dest: arg_cong [where f = last])
qed

lemma post_routes:
  assumes "dot_plus sid" "segment gid"
  shows "route_post env req (''/sources/'' @ sid @ ''/ingest'') = sx_bind (read_body env req) (post_ingest env sid)"
    and "route_post env req (''/sources/'' @ sid @ ''/tools'') =
      sx_bind (read_body env req) (\<lambda>b. call_service (ingest_payload sid (get_or b ''tools'' (JList []))))"
    and "route_post env req (''/decisions/'' @ gid @ ''/outcome'') = sx_bind (read_body env req) (post_outcome env gid)"
    and "route_post env req (''/grants/'' @ gid @ ''/redeem'') =
      sx_bind (read_body env req) (\<lambda>b. call_service (redeem_grant gid (principal_field b) (get_or_null b ''args'')))"
    and "route_post env req (''/grants/'' @ gid @ ''/close'') =
      sx_bind (read_body env req) (\<lambda>b. call_service (close_grant gid (text_field b ''reason'' ''explicit_close'')))"
proof -
  note hits = capture_hit [of dot_plus sid "''/sources/''" "''/ingest''", folded match_ingest_def, OF assms(1)]
    capture_hit [of dot_plus sid "''/sources/''" "''/tools''", folded match_push_def, OF assms(1)]
    capture_hit [of segment gid "''/decisions/''" "''/outcome''", folded match_outcome_def, OF assms(2)]
    capture_hit [of segment gid "''/grants/''" "''/redeem''", folded match_grant_redeem_def, OF assms(2)]
    capture_hit [of segment gid "''/grants/''" "''/close''", folded match_grant_close_def, OF assms(2)]
  note miss = match_ingest_def match_push_def match_outcome_def capture_miss
  show "route_post env req (''/sources/'' @ sid @ ''/ingest'') = sx_bind (read_body env req) (post_ingest env sid)"
    using hits(1) by (simp add: route_post_def)
  show "route_post env req (''/sources/'' @ sid @ ''/tools'') =
      sx_bind (read_body env req) (\<lambda>b. call_service (ingest_payload sid (get_or b ''tools'' (JList []))))"
    using hits(2) push_not_ingest [of sid] by (simp add: route_post_def)
  show "route_post env req (''/decisions/'' @ gid @ ''/outcome'') = sx_bind (read_body env req) (post_outcome env gid)"
    using hits(3) by (simp add: route_post_def match_ingest_def match_push_def capture_miss)
  show "route_post env req (''/grants/'' @ gid @ ''/redeem'') =
      sx_bind (read_body env req) (\<lambda>b. call_service (redeem_grant gid (principal_field b) (get_or_null b ''args'')))"
    using hits(4) by (simp add: route_post_def miss)
  have "match_grant_redeem (''/grants/'' @ gid @ ''/close'') = None"
    unfolding match_grant_redeem_def
  proof (rule capture_other_suffix)
    fix r
    show "''/grants/'' @ gid @ ''/close'' \<noteq> r @ ''/redeem''" by (auto dest: arg_cong [where f = last])
    show "''/grants/'' @ gid @ ''/close'' \<noteq> r @ ''/redeem'' @ [CHR 0x0A]" by (auto dest: arg_cong [where f = last])
  qed
  then show "route_post env req (''/grants/'' @ gid @ ''/close'') =
      sx_bind (read_body env req) (\<lambda>b. call_service (close_grant gid (text_field b ''reason'' ''explicit_close'')))"
    using hits(5) by (simp add: route_post_def miss)
qed

text \<open>The paths a client builds reach the operation with the same identifiers. A source id may
  contain slashes, but no newline and no slash at its end; tool names, grant ids and decision ids
  contain no slash.
\<close>

theorem paths_roundtrip:
  assumes "dot_plus sid" "last sid \<noteq> CHR ''/''" "segment name" "rq_method get = ''GET''" "rq_method post = ''POST''"
  shows "route env get (''/catalog/'' @ sid @ ''/'' @ name) params = call_service (get_tool sid name) \<and>
    route env get (''/assertions/'' @ sid @ ''/'' @ name) params = call_service (get_assertion sid name) \<and>
    route env get (''/drift/'' @ sid) params = call_service (drift sid) \<and>
    route env get (''/grants/'' @ name) params = sx_bind (on_service (get_grant name)) (\<lambda>g. sx_return (grant_view_json g)) \<and>
    route env post (''/sources/'' @ sid @ ''/ingest'') params = sx_bind (read_body env post) (post_ingest env sid) \<and>
    route env post (''/sources/'' @ sid @ ''/tools'') params =
      sx_bind (read_body env post) (\<lambda>b. call_service (ingest_payload sid (get_or b ''tools'' (JList [])))) \<and>
    route env post (''/decisions/'' @ name @ ''/outcome'') params = sx_bind (read_body env post) (post_outcome env name) \<and>
    route env post (''/grants/'' @ name @ ''/redeem'') params =
      sx_bind (read_body env post) (\<lambda>b. call_service (redeem_grant name (principal_field b) (get_or_null b ''args''))) \<and>
    route env post (''/grants/'' @ name @ ''/close'') params =
      sx_bind (read_body env post) (\<lambda>b. call_service (close_grant name (text_field b ''reason'' ''explicit_close'')))"
proof -
  have ne: "sid \<noteq> []" "name \<noteq> []" "last name \<noteq> CHR ''/''"
    using assms(1) last_segment [OF assms(3), of "[]"] by (auto simp: dot_plus_def)
  have gets: "route env get (pre @ suf) params = route_get env (pre @ suf) params" if "suf \<noteq> []" "last suf \<noteq> CHR ''/''" for pre suf
    using route_plain(1) [of "pre @ suf" get] that assms(4) by simp
  have posts: "route env post (pre @ suf) params = route_post env post (pre @ suf)" if "suf \<noteq> []" "last suf \<noteq> CHR ''/''" for pre suf
    using route_plain(2) [of "pre @ suf" post] that assms(5) by simp
  show ?thesis
    using gets [OF ne(2,3), of "''/catalog/'' @ sid @ ''/''"] gets [OF ne(2,3), of "''/assertions/'' @ sid @ ''/''"]
      gets [OF ne(1) assms(2), of "''/drift/''"] gets [OF ne(2,3), of "''/grants/''"] get_routes [OF assms(1,3), of env params]
      posts [of "''/ingest''" "''/sources/'' @ sid"] posts [of "''/tools''" "''/sources/'' @ sid"]
      posts [of "''/outcome''" "''/decisions/'' @ name"] posts [of "''/redeem''" "''/grants/'' @ name"]
      posts [of "''/close''" "''/grants/'' @ name"] post_routes [OF assms(1,3), of env post]
    by simp
qed

section \<open>The service behind the server\<close>

text \<open>As long as values outside the annotations do no harm, HTTP requests move the service only as its handlers do.\<close>

definition serves :: "handler \<Rightarrow> handler \<Rightarrow> bool" where
  "serves h h' \<longleftrightarrow> evolves (hn_service h) (hn_service h')"

interpretation serves: sx_relation serves
  by unfold_locales (auto simp: serves_def intro: evolves.refl evolves.trans)

lemma serves_on_service: "within evolves m \<Longrightarrow> within serves (on_service m)"
  by (auto simp: within_def serves_def on_service_def split: prod.split) (metis snd_conv)

lemma serves_read: "within serves (rfile_read n)"
  by (auto simp: within_def serves_def rfile_read_def evolves.refl)

lemmas serves_rules = serves.within_return serves.within_raise serves.within_lift serves.within_bind within_branch
  serves_on_service serves_read

lemma serves_call: "within evolves m \<Longrightarrow> within serves (call_service m)"
  unfolding call_service_def by (intro serves_rules)

lemma serves_body: "within serves (read_body env req)"
  unfolding read_body_def by (intro serves_rules) (simp add: serves_rules split: json.split)

lemma serves_get: "within serves (route_get env path params)"
  unfolding route_get_def route_audit_def route_grants_def no_route_def Let_def
  by (intro serves_rules serves_call handler_rules)

lemma serves_posts:
  assumes "\<And>c. within evolves (sd_untyped env c)"
  shows "within serves (post_source env b)" "within serves (post_authorize env b)" "within serves (post_ingest env sid b)"
    "within serves (post_outcome env did b)" "within serves (post_redemption env b)"
  unfolding post_source_def post_authorize_def post_ingest_def post_outcome_def post_redemption_def Let_def
  by (intro serves_rules serves_call handler_rules assms)+

lemma serves_route:
  assumes "\<And>c. within evolves (sd_untyped env c)"
  shows "within serves (route env req path params)"
proof -
  have "within serves (route_post env req path')" for path'
    unfolding route_post_def no_route_def Let_def
    by (intro serves_rules serves_call serves_posts [OF assms] serves_body handler_rules)
  then show ?thesis by (simp add: route_def serves_get no_route_def serves_rules)
qed

lemma handle_evolves:
  assumes "\<And>c. within evolves (sd_untyped env c)"
  shows "evolves (hn_service h) (hn_service (handle_request env req h))"
proof (cases "rejected req h")
  case True
  then show ?thesis using handle_rejected [OF True, of env] by (simp add: evolves.refl)
next
  case False
  have out: "outcome_of env req h = Some (q, h1) \<Longrightarrow> evolves (hn_service h) (hn_service h1)" for q h1
    using withinD [OF serves_route [OF assms]] by (fastforce simp: outcome_of_def serves_def split: sum.splits prod.splits)
  from False show ?thesis
    by (cases rule: handle_admitted_cases [of req h env]) (auto simp: evolves.refl intro: out)
qed

section \<open>Witnesses\<close>

definition demo_server_env :: server_env where
  "demo_server_env = \<lparr>sd_deps = demo_deps, sd_say = (\<lambda>e. ''error''), sd_json = (\<lambda>raw. Inr (JDict [])),
     sd_url = (\<lambda>target. Inr (target, [])), sd_float = (\<lambda>s. Inl ValueError), sd_untyped = (\<lambda>c. sx_raise ValueError)\<rparr>"

definition demo_handler :: "string option \<Rightarrow> handler" where
  "demo_handler token = \<lparr>hn_service = demo_service, hn_limiter = new_limiter 0 60000000, hn_clock = (\<lambda>n. 0),
     hn_token = token, hn_in = [], hn_close = False, hn_out = []\<rparr>"

definition demo_http :: "string \<Rightarrow> string \<Rightarrow> string option \<Rightarrow> http_request" where
  "demo_http verb target len = \<lparr>rq_method = verb, rq_target = target, rq_client = None, rq_authorization = None, rq_content_length = len\<rparr>"

lemma demo_make_server:
  "make_server demo_service ''0.0.0.0'' (Some ''t'') 0 (\<lambda>n. 0) = Inr (demo_handler (Some ''t''))"
  by (simp add: make_server_def demo_handler_def non_empty_def)

lemma demo_unpresented: "\<not> presents tk (demo_http verb target len)"
  by (simp add: presents_def demo_http_def)


lemma demo_sources_answer:
  "\<exists>xs. hn_out (handle_request demo_server_env (demo_http ''GET'' ''/sources'' None) (demo_handler None)) =
     [\<lparr>hr_status = 200, hr_body = JDict [(''sources'', JList xs)], hr_headers = []\<rparr>]"
  by (simp add: handle_request_def dispatch_def limiter_step_def demo_handler_def limiter_enabled_def new_limiter_def authenticated_def
    serve_route_def demo_server_env_def demo_http_def route_def route_get_def route_path_def rstrip_slash_def on_service_def list_sources_def
    sx_bind_def sx_return_def sx_lift_def sx_get_def sx_catch_def sx_modify_def send_json_def)

theorem server_answers_honestly_witness:
  "\<exists>result h1. route demo_server_env (demo_http ''GET'' ''/sources'' None) ''/sources'' []
       (after_limit (demo_http ''GET'' ''/sources'' None) (demo_handler None)) = (Inr result, h1) \<and>
     map hr_body (hn_out (handle_request demo_server_env (demo_http ''GET'' ''/sources'' None) (demo_handler None))) = [result]"
proof -
  obtain xs where out: "hn_out (handle_request demo_server_env (demo_http ''GET'' ''/sources'' None) (demo_handler None)) =
     [\<lparr>hr_status = 200, hr_body = JDict [(''sources'', JList xs)], hr_headers = []\<rparr>]"
    using demo_sources_answer by (elim exE)
  have h: "hn_out (demo_handler None) = []" by (simp add: demo_handler_def)
  have url: "sd_url demo_server_env (rq_target (demo_http ''GET'' ''/sources'' None)) = Inr (''/sources'', [])"
    by (simp add: demo_server_env_def demo_http_def)
  from server_answers_honestly [of demo_server_env "demo_http ''GET'' ''/sources'' None" "demo_handler None"]
  show ?thesis unfolding out h url by (auto simp: error_answer_def)
qed

theorem framing_exact_witness:
  "let h = handle_request demo_server_env (demo_http ''POST'' ''/nope'' (Some ''1'')) (demo_handler None\<lparr>hn_in := [65]\<rparr>)
   in hn_in h = [65] \<and> \<not> hn_close h \<and> hr_status (last (hn_out h)) = 404"
proof -
  let ?req = "demo_http ''POST'' ''/nope'' (Some ''1'')" and ?h = "demo_handler None\<lparr>hn_in := [65]\<rparr>"
  have len: "content_length ?req = Inr (int 1)"
    by (simp add: content_length_def demo_http_def py_int_def strip_def is_space_def is_digit_def digit_val_def Let_def)
  have auth: "authenticated (hn_token ?h) ?req = Inr True" by (simp add: authenticated_def demo_handler_def)
  have "\<not> rejected ?req ?h" using auth by (simp add: rejected_def demo_handler_def limiter_enabled_def new_limiter_def)
  moreover have "\<not> body_route (route_path ''/nope'')" by code_simp
  ultimately show ?thesis
    using framing_exact [OF len _ _ _ auth, of demo_server_env "''/nope''" "[]"]
    by (simp add: demo_handler_def demo_server_env_def demo_http_def)
qed

theorem paths_roundtrip_witness:
  "route demo_server_env (demo_http ''GET'' ''x'' None) ''/catalog/io.github/a/t'' [] = call_service (get_tool ''io.github/a'' ''t'')"
  using paths_roundtrip [of "''io.github/a''" "''t''" "demo_http ''GET'' ''x'' None" "demo_http ''POST'' ''x'' None" demo_server_env "[]"]
  by (simp add: dot_plus_def segment_def demo_http_def)

end
