(* ===== verification/Client.thy ===== *)
theory Client
  imports Server_Props
begin

text \<open>
  \<open>client.py\<close>: the fail-closed HTTP client and its governed invocation. The network is a parameter:
  a \<open>wire\<close> maps a call and a state of the world to what \<open>urllib\<close> reports and the next state, so
  a property proved for all wires holds for every server and every network fault. The log records
  each exchange with its parsed outcome and each run of the caller's executor. Arguments annotated as
  mappings are dictionaries with text keys. \<open>json.loads\<close> on a response and \<open>float()\<close> are parameters;
  an exception keeps its class and drops its message and payload.
\<close>

section \<open>Data\<close>

record ClientGrant =
  cg_grant_id :: string
  cg_args_hash :: string
  cg_expires_at :: string
  cg_ttl_seconds :: int

record ClientRedemption =
  cr_redeemed :: bool
  cr_reason :: string
  cr_grant_id :: string
  cr_decision_id :: string
  cr_source_id :: string
  cr_name :: string
  cr_contract_version :: string
  cr_raw :: "(string \<times> json) list"

record ClientDecision =
  cd_allowed :: bool
  cd_reason :: string
  cd_decision_id :: string
  cd_determining_policies :: "json list"
  cd_default_deny :: bool
  cd_errors :: "string list"
  cd_contract_version :: string
  cd_grant :: "ClientGrant option"
  cd_raw :: "(string \<times> json) list"

definition grant_from_json :: "json \<Rightarrow> ClientGrant option result" where
  "grant_from_json grant_raw =
     (case grant_raw of
        JDict g \<Rightarrow>
          bind_result (py_int_of (or_else (get_or g ''ttl_seconds'' (JInt 0)) (JInt 0))) (\<lambda>ttl.
          Inr (Some \<lparr>cg_grant_id = text_field g ''grant_id'' '''', cg_args_hash = text_field g ''args_hash'' '''',
                     cg_expires_at = text_field g ''expires_at'' '''', cg_ttl_seconds = ttl\<rparr>))
      | _ \<Rightarrow> Inr None)"

text \<open>\<open>body.get(k, ()) or ()\<close>, iterated\<close>

definition items_field :: "(string \<times> json) list \<Rightarrow> string \<Rightarrow> json list result" where
  "items_field b k = (let v = get_or_null b k in if truthy v then py_iter v else Inr [])"

definition from_json :: "(string \<times> json) list \<Rightarrow> ClientDecision result" where
  "from_json body =
     bind_result (grant_from_json (get_or_null body ''grant'')) (\<lambda>grant.
     bind_result (items_field body ''determining_policies'') (\<lambda>policies.
     bind_result (items_field body ''errors'') (\<lambda>errors.
     Inr \<lparr>cd_allowed = truthy (get_or_null body ''allowed''), cd_reason = text_field body ''reason'' '''',
          cd_decision_id = text_field body ''decision_id'' '''', cd_determining_policies = policies,
          cd_default_deny = truthy (get_or_null body ''default_deny''), cd_errors = map py_str errors,
          cd_contract_version = text_field body ''contract_version'' '''', cd_grant = grant, cd_raw = body\<rparr>)))"

definition EXPECTED_CONTRACT_MAJOR :: string where "EXPECTED_CONTRACT_MAJOR = ''1''"

text \<open>\<open>cv and (cv or "0").split(".", 1)[0] != EXPECTED_CONTRACT_MAJOR\<close>\<close>

definition incompatible :: "string \<Rightarrow> bool" where
  "incompatible cv \<longleftrightarrow>
     cv \<noteq> [] \<and> takeWhile (\<lambda>c. c \<noteq> CHR ''.'') (if cv = [] then ''0'' else cv) \<noteq> EXPECTED_CONTRACT_MAJOR"

section \<open>The client and its transport\<close>

record client =
  cl_base_url :: string
  cl_token :: "string option"
  cl_timeout :: pyfloat

definition new_client :: "string \<Rightarrow> string option \<Rightarrow> pyfloat \<Rightarrow> client result" where
  "new_client base_url token timeout =
     (if base_url = [] then Inl ValueError
      else Inr \<lparr>cl_base_url = rstrip_slash base_url, cl_token = non_empty token, cl_timeout = timeout\<rparr>)"

definition env_field :: "(string, string) dict \<Rightarrow> string \<Rightarrow> json" where
  "env_field env k = opt_str (dict_get env k)"

text \<open>A configured token is only ever rendered into the header, so its text stands for it.\<close>

definition from_config ::
  "(json \<Rightarrow> pyfloat result) \<Rightarrow> (string \<times> json) list option \<Rightarrow> (string, string) dict \<Rightarrow> client result" where
  "from_config float_of config env =
     (let cfg = (case config of Some c \<Rightarrow> c | None \<Rightarrow> []);
          base_url = or_else (get_or_null cfg ''base_url'') (env_field env ''TOOLCONNECT_URL'');
          token = or_else (get_or_null cfg ''token'') (env_field env ''TOOLCONNECT_TOKEN'');
          timeout = or_else (or_else (get_or_null cfg ''timeout'') (env_field env ''TOOLCONNECT_TIMEOUT'')) (JFloat (FFin False 1 1))
      in if \<not> truthy base_url then Inl ValueError
         else bind_result (float_of timeout) (\<lambda>t.
              new_client (py_str base_url) (if truthy token then Some (py_str token) else None) t))"

record http_call =
  hc_url :: string
  hc_method :: string
  hc_body :: "json option"
  hc_authorization :: "string option"

text \<open>What \<open>urlopen\<close> and the reading of the body report.\<close>

datatype wire_answer =
    Answered int "bytes result"
  | HTTPError int "bytes result"
  | URLError
  | WireRaised exn

type_synonym 'n wire = "http_call \<Rightarrow> 'n \<Rightarrow> wire_answer \<times> 'n"

datatype event =
    Exchange string string "json option" "(int \<times> json) result"
  | Ran json

record 'n net =
  nt_peer :: 'n
  nt_log :: "event list"

record 'n client_env =
  ce_wire :: "'n wire"
  ce_json :: decoder

definition null_text :: bytes where "null_text = [0x6E, 0x75, 0x6C, 0x6C]"

definition loads_or_null :: "decoder \<Rightarrow> bytes result \<Rightarrow> json result" where
  "loads_or_null decode raw = bind_result raw (\<lambda>bs. decode (if bs = [] then null_text else bs))"

text \<open>\<open>JSONDecodeError\<close> and \<open>UnicodeDecodeError\<close> are subclasses of \<open>ValueError\<close>.\<close>

definition is_value_error :: "exn \<Rightarrow> bool" where
  "is_value_error e \<longleftrightarrow> e \<in> {ValueError, JSONDecodeError, UnicodeDecodeError}"

definition parse_answer :: "decoder \<Rightarrow> wire_answer \<Rightarrow> (int \<times> json) result" where
  "parse_answer decode a =
     (case a of
        Answered status raw \<Rightarrow>
          (case loads_or_null decode raw of
             Inr v \<Rightarrow> Inr (status, v)
           | Inl e \<Rightarrow> Inl (if e \<in> {OSError, JSONDecodeError} then ToolConnectUnavailable else e))
      | HTTPError code raw \<Rightarrow>
          (case loads_or_null decode raw of
             Inr v \<Rightarrow> Inr (code, v)
           | Inl e \<Rightarrow> (if is_value_error e then Inr (code, JNull) else Inl e))
      | URLError \<Rightarrow> Inl ToolConnectUnavailable
      | WireRaised e \<Rightarrow> Inl (if e \<in> {OSError, JSONDecodeError} then ToolConnectUnavailable else e))"

definition bearer :: "string \<Rightarrow> string" where
  "bearer token = ''Bearer '' @ token"

definition client_request ::
  "'n client_env \<Rightarrow> client \<Rightarrow> string \<Rightarrow> string \<Rightarrow> json option \<Rightarrow> ('n net, int \<times> json) sx" where
  "client_request env c verb path body w =
     (let call = \<lparr>hc_url = cl_base_url c @ path, hc_method = verb, hc_body = body,
                  hc_authorization = map_option bearer (cl_token c)\<rparr>
      in case ce_wire env call (nt_peer w) of
           (a, n) \<Rightarrow>
             let r = parse_answer (ce_json env) a
             in (r, w\<lparr>nt_peer := n, nt_log := nt_log w @ [Exchange verb path body r]\<rparr>))"

section \<open>Read surface\<close>

definition client_health :: "'n client_env \<Rightarrow> client \<Rightarrow> ('n net, json) sx" where
  "client_health env c =
     sx_bind (client_request env c ''GET'' ''/health'' None) (\<lambda>(status, body).
     if status \<noteq> 200 \<or> \<not> is_dict body then sx_raise ToolConnectUnavailable else sx_return body)"

definition get_ok :: "'n client_env \<Rightarrow> client \<Rightarrow> string \<Rightarrow> ('n net, json) sx" where
  "get_ok env c path =
     sx_bind (client_request env c ''GET'' path None) (\<lambda>(status, body).
     if status \<noteq> 200 then sx_raise ToolConnectUnavailable else sx_return body)"

fun py_item :: "string \<Rightarrow> json \<Rightarrow> json result" where
  "py_item k (JDict kvs) = (case dict_get kvs k of Some v \<Rightarrow> Inr v | None \<Rightarrow> Inl KeyError)"
| "py_item k _ = Inl TypeError"

definition get_item :: "'n client_env \<Rightarrow> client \<Rightarrow> string \<Rightarrow> string \<Rightarrow> ('n net, json) sx" where
  "get_item env c path k = sx_bind (get_ok env c path) (\<lambda>body. sx_lift (py_item k body))"

definition client_list_sources :: "'n client_env \<Rightarrow> client \<Rightarrow> ('n net, json) sx" where
  "client_list_sources env c = get_item env c ''/sources'' ''sources''"

definition client_list_catalog :: "'n client_env \<Rightarrow> client \<Rightarrow> ('n net, json) sx" where
  "client_list_catalog env c = get_item env c ''/catalog'' ''tools''"

definition client_get_tool :: "'n client_env \<Rightarrow> client \<Rightarrow> string \<Rightarrow> string \<Rightarrow> ('n net, json) sx" where
  "client_get_tool env c source_id name = get_ok env c (''/catalog/'' @ source_id @ ''/'' @ name)"

definition client_drift :: "'n client_env \<Rightarrow> client \<Rightarrow> string \<Rightarrow> ('n net, json) sx" where
  "client_drift env c source_id = get_ok env c (''/drift/'' @ source_id)"

definition client_verify_audit :: "'n client_env \<Rightarrow> client \<Rightarrow> ('n net, json) sx" where
  "client_verify_audit env c = get_ok env c ''/audit/verify''"

definition client_read_audit :: "'n client_env \<Rightarrow> client \<Rightarrow> string option \<Rightarrow> int \<Rightarrow> ('n net, json) sx" where
  "client_read_audit env c kind limit =
     get_item env c (''/audit'' @ ''?limit='' @ show_int limit @
       (case non_empty kind of Some k \<Rightarrow> ''&kind='' @ k | None \<Rightarrow> [])) ''records''"

section \<open>Decision surface\<close>

definition authorize_body ::
  "(string \<times> json) list \<Rightarrow> string \<Rightarrow> string \<Rightarrow> (string \<times> json) list option \<Rightarrow> (string \<times> json) list option \<Rightarrow> int option
     \<Rightarrow> (string \<times> json) list" where
  "authorize_body p source_id name context args ttl_seconds =
     [(''principal'', JDict p), (''source_id'', JStr source_id), (''name'', JStr name)] @
     (case context of Some ctx \<Rightarrow> [(''context'', JDict ctx)] | None \<Rightarrow> []) @
     (case args of Some a \<Rightarrow> [(''args'', JDict a)] | None \<Rightarrow> []) @
     (case ttl_seconds of Some t \<Rightarrow> [(''ttl_seconds'', JInt t)] | None \<Rightarrow> [])"

text \<open>A payload that is a 200 object with the key the caller needs.\<close>

definition usable :: "string \<Rightarrow> int \<times> json \<Rightarrow> (string \<times> json) list option" where
  "usable k sp =
     (case sp of
        (status, JDict kvs) \<Rightarrow> if status = 200 \<and> dict_get kvs k \<noteq> None then Some kvs else None
      | _ \<Rightarrow> None)"

definition read_decision :: "int \<times> json \<Rightarrow> ClientDecision result" where
  "read_decision sp =
     (case usable ''allowed'' sp of
        None \<Rightarrow> Inl ToolConnectUnavailable
      | Some kvs \<Rightarrow>
          bind_result (from_json kvs) (\<lambda>d.
          if incompatible (cd_contract_version d) then Inl ToolConnectUnavailable else Inr d))"

definition client_authorize ::
  "'n client_env \<Rightarrow> client \<Rightarrow> (string \<times> json) list \<Rightarrow> string \<Rightarrow> string \<Rightarrow> (string \<times> json) list option
     \<Rightarrow> (string \<times> json) list option \<Rightarrow> int option \<Rightarrow> ('n net, ClientDecision) sx" where
  "client_authorize env c p source_id name context args ttl_seconds =
     sx_bind (client_request env c ''POST'' ''/authorize''
                (Some (JDict (authorize_body p source_id name context args ttl_seconds)))) (\<lambda>sp.
     sx_lift (read_decision sp))"

definition client_require ::
  "'n client_env \<Rightarrow> client \<Rightarrow> (string \<times> json) list \<Rightarrow> string \<Rightarrow> string \<Rightarrow> (string \<times> json) list option
     \<Rightarrow> ('n net, ClientDecision) sx" where
  "client_require env c p source_id name context =
     sx_bind (client_authorize env c p source_id name context None None) (\<lambda>d.
     if \<not> cd_allowed d then sx_raise ToolConnectDenied else sx_return d)"

definition read_redemption :: "string \<Rightarrow> int \<times> json \<Rightarrow> ClientRedemption result" where
  "read_redemption grant_id sp =
     (case usable ''redeemed'' sp of
        None \<Rightarrow> Inl ToolConnectUnavailable
      | Some kvs \<Rightarrow>
          let cv = text_field kvs ''contract_version'' '''';
              or_empty = (\<lambda>k. py_str (or_else (get_or_null kvs k) (JStr [])))
          in if incompatible cv then Inl ToolConnectUnavailable
             else Inr \<lparr>cr_redeemed = (dict_get kvs ''redeemed'' = Some (JBool True)), cr_reason = text_field kvs ''reason'' '''',
                       cr_grant_id = text_field kvs ''grant_id'' grant_id, cr_decision_id = or_empty ''decision_id'',
                       cr_source_id = or_empty ''source_id'', cr_name = or_empty ''name'', cr_contract_version = cv, cr_raw = kvs\<rparr>)"

definition client_redeem ::
  "'n client_env \<Rightarrow> client \<Rightarrow> string \<Rightarrow> (string \<times> json) list \<Rightarrow> (string \<times> json) list \<Rightarrow> ('n net, ClientRedemption) sx" where
  "client_redeem env c grant_id p args =
     sx_bind (client_request env c ''POST'' (''/grants/'' @ grant_id @ ''/redeem'')
                (Some (JDict [(''principal'', JDict p), (''args'', JDict args)]))) (\<lambda>sp.
     sx_lift (read_redemption grant_id sp))"

text \<open>\<open>close_grant\<close> and \<open>record_outcome\<close> want a 200 object.\<close>

definition object_reply :: "int \<times> json \<Rightarrow> (string \<times> json) list result" where
  "object_reply sp =
     (case sp of (status, JDict kvs) \<Rightarrow> if status = 200 then Inr kvs else Inl ToolConnectUnavailable
      | _ \<Rightarrow> Inl ToolConnectUnavailable)"

definition client_close_grant :: "'n client_env \<Rightarrow> client \<Rightarrow> string \<Rightarrow> string \<Rightarrow> ('n net, (string \<times> json) list) sx" where
  "client_close_grant env c grant_id reason =
     sx_bind (client_request env c ''POST'' (''/grants/'' @ grant_id @ ''/close'') (Some (JDict [(''reason'', JStr reason)]))) (\<lambda>sp.
     sx_lift (object_reply sp))"

definition client_record_outcome ::
  "'n client_env \<Rightarrow> client \<Rightarrow> string \<Rightarrow> string \<Rightarrow> (string \<times> json) list option \<Rightarrow> string option
     \<Rightarrow> ('n net, (string \<times> json) list) sx" where
  "client_record_outcome env c decision_id outcome detail grant_id =
     sx_bind (client_request env c ''POST'' (''/decisions/'' @ decision_id @ ''/outcome'')
                (Some (JDict ([(''outcome'', JStr outcome)] @
                  (case detail of Some d \<Rightarrow> [(''detail'', JDict d)] | None \<Rightarrow> []) @
                  (case grant_id of Some g \<Rightarrow> [(''grant_id'', JStr g)] | None \<Rightarrow> []))))) (\<lambda>sp.
     sx_lift (object_reply sp))"

section \<open>Governed invocation\<close>

text \<open>The subclasses of \<open>ToolConnectError\<close>.\<close>

definition toolconnect_error :: "exn \<Rightarrow> bool" where
  "toolconnect_error e \<longleftrightarrow> e \<in> {ToolConnectUnavailable, ToolConnectDenied, GrantRedeemDenied}"

text \<open>\<open>try: m except ToolConnectError: pass\<close>\<close>

definition best_effort :: "('n net, 'a) sx \<Rightarrow> ('n net, unit) sx" where
  "best_effort m =
     sx_catch (sx_bind m (\<lambda>_. sx_return ())) (\<lambda>e. if toolconnect_error e then sx_return () else sx_raise e)"

definition run_executor :: "(json \<Rightarrow> 'n \<Rightarrow> 'r result \<times> 'n) \<Rightarrow> (string \<times> json) list \<Rightarrow> ('n net, 'r) sx" where
  "run_executor executor frozen w =
     (case executor (JDict frozen) (nt_peer w) of
        (r, n) \<Rightarrow> (r, w\<lparr>nt_peer := n, nt_log := nt_log w @ [Ran (JDict frozen)]\<rparr>))"

definition redeem_and_run ::
  "'n client_env \<Rightarrow> client \<Rightarrow> (json \<Rightarrow> 'n \<Rightarrow> 'r result \<times> 'n) \<Rightarrow> (string \<times> json) list \<Rightarrow> string \<Rightarrow> string
     \<Rightarrow> (string \<times> json) list \<Rightarrow> string \<Rightarrow> ('n net, 'r) sx" where
  "redeem_and_run env c executor p source_id name frozen grant_id =
     sx_bind (client_redeem env c grant_id p frozen) (\<lambda>red.
     if \<not> cr_redeemed red then sx_raise GrantRedeemDenied
     else if (cr_source_id red \<noteq> [] \<and> cr_source_id red \<noteq> source_id) \<or> (cr_name red \<noteq> [] \<and> cr_name red \<noteq> name)
          then sx_raise ToolConnectUnavailable
     else run_executor executor frozen)"

definition abandon :: "'n client_env \<Rightarrow> client \<Rightarrow> string \<Rightarrow> string \<Rightarrow> exn \<Rightarrow> ('n net, 'r) sx" where
  "abandon env c decision_id grant_id e =
     sx_bind (best_effort (client_close_grant env c grant_id ''aborted'')) (\<lambda>_.
     sx_bind (best_effort (client_record_outcome env c decision_id ''error'' None (Some grant_id))) (\<lambda>_.
     sx_raise e))"

definition governed_invoke ::
  "'n client_env \<Rightarrow> client \<Rightarrow> (json \<Rightarrow> 'n \<Rightarrow> 'r result \<times> 'n) \<Rightarrow> (string \<times> json) list \<Rightarrow> string \<Rightarrow> string
     \<Rightarrow> (string \<times> json) list \<Rightarrow> (string \<times> json) list option \<Rightarrow> int option \<Rightarrow> ('n net, 'r) sx" where
  "governed_invoke env c executor p source_id name args context ttl_seconds =
     sx_bind (client_authorize env c p source_id name context (Some args) ttl_seconds) (\<lambda>d.
     if \<not> cd_allowed d then sx_raise ToolConnectDenied
     else case cd_grant d of
       None \<Rightarrow> sx_raise ToolConnectUnavailable
     | Some grant \<Rightarrow>
         sx_bind (sx_catch (redeem_and_run env c executor p source_id name args (cg_grant_id grant))
                    (abandon env c (cd_decision_id d) (cg_grant_id grant))) (\<lambda>result.
         sx_bind (best_effort (client_record_outcome env c (cd_decision_id d) ''executed'' None (Some (cg_grant_id grant)))) (\<lambda>_.
         sx_return result)))"

end
