(* ===== verification/Openapi_Source.thy ===== *)
theory Openapi_Source
  imports Service_Props
begin

text \<open>
  \<open>openapi_source.py\<close>: an OpenAPI 3.x document becomes the tools of a source. A document is a JSON
  value, as \<open>json.loads\<close> returns it; a YAML document is covered as far as it is one. Reading the file,
  the JSON decoder and the optional YAML loader are parameters. A failed ingest raises
  \<open>OpenAPISpecError\<close> with its kind; what escapes that taxonomy is part of the properties.
\<close>

section \<open>Constants and claims\<close>

definition OPENAPI_FAULT_KINDS :: "string list" where
  "OPENAPI_FAULT_KINDS = [''unreadable'', ''malformed_document'', ''not_openapi'', ''no_operations'',
     ''duplicate_operation'', ''invalid_parameter'']"

definition METHODS :: "string list" where
  "METHODS = [''get'', ''put'', ''post'', ''delete'', ''options'', ''head'', ''patch'', ''trace'']"

definition READ_ONLY_METHODS :: "string list" where
  "READ_ONLY_METHODS = [''get'', ''head'', ''options'']"

definition claimed_for :: "string \<Rightarrow> string \<Rightarrow> string \<Rightarrow> ClaimedMetadata" where
  "claimed_for verb summary description =
     (let text_v = JStr (if summary \<noteq> [] then summary else description)
      in if verb \<in> set READ_ONLY_METHODS then
           \<lparr>cm_description = text_v, cm_read_only_hint = JBool True, cm_destructive_hint = JNull,
            cm_idempotent_hint = JNull, cm_open_world_hint = JNull\<rparr>
         else if verb = ''delete'' then
           \<lparr>cm_description = text_v, cm_read_only_hint = JBool False, cm_destructive_hint = JBool True,
            cm_idempotent_hint = JNull, cm_open_world_hint = JBool True\<rparr>
         else
           \<lparr>cm_description = text_v, cm_read_only_hint = JBool False, cm_destructive_hint = JBool False,
            cm_idempotent_hint = JNull, cm_open_world_hint = JBool True\<rparr>)"

section \<open>Fallback names\<close>

definition safe_char :: "char \<Rightarrow> bool" where
  "safe_char c \<longleftrightarrow> (CHR ''A'' \<le> c \<and> c \<le> CHR ''Z'') \<or> (CHR ''a'' \<le> c \<and> c \<le> CHR ''z'') \<or> is_digit c \<or> c \<in> set ''_.-''"

text \<open>\<open>_SAFE_NAME.sub("_", s)\<close>: every maximal run of other characters becomes one underscore.\<close>

fun safe_sub :: "bool \<Rightarrow> string \<Rightarrow> string" where
  "safe_sub in_run [] = []"
| "safe_sub in_run (c # cs) =
     (if safe_char c then c # safe_sub False cs
      else if in_run then safe_sub True cs else CHR ''_'' # safe_sub True cs)"

definition strip_char :: "char \<Rightarrow> string \<Rightarrow> string" where
  "strip_char x s = rev (dropWhile (\<lambda>c. c = x) (rev (dropWhile (\<lambda>c. c = x) s)))"

definition fallback_name :: "string \<Rightarrow> string \<Rightarrow> string" where
  "fallback_name verb path =
     (let cleaned = strip_char (CHR ''_'') (safe_sub False (strip_char (CHR ''/'') path))
      in if cleaned \<noteq> [] then verb @ ''_'' @ cleaned else verb)"

section \<open>The input schema\<close>

abbreviation spec_error :: "string \<Rightarrow> 'a result" where
  "spec_error kind \<equiv> Inl (OpenAPISpecError kind)"

fun add_parameters ::
  "json list \<Rightarrow> (string \<times> string, (string \<times> json) list) dict \<Rightarrow> (string \<times> string, (string \<times> json) list) dict result" where
  "add_parameters [] params = Inr params"
| "add_parameters (p # ps) params =
     (case p of
        JDict kvs \<Rightarrow>
          (case get_or_null kvs ''name'' of
             JStr name \<Rightarrow> add_parameters ps (dict_set (name, py_str (get_or kvs ''in'' (JStr ''query''))) kvs params)
           | _ \<Rightarrow> spec_error ''invalid_parameter'')
      | _ \<Rightarrow> spec_error ''invalid_parameter'')"

definition add_source ::
  "json \<Rightarrow> (string \<times> string, (string \<times> json) list) dict \<Rightarrow> (string \<times> string, (string \<times> json) list) dict result" where
  "add_source source params =
     (case source of
        JNull \<Rightarrow> Inr params
      | JList ps \<Rightarrow> add_parameters ps params
      | _ \<Rightarrow> spec_error ''invalid_parameter'')"

type_synonym contract = "(string, json) dict \<times> string list"

text \<open>The loop over \<open>params.values()\<close>; the name is in the key.\<close>

fun parameter_schemas :: "((string \<times> string) \<times> (string \<times> json) list) list \<Rightarrow> contract \<Rightarrow> contract result" where
  "parameter_schemas [] acc = Inr acc"
| "parameter_schemas (((name, loc), p) # ps) (props, required) =
     bind_result (py_dict (or_else (get_or_null p ''schema'') (JDict []))) (\<lambda>schema.
     parameter_schemas ps (dict_set name schema props,
       if get_or_null p ''required'' = JBool True then required @ [name] else required))"

fun starts_with :: "string \<Rightarrow> string \<Rightarrow> bool" where
  "starts_with [] s = True"
| "starts_with (p # ps) [] = False"
| "starts_with (p # ps) (c # cs) = (p = c \<and> starts_with ps cs)"

definition ends_with :: "string \<Rightarrow> string \<Rightarrow> bool" where
  "ends_with suf s = starts_with (rev suf) (rev s)"

definition body_schema :: "(string \<times> json) list \<Rightarrow> (string \<times> json) list option" where
  "body_schema operation =
     (case get_or_null operation ''requestBody'' of
        JDict body \<Rightarrow>
          (case or_else (get_or_null body ''content'') (JDict []) of
             JDict media \<Rightarrow>
               (let entry = (case get_or_null media ''application/json'' of
                               JDict e \<Rightarrow> Some e
                             | _ \<Rightarrow> (case find (\<lambda>(k, v). ends_with ''+json'' k \<and> is_dict v) media of
                                       Some (k, JDict e) \<Rightarrow> Some e
                                     | _ \<Rightarrow> None))
                in case entry of
                     Some e \<Rightarrow> (case get_or_null e ''schema'' of JDict s \<Rightarrow> Some s | _ \<Rightarrow> None)
                   | None \<Rightarrow> None)
           | _ \<Rightarrow> None)
      | _ \<Rightarrow> None)"

fun add_required :: "json list \<Rightarrow> string list \<Rightarrow> string list" where
  "add_required [] required = required"
| "add_required (r # rs) required =
     (case r of
        JStr s \<Rightarrow> add_required rs (if s \<in> set required then required else required @ [s])
      | _ \<Rightarrow> add_required rs required)"

definition merge_body :: "(string \<times> json) list \<Rightarrow> contract \<Rightarrow> contract result" where
  "merge_body schema pr =
     (case pr of (props, required) \<Rightarrow>
        if get_or_null schema ''type'' = JStr ''object'' \<or> dict_get schema ''properties'' \<noteq> None then
          (case or_else (get_or_null schema ''properties'') (JDict []) of
             JDict flds \<Rightarrow>
               bind_result (let v = get_or_null schema ''required'' in if truthy v then py_iter v else Inr []) (\<lambda>rs.
               Inr (fold (\<lambda>(k, v). dict_set k v) flds props, add_required rs required))
           | _ \<Rightarrow> Inl AttributeError)
        else Inr (dict_set ''body'' (JDict schema) props, required))"

definition merge_schema_parameters :: "(string \<times> json) list \<Rightarrow> (string \<times> json) list \<Rightarrow> (string \<times> json) list result" where
  "merge_schema_parameters operation path_item =
     bind_result (add_source (get_or_null path_item ''parameters'') []) (\<lambda>params0.
     bind_result (add_source (get_or_null operation ''parameters'') params0) (\<lambda>params.
     bind_result (parameter_schemas params ([], [])) (\<lambda>acc.
     bind_result (case body_schema operation of Some schema \<Rightarrow> merge_body schema acc | None \<Rightarrow> Inr acc) (\<lambda>(props, required).
     Inr ([(''type'', JStr ''object''), (''properties'', JDict props)] @
       (if required \<noteq> [] then [(''required'', str_list (py_sorted_set required))] else []))))))"

section \<open>Documents\<close>

definition operation_name :: "string \<Rightarrow> string \<Rightarrow> (string \<times> json) list \<Rightarrow> string result" where
  "operation_name verb path operation =
     (case get_or_null operation ''operationId'' of
        JNull \<Rightarrow> Inr (fallback_name verb path)
      | JStr op_id \<Rightarrow> Inr (if op_id \<noteq> [] then op_id else fallback_name verb path)
      | _ \<Rightarrow> spec_error ''invalid_parameter'')"

text \<open>The inner loop: one tool for each operation of a path item; \<open>seen\<close> is the names of \<open>tools\<close>.\<close>

fun parse_operations ::
  "string \<Rightarrow> string \<Rightarrow> (string \<times> json) list \<Rightarrow> (string \<times> json) list \<Rightarrow> DiscoveredTool list \<Rightarrow> DiscoveredTool list result" where
  "parse_operations api_version path path_item [] tools = Inr tools"
| "parse_operations api_version path path_item ((verb, operation) # items) tools =
     (if verb \<notin> set METHODS then parse_operations api_version path path_item items tools
      else case operation of
        JDict op \<Rightarrow>
          bind_result (operation_name verb path op) (\<lambda>name.
          if name \<in> set (map dt_name tools) then spec_error ''duplicate_operation''
          else bind_result (merge_schema_parameters op path_item) (\<lambda>schema.
            parse_operations api_version path path_item items (tools @
              [\<lparr>dt_name = name,
                dt_claimed = claimed_for verb (py_str (or_else (get_or_null op ''summary'') (JStr [])))
                               (py_str (or_else (get_or_null op ''description'') (JStr []))),
                dt_input_schema = JDict schema, dt_version = api_version\<rparr>])))
      | _ \<Rightarrow> spec_error ''invalid_parameter'')"

fun parse_paths :: "string \<Rightarrow> (string \<times> json) list \<Rightarrow> DiscoveredTool list \<Rightarrow> DiscoveredTool list result" where
  "parse_paths api_version [] tools = Inr tools"
| "parse_paths api_version ((path, path_item) # paths) tools =
     (if \<not> starts_with ''/'' path then spec_error ''invalid_parameter''
      else case path_item of
        JDict items \<Rightarrow>
          bind_result (parse_operations api_version path items items tools) (\<lambda>tools'.
          parse_paths api_version paths tools')
      | _ \<Rightarrow> spec_error ''invalid_parameter'')"

definition parse_openapi :: "json \<Rightarrow> DiscoveryResult result" where
  "parse_openapi document =
     (case document of
        JDict doc \<Rightarrow>
          (case get_or_null doc ''openapi'' of
             JStr version \<Rightarrow>
               if \<not> starts_with ''3.'' version then spec_error ''not_openapi''
               else
                 (case or_else (get_or_null doc ''info'') (JDict []) of
                    JDict info \<Rightarrow>
                      (case get_or_null doc ''paths'' of
                         JDict paths \<Rightarrow>
                           let api_version = py_str (or_else (get_or_null info ''version'') (JStr ''0.0.0'')) in
                           bind_result (parse_paths api_version paths []) (\<lambda>tools.
                           if tools = [] then spec_error ''no_operations''
                           else Inr \<lparr>dc_server_name = py_str (or_else (get_or_null info ''title'') (JStr ''unknown'')),
                                     dc_server_version = api_version, dc_protocol_version = ''openapi-'' @ version,
                                     dc_tools = tools\<rparr>)
                       | _ \<Rightarrow> spec_error ''no_operations'')
                  | _ \<Rightarrow> spec_error ''not_openapi'')
           | _ \<Rightarrow> spec_error ''not_openapi'')
      | _ \<Rightarrow> spec_error ''not_openapi'')"

definition tool_to_payload :: "DiscoveredTool \<Rightarrow> json" where
  "tool_to_payload t =
     JDict [(''name'', JStr (dt_name t)), (''version'', JStr (dt_version t)),
       (''claimed'', JDict
          [(''description'', cm_description (dt_claimed t)), (''read_only_hint'', cm_read_only_hint (dt_claimed t)),
           (''destructive_hint'', cm_destructive_hint (dt_claimed t)), (''idempotent_hint'', cm_idempotent_hint (dt_claimed t)),
           (''open_world_hint'', cm_open_world_hint (dt_claimed t))]),
       (''input_schema'', dt_input_schema t)]"

definition discovery_to_payload :: "DiscoveryResult \<Rightarrow> json list" where
  "discovery_to_payload result = map tool_to_payload (dc_tools result)"

text \<open>
  \<open>load_openapi\<close>: the bytes of the file or the error of reading it, the JSON decoder, and the YAML
  loader if it is installed, which gives nothing for a \<open>YAMLError\<close>.
\<close>

definition load_openapi :: "bytes result \<Rightarrow> decoder \<Rightarrow> (bytes \<Rightarrow> json option) option \<Rightarrow> DiscoveryResult result" where
  "load_openapi read decode yaml =
     (case read of
        Inl e \<Rightarrow> (if e = OSError then spec_error ''unreadable'' else Inl e)
      | Inr raw \<Rightarrow>
          (case decode raw of
             Inr document \<Rightarrow> parse_openapi document
           | Inl e \<Rightarrow>
               if e \<noteq> JSONDecodeError then Inl e
               else (case yaml of
                       None \<Rightarrow> spec_error ''malformed_document''
                     | Some safe_load \<Rightarrow>
                         (case safe_load raw of
                            None \<Rightarrow> spec_error ''malformed_document''
                          | Some document \<Rightarrow> parse_openapi document))))"

section \<open>What a successful parse returns\<close>

definition merged_schema :: "json \<Rightarrow> bool" where
  "merged_schema s \<longleftrightarrow>
     (\<exists>props. s = JDict [(''type'', JStr ''object''), (''properties'', JDict props)] \<or>
        (\<exists>required. required \<noteq> [] \<and> sorted required \<and> distinct required \<and>
           s = JDict [(''type'', JStr ''object''), (''properties'', JDict props), (''required'', str_list required)]))"

definition usable_tool :: "string \<Rightarrow> DiscoveredTool \<Rightarrow> bool" where
  "usable_tool api_version t \<longleftrightarrow>
     dt_name t \<noteq> [] \<and> dt_version t = api_version \<and> merged_schema (dt_input_schema t) \<and>
     (\<exists>verb \<in> set METHODS. \<exists>summary description. dt_claimed t = claimed_for verb summary description)"

lemma merge_shape:
  assumes "merge_schema_parameters op pitem = Inr schema"
  shows "merged_schema (JDict schema)"
proof -
  obtain props required where r: "schema = [(''type'', JStr ''object''), (''properties'', JDict props)] @
      (if required \<noteq> [] then [(''required'', str_list (py_sorted_set required))] else [])"
    using assms by (auto simp: merge_schema_parameters_def result_simps)
  moreover have "required \<noteq> [] \<Longrightarrow> py_sorted_set required \<noteq> []"
    using py_sorted_set_props(1) [of required] by fastforce
  ultimately show ?thesis
    unfolding merged_schema_def using py_sorted_set_props(2,3) [of required]
    by (cases "required = []") (simp, intro exI [of _ props] disjI2 exI [of _ "py_sorted_set required"], simp)
qed

lemma operation_name_nonempty: "operation_name verb path op = Inr name \<Longrightarrow> verb \<in> set METHODS \<Longrightarrow> name \<noteq> []"
  by (auto simp: operation_name_def fallback_name_def METHODS_def Let_def split: json.splits if_splits)

lemma parse_operations_usable:
  assumes "parse_operations v path pitem items tools = Inr tools'" "distinct (map dt_name tools)" "list_all (usable_tool v) tools"
  shows "distinct (map dt_name tools') \<and> list_all (usable_tool v) tools' \<and> (\<exists>new. tools' = tools @ new)"
  using assms
proof (induction v path pitem items tools rule: parse_operations.induct)
  case (2 v path pitem verb operation items tools)
  show ?case
  proof (cases "verb \<in> set METHODS")
    case False
    then show ?thesis using 2 by simp
  next
    case True
    then obtain op name schema where o: "operation = JDict op" "operation_name verb path op = Inr name"
        "name \<notin> set (map dt_name tools)" "merge_schema_parameters op pitem = Inr schema"
      using 2(3) by (auto simp: result_simps split: json.splits if_splits)
    let ?t = "\<lparr>dt_name = name, dt_claimed = claimed_for verb (py_str (or_else (get_or_null op ''summary'') (JStr [])))
        (py_str (or_else (get_or_null op ''description'') (JStr []))), dt_input_schema = JDict schema, dt_version = v\<rparr>"
    have "usable_tool v ?t"
      using merge_shape [OF o(4)] operation_name_nonempty [OF o(2) True] True by (auto simp: usable_tool_def)
    then have d: "distinct (map dt_name (tools @ [?t]))" "list_all (usable_tool v) (tools @ [?t])" using 2(4,5) o(3) by simp_all
    have rec: "parse_operations v path pitem items (tools @ [?t]) = Inr tools'" using 2(3) True o by simp
    have "\<not> verb \<notin> set METHODS" "\<not> name \<in> set (map dt_name tools)" using True o(3) by simp_all
    from 2(2) [OF this(1) o(1) this(2) rec d] show ?thesis by auto
  qed
qed simp

lemma parse_paths_usable:
  assumes "parse_paths v paths tools = Inr tools'" "distinct (map dt_name tools)" "list_all (usable_tool v) tools"
  shows "distinct (map dt_name tools') \<and> list_all (usable_tool v) tools'"
  using assms
proof (induction v paths tools rule: parse_paths.induct)
  case (2 v path pitem paths tools)
  then obtain items tools1 where i: "pitem = JDict items" "parse_operations v path items items tools = Inr tools1"
      "parse_paths v paths tools1 = Inr tools'" "starts_with ''/'' path"
    by (auto simp: result_simps split: json.splits if_splits)
  from parse_operations_usable [OF i(2) 2(3,4)] show ?case using 2(1) [OF _ i(1) i(3)] i(4) by simp
qed simp

lemma parse_openapi_tools:
  assumes "parse_openapi document = Inr r"
  shows "dc_tools r \<noteq> [] \<and> distinct (map dt_name (dc_tools r)) \<and> list_all (usable_tool (dc_server_version r)) (dc_tools r)"
proof -
  obtain v paths tools where p: "parse_paths v paths [] = Inr tools" "tools \<noteq> []" "dc_tools r = tools" "dc_server_version r = v"
  proof -
    obtain doc version where d: "document = JDict doc" "get_or_null doc ''openapi'' = JStr version" "starts_with ''3.'' version"
      using assms by (auto simp: parse_openapi_def split: json.splits if_splits)
    obtain info where i: "or_else (get_or_null doc ''info'') (JDict []) = JDict info"
      using assms d by (cases "or_else (get_or_null doc ''info'') (JDict [])") (auto simp: parse_openapi_def)
    obtain paths where p: "get_or_null doc ''paths'' = JDict paths"
      using assms d i by (cases "get_or_null doc ''paths''") (auto simp: parse_openapi_def)
    show ?thesis using assms that d i p by (auto simp: parse_openapi_def result_simps Let_def split: if_splits)
  qed
  from parse_paths_usable [OF p(1)] show ?thesis using p by simp
qed

text \<open>A parsed OpenAPI document yields at least one tool; names are distinct and not empty; every input
  schema is an object schema with a properties object and, if anything is required, a sorted list of
  required names; and every claim is the one of an HTTP method.
\<close>

theorem openapi_usable:
  assumes "parse_openapi document = Inr r"
  shows "dc_tools r \<noteq> [] \<and> distinct (map dt_name (dc_tools r)) \<and>
    (\<forall>t \<in> set (dc_tools r). usable_tool (dc_server_version r) t)"
  using parse_openapi_tools [OF assms] by (simp add: list_all_iff)

section \<open>The payload is accepted\<close>

definition parsed_of :: "DiscoveredTool \<Rightarrow> ParsedTool" where
  "parsed_of t = \<lparr>pt_name = dt_name t, pt_version = dt_version t, pt_claimed = dt_claimed t, pt_schema = dt_input_schema t\<rparr>"

lemma parse_tool_payload:
  assumes "usable_tool v t" "dt_name t \<notin> set seen"
  shows "parse_tool seen (tool_to_payload t) = Inr (parsed_of t)"
proof -
  obtain verb summary description where c: "dt_claimed t = claimed_for verb summary description" "dt_name t \<noteq> []"
      "merged_schema (dt_input_schema t)"
    using assms(1) by (auto simp: usable_tool_def)
  then have "or_else (dt_input_schema t) (JDict []) = dt_input_schema t" "\<exists>d. cm_description (dt_claimed t) = JStr d"
    by (auto simp: merged_schema_def or_else_def claimed_for_def Let_def)
  then show ?thesis using assms(2) c(2)
    by (auto simp: parse_tool_def tool_to_payload_def parsed_of_def get_or_null_def get_or_def or_else_def py_str_def Let_def)
qed

lemma parse_tools_payload:
  assumes "list_all (usable_tool v) ts" "distinct (map dt_name (done_ts @ ts))"
  shows "parse_tools (map parsed_of done_ts) (map tool_to_payload ts) = Inr (map parsed_of (done_ts @ ts))"
  using assms
proof (induction ts arbitrary: done_ts)
  case (Cons t ts)
  have "parse_tool (map pt_name (map parsed_of done_ts)) (tool_to_payload t) = Inr (parsed_of t)"
    using Cons.prems by (intro parse_tool_payload [of v]) (auto simp: parsed_of_def)
  then show ?case using Cons.IH [of "done_ts @ [t]"] Cons.prems by simp
qed simp

lemma payload_accepted:
  assumes "parse_openapi document = Inr r"
  shows "parse_tools [] (discovery_to_payload r) = Inr (map parsed_of (dc_tools r)) \<and>
    (\<forall>t \<in> set (dc_tools r). py_dict (pt_schema (parsed_of t)) = Inr (dt_input_schema t))"
proof -
  note u = parse_openapi_tools [OF assms]
  have "parse_tools [] (discovery_to_payload r) = Inr (map parsed_of (dc_tools r))"
    using parse_tools_payload [of "dc_server_version r" "dc_tools r" "[]"] u by (simp add: discovery_to_payload_def)
  moreover have "py_dict (pt_schema (parsed_of t)) = Inr (dt_input_schema t)" if "t \<in> set (dc_tools r)" for t
    using u that by (auto simp: list_all_iff usable_tool_def merged_schema_def parsed_of_def py_dict_def)
  ultimately show ?thesis by blast
qed

text \<open>C33: what the OpenAPI adapter hands to the push ingest passes every check of it, unchanged: the parsed
  tools carry the same names, versions, claims and schemas, and each schema is already a dictionary.
\<close>

theorem openapi_payload_roundtrip:
  assumes "parse_openapi document = Inr r"
  shows "parse_tools [] (discovery_to_payload r) = Inr (map parsed_of (dc_tools r)) \<and>
    (\<forall>t \<in> set (dc_tools r). py_dict (pt_schema (parsed_of t)) = Inr (dt_input_schema t))"
  by (rule payload_accepted [OF assms])

section \<open>Faults\<close>

text \<open>The typed faults, and the exceptions of operations on values of an unexpected shape.\<close>

definition spec_fault :: "exn \<Rightarrow> bool" where
  "spec_fault e \<longleftrightarrow> (\<exists>kind \<in> set OPENAPI_FAULT_KINDS. e = OpenAPISpecError kind)"

definition shape_fault :: "exn \<Rightarrow> bool" where
  "shape_fault e \<longleftrightarrow> e \<in> {TypeError, ValueError, AttributeError}"

lemma spec_fault_kinds [simp]:
  "spec_fault (OpenAPISpecError ''invalid_parameter'')" "spec_fault (OpenAPISpecError ''duplicate_operation'')"
  "spec_fault (OpenAPISpecError ''not_openapi'')" "spec_fault (OpenAPISpecError ''no_operations'')"
  "spec_fault (OpenAPISpecError ''unreadable'')" "spec_fault (OpenAPISpecError ''malformed_document'')"
  by (simp_all add: spec_fault_def OPENAPI_FAULT_KINDS_def)

lemma shape_fault_exns [simp]: "shape_fault TypeError" "shape_fault ValueError" "shape_fault AttributeError"
  by (simp_all add: shape_fault_def)

lemma map_result_Inl: "map_result f xs = Inl e \<Longrightarrow> \<exists>x. f x = Inl e"
  by (induction xs) (auto simp: result_simps)

lemma py_iter_fault: "py_iter v = Inl e \<Longrightarrow> shape_fault e"
  by (cases v) auto

lemma py_dict_fault: "py_dict v = Inl e \<Longrightarrow> shape_fault e"
proof -
  have k: "key_text w = Inl e \<Longrightarrow> shape_fault e" for w by (cases w) auto
  have p: "pair_of w = Inl e \<Longrightarrow> shape_fault e" for w
  proof (cases "py_iter w")
    case (Inr xs)
    then show "pair_of w = Inl e \<Longrightarrow> shape_fault e"
      by (cases xs; cases "tl xs"; cases "tl (tl xs)") (auto simp: pair_of_def result_simps dest: k)
  qed (auto simp: pair_of_def dest: py_iter_fault)
  show "py_dict v = Inl e \<Longrightarrow> shape_fault e"
    by (auto simp: py_dict_def result_simps dest!: map_result_Inl dest: py_iter_fault p split: json.splits)
qed

lemma add_source_fault: "add_source src params = Inl e \<Longrightarrow> spec_fault e"
proof -
  have "add_parameters ps params = Inl e \<Longrightarrow> spec_fault e" for ps
    by (induction ps params rule: add_parameters.induct) (auto split: json.splits)
  then show "add_source src params = Inl e \<Longrightarrow> spec_fault e"
    by (auto simp: add_source_def split: json.splits)
qed

lemma parameter_schemas_fault: "parameter_schemas ps acc = Inl e \<Longrightarrow> shape_fault e"
  by (induction ps acc rule: parameter_schemas.induct) (auto simp: result_simps dest: py_dict_fault)

lemma merge_body_fault: "merge_body schema acc = Inl e \<Longrightarrow> shape_fault e"
  by (auto simp: merge_body_def Let_def result_simps dest: py_iter_fault split: prod.splits json.splits if_splits)

lemma merge_fault: "merge_schema_parameters op pitem = Inl e \<Longrightarrow> spec_fault e \<or> shape_fault e"
  by (auto simp: merge_schema_parameters_def result_simps
      dest: add_source_fault parameter_schemas_fault merge_body_fault split: option.splits)

lemma operation_name_fault: "operation_name verb path op = Inl e \<Longrightarrow> spec_fault e"
  by (auto simp: operation_name_def split: json.splits)

lemma parse_operations_fault:
  "parse_operations v path pitem items tools = Inl e \<Longrightarrow> spec_fault e \<or> shape_fault e"
proof (induction v path pitem items tools rule: parse_operations.induct)
  case (2 v path pitem verb operation items tools)
  then show ?case
    by (auto simp: result_simps dest: operation_name_fault merge_fault split: json.splits if_splits)
qed simp

lemma parse_paths_fault: "parse_paths v paths tools = Inl e \<Longrightarrow> spec_fault e \<or> shape_fault e"
proof (induction v paths tools rule: parse_paths.induct)
  case (2 v path pitem paths tools)
  then show ?case by (auto simp: result_simps dest: parse_operations_fault split: json.splits if_splits)
qed simp

lemma parse_openapi_fault:
  assumes "parse_openapi document = Inl e"
  shows "spec_fault e \<or> shape_fault e"
proof (cases "\<exists>doc version info paths. document = JDict doc \<and> get_or_null doc ''openapi'' = JStr version \<and>
    starts_with ''3.'' version \<and> or_else (get_or_null doc ''info'') (JDict []) = JDict info \<and>
    get_or_null doc ''paths'' = JDict paths")
  case True
  then obtain doc version info paths where d: "document = JDict doc" "get_or_null doc ''openapi'' = JStr version"
      "starts_with ''3.'' version" "or_else (get_or_null doc ''info'') (JDict []) = JDict info"
      "get_or_null doc ''paths'' = JDict paths"
    by blast
  obtain v where "parse_paths v paths [] = Inl e \<or> spec_fault e"
    using assms d by (auto simp: parse_openapi_def Let_def result_simps split: if_splits)
  then show ?thesis using parse_paths_fault by blast
next
  case False
  have "spec_fault e"
  proof (cases document)
    case (JDict doc)
    show ?thesis
    proof (cases "get_or_null doc ''openapi''")
      case (JStr version)
      show ?thesis
      proof (cases "or_else (get_or_null doc ''info'') (JDict [])")
        case (JDict info)
        then show ?thesis using assms False JStr \<open>document = JDict doc\<close>
          by (cases "get_or_null doc ''paths''") (auto simp: parse_openapi_def split: if_splits)
      qed (use assms JStr \<open>document = JDict doc\<close> in \<open>auto simp: parse_openapi_def split: if_splits\<close>)
    qed (use assms JDict in \<open>auto simp: parse_openapi_def\<close>)
  qed (use assms in \<open>auto simp: parse_openapi_def\<close>)
  then show ?thesis by blast
qed


section \<open>Witnesses\<close>

definition demo_document :: "json \<Rightarrow> json" where
  "demo_document schema = JDict [(''openapi'', JStr ''3.0.0''), (''paths'', JDict [(''/pets/{id}'', JDict [(''get'',
     JDict [(''operationId'', JStr ''getPet''), (''parameters'', JList [JDict [(''name'', JStr ''id''), (''schema'', schema)]])])])])]"

lemmas demo_document_defs = demo_document_def parse_openapi_def get_or_null_def get_or_def or_else_def METHODS_def operation_name_def
  merge_schema_parameters_def add_source_def py_dict_def
  body_schema_def py_str_def Let_def claimed_for_def READ_ONLY_METHODS_def

lemma demo_parsed:
  "\<exists>r. parse_openapi (demo_document (JDict [])) = Inr r \<and> map dt_name (dc_tools r) = [''getPet'']"
  by (simp add: demo_document_defs)

theorem openapi_usable_witness:
  "\<exists>r. parse_openapi (demo_document (JDict [])) = Inr r \<and> usable_tool (dc_server_version r) (hd (dc_tools r)) \<and>
     dt_name (hd (dc_tools r)) = ''getPet''"
proof -
  obtain r where r: "parse_openapi (demo_document (JDict [])) = Inr r" "map dt_name (dc_tools r) = [''getPet'']"
    using demo_parsed by (elim exE conjE)
  from openapi_usable [OF r(1)] show ?thesis using r by auto
qed

theorem openapi_payload_roundtrip_witness:
  "\<exists>r parsed. parse_openapi (demo_document (JDict [])) = Inr r \<and> parse_tools [] (discovery_to_payload r) = Inr parsed \<and>
     map pt_name parsed = [''getPet'']"
proof -
  obtain r where r: "parse_openapi (demo_document (JDict [])) = Inr r" "map dt_name (dc_tools r) = [''getPet'']"
    using demo_parsed by (elim exE conjE)
  from openapi_payload_roundtrip [OF r(1)] show ?thesis using r by (auto simp: parsed_of_def)
qed


end
