(* ===== verification/Cli.thy ===== *)
theory Cli
  imports Client Server_Props Openapi_Source
begin

text \<open>
  \<open>cli.py\<close>: the commands that put the parts together over files, the environment and database files.
  A \<open>Namespace\<close> is what \<open>argparse\<close> hands to a command. The \<open>world\<close> holds the files (absent, or with what
  reading them gives), the committed tables of each database file, the streams a connection draws
  from, and what the process has printed, answered, forwarded and replied. \<open>sqlite3.connect\<close> creates an
  absent database; a database that cannot be opened fails at its first statement; closing the
  connection, or the end of the process, discards an open transaction.

  Parameters, in the record \<open>cli_env\<close>: the environment variables, \<open>Path.expanduser\<close>, decoding of texts,
  TOML, JSON and YAML, Cedar's parser, the parameters of server and gateway, the requests that reach
  the server until it is interrupted, and the input of the gateway session. Of a printed line the
  interpolated values are kept, not the wording; the line that announces the server is left out.
\<close>

section \<open>Arguments, files and databases\<close>

record Namespace =
  ns_config :: "string option"
  ns_db :: "string option"
  ns_policies :: "string option"
  ns_host :: "string option"
  ns_port :: "int option"
  ns_token_env :: "string option"
  ns_rate_limit :: "int option"
  ns_gov_trust_root :: "string option"
  ns_gov_revocation_list :: "string option"
  ns_principal_id :: "string option"
  ns_principal_kind :: string
  ns_privacy_tier :: string
  ns_source_id :: "string option"
  ns_downstream :: "string list"
  ns_spec :: string
  ns_source :: string
  ns_tier :: string
  ns_out :: "string option"
  ns_kind :: "string option"
  ns_limit :: int
  ns_json :: bool

text \<open>What \<open>argparse\<close> fills in for options that are not given.\<close>

definition argument_defaults :: "string \<Rightarrow> string \<Rightarrow> string list \<Rightarrow> Namespace" where
  "argument_defaults spec source downstream =
     \<lparr>ns_config = None, ns_db = None, ns_policies = None, ns_host = None, ns_port = None, ns_token_env = None, ns_rate_limit = None,
      ns_gov_trust_root = None, ns_gov_revocation_list = None, ns_principal_id = None, ns_principal_kind = ''agent'',
      ns_privacy_tier = ''local'', ns_source_id = None, ns_downstream = downstream, ns_spec = spec, ns_source = source,
      ns_tier = ''untrusted'', ns_out = None, ns_kind = None, ns_limit = 50, ns_json = False\<rparr>"

datatype printed = Line string "json list" | Document json | Complaint

record world =
  wl_files :: "string \<Rightarrow> bytes result option"
  wl_dbs :: "(string, tables) dict"
  wl_clock :: "nat \<Rightarrow> instant"
  wl_uuids :: "nat \<Rightarrow> string"
  wl_faults :: "nat \<Rightarrow> bool"
  wl_printed :: "printed list"
  wl_answers :: "http_response list"
  wl_sent :: "json list"
  wl_replies :: "json list"

record cli_env =
  ce_environ :: "(string, string) dict"
  ce_expand :: "string \<Rightarrow> string result"
  ce_text :: "bytes \<Rightarrow> string result"
  ce_toml :: "bytes \<Rightarrow> (string \<times> json) list result"
  ce_loads :: "string \<Rightarrow> json result"
  ce_decode :: decoder
  ce_yaml :: "(bytes \<Rightarrow> json option) option"
  ce_float :: "string \<Rightarrow> pyfloat option"
  ce_cedar :: "string \<Rightarrow> cedar option"
  ce_server :: server_env
  ce_monotonic :: "nat \<Rightarrow> int"
  ce_traffic :: "(http_request \<times> bytes) list"
  ce_gateway :: gateway_env
  ce_spawn :: "string list \<Rightarrow> link option"
  ce_input :: string
  ce_out_fails :: "nat \<Rightarrow> bool"

text \<open>\<open>flag or value\<close>\<close>

definition flag_or :: "string option \<Rightarrow> json \<Rightarrow> json" where
  "flag_or flag v = (case non_empty flag of Some s \<Rightarrow> JStr s | None \<Rightarrow> v)"

text \<open>\<open>Path(v).expanduser()\<close>: only texts are paths.\<close>

definition path_of :: "cli_env \<Rightarrow> json \<Rightarrow> string result" where
  "path_of env v = (case v of JStr s \<Rightarrow> ce_expand env s | _ \<Rightarrow> Inl TypeError)"

definition read_bytes :: "string \<Rightarrow> world \<Rightarrow> bytes result" where
  "read_bytes path w = (case wl_files w path of Some r \<Rightarrow> r | None \<Rightarrow> Inl OSError)"

definition read_text :: "cli_env \<Rightarrow> string \<Rightarrow> world \<Rightarrow> string result" where
  "read_text env path w = bind_result (read_bytes path w) (ce_text env)"

definition exit_if :: "bool \<Rightarrow> ('s, unit) sx" where
  "exit_if b = (if b then sx_raise SystemExit else sx_return ())"

definition say :: "printed \<Rightarrow> (world, unit) sx" where
  "say p = sx_modify (\<lambda>w. w\<lparr>wl_printed := wl_printed w @ [p]\<rparr>)"

text \<open>A connection to a database file, and what remains of it in the world. Every connection to
  \<open>:memory:\<close> has a database of its own.\<close>

definition db_tables :: "string \<Rightarrow> world \<Rightarrow> tables" where
  "db_tables path w =
     (if path = '':memory:'' then empty_tables
      else case dict_get (wl_dbs w) path of Some t \<Rightarrow> t | None \<Rightarrow> empty_tables)"

definition connect :: "string \<Rightarrow> world \<Rightarrow> store" where
  "connect path w =
     \<lparr>st_tables = db_tables path w, st_begun = None, st_clock = wl_clock w, st_uuids = wl_uuids w, st_faults = wl_faults w\<rparr>"

definition disconnect :: "string \<Rightarrow> store \<Rightarrow> world \<Rightarrow> world" where
  "disconnect path s w = w\<lparr>wl_dbs := dict_set path (base s) (wl_dbs w), wl_clock := st_clock s, wl_uuids := st_uuids s,
     wl_faults := st_faults s\<rparr>"

text \<open>\<open>SqliteStore(path)\<close>, some work on it, and \<open>close\<close>.\<close>

definition on_db :: "string \<Rightarrow> (store, 'a) sx \<Rightarrow> (world, 'a) sx" where
  "on_db path m w =
     (case sx_bind open_store (\<lambda>_. m) (connect path w) of (r, s) \<Rightarrow> (r, disconnect path s w))"

section \<open>Configuration\<close>

definition load_config :: "cli_env \<Rightarrow> string option \<Rightarrow> (world, (string \<times> json) list) sx" where
  "load_config env path w =
     (case path of
        None \<Rightarrow> (Inr [], w)
      | Some p \<Rightarrow>
          (case wl_files w p of
             None \<Rightarrow> (Inl SystemExit, w)
           | Some r \<Rightarrow> (bind_result r (ce_toml env), w)))"

definition gov_path :: "cli_env \<Rightarrow> string option \<Rightarrow> string \<Rightarrow> json \<Rightarrow> json" where
  "gov_path env flag var v = flag_or flag (flag_or (dict_get (ce_environ env) var) v)"

definition named_file :: "cli_env \<Rightarrow> json \<Rightarrow> (world, string option) sx" where
  "named_file env v w =
     (if \<not> truthy v then (Inr None, w)
      else case path_of env v of
        Inl e \<Rightarrow> (Inl e, w)
      | Inr p \<Rightarrow> if wl_files w p = None then (Inl SystemExit, w)
                 else (bind_result (read_text env p w) (\<lambda>s. Inr (Some s)), w))"

definition load_governance :: "cli_env \<Rightarrow> Namespace \<Rightarrow> (string \<times> json) list \<Rightarrow> (world, string option \<times> json) sx" where
  "load_governance env args cfg =
     sx_bind (named_file env (gov_path env (ns_gov_trust_root args) ''TOOLCONNECT_GOV_TRUST_ROOT''
                               (get_or_null cfg ''gov_trust_root''))) (\<lambda>trust_root_pem.
     sx_bind (named_file env (gov_path env (ns_gov_revocation_list args) ''TOOLCONNECT_GOV_REVOCATION_LIST''
                               (get_or_null cfg ''gov_revocation_list''))) (\<lambda>list_text.
     case list_text of
       None \<Rightarrow> sx_return (trust_root_pem, JNull)
     | Some s \<Rightarrow>
         (case ce_loads env s of
            Inl e \<Rightarrow> sx_raise (if e = JSONDecodeError then SystemExit else e)
          | Inr doc \<Rightarrow> if is_dict doc then sx_return (trust_root_pem, doc) else sx_raise SystemExit)))"

text \<open>\<open>CedarPolicyEngine(text)\<close>\<close>

definition new_engine :: "cli_env \<Rightarrow> string \<Rightarrow> engine result" where
  "new_engine env policies = (case ce_cedar env policies of None \<Rightarrow> Inl ValueError | Some auth \<Rightarrow> Inr (cedar_decide auth))"

text \<open>The policy file of \<open>serve\<close> and \<open>gateway\<close>; a file that is not UTF-8 is a \<open>ValueError\<close> too.\<close>

definition load_engine :: "cli_env \<Rightarrow> json \<Rightarrow> (world, engine) sx" where
  "load_engine env policies_path w =
     (case path_of env policies_path of
        Inl e \<Rightarrow> (Inl e, w)
      | Inr p \<Rightarrow>
          if wl_files w p = None then (Inl SystemExit, w)
          else (case bind_result (read_text env p w) (new_engine env) of
                  Inl e \<Rightarrow> (Inl (if is_value_error e then SystemExit else e), w)
                | Inr engine \<Rightarrow> (Inr engine, w)))"

text \<open>The \<open>--db\<close> path of every command that opens a store.\<close>

definition db_arg :: "Namespace \<Rightarrow> (string \<times> json) list \<Rightarrow> json" where
  "db_arg args cfg = flag_or (ns_db args) (get_or_null cfg ''db'')"

definition db_path :: "cli_env \<Rightarrow> Namespace \<Rightarrow> (world, string) sx" where
  "db_path env args =
     sx_bind (load_config env (ns_config args)) (\<lambda>cfg.
     sx_bind (exit_if (\<not> truthy (db_arg args cfg))) (\<lambda>_.
     sx_lift (path_of env (db_arg args cfg))))"

text \<open>\<open>ToolConnectService(store, engine, \<dots>)\<close> and some work with it.\<close>

definition with_service :: "cli_env \<Rightarrow> string option \<Rightarrow> json \<Rightarrow> (service, 'a) sx \<Rightarrow> (store, 'a) sx" where
  "with_service env root revocation_list m st =
     (case new_service (from_env (ce_float env) (ce_environ env)) root revocation_list ''toolconnect'' st of
        (Inl e, st') \<Rightarrow> (Inl e, st')
      | (Inr svc, st') \<Rightarrow> (case m svc of (r, svc') \<Rightarrow> (r, sv_store svc')))"

section \<open>Reading commands\<close>

definition cmd_version :: "(world, int) sx" where
  "cmd_version = sx_bind (say (Line ''version'' [JStr VERSION])) (\<lambda>_. sx_return 0)"

definition cmd_init_db :: "cli_env \<Rightarrow> Namespace \<Rightarrow> (world, int) sx" where
  "cmd_init_db env args =
     sx_bind (db_path env args) (\<lambda>db.
     sx_bind (on_db db verify_chain) (\<lambda>chain.
     sx_bind (say (Line ''initialized'' [JStr db, JInt SCHEMA_VERSION, JBool (cv_ok chain), JInt (int (cv_records chain))])) (\<lambda>_.
     sx_return 0)))"

definition chain_line :: "ChainVerification \<Rightarrow> printed" where
  "chain_line c =
     (if cv_ok c then Line ''audit chain OK'' [JInt (int (cv_records c))]
      else Line ''audit chain BROKEN'' [case cv_broken_at c of Some n \<Rightarrow> JInt n | None \<Rightarrow> JNull, JStr (cv_detail c), JInt (int (cv_records c))])"

definition cmd_verify_audit :: "cli_env \<Rightarrow> Namespace \<Rightarrow> (world, int) sx" where
  "cmd_verify_audit env args =
     sx_bind (db_path env args) (\<lambda>db.
     sx_bind (on_db db verify_chain) (\<lambda>result.
     sx_bind (say (if ns_json args then Document (chain_as_dict result) else chain_line result)) (\<lambda>_.
     sx_return (if cv_ok result then 0 else 1))))"

definition drift_on :: "string \<Rightarrow> (store, DriftReport \<times> string) sx" where
  "drift_on source =
     sx_bind load_catalog (\<lambda>cat.
     sx_bind (exit_if (dict_get (cat_sources cat) source = None)) (\<lambda>_.
     sx_bind (last_discovery source) (\<lambda>obs.
     case obs of
       None \<Rightarrow> sx_raise SystemExit
     | Some (discovered, observed_at) \<Rightarrow> sx_return (Catalog.drift cat source discovered, observed_at))))"

definition drift_document :: "DriftReport \<Rightarrow> string \<Rightarrow> response" where
  "drift_document report observed_at =
     [(''source_id'', JStr (dr_source_id report)), (''clean'', JBool (drift_clean report)), (''summary'', JStr (drift_summary report)),
      (''observed_at'', JStr observed_at), (''advertised_missing'', str_list (dr_advertised_missing report)),
      (''undeclared_present'', str_list (dr_undeclared_present report)), (''unasserted'', str_list (dr_unasserted report)),
      (''claim_conflicts'', JList (map (\<lambda>(n, c). str_list [n, c]) (dr_claim_conflicts report))),
      (''redefined_after_assertion'', str_list (dr_redefined_after_assertion report))]"

definition drift_lines :: "DriftReport \<Rightarrow> string \<Rightarrow> printed list" where
  "drift_lines report observed_at =
     [Line ''summary'' [JStr (drift_summary report), JStr observed_at]] @
     List.map_filter (\<lambda>(label, names). if names = [] then None else Some (Line label (map JStr names)))
       [(''advertised-missing'', dr_advertised_missing report), (''undeclared-present'', dr_undeclared_present report),
        (''unasserted'', dr_unasserted report), (''redefined-after-assertion'', dr_redefined_after_assertion report)] @
     map (\<lambda>(n, c). Line ''claim-conflict'' [JStr n, JStr c]) (dr_claim_conflicts report)"

definition cmd_drift :: "cli_env \<Rightarrow> Namespace \<Rightarrow> (world, int) sx" where
  "cmd_drift env args =
     sx_bind (db_path env args) (\<lambda>db.
     sx_bind (on_db db (drift_on (ns_source args))) (\<lambda>(report, observed_at).
     sx_bind (if ns_json args then say (Document (JDict (drift_document report observed_at)))
              else sx_modify (\<lambda>w. w\<lparr>wl_printed := wl_printed w @ drift_lines report observed_at\<rparr>)) (\<lambda>_.
     sx_return (if drift_clean report then 0 else 2))))"

definition cmd_audit :: "cli_env \<Rightarrow> Namespace \<Rightarrow> (world, int) sx" where
  "cmd_audit env args =
     sx_bind (db_path env args) (\<lambda>db.
     sx_bind (on_db db (Store_Audit.read_audit (ns_kind args) (ns_limit args))) (\<lambda>records.
     sx_bind (say (if ns_json args then Document (JList (map audit_entry_json records))
                   else Line ''records'' (map (\<lambda>r. JList [JInt (ae_seq r), JStr (ae_kind r), ae_body r]) records))) (\<lambda>_.
     sx_return 0)))"

text \<open>The copy replaces whatever the destination held.\<close>

definition cmd_backup :: "cli_env \<Rightarrow> Namespace \<Rightarrow> (world, int) sx" where
  "cmd_backup env args =
     sx_bind (load_config env (ns_config args)) (\<lambda>cfg.
     sx_bind (exit_if (\<not> truthy (db_arg args cfg))) (\<lambda>_.
     sx_bind (exit_if (non_empty (ns_out args) = None)) (\<lambda>_.
     sx_bind (sx_lift (path_of env (db_arg args cfg))) (\<lambda>db.
     sx_bind (on_db db (sx_bind (sx_lift (path_of env (flag_or (ns_out args) JNull))) (\<lambda>dest.
                        sx_bind statement (\<lambda>_. sx_get (\<lambda>s. (dest, backup s)))))) (\<lambda>(dest, copy).
     sx_bind (sx_modify (\<lambda>w. w\<lparr>wl_dbs := dict_set dest copy (wl_dbs w)\<rparr>)) (\<lambda>_.
     sx_bind (on_db dest verify_chain) (\<lambda>chain.
     sx_bind (say (Line ''backed up'' [db_arg args cfg, JStr dest, JBool (cv_ok chain), JInt (int (cv_records chain))])) (\<lambda>_.
     sx_return (if cv_ok chain then 0 else 1)))))))))"

section \<open>Commands that build a service\<close>

definition ingest_document :: "DiscoveryResult \<Rightarrow> Namespace \<Rightarrow> (service, response) sx" where
  "ingest_document result args =
     sx_bind (sx_get (\<lambda>s. dict_get (cat_sources (sv_catalog s)) (ns_source args))) (\<lambda>known.
     sx_bind (if known = None
              then sx_bind (Service.register_source (ns_source args) (JStr (ns_tier args)) ''openapi'' None JNull) (\<lambda>_. sx_return ())
              else sx_return ()) (\<lambda>_.
     ingest_payload (ns_source args) (JList (discovery_to_payload result))))"

definition is_spec_error :: "exn \<Rightarrow> bool" where
  "is_spec_error e = (case e of OpenAPISpecError kind \<Rightarrow> True | _ \<Rightarrow> False)"

text \<open>The files are read while the connection is open; reading them does not depend on it.\<close>

definition ingest_work :: "cli_env \<Rightarrow> Namespace \<Rightarrow> (string \<times> json) list \<Rightarrow> world \<Rightarrow> (store, DiscoveryResult \<times> response) sx" where
  "ingest_work env args cfg w =
     sx_catch
       (sx_bind (sx_lift (load_openapi (read_bytes (ns_spec args) w) (ce_decode env) (ce_yaml env))) (\<lambda>result.
        sx_bind (sx_lift (fst (load_governance env args cfg w))) (\<lambda>(root, revocation_list).
        sx_bind (sx_lift (new_engine env [])) (\<lambda>engine.
        sx_bind (with_service env root revocation_list (ingest_document result args)) (\<lambda>out.
        sx_return (result, out))))))
       (\<lambda>e. sx_raise (if is_spec_error e then SystemExit else e))"

definition cmd_ingest_openapi :: "cli_env \<Rightarrow> Namespace \<Rightarrow> (world, int) sx" where
  "cmd_ingest_openapi env args =
     sx_bind (load_config env (ns_config args)) (\<lambda>cfg.
     sx_bind (exit_if (\<not> truthy (db_arg args cfg))) (\<lambda>_.
     sx_bind (sx_lift (path_of env (db_arg args cfg))) (\<lambda>db.
     sx_bind (\<lambda>w. on_db db (ingest_work env args cfg w) w) (\<lambda>(result, out).
     sx_bind (say (Line ''ingested'' [get_or_null out ''ingested'', JStr (ns_spec args), JStr (ns_source args), JStr (dc_server_name result),
                     JStr (dc_server_version result), JStr (dc_protocol_version result)])) (\<lambda>_.
     sx_return 0)))))"

definition DEFAULT_HOST :: string where "DEFAULT_HOST = ''127.0.0.1''"
definition DEFAULT_PORT :: int where "DEFAULT_PORT = 8095"

text \<open>\<open>host in LOOPBACK_HOSTS\<close>; lists and dictionaries are not hashable.\<close>

fun is_loopback :: "json \<Rightarrow> bool result" where
  "is_loopback (JStr h) = Inr (h \<in> set LOOPBACK_HOSTS)"
| "is_loopback (JList vs) = Inl TypeError"
| "is_loopback (JDict kvs) = Inl TypeError"
| "is_loopback v = Inr False"

text \<open>\<open>os.environ.get(token_env) or cfg.get("token") or None\<close>, as a JSON value.\<close>

definition serve_token :: "cli_env \<Rightarrow> Namespace \<Rightarrow> (string \<times> json) list \<Rightarrow> json result" where
  "serve_token env args cfg =
     (case flag_or (ns_token_env args) (or_else (get_or_null cfg ''token_env'') (JStr ''TOOLCONNECT_AUTH_TOKEN'')) of
        JStr var \<Rightarrow> Inr (or_else (flag_or (dict_get (ce_environ env) var) (get_or_null cfg ''token'')) JNull)
      | _ \<Rightarrow> Inl TypeError)"

text \<open>
  A configured token that is not a text makes \<open>compare_digest\<close> raise \<open>TypeError\<close> on whatever is presented,
  exactly as a text outside ASCII does: such a text stands for it.
\<close>

definition token_text :: "json \<Rightarrow> string option" where
  "token_text v = (if \<not> truthy v then None else case v of JStr s \<Rightarrow> Some s | _ \<Rightarrow> Some [CHR 0xFF])"

definition int_option :: "int option \<Rightarrow> (string \<times> json) list \<Rightarrow> string \<Rightarrow> int \<Rightarrow> int result" where
  "int_option flag cfg k dflt = (case flag of Some n \<Rightarrow> Inr n | None \<Rightarrow> py_int_of (get_or cfg k (JInt dflt)))"

text \<open>\<open>serve\<close>: the requests that arrive before the interrupt, one after the other.\<close>

definition serve_forever :: "server_env \<Rightarrow> (http_request \<times> bytes) list \<Rightarrow> handler \<Rightarrow> http_response list \<times> service" where
  "serve_forever env traffic h = (hn_out (serve_all env traffic h), hn_service (serve_all env traffic h))"

definition with_engine :: "engine \<Rightarrow> deps \<Rightarrow> deps" where
  "with_engine engine d = d\<lparr>dp_engine := engine\<rparr>"

definition run_server :: "cli_env \<Rightarrow> engine \<Rightarrow> json \<Rightarrow> json \<Rightarrow> int \<Rightarrow> (service, http_response list) sx" where
  "run_server env engine host token rate_limit svc =
     (case host of
        JStr h \<Rightarrow>
          (case make_server svc h (token_text token) rate_limit (ce_monotonic env) of
             Inl e \<Rightarrow> (Inl e, svc)
           | Inr hn \<Rightarrow>
               (case serve_forever ((ce_server env)\<lparr>sd_deps := with_engine engine (sd_deps (ce_server env))\<rparr>) (ce_traffic env) hn of
                  (out, svc') \<Rightarrow> (Inr out, svc')))
      | _ \<Rightarrow> (Inl TypeError, svc))"

record serve_options =
  so_db :: json
  so_policies :: json
  so_host :: json
  so_port :: int
  so_token :: json
  so_rate_limit :: int

definition serve_config :: "cli_env \<Rightarrow> Namespace \<Rightarrow> (string \<times> json) list \<Rightarrow> serve_options result" where
  "serve_config env args cfg =
     bind_result (int_option (ns_port args) cfg ''port'' DEFAULT_PORT) (\<lambda>port.
     bind_result (serve_token env args cfg) (\<lambda>token.
     bind_result (int_option (ns_rate_limit args) cfg ''rate_limit_per_min'' 0) (\<lambda>rate_limit.
     Inr \<lparr>so_db = db_arg args cfg, so_policies = flag_or (ns_policies args) (get_or_null cfg ''policies''),
          so_host = flag_or (ns_host args) (or_else (get_or_null cfg ''host'') (JStr DEFAULT_HOST)), so_port = port,
          so_token = token, so_rate_limit = rate_limit\<rparr>)))"

definition cmd_serve :: "cli_env \<Rightarrow> Namespace \<Rightarrow> (world, int) sx" where
  "cmd_serve env args =
     sx_bind (load_config env (ns_config args)) (\<lambda>cfg.
     sx_bind (sx_lift (serve_config env args cfg)) (\<lambda>opts.
     sx_bind (exit_if (\<not> truthy (so_db opts))) (\<lambda>_.
     sx_bind (exit_if (\<not> truthy (so_policies opts))) (\<lambda>_.
     sx_bind (sx_lift (is_loopback (so_host opts))) (\<lambda>loopback.
     sx_bind (exit_if (\<not> loopback \<and> \<not> truthy (so_token opts))) (\<lambda>_.
     sx_bind (sx_lift (path_of env (so_db opts))) (\<lambda>db.
     sx_bind (load_engine env (so_policies opts)) (\<lambda>engine.
     sx_bind (load_governance env args cfg) (\<lambda>(root, revocation_list).
     sx_bind (on_db db (with_service env root revocation_list
                (run_server env engine (so_host opts) (so_token opts) (so_rate_limit opts)))) (\<lambda>answers.
     sx_bind (sx_modify (\<lambda>w. w\<lparr>wl_answers := wl_answers w @ answers\<rparr>)) (\<lambda>_.
     sx_return 0)))))))))))"

definition drop_separator :: "string list \<Rightarrow> string list" where
  "drop_separator downstream = (case downstream of [] \<Rightarrow> [] | x # xs \<Rightarrow> if x = ''--'' then xs else x # xs)"

definition run_session :: "cli_env \<Rightarrow> engine \<Rightarrow> (string \<times> json) list \<Rightarrow> string \<Rightarrow> string list \<Rightarrow> (service, json list \<times> json list) sx" where
  "run_session env engine who source_id downstream svc =
     (case new_gateway (ce_spawn env) svc who source_id downstream (ce_out_fails env) of
        Inl (Uncaught e) \<Rightarrow> (Inl e, svc)
      | Inl _ \<Rightarrow> (Inl SystemExit, svc)
      | Inr g \<Rightarrow>
          (let g' = run_gateway ((ce_gateway env)\<lparr>ge_deps := with_engine engine (ge_deps (ce_gateway env))\<rparr>) (ce_input env) g
           in (Inr (lk_sent (gw_link g'), gw_out g'), gw_service g')))"

definition cmd_gateway :: "cli_env \<Rightarrow> Namespace \<Rightarrow> (world, int) sx" where
  "cmd_gateway env args =
     sx_bind (load_config env (ns_config args)) (\<lambda>cfg.
     let policies_path = flag_or (ns_policies args) (get_or_null cfg ''policies'');
         downstream = drop_separator (ns_downstream args) in
     sx_bind (exit_if (\<not> truthy (db_arg args cfg))) (\<lambda>_.
     sx_bind (exit_if (\<not> truthy policies_path)) (\<lambda>_.
     case (non_empty (ns_principal_id args), non_empty (ns_source_id args)) of
       (Some principal_id, Some source_id) \<Rightarrow>
         sx_bind (exit_if (downstream = [])) (\<lambda>_.
         sx_bind (sx_lift (path_of env (db_arg args cfg))) (\<lambda>db.
         sx_bind (load_engine env policies_path) (\<lambda>engine.
         sx_bind (load_governance env args cfg) (\<lambda>(root, revocation_list).
         sx_bind (on_db db (with_service env root revocation_list
                    (run_session env engine [(''id'', JStr principal_id), (''kind'', JStr (ns_principal_kind args)),
                       (''privacy_tier'', JStr (ns_privacy_tier args))] source_id downstream))) (\<lambda>(sent, replies).
         sx_bind (sx_modify (\<lambda>w. w\<lparr>wl_sent := wl_sent w @ sent, wl_replies := wl_replies w @ replies\<rparr>)) (\<lambda>_.
         sx_return 0))))))
     | _ \<Rightarrow> sx_raise SystemExit)))"

section \<open>The process\<close>

datatype command =
  Version | InitDb | Serve | GatewayCmd | IngestOpenapi | VerifyAudit | DriftCmd | Backup | AuditCmd

fun func :: "command \<Rightarrow> cli_env \<Rightarrow> Namespace \<Rightarrow> (world, int) sx" where
  "func Version env args = cmd_version"
| "func InitDb env args = cmd_init_db env args"
| "func Serve env args = cmd_serve env args"
| "func GatewayCmd env args = cmd_gateway env args"
| "func IngestOpenapi env args = cmd_ingest_openapi env args"
| "func VerifyAudit env args = cmd_verify_audit env args"
| "func DriftCmd env args = cmd_drift env args"
| "func Backup env args = cmd_backup env args"
| "func AuditCmd env args = cmd_audit env args"

text \<open>\<open>main\<close> after parsing; \<open>sys.exit\<close> turns a message or a traceback into status 1.\<close>

definition main_cmd :: "command \<Rightarrow> cli_env \<Rightarrow> Namespace \<Rightarrow> (world, int) sx" where
  "main_cmd c env args =
     sx_catch (func c env args) (\<lambda>e.
       if e = SchemaTooNewError then sx_bind (say Complaint) (\<lambda>_. sx_return 1) else sx_raise e)"

definition exit_status :: "int result \<Rightarrow> int" where
  "exit_status r = (case r of Inr n \<Rightarrow> n | Inl e \<Rightarrow> 1)"

end
