(* ===== verification/Client_Props.thy ===== *)
theory Client_Props
  imports Client
begin

text \<open>
  What the client promises for every network and every server: the executor runs only behind an
  accepted authorization and an explicit redemption, and which exceptions can reach the caller.
\<close>

section \<open>What a computation adds to the log\<close>

definition is_exchange :: "event \<Rightarrow> bool" where
  "is_exchange e \<longleftrightarrow> (\<exists>verb path body r. e = Exchange verb path body r)"

definition talks :: "'n net \<Rightarrow> 'n net \<Rightarrow> bool" where
  "talks w w' \<longleftrightarrow> (\<exists>evs. nt_log w' = nt_log w @ evs \<and> list_all is_exchange evs)"

interpretation talks: sx_relation talks
proof unfold_locales
  show "talks w w" for w :: "'a net" by (auto simp: talks_def)
  show "talks w u" if "talks w v" "talks v u" for w v u :: "'a net"
  proof -
    obtain xs ys where "nt_log v = nt_log w @ xs" "list_all is_exchange xs" "nt_log u = nt_log v @ ys" "list_all is_exchange ys"
      using \<open>talks w v\<close> \<open>talks v u\<close> by (auto simp: talks_def)
    then show ?thesis by (intro talks_def [THEN iffD2] exI [of _ "xs @ ys"]) simp
  qed
qed

lemma client_request_log:
  "client_request env c verb path body w = (r, w') \<Longrightarrow> nt_log w' = nt_log w @ [Exchange verb path body r]"
  by (auto simp: client_request_def Let_def split: prod.splits)

lemma talks_request: "within talks (client_request env c verb path body)"
  by (rule withinI) (auto simp: talks_def is_exchange_def dest!: client_request_log)

lemmas talks_rules = talks.within_rules talks_request

lemma talks_best_effort: "within talks m \<Longrightarrow> within talks (best_effort m)"
  unfolding best_effort_def by (auto intro!: talks_rules)

lemma talks_cleanup:
  "within talks (client_close_grant env c gid reason)" "within talks (client_record_outcome env c did outcome detail g)"
  "within talks (abandon env c did gid e)"
  unfolding abandon_def client_close_grant_def client_record_outcome_def
  by (intro talks_rules talks_best_effort)+

text \<open>One exchange whose answer is then read.\<close>

lemma exchange_then_read:
  assumes "sx_bind (client_request env c verb path body) (\<lambda>sp. sx_lift (f sp)) w = (r, w')"
  obtains q where "nt_log w' = nt_log w @ [Exchange verb path body q]"
    "r = (case q of Inl e \<Rightarrow> Inl e | Inr sp \<Rightarrow> f sp)"
    "client_request env c verb path body w = (q, w')"
proof -
  obtain q w1 where req: "client_request env c verb path body w = (q, w1)" by fastforce
  have "w1 = w'" "r = (case q of Inl e \<Rightarrow> Inl e | Inr sp \<Rightarrow> f sp)"
    using assms req by (auto simp: sx_bind_def sx_lift_def split: sum.splits)
  then show ?thesis using that req client_request_log by metis
qed

text \<open>An accepted authorization, and an accepted redemption.\<close>

definition accepted_decision :: "(string \<times> json) list \<Rightarrow> string \<Rightarrow> bool" where
  "accepted_decision dk gid \<longleftrightarrow>
     dict_get dk ''allowed'' \<noteq> None \<and> truthy (get_or_null dk ''allowed'') \<and>
     \<not> incompatible (text_field dk ''contract_version'' '''') \<and>
     (\<exists>gk. get_or_null dk ''grant'' = JDict gk \<and> gid = text_field gk ''grant_id'' '''')"

definition accepted_redemption :: "(string \<times> json) list \<Rightarrow> string \<Rightarrow> string \<Rightarrow> bool" where
  "accepted_redemption rk source_id name \<longleftrightarrow>
     dict_get rk ''redeemed'' = Some (JBool True) \<and>
     \<not> incompatible (text_field rk ''contract_version'' '''') \<and>
     (let src = py_str (or_else (get_or_null rk ''source_id'') (JStr []));
          nm = py_str (or_else (get_or_null rk ''name'') (JStr []))
      in (src = [] \<or> src = source_id) \<and> (nm = [] \<or> nm = name))"

lemma read_decision_accepted:
  assumes "read_decision sp = Inr d" "cd_allowed d" "cd_grant d = Some g"
  obtains dk where "sp = (200, JDict dk)" "accepted_decision dk (cg_grant_id g)" "cd_decision_id d = text_field dk ''decision_id'' ''''"
proof -
  obtain dk where dk: "usable ''allowed'' sp = Some dk" "from_json dk = Inr d" "\<not> incompatible (cd_contract_version d)"
    using assms(1) by (auto simp: read_decision_def result_simps split: option.splits if_splits)
  have sp: "sp = (200, JDict dk)" "dict_get dk ''allowed'' \<noteq> None"
    using dk(1) by (auto simp: usable_def split: prod.splits json.splits if_splits)
  have "truthy (get_or_null dk ''allowed'')" "cd_contract_version d = text_field dk ''contract_version'' ''''"
      "cd_decision_id d = text_field dk ''decision_id'' ''''" "grant_from_json (get_or_null dk ''grant'') = Inr (Some g)"
    using dk(2) assms(2,3) by (auto simp: from_json_def result_simps)
  moreover from this(4) have "\<exists>gk. get_or_null dk ''grant'' = JDict gk \<and> cg_grant_id g = text_field gk ''grant_id'' ''''"
    by (auto simp: grant_from_json_def result_simps split: json.splits)
  ultimately show ?thesis using that sp dk(3) by (auto simp: accepted_decision_def)
qed

lemma read_redemption_accepted:
  assumes "read_redemption gid sp = Inr red" "cr_redeemed red"
    "\<not> ((cr_source_id red \<noteq> [] \<and> cr_source_id red \<noteq> source_id) \<or> (cr_name red \<noteq> [] \<and> cr_name red \<noteq> name))"
  obtains rk where "sp = (200, JDict rk)" "accepted_redemption rk source_id name"
proof -
  obtain rk where rk: "usable ''redeemed'' sp = Some rk" using assms(1) by (auto simp: read_redemption_def split: option.splits)
  then have "sp = (200, JDict rk)" by (auto simp: usable_def split: prod.splits json.splits if_splits)
  moreover have "accepted_redemption rk source_id name"
    using assms rk by (auto simp: read_redemption_def accepted_redemption_def Let_def split: if_splits)
  ultimately show ?thesis using that by blast
qed

section \<open>The executor runs behind a redemption\<close>

definition redeem_exchange :: "string \<Rightarrow> (string \<times> json) list \<Rightarrow> (string \<times> json) list \<Rightarrow> (string \<times> json) list \<Rightarrow> event" where
  "redeem_exchange gid p args rk =
     Exchange ''POST'' (''/grants/'' @ gid @ ''/redeem'') (Some (JDict [(''principal'', JDict p), (''args'', JDict args)]))
       (Inr (200, JDict rk))"

definition authorize_exchange ::
  "(string \<times> json) list \<Rightarrow> string \<Rightarrow> string \<Rightarrow> (string \<times> json) list option \<Rightarrow> (string \<times> json) list \<Rightarrow> int option
     \<Rightarrow> (string \<times> json) list \<Rightarrow> event" where
  "authorize_exchange p source_id name context args ttl dk =
     Exchange ''POST'' ''/authorize'' (Some (JDict (authorize_body p source_id name context (Some args) ttl))) (Inr (200, JDict dk))"

abbreviation redeem_call where
  "redeem_call env c gid p args \<equiv> client_request env c ''POST'' (''/grants/'' @ gid @ ''/redeem'')
     (Some (JDict [(''principal'', JDict p), (''args'', JDict args)]))"

abbreviation authorize_call where
  "authorize_call env c p sid name context args ttl \<equiv> client_request env c ''POST'' ''/authorize''
     (Some (JDict (authorize_body p sid name context (Some args) ttl)))"

lemma redeem_and_run_log:
  assumes "redeem_and_run env c executor p sid name args gid w = (r, w')"
  shows "(\<exists>q. nt_log w' = nt_log w @ [Exchange ''POST'' (''/grants/'' @ gid @ ''/redeem'')
            (Some (JDict [(''principal'', JDict p), (''args'', JDict args)])) q] \<and> (\<exists>e. r = Inl e)) \<or>
    (\<exists>rk w1. client_request env c ''POST'' (''/grants/'' @ gid @ ''/redeem'')
            (Some (JDict [(''principal'', JDict p), (''args'', JDict args)])) w = (Inr (200, JDict rk), w1) \<and>
       accepted_redemption rk sid name \<and> executor (JDict args) (nt_peer w1) = (r, nt_peer w') \<and>
       nt_log w' = nt_log w @ [redeem_exchange gid p args rk, Ran (JDict args)])"
proof -
  obtain q w1 where red: "client_redeem env c gid p args w = (q, w1)" by fastforce
  then obtain sp where sp: "nt_log w1 = nt_log w @ [Exchange ''POST'' (''/grants/'' @ gid @ ''/redeem'')
        (Some (JDict [(''principal'', JDict p), (''args'', JDict args)])) sp]"
      "q = (case sp of Inl e \<Rightarrow> Inl e | Inr sp \<Rightarrow> read_redemption gid sp)"
      "client_request env c ''POST'' (''/grants/'' @ gid @ ''/redeem'')
         (Some (JDict [(''principal'', JDict p), (''args'', JDict args)])) w = (sp, w1)"
    unfolding client_redeem_def by (rule exchange_then_read)
  let ?ok = "\<lambda>red. cr_redeemed red \<and>
    \<not> ((cr_source_id red \<noteq> [] \<and> cr_source_id red \<noteq> sid) \<or> (cr_name red \<noteq> [] \<and> cr_name red \<noteq> name))"
  show ?thesis
  proof (cases "\<exists>red. q = Inr red \<and> ?ok red")
    case False
    then have "w' = w1 \<and> (\<exists>e. r = Inl e)"
      using assms red by (cases q) (auto simp: redeem_and_run_def sx_bind_def sx_raise_def split: if_splits)
    then show ?thesis using sp(1) by blast
  next
    case True
    then obtain red where q: "q = Inr red" "cr_redeemed red"
        "\<not> ((cr_source_id red \<noteq> [] \<and> cr_source_id red \<noteq> sid) \<or> (cr_name red \<noteq> [] \<and> cr_name red \<noteq> name))" by blast
    obtain sp' where sp': "sp = Inr sp'" "read_redemption gid sp' = Inr red" using sp(2) q(1) by (cases sp) auto
    from read_redemption_accepted [OF sp'(2) q(2,3)] obtain rk where rk: "sp' = (200, JDict rk)" "accepted_redemption rk sid name" .
    have "run_executor executor args w1 = (r, w')"
      using assms red q by (auto simp: redeem_and_run_def sx_bind_def)
    then show ?thesis using sp(1,3) sp'(1) rk by (auto simp: run_executor_def redeem_exchange_def split: prod.splits)
  qed
qed

lemma best_effort_result:
  assumes "best_effort m w = (q, w')"
  shows "q = Inr () \<or> (\<exists>e. q = Inl e \<and> \<not> toolconnect_error e)"
  using assms
  by (auto simp: best_effort_def sx_catch_def sx_bind_def sx_return_def sx_raise_def split: prod.splits sum.splits if_splits)

lemma abandon_result:
  assumes "abandon env c did gid e w = (q, w')"
  shows "talks w w' \<and> (\<exists>e'. q = Inl e' \<and> (e' = e \<or> \<not> toolconnect_error e'))"
proof -
  obtain q1 w1 where close: "best_effort (client_close_grant env c gid ''aborted'') w = (q1, w1)" by fastforce
  obtain q2 w2 where report: "best_effort (client_record_outcome env c did ''error'' None (Some gid)) w1 = (q2, w2)" by fastforce
  have "\<exists>e'. q = Inl e' \<and> (e' = e \<or> \<not> toolconnect_error e')"
    using assms close report best_effort_result [OF close] best_effort_result [OF report]
    by (auto simp: abandon_def sx_bind_def sx_raise_def)
  then show ?thesis using withinD [OF talks_cleanup(3) assms] by blast
qed

lemma report_result:
  assumes "sx_bind (best_effort m) (\<lambda>_. sx_return x) w = (r, w')" "within talks m"
  shows "talks w w' \<and> (r = Inr x \<or> (\<exists>e. r = Inl e \<and> \<not> toolconnect_error e))"
proof -
  obtain q w1 where q: "best_effort m w = (q, w1)" by fastforce
  have "talks w w1" using withinD [OF talks_best_effort [OF assms(2)] q] .
  then show ?thesis using assms(1) q best_effort_result [OF q] by (auto simp: sx_bind_def sx_return_def)
qed

text \<open>What follows an accepted decision.\<close>

lemma after_decision:
  fixes executor :: "json \<Rightarrow> 'n \<Rightarrow> 'r result \<times> 'n"
  assumes "sx_bind (sx_catch (redeem_and_run env c executor p sid name args gid) (abandon env c did gid)) (\<lambda>result.
      sx_bind (best_effort (client_record_outcome env c did ''executed'' None (Some gid))) (\<lambda>_. sx_return result)) w = (r, w')"
  shows "(talks w w' \<and> (\<exists>e. r = Inl e)) \<or>
    (\<exists>rk res n n' tail. nt_log w' = nt_log w @ [redeem_exchange gid p args rk, Ran (JDict args)] @ tail \<and>
       list_all is_exchange tail \<and> accepted_redemption rk sid name \<and>
       redeem_call env c gid p args w = (Inr (200, JDict rk), n) \<and> executor (JDict args) (nt_peer n) = (res, n') \<and>
       (r = res \<or> (\<exists>e. r = Inl e \<and> \<not> toolconnect_error e)))"
proof -
  obtain q w1 where run: "redeem_and_run env c executor p sid name args gid w = (q, w1)" by fastforce
  have rest: "talks w1 w' \<and> (r = q \<or> (\<exists>e. r = Inl e \<and> \<not> toolconnect_error e))"
  proof (cases q)
    case (Inl e)
    obtain q2 w2 where ab: "(abandon env c did gid e :: ('n net, 'r) sx) w1 = (q2, w2)" by fastforce
    show ?thesis using abandon_result [OF ab] assms run Inl ab by (auto simp: sx_bind_def sx_catch_def)
  next
    case (Inr x)
    then have "sx_bind (best_effort (client_record_outcome env c did ''executed'' None (Some gid))) (\<lambda>_. sx_return x) w1 = (r, w')"
      using assms run by (simp add: sx_bind_def [where m = "sx_catch _ _"] sx_catch_def)
    from report_result [OF this talks_cleanup(2)] show ?thesis using Inr by simp
  qed
  obtain tail where tail: "nt_log w' = nt_log w1 @ tail" "list_all is_exchange tail" using rest by (auto simp: talks_def)
  from redeem_and_run_log [OF run] show ?thesis
  proof (elim disjE exE conjE)
    fix sp e assume "nt_log w1 = nt_log w @ [Exchange ''POST'' (''/grants/'' @ gid @ ''/redeem'')
        (Some (JDict [(''principal'', JDict p), (''args'', JDict args)])) sp]" "q = Inl e"
    then show ?thesis using rest tail by (auto simp: talks_def is_exchange_def)
  next
    fix rk w2
    assume "accepted_redemption rk sid name" "executor (JDict args) (nt_peer w2) = (q, nt_peer w1)"
      "redeem_call env c gid p args w = (Inr (200, JDict rk), w2)"
      "nt_log w1 = nt_log w @ [redeem_exchange gid p args rk, Ran (JDict args)]"
    then show ?thesis using rest tail by (intro disjI2 exI [of _ rk] exI [of _ q] exI [of _ w2] exI [of _ "nt_peer w1"] exI [of _ tail]) auto
  qed
qed

lemma governed_chain:
  assumes "governed_invoke env c executor p sid name args context ttl w = (r, w')"
  shows "\<exists>evs. nt_log w' = nt_log w @ evs \<and>
    ((list_all is_exchange evs \<and> (\<exists>e. r = Inl e)) \<or>
     (\<exists>dk rk gid res w1 n n' tail.
        evs = [authorize_exchange p sid name context args ttl dk, redeem_exchange gid p args rk, Ran (JDict args)] @ tail \<and>
        list_all is_exchange tail \<and> accepted_decision dk gid \<and> accepted_redemption rk sid name \<and>
        authorize_call env c p sid name context args ttl w = (Inr (200, JDict dk), w1) \<and>
        redeem_call env c gid p args w1 = (Inr (200, JDict rk), n) \<and>
        executor (JDict args) (nt_peer n) = (res, n') \<and> (r = res \<or> (\<exists>e. r = Inl e \<and> \<not> toolconnect_error e))))"
proof -
  obtain q w1 where auth: "client_authorize env c p sid name context (Some args) ttl w = (q, w1)" by fastforce
  then obtain sp where sp: "nt_log w1 = nt_log w @ [Exchange ''POST'' ''/authorize''
        (Some (JDict (authorize_body p sid name context (Some args) ttl))) sp]"
      "q = (case sp of Inl e \<Rightarrow> Inl e | Inr sp \<Rightarrow> read_decision sp)"
      "authorize_call env c p sid name context args ttl w = (sp, w1)"
    unfolding client_authorize_def by (rule exchange_then_read)
  show ?thesis
  proof (cases "\<exists>d g. q = Inr d \<and> cd_allowed d \<and> cd_grant d = Some g")
    case False
    then have "w' = w1 \<and> (\<exists>e. r = Inl e)"
      using assms auth by (cases q) (auto simp: governed_invoke_def sx_bind_def sx_raise_def split: if_splits option.splits)
    then show ?thesis using sp(1) by (auto simp: is_exchange_def)
  next
    case True
    then obtain d g where d: "q = Inr d" "cd_allowed d" "cd_grant d = Some g" by blast
    obtain sp' where sp': "sp = Inr sp'" "read_decision sp' = Inr d" using sp(2) d(1) by (cases sp) auto
    from read_decision_accepted [OF sp'(2) d(2,3)] obtain dk where dk: "sp' = (200, JDict dk)"
        "accepted_decision dk (cg_grant_id g)" by metis
    have log1: "nt_log w1 = nt_log w @ [authorize_exchange p sid name context args ttl dk]"
      using sp(1) sp'(1) dk(1) by (simp add: authorize_exchange_def)
    have "sx_bind (sx_catch (redeem_and_run env c executor p sid name args (cg_grant_id g))
        (abandon env c (cd_decision_id d) (cg_grant_id g))) (\<lambda>result.
        sx_bind (best_effort (client_record_outcome env c (cd_decision_id d) ''executed'' None (Some (cg_grant_id g)))) (\<lambda>_.
        sx_return result)) w1 = (r, w')"
      using assms auth d by (simp add: governed_invoke_def sx_bind_def [where m = "client_authorize _ _ _ _ _ _ _ _"])
    from after_decision [OF this] consider
        "talks w1 w' \<and> (\<exists>e. r = Inl e)"
      | rk res n n' tail where
          "nt_log w' = nt_log w1 @ [redeem_exchange (cg_grant_id g) p args rk, Ran (JDict args)] @ tail"
          "list_all is_exchange tail" "accepted_redemption rk sid name"
          "redeem_call env c (cg_grant_id g) p args w1 = (Inr (200, JDict rk), n)" "executor (JDict args) (nt_peer n) = (res, n')"
          "r = res \<or> (\<exists>e. r = Inl e \<and> \<not> toolconnect_error e)"
      by blast
    then show ?thesis
    proof cases
      case 1
      then show ?thesis using log1 by (auto simp: talks_def authorize_exchange_def is_exchange_def)
    next
      case (2 rk res n n' tail)
      let ?evs = "[authorize_exchange p sid name context args ttl dk, redeem_exchange (cg_grant_id g) p args rk, Ran (JDict args)] @ tail"
      have "nt_log w' = nt_log w @ ?evs" using log1 2(1) by simp
      moreover have "authorize_call env c p sid name context args ttl w = (Inr (200, JDict dk), w1)"
        using sp(3) sp'(1) dk(1) by simp
      ultimately show ?thesis using 2(2-6) dk(2) by blast
    qed
  qed
qed

text \<open>C6: whatever the server and the network do, a governed invocation runs the executor at most once,
  with the arguments it was given, and only right after an authorization that was answered 200 with a
  truthy \<open>allowed\<close>, a compatible contract and a grant, and a redemption of that grant with the same
  principal and arguments that was answered with exactly \<open>redeemed: true\<close> for the same tool. Without
  a run it raises; after a run it gives back what the executor did, or an exception that is not a
  client error.
\<close>

theorem governed_invoke_mediates:
  assumes "governed_invoke env c executor p sid name args context ttl w = (r, w')"
  shows "\<exists>evs. nt_log w' = nt_log w @ evs \<and>
    ((list_all is_exchange evs \<and> (\<exists>e. r = Inl e)) \<or>
     (\<exists>dk rk gid res n n' tail.
        evs = [authorize_exchange p sid name context args ttl dk, redeem_exchange gid p args rk, Ran (JDict args)] @ tail \<and>
        list_all is_exchange tail \<and> accepted_decision dk gid \<and> accepted_redemption rk sid name \<and>
        executor (JDict args) n = (res, n') \<and> (r = res \<or> (\<exists>e. r = Inl e \<and> \<not> toolconnect_error e))))"
  using governed_chain [OF assms] by blast

section \<open>The result after the run\<close>

lemma best_effort_exchange:
  assumes "client_request env c verb path body w = (q, w1)"
  shows "best_effort (sx_bind (client_request env c verb path body) (\<lambda>sp. sx_lift (object_reply sp))) w =
    (case q of Inl e \<Rightarrow> (if toolconnect_error e then Inr () else Inl e) | Inr sp \<Rightarrow> Inr (), w1)"
  using assms
  by (auto simp: best_effort_def sx_catch_def sx_bind_def sx_lift_def sx_return_def sx_raise_def object_reply_def toolconnect_error_def
      split: sum.splits prod.splits json.splits if_splits)

lemma governed_after_run:
  assumes "client_authorize env c p sid name context (Some args) ttl w = (Inr d, w1)" "cd_allowed d" "cd_grant d = Some g"
    "redeem_and_run env c executor p sid name args (cg_grant_id g) w1 = (Inr x, w2)"
    "client_request env c ''POST'' (''/decisions/'' @ cd_decision_id d @ ''/outcome'')
       (Some (JDict [(''outcome'', JStr ''executed''), (''grant_id'', JStr (cg_grant_id g))])) w2 = (q, w3)"
  shows "governed_invoke env c executor p sid name args context ttl w =
    (case q of Inl e \<Rightarrow> (if toolconnect_error e then Inr x else Inl e) | Inr sp \<Rightarrow> Inr x, w3)"
proof -
  have report: "best_effort (client_record_outcome env c (cd_decision_id d) ''executed'' None (Some (cg_grant_id g))) w2 =
      (case q of Inl e \<Rightarrow> (if toolconnect_error e then Inr () else Inl e) | Inr sp \<Rightarrow> Inr (), w3)"
    using best_effort_exchange [OF assms(5)] by (simp add: client_record_outcome_def)
  have catch: "sx_catch (redeem_and_run env c executor p sid name args (cg_grant_id g))
      (abandon env c (cd_decision_id d) (cg_grant_id g)) w1 = (Inr x, w2)"
    using assms(4) by (simp add: sx_catch_def)
  have "governed_invoke env c executor p sid name args context ttl w =
      sx_bind (best_effort (client_record_outcome env c (cd_decision_id d) ''executed'' None (Some (cg_grant_id g))))
        (\<lambda>_. sx_return x) w2"
    unfolding governed_invoke_def
    by (simp only: sx_bind_run [where m = "client_authorize _ _ _ _ _ _ _ _", OF assms(1)] assms(2,3) not_True_eq_False
        if_False option.case sx_bind_run [where m = "sx_catch _ _", OF catch])
  then show ?thesis using report by (auto simp: sx_bind_def sx_return_def split: sum.splits)
qed

text \<open>C35: once the executor has returned, the caller gets its result exactly when the report of the
  outcome does not raise an exception outside the client's own classes; such an exception, for
  example the decoding error of an answer that is not UTF-8, replaces the result.
\<close>

theorem governed_result_exact:
  assumes "client_authorize env c p sid name context (Some args) ttl w = (Inr d, w1)" "cd_allowed d" "cd_grant d = Some g"
    "redeem_and_run env c executor p sid name args (cg_grant_id g) w1 = (Inr x, w2)"
    "client_request env c ''POST'' (''/decisions/'' @ cd_decision_id d @ ''/outcome'')
       (Some (JDict [(''outcome'', JStr ''executed''), (''grant_id'', JStr (cg_grant_id g))])) w2 = (q, w3)"
  shows "governed_invoke env c executor p sid name args context ttl w =
    (case q of Inl e \<Rightarrow> (if toolconnect_error e then Inr x else Inl e) | Inr sp \<Rightarrow> Inr x, w3)"
  using assms by (rule governed_after_run)

section \<open>What counts as an allow\<close>

text \<open>The client reads an answer as an allow exactly when it is a 200 object whose \<open>allowed\<close> is truthy,
  with a compatible contract version and readable grant, policies and errors. The value need not be
  \<open>true\<close>: the text \<open>false\<close> is an allow too.
\<close>

theorem client_allow_exact:
  "((\<exists>d. read_decision sp = Inr d \<and> cd_allowed d) \<longleftrightarrow>
     (\<exists>kvs. sp = (200, JDict kvs) \<and> truthy (get_or_null kvs ''allowed'') \<and>
        \<not> incompatible (text_field kvs ''contract_version'' '''') \<and>
        (\<exists>g. grant_from_json (get_or_null kvs ''grant'') = Inr g) \<and>
        (\<exists>ps. items_field kvs ''determining_policies'' = Inr ps) \<and> (\<exists>es. items_field kvs ''errors'' = Inr es))) \<and>
   (\<exists>d. read_decision (200, JDict [(''allowed'', JStr ''false'')]) = Inr d \<and> cd_allowed d)"
proof
  have allow: "(\<exists>d. read_decision (200, JDict kvs) = Inr d \<and> cd_allowed d)"
    if "truthy (get_or_null kvs ''allowed'')" "\<not> incompatible (text_field kvs ''contract_version'' '''')"
      "grant_from_json (get_or_null kvs ''grant'') = Inr g" "items_field kvs ''determining_policies'' = Inr ps"
      "items_field kvs ''errors'' = Inr es" for kvs g ps es
  proof -
    have "dict_get kvs ''allowed'' \<noteq> None" using that(1) by (auto simp: get_or_null_def split: option.splits)
    then show ?thesis using that by (auto simp: read_decision_def usable_def from_json_def)
  qed
  show "(\<exists>d. read_decision sp = Inr d \<and> cd_allowed d) \<longleftrightarrow>
     (\<exists>kvs. sp = (200, JDict kvs) \<and> truthy (get_or_null kvs ''allowed'') \<and>
        \<not> incompatible (text_field kvs ''contract_version'' '''') \<and>
        (\<exists>g. grant_from_json (get_or_null kvs ''grant'') = Inr g) \<and>
        (\<exists>ps. items_field kvs ''determining_policies'' = Inr ps) \<and> (\<exists>es. items_field kvs ''errors'' = Inr es))"
    (is "?l \<longleftrightarrow> ?r")
  proof
    assume ?l
    then obtain d kvs where d: "cd_allowed d" "usable ''allowed'' sp = Some kvs" "from_json kvs = Inr d"
        "\<not> incompatible (cd_contract_version d)"
      by (auto simp: read_decision_def result_simps split: option.splits if_splits)
    then have "sp = (200, JDict kvs)" by (auto simp: usable_def split: prod.splits json.splits if_splits)
    then show ?r using d by (auto simp: from_json_def result_simps)
  qed (use allow in blast)
  show "\<exists>d. read_decision (200, JDict [(''allowed'', JStr ''false'')]) = Inr d \<and> cd_allowed d"
    by (rule allow) (simp_all add: get_or_null_def text_field_def get_or_def py_str_def incompatible_def grant_from_json_def items_field_def)
qed

section \<open>Witnesses\<close>

text \<open>A server that allows and redeems, and whose answer to the report is decoded as the parameter says.\<close>

definition demo_wire :: "nat wire" where
  "demo_wire call n = (Answered 200 (Inr [word_of_nat (Suc n)]), Suc n)"

definition demo_client_env :: "json result \<Rightarrow> nat client_env" where
  "demo_client_env report = \<lparr>ce_wire = demo_wire, ce_json = (\<lambda>bs.
     if bs = [1] then Inr (JDict [(''allowed'', JBool True), (''grant'', JDict [(''grant_id'', JStr ''g'')])])
     else if bs = [2] then Inr (JDict [(''redeemed'', JBool True)]) else report)\<rparr>"

definition demo_client :: client where
  "demo_client = \<lparr>cl_base_url = ''http://h'', cl_token = None, cl_timeout = FFin False 1 1\<rparr>"

definition demo_executor :: "json \<Rightarrow> nat \<Rightarrow> string result \<times> nat" where
  "demo_executor args n = (Inr ''done'', n)"

abbreviation demo_net :: "nat net" where
  "demo_net \<equiv> \<lparr>nt_peer = 0, nt_log = []\<rparr>"

lemmas demo_client_defs = demo_client_env_def demo_wire_def demo_client_def client_request_def parse_answer_def loads_or_null_def

lemma demo_authorized:
  "\<exists>d w. client_authorize (demo_client_env report) demo_client [] ''s'' ''n'' None (Some []) None demo_net = (Inr d, w) \<and>
     cd_allowed d \<and> cd_grant d = Some \<lparr>cg_grant_id = ''g'', cg_args_hash = [], cg_expires_at = [], cg_ttl_seconds = 0\<rparr> \<and>
     cd_decision_id d = [] \<and> nt_peer w = 1"
  by (simp add: client_authorize_def demo_client_defs sx_bind_def sx_lift_def read_decision_def usable_def from_json_def
      grant_from_json_def get_or_null_def get_or_def or_else_def text_field_def py_str_def items_field_def incompatible_def Let_def)

lemma demo_ran:
  assumes "nt_peer w = 1"
  shows "\<exists>w'. redeem_and_run (demo_client_env report) demo_client demo_executor [] ''s'' ''n'' [] ''g'' w = (Inr ''done'', w') \<and> nt_peer w' = 2"
  using assms
  by (simp add: redeem_and_run_def client_redeem_def demo_client_defs sx_bind_def sx_lift_def read_redemption_def usable_def
      get_or_null_def get_or_def or_else_def text_field_def py_str_def incompatible_def run_executor_def demo_executor_def Let_def)

lemma demo_reported:
  assumes "nt_peer w = 2"
  shows "\<exists>w'. client_request (demo_client_env report) demo_client verb path body w =
    (case report of Inl e \<Rightarrow> Inl (if e \<in> {OSError, JSONDecodeError} then ToolConnectUnavailable else e) | Inr v \<Rightarrow> Inr (200, v), w')"
  using assms by (auto simp: demo_client_defs Let_def split: sum.split)

theorem governed_result_exact_witness:
  "fst (governed_invoke (demo_client_env (Inl UnicodeDecodeError)) demo_client demo_executor [] ''s'' ''n'' [] None None demo_net) =
     Inl UnicodeDecodeError"
proof -
  obtain d w1 where d: "client_authorize (demo_client_env (Inl UnicodeDecodeError)) demo_client [] ''s'' ''n'' None (Some []) None demo_net = (Inr d, w1)"
      "cd_allowed d" "cd_grant d = Some \<lparr>cg_grant_id = ''g'', cg_args_hash = [], cg_expires_at = [], cg_ttl_seconds = 0\<rparr>"
      "nt_peer w1 = 1"
    using demo_authorized by blast
  obtain w2 where w2: "redeem_and_run (demo_client_env (Inl UnicodeDecodeError)) demo_client demo_executor [] ''s'' ''n'' [] ''g'' w1 = (Inr ''done'', w2)"
      "nt_peer w2 = 2"
    using demo_ran [OF d(4)] by blast
  obtain w3 where "client_request (demo_client_env (Inl UnicodeDecodeError)) demo_client ''POST'' (''/decisions/'' @ cd_decision_id d @ ''/outcome'')
      (Some (JDict [(''outcome'', JStr ''executed''), (''grant_id'', JStr ''g'')])) w2 = (Inl UnicodeDecodeError, w3)"
    using demo_reported [OF w2(2), of "Inl UnicodeDecodeError"] by simp blast
  then show ?thesis
    using governed_result_exact [OF d(1-3), of demo_executor "''done''" w2 "Inl UnicodeDecodeError" w3] w2(1)
    by (simp add: toolconnect_error_def)
qed

lemma demo_governed:
  "\<exists>w'. governed_invoke (demo_client_env (Inr (JDict []))) demo_client demo_executor [] ''s'' ''n'' [] None None demo_net = (Inr ''done'', w')"
proof -
  obtain d w1 where d: "client_authorize (demo_client_env (Inr (JDict []))) demo_client [] ''s'' ''n'' None (Some []) None demo_net = (Inr d, w1)"
      "cd_allowed d" "cd_grant d = Some \<lparr>cg_grant_id = ''g'', cg_args_hash = [], cg_expires_at = [], cg_ttl_seconds = 0\<rparr>"
      "nt_peer w1 = 1"
    using demo_authorized by blast
  obtain w2 where w2: "redeem_and_run (demo_client_env (Inr (JDict []))) demo_client demo_executor [] ''s'' ''n'' [] ''g'' w1 = (Inr ''done'', w2)"
      "nt_peer w2 = 2"
    using demo_ran [OF d(4)] by blast
  obtain w3 where "client_request (demo_client_env (Inr (JDict []))) demo_client ''POST'' (''/decisions/'' @ cd_decision_id d @ ''/outcome'')
      (Some (JDict [(''outcome'', JStr ''executed''), (''grant_id'', JStr ''g'')])) w2 = (Inr (200, JDict []), w3)"
    using demo_reported [OF w2(2), of "Inr (JDict [])"] by simp blast
  then show ?thesis
    using governed_after_run [OF d(1-3), of demo_executor "''done''" w2 "Inr (200, JDict [])" w3] w2(1) by simp
qed

theorem governed_invoke_mediates_witness:
  "\<exists>w'. governed_invoke (demo_client_env (Inr (JDict []))) demo_client demo_executor [] ''s'' ''n'' [] None None demo_net = (Inr ''done'', w') \<and>
     Ran (JDict []) \<in> set (nt_log w')"
proof -
  obtain w' where run: "governed_invoke (demo_client_env (Inr (JDict []))) demo_client demo_executor [] ''s'' ''n'' [] None None demo_net =
      (Inr ''done'', w')"
    using demo_governed by blast
  from governed_invoke_mediates [OF run] show ?thesis using run by auto
qed

end
