(* ===== verification/Deployment.thy ===== *)
theory Deployment
  imports Client_Props "HOL-Library.Countable"
begin

text \<open>
  The client in front of the server in front of the service: a \<open>wire\<close> that hands the client's calls
  to \<open>handle_request\<close>, with arbitrary requests of other clients before each exchange. What is proved
  in the parts composes: when a governed invocation runs its executor, the store of the service
  holds a grant bound to that call and redeemed by it.

  JSON travels as bytes through the parameter \<open>encode\<close>, which both decoders undo or refuse.
\<close>

section \<open>The composed system\<close>

record deployment =
  dy_handler :: handler
  dy_others :: "nat \<Rightarrow> (http_request \<times> bytes) list"

definition sent_request :: "(json \<Rightarrow> bytes) \<Rightarrow> string \<Rightarrow> http_call \<Rightarrow> http_request" where
  "sent_request encode root call =
     \<lparr>rq_method = hc_method call, rq_target = drop (length root) (hc_url call), rq_client = None,
      rq_authorization = hc_authorization call,
      rq_content_length = map_option (\<lambda>v. show_nat (length (encode v))) (hc_body call)\<rparr>"

text \<open>A connection that ends without an answer is an \<open>OSError\<close>; statuses outside 2xx are \<open>HTTPError\<close>.\<close>

definition deployed_wire :: "server_env \<Rightarrow> (json \<Rightarrow> bytes) \<Rightarrow> string \<Rightarrow> deployment wire" where
  "deployed_wire env encode root call d =
     (let h = (serve_all env (dy_others d 0) (dy_handler d))
                \<lparr>hn_in := (case hc_body call of Some v \<Rightarrow> encode v | None \<Rightarrow> []), hn_close := False\<rparr>;
          h' = handle_request env (sent_request encode root call) h
      in (case drop (length (hn_out h)) (hn_out h') of
            [] \<Rightarrow> WireRaised OSError
          | r # rs \<Rightarrow> if 200 \<le> hr_status r \<and> hr_status r < 300 then Answered (hr_status r) (Inr (encode (hr_body r)))
                     else HTTPError (hr_status r) (Inr (encode (hr_body r))),
          \<lparr>dy_handler = h', dy_others = \<lambda>n. dy_others d (Suc n)\<rparr>))"

text \<open>Decoding what was encoded gives the value back or raises.\<close>

definition faithful :: "(json \<Rightarrow> bytes) \<Rightarrow> decoder \<Rightarrow> bool" where
  "faithful encode decode \<longleftrightarrow> (\<forall>v. encode v \<noteq> [] \<and> (\<forall>u. decode (encode v) = Inr u \<longrightarrow> u = v))"

lemma faithfulD: "faithful encode decode \<Longrightarrow> decode (encode v) = Inr u \<Longrightarrow> v = u"
  by (auto simp: faithful_def)

lemma faithful_nonempty [simp]: "faithful encode decode \<Longrightarrow> encode v \<noteq> []"
  by (simp add: faithful_def)

abbreviation deployed_service :: "deployment net \<Rightarrow> service" where
  "deployed_service w \<equiv> hn_service (dy_handler (nt_peer w))"

section \<open>One exchange\<close>

lemma serve_all_evolves:
  assumes "\<And>c. within evolves (sd_untyped env c)"
  shows "evolves (hn_service h) (hn_service (serve_all env reqs h))"
proof (induction reqs arbitrary: h)
  case (Cons rb reqs)
  obtain req body where rb: "rb = (req, body)" by fastforce
  show ?case
    using Cons.IH [of "handle_request env req (h\<lparr>hn_in := body, hn_close := False\<rparr>)"]
      handle_evolves [OF assms, of "h\<lparr>hn_in := body, hn_close := False\<rparr>" req]
    by (auto simp: rb intro: evolves.trans)
qed (simp add: evolves.refl)

lemma content_length_sent:
  "hc_body call = Some v \<Longrightarrow> content_length (sent_request encode root call) = Inr (int (length (encode v)))"
  by (simp add: content_length_def sent_request_def py_int_show_nat)

text \<open>An answer 200 with a key other than \<open>error\<close> is what the route returned.\<close>

lemma exchange_served:
  assumes wire: "ce_wire cenv = deployed_wire env encode (cl_base_url c)"
    and decode: "faithful encode (ce_json cenv)"
    and untyped: "\<And>u. within evolves (sd_untyped env u)"
    and run: "client_request cenv c verb path (Some v) w = (Inr (200, JDict rk), w1)"
    and key: "dict_get rk k \<noteq> None" "k \<noteq> ''error''"
    and url: "sd_url env path = Inr (path, [])"
  obtains req h1 h2 where "evolves (deployed_service w) (hn_service h1)" "rq_method req = verb"
    "content_length req = Inr (int (length (encode v)))" "hn_in h1 = encode v"
    "route env req path [] h1 = (Inr (JDict rk), h2)" "hn_service h2 = deployed_service w1"
proof -
  let ?call = "\<lparr>hc_url = cl_base_url c @ path, hc_method = verb, hc_body = Some v,
    hc_authorization = map_option bearer (cl_token c)\<rparr>"
  let ?h0 = "serve_all env (dy_others (nt_peer w) 0) (dy_handler (nt_peer w))"
  let ?h = "?h0\<lparr>hn_in := encode v, hn_close := False\<rparr>"
  let ?req = "sent_request encode (cl_base_url c) ?call"
  obtain rs where rs: "hn_out (handle_request env ?req ?h) = hn_out ?h @ rs"
      "\<forall>r \<in> set rs. error_answer r \<or>
        (\<exists>path params result h1. sd_url env (rq_target ?req) = Inr (path, params) \<and>
           route env ?req path params (after_limit ?req ?h) = (Inr result, h1) \<and>
           hr_status r = 200 \<and> hr_body r = result \<and> hn_service (handle_request env ?req ?h) = hn_service h1)"
    using answer_origin [of env ?req ?h] by blast
  obtain a d where wired: "deployed_wire env encode (cl_base_url c) ?call (nt_peer w) = (a, d)" by fastforce
  have d: "dy_handler d = handle_request env ?req ?h"
      "a = (case rs of [] \<Rightarrow> WireRaised OSError
          | r # rs \<Rightarrow> if 200 \<le> hr_status r \<and> hr_status r < 300 then Answered (hr_status r) (Inr (encode (hr_body r)))
                     else HTTPError (hr_status r) (Inr (encode (hr_body r))))"
    using wired rs(1) by (auto simp: deployed_wire_def Let_def)
  have parsed: "parse_answer (ce_json cenv) a = Inr (200, JDict rk)" "nt_peer w1 = d"
    using run wired by (auto simp: client_request_def wire Let_def)
  obtain r rest where r: "rs = r # rest" "hr_body r = JDict rk"
    using parsed(1) d(2) faithful_nonempty [OF decode]
    by (auto simp: parse_answer_def loads_or_null_def dest!: faithfulD [OF decode] split: list.splits if_splits sum.splits)
  have "\<not> error_answer r" using key r(2) by (auto simp: error_answer_def split: if_splits)
  then obtain h1 where "route env ?req path [] (after_limit ?req ?h) = (Inr (JDict rk), h1)"
      "hn_service (handle_request env ?req ?h) = hn_service h1"
    using rs(2) r url by (auto simp: sent_request_def)
  moreover have "evolves (deployed_service w) (hn_service (after_limit ?req ?h))"
    using serve_all_evolves [OF untyped] by simp
  ultimately show ?thesis
    using that [of "after_limit ?req ?h" ?req h1] content_length_sent [of ?call v encode "cl_base_url c"] d(1) parsed(2)
    by (simp add: sent_request_def)
qed

lemma read_body_sent:
  assumes "content_length req = Inr (int (length (encode (JDict kvs))))" "hn_in h = encode (JDict kvs)"
    "faithful encode (sd_json env)" "read_body env req h = (Inr b, h')"
  shows "b = kvs \<and> hn_service h' = hn_service h"
  using assms
  by (auto simp: read_body_def sx_simps rfile_read_def convert_def faithful_def split: if_splits sum.splits json.splits)

lemma call_service_Inr:
  "call_service m h = (Inr (JDict resp), h') \<longleftrightarrow> (\<exists>s. m (hn_service h) = (Inr resp, s) \<and> h' = h\<lparr>hn_service := s\<rparr>)"
  by (auto simp: call_service_def on_service_def sx_bind_def sx_return_def split: prod.splits sum.splits)

section \<open>The two exchanges of a governed invocation\<close>

definition plain_id :: "string \<Rightarrow> bool" where
  "plain_id gid \<longleftrightarrow> gid \<noteq> [] \<and> list_all (\<lambda>c. is_digit c \<or> (CHR ''a'' \<le> c \<and> c \<le> CHR ''f'')) gid"

lemma plain_id_segment: "plain_id gid \<Longrightarrow> segment gid"
  by (auto simp: plain_id_def segment_def list_all_iff is_digit_def less_eq_char_def)

lemma authorize_served:
  assumes wire: "ce_wire cenv = deployed_wire env encode (cl_base_url c)"
    and decode: "faithful encode (ce_json cenv)" "faithful encode (sd_json env)"
    and untyped: "\<And>u. within evolves (sd_untyped env u)"
    and url: "sd_url env ''/authorize'' = Inr (''/authorize'', [])"
    and run: "authorize_call cenv c p sid name context args ttl w = (Inr (200, JDict dk), w1)"
    and ok: "accepted_decision dk gid"
  obtains s ctx t where "evolves (deployed_service w) s"
    "authorize (sd_deps env) (JDict p) sid name ctx (Some (JDict args)) t s = (Inr dk, deployed_service w1)"
proof -
  let ?b = "authorize_body p sid name context (Some args) ttl"
  have "dict_get dk ''allowed'' \<noteq> None" "''allowed'' \<noteq> ''error''" using ok by (simp_all add: accepted_decision_def)
  from exchange_served [OF wire decode(1) untyped run this url] obtain req h1 h2 where x: "evolves (deployed_service w) (hn_service h1)" "rq_method req = ''POST''"
      "content_length req = Inr (int (length (encode (JDict ?b))))" "hn_in h1 = encode (JDict ?b)"
      "route env req ''/authorize'' [] h1 = (Inr (JDict dk), h2)" "hn_service h2 = deployed_service w1"
    by blast
  have "route env req ''/authorize'' [] = sx_bind (read_body env req) (post_authorize env)"
    using route_plain(2) [of "''/authorize''" req env "[]"] x(2) by (simp add: route_post_def)
  then obtain b h3 where b: "read_body env req h1 = (Inr b, h3)" "post_authorize env b h3 = (Inr (JDict dk), h2)"
    using x(5) by (auto simp: sx_simps)
  have "b = ?b" "hn_service h3 = hn_service h1" using read_body_sent [OF x(3,4) decode(2) b(1)] by simp_all
  moreover have "principal_field ?b = JDict p" "text_field ?b ''source_id'' '''' = sid" "text_field ?b ''name'' '''' = name"
      "dict_get ?b ''args'' = Some (JDict args)"
    by (auto simp: authorize_body_def principal_field_def get_or_null_def get_or_def or_else_def text_field_def py_str_def split: option.splits)
  ultimately have "authorize (sd_deps env) (JDict p) sid name (get_or_null ?b ''context'') (Some (JDict args))
      (get_or_null ?b ''ttl_seconds'') (hn_service h1) = (Inr dk, deployed_service w1)"
    using b(2) x(6) by (auto simp: post_authorize_def call_service_Inr)
  then show ?thesis using that x(1) by blast
qed

lemma redeem_served:
  assumes wire: "ce_wire cenv = deployed_wire env encode (cl_base_url c)"
    and decode: "faithful encode (ce_json cenv)" "faithful encode (sd_json env)"
    and untyped: "\<And>u. within evolves (sd_untyped env u)"
    and url: "sd_url env (''/grants/'' @ gid @ ''/redeem'') = Inr (''/grants/'' @ gid @ ''/redeem'', [])" "plain_id gid"
    and run: "redeem_call cenv c gid p args w = (Inr (200, JDict rk), w1)"
    and ok: "accepted_redemption rk sid name"
  obtains s where "evolves (deployed_service w) s" "redeem_grant gid (JDict p) (JDict args) s = (Inr rk, deployed_service w1)"
proof -
  let ?b = "[(''principal'', JDict p), (''args'', JDict args)]" and ?path = "''/grants/'' @ gid @ ''/redeem''"
  have "dict_get rk ''redeemed'' \<noteq> None" "''redeemed'' \<noteq> ''error''" using ok by (simp_all add: accepted_redemption_def)
  from exchange_served [OF wire decode(1) untyped run this url(1)] obtain req h1 h2 where x: "evolves (deployed_service w) (hn_service h1)" "rq_method req = ''POST''"
      "content_length req = Inr (int (length (encode (JDict ?b))))" "hn_in h1 = encode (JDict ?b)"
      "route env req ?path [] h1 = (Inr (JDict rk), h2)" "hn_service h2 = deployed_service w1"
    by blast
  have "route env req ?path [] = sx_bind (read_body env req) (\<lambda>b. call_service (redeem_grant gid (principal_field b) (get_or_null b ''args'')))"
    using route_plain(2) [of ?path req env "[]"] x(2) post_routes(4) [OF _ plain_id_segment [OF url(2)], of "''x''" env req]
    by (simp add: dot_plus_def)
  then obtain b h3 where b: "read_body env req h1 = (Inr b, h3)"
      "call_service (redeem_grant gid (principal_field b) (get_or_null b ''args'')) h3 = (Inr (JDict rk), h2)"
    using x(5) by (auto simp: sx_simps)
  have "b = ?b" "hn_service h3 = hn_service h1" using read_body_sent [OF x(3,4) decode(2) b(1)] by simp_all
  moreover have "principal_field ?b = JDict p" by (cases p) (simp_all add: principal_field_def get_or_null_def or_else_def)
  ultimately have "redeem_grant gid (JDict p) (JDict args) (hn_service h1) = (Inr rk, deployed_service w1)"
    using b(2) x(6) by (auto simp: call_service_Inr get_or_null_def)
  then show ?thesis using that x(1) by blast
qed

section \<open>End to end\<close>

text \<open>The store holds a grant for exactly this call, and it is redeemed.\<close>

definition backs :: "service \<Rightarrow> string \<Rightarrow> (string \<times> json) list \<Rightarrow> string \<Rightarrow> string \<Rightarrow> (string \<times> json) list \<Rightarrow> bool" where
  "backs s gid p sid name args \<longleftrightarrow>
     (\<exists>pr h g. parse_principal (JDict p) = Inr pr \<and> check_args (JDict args) = Inr h \<and>
        dict_get (t_grants (st_tables (sv_store s))) gid = Some g \<and> gr_redeemed_at g \<noteq> None \<and>
        gr_principal_id g = p_id pr \<and> gr_source_id g = sid \<and> gr_name g = name \<and> gr_args_hash g = h)"

lemma issued_then_redeemed:
  assumes "idle (sv_store s0)" "evolves s0 s1"
    "authorize dp pv sid name ctx (Some a) t s1 = (Inr dk, s2)" "accepted_decision dk gid"
    "evolves s2 s3" "redeem_grant gid (JDict p) (JDict args) s3 = (Inr rk, s4)" "dict_get rk ''redeemed'' = Some (JBool True)"
  shows "backs s4 gid p sid name args \<and> \<not> spent (sv_store s0) (Redeemed gid)"
proof -
  have i1: "idle (sv_store s1)" using evolves_idle [OF assms(2,1)] .
  have e2: "evolves s1 s2" using withinD [OF evolves.authorize assms(3)] .
  have i2: "idle (sv_store s2)" using evolves_idle [OF e2 i1] .
  have i3: "idle (sv_store s3)" using evolves_idle [OF assms(5) i2] .
  obtain gk where gk: "get_or_null dk ''grant'' = JDict gk" "gid = text_field gk ''grant_id'' ''''"
    using assms(4) by (auto simp: accepted_decision_def)
  obtain row where row: "dict_get (t_grants (st_tables (sv_store s2))) (str_of (get_or_null gk ''grant_id'')) = Some row"
      "gr_source_id row = sid" "gr_name row = name" "is_str (get_or_null gk ''grant_id'')"
    using authorize_issued_row [OF i1 assms(3) gk(1)] by blast
  have gid: "str_of (get_or_null gk ''grant_id'') = gid"
    using row(4) gk(2) by (auto simp: text_field_def get_or_def get_or_null_def py_str_def split: option.splits json.splits)
  have kept: "grants_kept (t_grants (st_tables (sv_store s2))) (t_grants (st_tables (sv_store s3)))"
    using evolves_tables [OF assms(5) i2] by (simp add: tables_kept_def)
  obtain row3 where row3: "dict_get (t_grants (st_tables (sv_store s3))) gid = Some row3" "binding row3 = binding row"
    using grants_keptD [OF kept row(1)] gid by auto
  obtain pr h g g' where red: "parse_principal (JDict p) = Inr pr" "check_args (JDict args) = Inr h"
      "dict_get (t_grants (st_tables (sv_store s3))) gid = Some g" "gr_redeemed_at g = None"
      "gr_principal_id g = p_id pr" "gr_args_hash g = h"
      "dict_get (t_grants (st_tables (sv_store s4))) gid = Some g'" "binding g' = binding g" "gr_redeemed_at g' \<noteq> None"
    using redeemed_grant [OF i3 assms(6)] assms(7) by (auto simp: get_or_null_def)
  have "backs s4 gid p sid name args"
    using red row3 row(2,3) binding_fields [OF red(8)] binding_fields [OF row3(2)] by (auto simp: backs_def)
  moreover have e3: "evolves s0 s3" using assms(2,5) e2 evolves.trans by blast
  moreover have "\<not> spent (sv_store s3) (Redeemed gid)" using red(3,4) by simp
  ultimately show ?thesis using evolves_spent [OF e3 assms(1)] by blast
qed

text \<open>C2: a client on a deployed server, with any traffic of other clients in between. When a governed
  invocation runs its executor, then right after its redemption exchange the service's store holds
  a grant for exactly this principal, source, tool and argument digest, redeemed by this exchange:
  it was not redeemed before the invocation.
\<close>

theorem deployed_invocation_backed:
  assumes "ce_wire cenv = deployed_wire env encode (cl_base_url c)"
    and "faithful encode (ce_json cenv)" "faithful encode (sd_json env)"
    and "\<And>u. within evolves (sd_untyped env u)"
    and "sd_url env ''/authorize'' = Inr (''/authorize'', [])"
    and "\<And>gid. plain_id gid \<Longrightarrow> sd_url env (''/grants/'' @ gid @ ''/redeem'') = Inr (''/grants/'' @ gid @ ''/redeem'', [])"
    and "idle (sv_store (deployed_service w))"
    and "governed_invoke cenv c executor p sid name args context ttl w = (r, w')"
    and "Ran (JDict args) \<in> set (drop (length (nt_log w)) (nt_log w'))"
    and "\<forall>dk w1 gid. authorize_call cenv c p sid name context args ttl w = (Inr (200, JDict dk), w1) \<and>
      accepted_decision dk gid \<longrightarrow> plain_id gid"
  shows "\<exists>gid dk rk w1 w2 res d'. authorize_call cenv c p sid name context args ttl w = (Inr (200, JDict dk), w1) \<and>
    redeem_call cenv c gid p args w1 = (Inr (200, JDict rk), w2) \<and>
    executor (JDict args) (nt_peer w2) = (res, d') \<and> (r = res \<or> (\<exists>e. r = Inl e \<and> \<not> toolconnect_error e)) \<and>
    backs (deployed_service w2) gid p sid name args \<and> \<not> spent (sv_store (deployed_service w)) (Redeemed gid)"
proof -
  obtain evs where evs: "nt_log w' = nt_log w @ evs"
      "(list_all is_exchange evs \<and> (\<exists>e. r = Inl e)) \<or>
       (\<exists>dk rk gid res w1 n n' tail.
        evs = [authorize_exchange p sid name context args ttl dk, redeem_exchange gid p args rk, Ran (JDict args)] @ tail \<and>
        list_all is_exchange tail \<and> accepted_decision dk gid \<and> accepted_redemption rk sid name \<and>
        authorize_call cenv c p sid name context args ttl w = (Inr (200, JDict dk), w1) \<and>
        redeem_call cenv c gid p args w1 = (Inr (200, JDict rk), n) \<and>
        executor (JDict args) (nt_peer n) = (res, n') \<and> (r = res \<or> (\<exists>e. r = Inl e \<and> \<not> toolconnect_error e)))"
    using governed_chain [OF assms(8)] by blast
  have "\<not> list_all is_exchange evs" using assms(9) evs(1) by (auto simp: list_all_iff is_exchange_def)
  then obtain dk rk gid res w1 w2 d' tail where chain:
      "evs = [authorize_exchange p sid name context args ttl dk, redeem_exchange gid p args rk, Ran (JDict args)] @ tail"
      "accepted_decision dk gid" "accepted_redemption rk sid name"
      "authorize_call cenv c p sid name context args ttl w = (Inr (200, JDict dk), w1)"
      "redeem_call cenv c gid p args w1 = (Inr (200, JDict rk), w2)" "executor (JDict args) (nt_peer w2) = (res, d')"
      "r = res \<or> (\<exists>e. r = Inl e \<and> \<not> toolconnect_error e)"
    using evs(2) by blast
  have plain: "plain_id gid" using assms(10) chain(4,2) by blast
  obtain s1 ctx t where s1: "evolves (deployed_service w) s1"
      "authorize (sd_deps env) (JDict p) sid name ctx (Some (JDict args)) t s1 = (Inr dk, deployed_service w1)"
    using authorize_served [OF assms(1-5) chain(4,2)] by blast
  obtain s3 where s3: "evolves (deployed_service w1) s3" "redeem_grant gid (JDict p) (JDict args) s3 = (Inr rk, deployed_service w2)"
    using redeem_served [OF assms(1-4) assms(6) [OF plain] plain chain(5,3)] by blast
  have "dict_get rk ''redeemed'' = Some (JBool True)" using chain(3) by (simp add: accepted_redemption_def)
  from issued_then_redeemed [OF assms(7) s1 chain(2) s3 this] show ?thesis using chain(4-7) by blast
qed

section \<open>A permitted call goes through\<close>

text \<open>The client's credentials are good, the limiter is off and nobody else is talking.\<close>

definition quiet :: "client \<Rightarrow> deployment \<Rightarrow> bool" where
  "quiet c d \<longleftrightarrow> dy_others d = (\<lambda>n. []) \<and> \<not> limiter_enabled (hn_limiter (dy_handler d)) \<and>
     (\<forall>req. rq_authorization req = map_option bearer (cl_token c) \<longrightarrow>
        authenticated (hn_token (dy_handler d)) req = Inr True)"

text \<open>A value that fits a request body and is decoded again.\<close>

definition carried :: "(json \<Rightarrow> bytes) \<Rightarrow> decoder \<Rightarrow> json \<Rightarrow> bool" where
  "carried encode decode v \<longleftrightarrow> encode v \<noteq> [] \<and> int (length (encode v)) \<le> MAX_BODY \<and> decode (encode v) = Inr v"

lemma read_body_carried:
  assumes "carried encode (sd_json env) (JDict kvs)" "content_length req = Inr (int (length (encode (JDict kvs))))"
    "hn_in h = encode (JDict kvs)"
  shows "read_body env req h = (Inr kvs, h\<lparr>hn_in := []\<rparr>)"
  using assms by (simp add: carried_def read_body_def sx_bind_def sx_lift_def rfile_read_def convert_def sx_return_def)

lemma exchange_answered:
  assumes wire: "ce_wire cenv = deployed_wire env encode (cl_base_url c)"
    and quiet: "quiet c (nt_peer w)" and url: "sd_url env path = Inr (path, [])"
    and decoded: "encode (JDict rk) \<noteq> []" "ce_json cenv (encode (JDict rk)) = Inr (JDict rk)"
    and body: "carried encode (sd_json env) (JDict kvs)"
    and route: "\<And>req. rq_method req = verb \<Longrightarrow> route env req path [] = sx_bind (read_body env req) (\<lambda>b. call_service (m b))"
    and run: "m kvs (deployed_service w) = (Inr rk, s)"
  shows "\<exists>w1. client_request cenv c verb path (Some (JDict kvs)) w = (Inr (200, JDict rk), w1) \<and>
    nt_log w1 = nt_log w @ [Exchange verb path (Some (JDict kvs)) (Inr (200, JDict rk))] \<and> deployed_service w1 = s \<and> quiet c (nt_peer w1)"
proof -
  define call where "call = \<lparr>hc_url = cl_base_url c @ path, hc_method = verb, hc_body = Some (JDict kvs),
    hc_authorization = map_option bearer (cl_token c)\<rparr>"
  define h where "h = (dy_handler (nt_peer w))\<lparr>hn_in := encode (JDict kvs), hn_close := False\<rparr>"
  define req where "req = sent_request encode (cl_base_url c) call"
  have req: "rq_method req = verb" "rq_target req = path" "content_length req = Inr (int (length (encode (JDict kvs))))"
      "authenticated (hn_token h) req = Inr True"
    using content_length_sent [of call "JDict kvs" encode "cl_base_url c"] quiet
    by (simp_all add: sent_request_def quiet_def req_def call_def h_def)
  have off: "\<not> limiter_enabled (hn_limiter h)" using quiet by (simp add: quiet_def h_def)
  have not_rejected: "\<not> rejected req h" using off req(4) by (simp add: rejected_def)
  define h1 where "h1 = h\<lparr>hn_in := [], hn_service := s\<rparr>"
  have "route env req path [] h = (Inr (JDict rk), h1)"
    using route [OF req(1)] read_body_carried [OF body req(3), of h] run
    by (simp add: sx_bind_def call_service_Inr h1_def h_def)
  then have out: "outcome_of env req h = Some (Inr (JDict rk), h1)"
    using req(2,4) url off_limiter(1) [OF off] by (simp add: outcome_of_def)
  have handled: "handle_request env req h = h1\<lparr>hn_out := hn_out h1 @ [\<lparr>hr_status = 200, hr_body = JDict rk, hr_headers = []\<rparr>]\<rparr>"
    using handle_admitted [OF not_rejected, of env] out by simp
  have same: "hn_out h = hn_out (dy_handler (nt_peer w))" by (simp add: h_def)
  have "deployed_wire env encode (cl_base_url c) call (nt_peer w) =
      (Answered 200 (Inr (encode (JDict rk))), \<lparr>dy_handler = handle_request env req h, dy_others = \<lambda>n. []\<rparr>)"
    using quiet handled
    by (simp add: deployed_wire_def Let_def quiet_def flip: req_def) (simp add: call_def h1_def same flip: h_def)
  then have "client_request cenv c verb path (Some (JDict kvs)) w = (Inr (200, JDict rk),
      w\<lparr>nt_peer := \<lparr>dy_handler = handle_request env req h, dy_others = \<lambda>n. []\<rparr>,
        nt_log := nt_log w @ [Exchange verb path (Some (JDict kvs)) (Inr (200, JDict rk))]\<rparr>)"
    using decoded by (simp add: client_request_def wire parse_answer_def loads_or_null_def Let_def flip: call_def)
  then show ?thesis using quiet handled by (simp add: quiet_def h1_def h_def)
qed

lemma decision_read:
  assumes "d_allowed d"
  shows "\<exists>dd g. read_decision (200, JDict (decision_payload d did @ [(''grant'', grant_json (Some ig))])) = Inr dd \<and>
    cd_allowed dd \<and> cd_grant dd = Some g \<and> cg_grant_id g = ig_grant_id ig"
  using assms
  by (simp add: read_decision_def usable_def from_json_def decision_payload_def get_or_null_def get_or_def grant_json_def
      grant_from_json_def or_else_def items_field_def text_field_def py_str_def incompatible_def EXPECTED_CONTRACT_MAJOR_def
      DECISION_CONTRACT_VERSION_def Let_def)

lemma redemption_read:
  "\<exists>red. read_redemption gid (200, JDict (redeem_response gid
      \<lparr>rr_redeemed = True, rr_reason = ''ok'', rr_decision_id = Some did, rr_source_id = Some sid, rr_name = Some name\<rparr>)) = Inr red \<and>
    cr_redeemed red \<and> cr_source_id red = sid \<and> cr_name red = name"
  by (simp add: read_redemption_def usable_def redeem_response_def get_or_null_def get_or_def or_else_def text_field_def
      py_str_def incompatible_def EXPECTED_CONTRACT_MAJOR_def DECISION_CONTRACT_VERSION_def opt_str_def Let_def)

lemma request_contained:
  assumes "ce_wire cenv = deployed_wire env encode (cl_base_url c)" "\<And>v. encode v \<noteq> [] \<and> ce_json cenv (encode v) = Inr v"
    "client_request cenv c verb path body w = (q, w')"
  shows "(\<exists>sp. q = Inr sp) \<or> q = Inl ToolConnectUnavailable"
  using assms
  by (auto simp: client_request_def deployed_wire_def parse_answer_def loads_or_null_def Let_def split: prod.splits list.splits if_splits)

lemma best_effort_contained:
  assumes "ce_wire cenv = deployed_wire env encode (cl_base_url c)" "\<And>v. encode v \<noteq> [] \<and> ce_json cenv (encode v) = Inr v"
  shows "\<exists>w1. best_effort (sx_bind (client_request cenv c verb path body) (\<lambda>sp. sx_lift (object_reply sp))) w = (Inr (), w1) \<and> talks w w1"
proof -
  obtain q w1 where q: "client_request cenv c verb path body w = (q, w1)" by fastforce
  from request_contained [OF assms this] best_effort_exchange [OF q] withinD [OF talks_request q] show ?thesis
    by (auto simp: toolconnect_error_def)
qed

text \<open>On a deployed server the bookkeeping after the run never replaces what the executor did.\<close>

lemma governed_keeps_result:
  assumes "ce_wire cenv = deployed_wire env encode (cl_base_url c)" "\<And>v. encode v \<noteq> [] \<and> ce_json cenv (encode v) = Inr v"
    and "client_authorize cenv c p sid name context (Some args) ttl w = (Inr d, w1)" "cd_allowed d" "cd_grant d = Some g"
    and "redeem_and_run cenv c executor p sid name args (cg_grant_id g) w1 = (q, w2)"
  shows "\<exists>w'. governed_invoke cenv c executor p sid name args context ttl w = (q, w') \<and> talks w2 w'"
proof -
  let ?run = "redeem_and_run cenv c executor p sid name args (cg_grant_id g)"
  let ?ab = "abandon cenv c (cd_decision_id d) (cg_grant_id g)"
  have start: "governed_invoke cenv c executor p sid name args context ttl w =
      sx_bind (sx_catch ?run ?ab) (\<lambda>result.
        sx_bind (best_effort (client_record_outcome cenv c (cd_decision_id d) ''executed'' None (Some (cg_grant_id g)))) (\<lambda>_.
        sx_return result)) w1"
    unfolding governed_invoke_def
    by (simp only: sx_bind_run [where m = "client_authorize _ _ _ _ _ _ _ _", OF assms(3)] assms(4,5) not_True_eq_False
        if_False option.case)
  have report: "\<exists>w3. best_effort (client_record_outcome cenv c did outcome detail gid) v = (Inr (), w3) \<and> talks v w3" for did outcome detail gid v
    unfolding client_record_outcome_def by (rule best_effort_contained [OF assms(1,2)])
  have close: "\<exists>w3. best_effort (client_close_grant cenv c gid reason) v = (Inr (), w3) \<and> talks v w3" for gid reason v
    unfolding client_close_grant_def by (rule best_effort_contained [OF assms(1,2)])
  show ?thesis
  proof (cases q)
    case (Inl e)
    obtain w3 where w3: "best_effort (client_close_grant cenv c (cg_grant_id g) ''aborted'') w2 = (Inr (), w3)" "talks w2 w3"
      using close by blast
    obtain w4 where w4: "best_effort (client_record_outcome cenv c (cd_decision_id d) ''error'' None (Some (cg_grant_id g))) w3 = (Inr (), w4)" "talks w3 w4"
      using report by blast
    have "sx_catch ?run ?ab w1 = (Inl e, w4)"
      using assms(6) Inl w3(1) w4(1) by (simp add: sx_catch_def abandon_def sx_bind_run sx_raise_def)
    then show ?thesis using start Inl talks.trans [OF w3(2) w4(2)] by (simp add: sx_bind_stop)
  next
    case (Inr x)
    obtain w3 where w3: "best_effort (client_record_outcome cenv c (cd_decision_id d) ''executed'' None (Some (cg_grant_id g))) w2 = (Inr (), w3)" "talks w2 w3"
      using report by blast
    have "sx_catch ?run ?ab w1 = (Inr x, w2)" using assms(6) Inr by (simp add: sx_catch_def)
    then show ?thesis using start Inr w3 by (simp add: sx_bind_run sx_return_def)
  qed
qed

lemma deployed_exchanges:
  assumes wire: "ce_wire cenv = deployed_wire env encode (cl_base_url c)"
    and dec: "\<And>v. encode v \<noteq> [] \<and> ce_json cenv (encode v) = Inr v"
    and quiet: "quiet c (nt_peer w)"
    and url: "sd_url env ''/authorize'' = Inr (''/authorize'', [])"
      "sd_url env (''/grants/'' @ gid @ ''/redeem'') = Inr (''/grants/'' @ gid @ ''/redeem'', [])" "plain_id gid"
    and body: "carried encode (sd_json env) (JDict (authorize_body p sid name None (Some args) None))"
      "carried encode (sd_json env) (JDict [(''principal'', JDict p), (''args'', JDict args)])"
    and auth: "authorize (sd_deps env) (JDict p) sid name JNull (Some (JDict args)) JNull (deployed_service w) = (Inr dk, s1)"
    and red: "redeem_grant gid (JDict p) (JDict args) s1 = (Inr rk, s2)"
  shows "\<exists>w1 w2. authorize_call cenv c p sid name None args None w = (Inr (200, JDict dk), w1) \<and>
    redeem_call cenv c gid p args w1 = (Inr (200, JDict rk), w2) \<and> deployed_service w2 = s2"
proof -
  let ?b = "authorize_body p sid name None (Some args) None" and ?r = "[(''principal'', JDict p), (''args'', JDict args)]"
  let ?m = "\<lambda>b. authorize (sd_deps env) (principal_field b) (text_field b ''source_id'' '''') (text_field b ''name'' '''')
       (get_or_null b ''context'') (dict_get b ''args'') (get_or_null b ''ttl_seconds'')"
  let ?mr = "\<lambda>b. redeem_grant gid (principal_field b) (get_or_null b ''args'')"
  have "principal_field ?b = JDict p" "principal_field ?r = JDict p"
    by (cases p; simp add: authorize_body_def principal_field_def get_or_null_def or_else_def)+
  then have m: "?m ?b (deployed_service w) = (Inr dk, s1)" "?mr ?r s1 = (Inr rk, s2)"
    using auth red by (simp_all add: authorize_body_def get_or_null_def get_or_def text_field_def py_str_def)
  have ra: "route env req ''/authorize'' [] = sx_bind (read_body env req) (\<lambda>b. call_service (?m b))" if "rq_method req = ''POST''" for req
    using route_plain(2) [of "''/authorize''" req env "[]"] that
    by (simp add: route_post_def post_authorize_def [abs_def])
  have rr: "route env req (''/grants/'' @ gid @ ''/redeem'') [] = sx_bind (read_body env req) (\<lambda>b. call_service (?mr b))"
    if "rq_method req = ''POST''" for req
    using route_plain(2) [of "''/grants/'' @ gid @ ''/redeem''" req env "[]"] that
      post_routes(4) [OF _ plain_id_segment [OF url(3)], of "''x''" env req] by (simp add: dot_plus_def)
  have e: "encode (JDict dk) \<noteq> []" "ce_json cenv (encode (JDict dk)) = Inr (JDict dk)"
      "encode (JDict rk) \<noteq> []" "ce_json cenv (encode (JDict rk)) = Inr (JDict rk)" using dec by auto
  obtain w1 where w1: "authorize_call cenv c p sid name None args None w = (Inr (200, JDict dk), w1)" "deployed_service w1 = s1"
      "quiet c (nt_peer w1)"
    using exchange_answered [where m = ?m, OF wire quiet url(1) e(1,2) body(1) ra m(1)] by blast
  obtain w2 where "redeem_call cenv c gid p args w1 = (Inr (200, JDict rk), w2)" "deployed_service w2 = s2"
    using exchange_answered [where m = ?mr, OF wire w1(3) url(2) e(3,4) body(2) rr m(2) [folded w1(2)]] by blast
  then show ?thesis using w1(1) by blast
qed

lemma deployed_run:
  assumes "ce_wire cenv = deployed_wire env encode (cl_base_url c)"
    and "\<And>v. encode v \<noteq> [] \<and> ce_json cenv (encode v) = Inr v"
    and "carried encode (sd_json env) (JDict (authorize_body p sid name None (Some args) None))"
    and "carried encode (sd_json env) (JDict [(''principal'', JDict p), (''args'', JDict args)])"
    and "sd_url env ''/authorize'' = Inr (''/authorize'', [])"
    and "\<And>gid. plain_id gid \<Longrightarrow> sd_url env (''/grants/'' @ gid @ ''/redeem'') = Inr (''/grants/'' @ gid @ ''/redeem'', [])"
    and "quiet c (nt_peer w)" "healthy (sv_store (deployed_service w))" "idle (sv_store (deployed_service w))"
    and "cat_reachable (sv_catalog (deployed_service w))"
    and "parse_principal (JDict p) = Inr pr" "check_args (JDict args) = Inr h"
    and "broker_decision (dp_engine (sd_deps env)) (sv_catalog (deployed_service w)) pr sid name (JDict []) = Inr d" "d_allowed d"
    and "dict_get (t_grants (st_tables (sv_store (deployed_service w)))) (st_uuids (sv_store (deployed_service w)) 1) = None"
    and "plain_id (st_uuids (sv_store (deployed_service w)) 1)"
    and "st_clock (sv_store (deployed_service w)) 3 < st_clock (sv_store (deployed_service w)) 1 + 60 * 1000000"
  shows "\<exists>dk rk n w' tail.
    governed_invoke cenv c executor p sid name args None None w = (fst (executor (JDict args) n), w') \<and>
    nt_log w' = nt_log w @ [authorize_exchange p sid name None args None dk,
      redeem_exchange (st_uuids (sv_store (deployed_service w)) 1) p args rk, Ran (JDict args)] @ tail \<and> list_all is_exchange tail"
proof -
  let ?gid = "st_uuids (sv_store (deployed_service w)) 1"
  have req: "check_request JNull (Some (JDict args)) JNull = Inr (Some (h, 60))"
    using assms(12) by (simp add: check_request_def ttl_ok_def DEFAULT_GRANT_TTL_SECONDS_def MIN_GRANT_TTL_SECONDS_def
        MAX_GRANT_TTL_SECONDS_def)
  have ctx: "context_or_empty JNull = JDict []" by (simp add: context_or_empty_def)
  have gid: "?gid \<noteq> []" using assms(16) by (simp add: plain_id_def)
  obtain did ig s1 s2 where s: "authorize (sd_deps env) (JDict p) sid name JNull (Some (JDict args)) JNull (deployed_service w) =
        (Inr (decision_payload d did @ [(''grant'', grant_json (Some ig))]), s1)" "ig_grant_id ig = ?gid"
      "redeem_grant ?gid (JDict p) (JDict args) s1 = (Inr (redeem_response ?gid
        \<lparr>rr_redeemed = True, rr_reason = ''ok'', rr_decision_id = Some did, rr_source_id = Some sid, rr_name = Some name\<rparr>), s2)"
    using authorize_then_redeem [OF assms(8-10) req assms(11) assms(13) [folded ctx] assms(14,15) gid assms(17)] by auto
  let ?dk = "decision_payload d did @ [(''grant'', grant_json (Some ig))]"
  let ?rk = "redeem_response ?gid
    \<lparr>rr_redeemed = True, rr_reason = ''ok'', rr_decision_id = Some did, rr_source_id = Some sid, rr_name = Some name\<rparr>"
  obtain w1 w2 where w: "authorize_call cenv c p sid name None args None w = (Inr (200, JDict ?dk), w1)"
      "redeem_call cenv c ?gid p args w1 = (Inr (200, JDict ?rk), w2)"
    using deployed_exchanges [OF assms(1,2,7,5) assms(6) [OF assms(16)] assms(16) assms(3,4) s(1,3)] by blast
  obtain dd g where dd: "read_decision (200, JDict ?dk) = Inr dd" "cd_allowed dd" "cd_grant dd = Some g" "cg_grant_id g = ?gid"
    using decision_read [OF assms(14), of did ig] s(2) by auto
  have auth: "client_authorize cenv c p sid name None (Some args) None w = (Inr dd, w1)"
    using w(1) dd(1) by (simp add: client_authorize_def sx_bind_def sx_lift_def)
  obtain red where red: "client_redeem cenv c ?gid p args w1 = (Inr red, w2)" "cr_redeemed red" "cr_source_id red = sid" "cr_name red = name"
    using redemption_read [of ?gid did sid name] w(2) by (auto simp: client_redeem_def sx_bind_def sx_lift_def)
  obtain q n where ex: "executor (JDict args) (nt_peer w2) = (q, n)" by fastforce
  define w3 where "w3 = w2\<lparr>nt_peer := n, nt_log := nt_log w2 @ [Ran (JDict args)]\<rparr>"
  have run: "redeem_and_run cenv c executor p sid name args (cg_grant_id g) w1 = (q, w3)"
    using red ex dd(4) by (simp add: redeem_and_run_def sx_bind_run run_executor_def w3_def)
  obtain w' where w': "governed_invoke cenv c executor p sid name args None None w = (q, w')" "talks w3 w'"
    using governed_keeps_result [OF assms(1,2) auth dd(2,3) run] by blast
  then obtain tail where tail: "nt_log w' = nt_log w3 @ tail" "list_all is_exchange tail" by (auto simp: talks_def)
  have "nt_log w3 = nt_log w @ [authorize_exchange p sid name None args None ?dk, redeem_exchange ?gid p args ?rk, Ran (JDict args)]"
    using client_request_log [OF w(1)] client_request_log [OF w(2)] by (simp add: w3_def authorize_exchange_def redeem_exchange_def)
  then have "nt_log w' = nt_log w @ [authorize_exchange p sid name None args None ?dk, redeem_exchange ?gid p args ?rk, Ran (JDict args)] @ tail"
    using tail(1) by simp
  moreover have "governed_invoke cenv c executor p sid name args None None w = (fst (executor (JDict args) (nt_peer w2)), w')"
    using w'(1) ex by simp
  ultimately show ?thesis using tail(2) by blast
qed

text \<open>C16: a permitted call goes through end to end. On a quiet deployment with a healthy store, when the
  broker allows the call, a governed invocation authorizes, redeems the fresh grant and runs the
  executor once with its arguments, and it gives back exactly what the executor did, exceptions included.
\<close>

theorem deployed_call_succeeds:
  assumes "ce_wire cenv = deployed_wire env encode (cl_base_url c)"
    and "\<And>v. encode v \<noteq> [] \<and> ce_json cenv (encode v) = Inr v"
    and "carried encode (sd_json env) (JDict (authorize_body p sid name None (Some args) None))"
    and "carried encode (sd_json env) (JDict [(''principal'', JDict p), (''args'', JDict args)])"
    and "sd_url env ''/authorize'' = Inr (''/authorize'', [])"
    and "\<And>gid. plain_id gid \<Longrightarrow> sd_url env (''/grants/'' @ gid @ ''/redeem'') = Inr (''/grants/'' @ gid @ ''/redeem'', [])"
    and "quiet c (nt_peer w)" "healthy (sv_store (deployed_service w))" "idle (sv_store (deployed_service w))"
    and "cat_reachable (sv_catalog (deployed_service w))"
    and "parse_principal (JDict p) = Inr pr" "check_args (JDict args) = Inr h"
    and "broker_decision (dp_engine (sd_deps env)) (sv_catalog (deployed_service w)) pr sid name (JDict []) = Inr d" "d_allowed d"
    and "dict_get (t_grants (st_tables (sv_store (deployed_service w)))) (st_uuids (sv_store (deployed_service w)) 1) = None"
    and "plain_id (st_uuids (sv_store (deployed_service w)) 1)"
    and "st_clock (sv_store (deployed_service w)) 3 < st_clock (sv_store (deployed_service w)) 1 + 60 * 1000000"
  shows "\<exists>dk rk n w' tail.
    governed_invoke cenv c executor p sid name args None None w = (fst (executor (JDict args) n), w') \<and>
    nt_log w' = nt_log w @ [authorize_exchange p sid name None args None dk,
      redeem_exchange (st_uuids (sv_store (deployed_service w)) 1) p args rk, Ran (JDict args)] @ tail \<and> list_all is_exchange tail"
  using assms by (rule deployed_run)

section \<open>Witnesses\<close>

instance pyfloat :: countable
  by countable_datatype

instance json :: countable
  by countable_datatype

abbreviation demo_who :: "(string \<times> json) list" where
  "demo_who \<equiv> [(''id'', JStr ''p'')]"

abbreviation demo_ask :: json where
  "demo_ask \<equiv> JDict (authorize_body demo_who ''docs'' ''search'' None (Some []) None)"

abbreviation demo_spend :: json where
  "demo_spend \<equiv> JDict [(''principal'', JDict demo_who), (''args'', JDict [])]"

text \<open>Short codes for the two requests, any code for the rest.\<close>

definition demo_encode :: "json \<Rightarrow> bytes" where
  "demo_encode v = (if v = demo_ask then [1] else if v = demo_spend then [2] else 3 # replicate (to_nat v) 0)"

definition demo_decode :: decoder where
  "demo_decode bs =
     (if bs = [1] then Inr demo_ask else if bs = [2] then Inr demo_spend
      else case bs of [] \<Rightarrow> Inl JSONDecodeError | x # xs \<Rightarrow> Inr (from_nat (length xs)))"

definition demo_deploy_env :: server_env where
  "demo_deploy_env = demo_server_env\<lparr>sd_json := demo_decode\<rparr>"

definition demo_deploy_client :: "deployment client_env" where
  "demo_deploy_client = \<lparr>ce_wire = deployed_wire demo_deploy_env demo_encode ''http://h'', ce_json = demo_decode\<rparr>"

definition demo_hex_service :: service where
  "demo_hex_service = demo_service\<lparr>sv_store := (fresh_store demo_tables)\<lparr>st_uuids := \<lambda>n. ''a''\<rparr>\<rparr>"

definition demo_deployment :: "deployment net" where
  "demo_deployment = \<lparr>nt_peer = \<lparr>dy_handler = (demo_handler None)\<lparr>hn_service := demo_hex_service\<rparr>, dy_others = \<lambda>n. []\<rparr>, nt_log = []\<rparr>"

definition demo_tool_run :: "json \<Rightarrow> deployment \<Rightarrow> string result \<times> deployment" where
  "demo_tool_run args d = (Inr ''done'', d)"

lemma demo_coding: "demo_encode v \<noteq> [] \<and> demo_decode (demo_encode v) = Inr v"
  by (simp add: demo_encode_def demo_decode_def)

lemma demo_carried: "carried demo_encode demo_decode demo_ask" "carried demo_encode demo_decode demo_spend"
  using demo_coding [of demo_ask] demo_coding [of demo_spend] by (simp_all add: carried_def demo_encode_def MAX_BODY_def)

lemma demo_deployed:
  "ce_wire demo_deploy_client = deployed_wire demo_deploy_env demo_encode (cl_base_url demo_client)"
  "\<And>v. demo_encode v \<noteq> [] \<and> ce_json demo_deploy_client (demo_encode v) = Inr v"
  "carried demo_encode (sd_json demo_deploy_env) demo_ask" "carried demo_encode (sd_json demo_deploy_env) demo_spend"
  "sd_url demo_deploy_env path = Inr (path, [])"
  "quiet demo_client (nt_peer demo_deployment)" "healthy (sv_store (deployed_service demo_deployment))"
  "idle (sv_store (deployed_service demo_deployment))" "cat_reachable (sv_catalog (deployed_service demo_deployment))"
  using demo_carried demo_coding demo_service_sound(3)
  by (simp_all add: demo_deploy_client_def demo_client_def demo_deploy_env_def demo_server_env_def quiet_def demo_deployment_def
      demo_handler_def limiter_enabled_def new_limiter_def authenticated_def demo_hex_service_def healthy_def fresh_store_def idle_def)

lemma demo_hex:
  "sv_store demo_hex_service = (fresh_store demo_tables)\<lparr>st_uuids := \<lambda>n. ''a''\<rparr>"
  "deployed_service demo_deployment = demo_hex_service" "sv_catalog demo_hex_service = sv_catalog demo_service"
  "dp_engine (sd_deps demo_deploy_env) = dp_engine demo_deps"
  by (simp_all add: demo_hex_service_def demo_deployment_def demo_deploy_env_def demo_server_env_def)

lemma demo_hex_store:
  "dict_get (t_grants (st_tables (sv_store demo_hex_service))) (st_uuids (sv_store demo_hex_service) 1) = None"
  "st_uuids (sv_store demo_hex_service) 1 = ''a''" "plain_id ''a''"
  "st_clock (sv_store demo_hex_service) 3 < st_clock (sv_store demo_hex_service) 1 + 60 * 1000000"
  by (simp_all add: demo_hex demo_tables_def empty_tables_def plain_id_def fresh_store_def)

lemma demo_args: "check_args (JDict []) = Inr (sha256_hexdigest (dumps_sorted (JDict [])))"
  by (simp add: check_args_def args_hash_def canonical_args_def convert_def)

theorem deployed_call_succeeds_witness:
  "\<exists>w'. governed_invoke demo_deploy_client demo_client demo_tool_run demo_who ''docs'' ''search'' [] None None demo_deployment =
     (Inr ''done'', w') \<and> Ran (JDict []) \<in> set (nt_log w')"
proof -
  obtain d where d: "broker_decision (dp_engine demo_deps) (sv_catalog demo_service) (Principal ''p'' ''local'' ''agent'' None)
      ''docs'' ''search'' (JDict []) = Inr d" "d_allowed d"
    using demo_allowed by blast
  show ?thesis
    using deployed_call_succeeds [OF demo_deployed(1-5) demo_deployed(5) demo_deployed(6-9) demo_principal [unfolded demo_principal_def]
        demo_args, unfolded demo_hex(2-4), OF d demo_hex_store(1) _ demo_hex_store(4), of demo_tool_run]
      demo_hex_store(2,3) by (auto simp: demo_tool_run_def)
qed

theorem deployed_invocation_backed_witness:
  "\<exists>gid w2. backs (deployed_service w2) gid demo_who ''docs'' ''search'' [] \<and> \<not> spent (sv_store demo_hex_service) (Redeemed gid)"
proof -
  obtain d where d: "broker_decision (dp_engine demo_deps) (sv_catalog demo_service) (Principal ''p'' ''local'' ''agent'' None)
      ''docs'' ''search'' (JDict []) = Inr d" "d_allowed d"
    using demo_allowed by blast
  obtain dk rk n w' tail where run:
      "governed_invoke demo_deploy_client demo_client demo_tool_run demo_who ''docs'' ''search'' [] None None demo_deployment =
        (fst (demo_tool_run (JDict []) n), w')"
      "nt_log w' = nt_log demo_deployment @ [authorize_exchange demo_who ''docs'' ''search'' None [] None dk,
         redeem_exchange ''a'' demo_who [] rk, Ran (JDict [])] @ tail" "list_all is_exchange tail"
    using deployed_run [OF demo_deployed(1-5) demo_deployed(5) demo_deployed(6-9) demo_principal [unfolded demo_principal_def]
        demo_args, unfolded demo_hex(2-4), OF d demo_hex_store(1) _ demo_hex_store(4), of demo_tool_run]
      demo_hex_store(2,3) by auto
  have ran: "Ran (JDict []) \<in> set (drop (length (nt_log demo_deployment)) (nt_log w'))" using run(2) by simp
  obtain dk' rk' gid w1 tail' where chain:
      "authorize_call demo_deploy_client demo_client demo_who ''docs'' ''search'' None [] None demo_deployment = (Inr (200, JDict dk'), w1)"
      "accepted_decision dk' gid"
      "nt_log w' = nt_log demo_deployment @ [authorize_exchange demo_who ''docs'' ''search'' None [] None dk',
         redeem_exchange gid demo_who [] rk', Ran (JDict [])] @ tail'"
    using governed_chain [OF run(1)] by (auto simp: demo_tool_run_def)
  have "gid = ''a''" using run(2) chain(3) by (simp add: redeem_exchange_def)
  then have plain: "\<forall>dk2 w2 gid'. authorize_call demo_deploy_client demo_client demo_who ''docs'' ''search'' None [] None demo_deployment =
      (Inr (200, JDict dk2), w2) \<and> accepted_decision dk2 gid' \<longrightarrow> plain_id gid'"
    using chain(1,2) demo_hex_store(3) by (auto simp: accepted_decision_def)
  have faithful: "faithful demo_encode (ce_json demo_deploy_client)" "faithful demo_encode (sd_json demo_deploy_env)"
    using demo_coding by (simp_all add: faithful_def demo_deploy_client_def demo_deploy_env_def)
  have untyped: "\<And>u. within evolves (sd_untyped demo_deploy_env u)"
    by (simp add: demo_deploy_env_def demo_server_env_def evolves.within_raise)
  show ?thesis
    using deployed_invocation_backed [OF demo_deployed(1) faithful untyped demo_deployed(5) demo_deployed(5) demo_deployed(8) run(1) ran plain, unfolded demo_hex(2)]
    by blast
qed

end
