(* ===== verification/Service_Governance.thy ===== *)
theory Service_Governance
  imports Service_Authorize
begin

text \<open>
  The redemption of governance grants at the service: exactly when it succeeds, and that every
  answer leaves one enforcement record.
\<close>

lemma gov_deny_run:
  assumes "idle (sv_store s)" "gov_deny v p sid name h say reason s = (Inr resp, s')"
  shows "get_or_null resp ''redeemed'' = JBool False \<and>
    (\<exists>row. t_audit (st_tables (sv_store s')) = t_audit (st_tables (sv_store s)) @ [row] \<and>
       au_kind row = ''provider_enforcement'' \<and>
       au_body row = canonical (JDict (enforcement_body s v p sid name h (''denied:'' @ reason) say))) \<and>
    t_redemptions (st_tables (sv_store s')) = t_redemptions (st_tables (sv_store s))"
proof -
  obtain seq t where t: "append_audit ''provider_enforcement'' (enforcement_body s v p sid name h (''denied:'' @ reason) say)
        (sv_store s) = (Inr seq, t)" "s' = s\<lparr>sv_store := t\<rparr>" and resp: "get_or_null resp ''redeemed'' = JBool False"
    using assms(2) by (auto simp: gov_deny_def sx_simps get_or_null_def)
  show ?thesis using append_audit_spec [OF assms(1) t(1)] t(2) resp by (auto simp: appended_tables)
qed

lemma gov_claim_run:
  assumes "idle (sv_store s)" "gov_claim v payload p sid name h say s = (Inr resp, s')"
  shows "let gid = str_of (get_or_null payload ''grant_id''); t = st_tables (sv_store s); t' = st_tables (sv_store s')
    in if dict_get (t_redemptions t) gid = None
       then get_or_null resp ''redeemed'' = JBool True \<and>
         (\<exists>row at. t_audit t' = t_audit t @ [row] \<and> au_kind row = ''provider_enforcement'' \<and>
            t_redemptions t' = dict_set gid (gov_row s payload p sid name h say at) (t_redemptions t))
       else get_or_null resp ''redeemed'' = JBool False \<and>
         (\<exists>row. t_audit t' = t_audit t @ [row] \<and> au_kind row = ''provider_enforcement'') \<and>
         t_redemptions t' = t_redemptions t"
proof -
  let ?gid = "str_of (get_or_null payload ''grant_id'')"
  let ?body = "enforcement_body s v p sid name h ''redeemed'' say"
  obtain redeemed reason stamp t where rec: "record_govgrant_redemption ?gid (gov_row s payload p sid name h say) ?body (sv_store s) =
        (Inr (redeemed, reason, stamp), t)"
    using assms(2) by (auto simp: gov_claim_def sx_simps Let_def gov_row_fold)
  note run = assms(2) [unfolded gov_claim_def sx_bind_get Let_def gov_row_fold, simplified sx_simps rec]
  note spec = govgrant_spec [OF assms(1) rec]
  show ?thesis
  proof (cases redeemed)
    case False
    then have deny: "gov_deny v p sid name h say reason (s\<lparr>sv_store := t\<rparr>) = (Inr resp, s')" using run by simp
    show ?thesis
      using gov_deny_run [OF _ deny] spec False by (auto simp: Let_def)
  next
    case True
    then obtain pl where pub: "publish ''grant.redeemed'' None (p_id p) (bus_tier_for_principal (effective_tier p)) pl
        (s\<lparr>sv_store := t\<rparr>) = (Inr (), s')" and resp: "get_or_null resp ''redeemed'' = JBool True"
      using run by (auto simp: sx_simps get_or_null_def)
    have "st_tables (sv_store s') = st_tables t"
      using withinD [OF same_data_publish pub] by (simp add: same_data_def)
    then show ?thesis using spec True resp by (auto simp: Let_def appended_tables)
  qed
qed

text \<open>C10: A governance grant is redeemed exactly when it verifies, covers the call and was never
  redeemed. Whenever the service answers, whichever statements failed before, the request was well
  formed, the grant was verified against the configured root and revocation list at the request's
  instant, and the answer is a redemption if and only if verification succeeded, no scope check
  failed, and no earlier redemption of the same id is on record. Each answer, also a denial, leaves
  exactly one enforcement record, and a redemption is entered in the one-use table.\<close>

theorem governance_redeem_exact:
  assumes "idle (sv_store s)" "redeem_governance_grant dp grant pv sid name args at s = (Inr resp, s')"
  shows "\<exists>p h say v. parse_principal pv = Inr p \<and> check_args args = Inr h \<and> at \<in> {None, Some say} \<and>
    verify_grant (dp_platform dp) grant (sv_trust_root s) say None (sv_revocation_list s) = Inr v \<and>
    (let t = st_tables (sv_store s); t' = st_tables (sv_store s');
         gid = str_of (payload_get (gv_payload v) ''grant_id'');
         ok = (gv_valid v \<and> (\<exists>payload kvs. gv_payload v = Some payload \<and> args = JDict kvs \<and>
                 scope_failures payload (p_id p) (sv_provider_id s) sid name kvs = Inr []) \<and>
               dict_get (t_redemptions t) gid = None)
     in get_or_null resp ''redeemed'' = JBool ok \<and>
        (\<exists>row. t_audit t' = t_audit t @ [row] \<and> au_kind row = ''provider_enforcement'') \<and>
        (if ok then \<exists>row. t_redemptions t' = dict_set gid row (t_redemptions t) else t_redemptions t' = t_redemptions t))"
proof -
  obtain p h say st v where run: "parse_principal pv = Inr p" "check_args args = Inr h"
      "st_tables st = st_tables (sv_store s)" "st_begun st = st_begun (sv_store s)" "at = None \<or> at = Some say"
      "verify_grant (dp_platform dp) grant (sv_trust_root s) say None (sv_revocation_list s) = Inr v"
      "gov_answer (s\<lparr>sv_store := st\<rparr>) v p sid name h say args resp s'"
    using redeem_governance_Inr [OF assms(2)] by blast
  let ?u = "s\<lparr>sv_store := st\<rparr>"
  let ?gid = "str_of (payload_get (gv_payload v) ''grant_id'')"
  let ?scoped = "\<exists>payload kvs. gv_payload v = Some payload \<and> args = JDict kvs \<and>
      scope_failures payload (p_id p) (sv_provider_id s) sid name kvs = Inr []"
  have idle: "idle (sv_store ?u)" using assms(1) run(4) by (simp add: idle_def)
  have denied: "get_or_null resp ''redeemed'' = JBool False \<and>
      (\<exists>row. t_audit (st_tables (sv_store s')) = t_audit (st_tables (sv_store s)) @ [row] \<and> au_kind row = ''provider_enforcement'') \<and>
      t_redemptions (st_tables (sv_store s')) = t_redemptions (st_tables (sv_store s))"
    if "gov_deny v p sid name h say code ?u = (Inr resp, s')" for code
    using gov_deny_run [OF idle that] run(3) by auto
  have "get_or_null resp ''redeemed'' = JBool (gv_valid v \<and> ?scoped \<and> dict_get (t_redemptions (st_tables (sv_store s))) ?gid = None) \<and>
      (\<exists>row. t_audit (st_tables (sv_store s')) = t_audit (st_tables (sv_store s)) @ [row] \<and> au_kind row = ''provider_enforcement'') \<and>
      (if gv_valid v \<and> ?scoped \<and> dict_get (t_redemptions (st_tables (sv_store s))) ?gid = None
       then \<exists>row. t_redemptions (st_tables (sv_store s')) = dict_set ?gid row (t_redemptions (st_tables (sv_store s)))
       else t_redemptions (st_tables (sv_store s')) = t_redemptions (st_tables (sv_store s)))"
  proof (cases "gv_valid v")
    case False
    then show ?thesis using run(7) denied by (auto simp: gov_answer_def)
  next
    case True
    then obtain payload kvs fs where fs: "gv_payload v = Some payload" "args = JDict kvs"
        "scope_failures payload (p_id p) (sv_provider_id s) sid name kvs = Inr fs"
        "case fs of [] \<Rightarrow> gov_claim v payload p sid name h say ?u = (Inr resp, s')
         | code # codes \<Rightarrow> gov_deny v p sid name h say code ?u = (Inr resp, s')"
      using run(7) by (auto simp: gov_answer_def)
    have gid: "?gid = str_of (get_or_null payload ''grant_id'')" using fs(1) by (simp add: payload_get_def)
    show ?thesis
    proof (cases fs)
      case Nil
      then have claim: "gov_claim v payload p sid name h say ?u = (Inr resp, s')" and scoped: ?scoped
        using fs by simp_all
      show ?thesis
        using gov_claim_run [OF idle claim] True scoped run(3) unfolding gid Let_def by (auto split: if_splits)
    next
      case (Cons code codes)
      then show ?thesis using denied fs True by auto
    qed
  qed
  then show ?thesis
    unfolding Let_def using run(1,2,5,6) by (intro exI [of _ p] exI [of _ h] exI [of _ say] exI [of _ v]) simp
qed

theorem governance_redeem_exact_witness:
  "\<exists>resp s'. redeem_governance_grant demo_deps JNull demo_principal ''docs'' ''search'' (JDict []) (Some ''t'') demo_service = (Inr resp, s') \<and>
     get_or_null resp ''redeemed'' = JBool False"
proof -
  define v where "v = \<lparr>gv_valid = False, gv_signature_valid = False, gv_within_validity_window = False,
      gv_failure_codes = [''malformed_grant''], gv_issuer_key_id = None, gv_payload = None\<rparr>"
  have v: "verify_grant (dp_platform demo_deps) JNull (sv_trust_root demo_service) ''t'' None (sv_revocation_list demo_service) = Inr v"
    by (simp add: verify_grant_def structural_failures_def v_def)
  have args: "check_args (JDict []) = Inr (sha256_hexdigest (dumps_sorted (JDict [])))"
    by (simp add: check_args_def args_hash_def canonical_args_def convert_def)
  have st: "healthy (sv_store demo_service)" by (simp add: demo_service_def)
  obtain t where t: "append_audit ''provider_enforcement'' (enforcement_body demo_service v (Principal ''p'' ''local'' ''agent'' None) ''docs'' ''search''
      (sha256_hexdigest (dumps_sorted (JDict []))) ''denied:malformed_grant'' ''t'') (sv_store demo_service) = (Inr (t_audit_seq (st_tables t)), t)"
    using append_audit_healthy [OF st demo_service_sound(1)] by blast
  obtain resp s' where deny: "gov_deny v (Principal ''p'' ''local'' ''agent'' None) ''docs'' ''search''
      (sha256_hexdigest (dumps_sorted (JDict []))) ''t'' ''malformed_grant'' demo_service = (Inr resp, s')"
    using t by (simp add: gov_deny_def sx_bind_def sx_get_def sx_return_def on_store_def)
  have codes: "\<not> gv_valid v" "gv_failure_codes v = [''malformed_grant'']" by (simp_all add: v_def)
  have run: "redeem_governance_grant demo_deps JNull demo_principal ''docs'' ''search'' (JDict []) (Some ''t'') demo_service = (Inr resp, s')"
    using v args demo_principal deny codes
    by (simp add: redeem_governance_grant_def sx_bind_def sx_lift_def sx_get_def)
  then show ?thesis
    using governance_redeem_exact [OF demo_service_sound(1) run] v by (auto simp: v_def Let_def)
qed

end
