(* ===== verification/Cli_Props.thy ===== *)
theory Cli_Props
  imports Cli Deployment Service_Governance
begin

text \<open>
  The commands end to end, from the database file and the configuration to the exit status: what the
  gateway and server processes may do, what the operator's checks report, and that opening a
  database, on whatever errors, leaves its data alone.
\<close>

section \<open>Opening leaves the data alone\<close>

text \<open>
  Part of the tables stays the same, in the open transaction and in the committed state alike, and a
  store without failing statements stays one.
\<close>

definition untouched :: "(tables \<Rightarrow> 'v) \<Rightarrow> store \<Rightarrow> store \<Rightarrow> bool" where
  "untouched view s s' \<longleftrightarrow> (healthy s \<longrightarrow> healthy s') \<and>
     (view (st_tables s) = view (base s) \<longrightarrow> view (st_tables s') = view (base s) \<and> view (base s') = view (base s))"

interpretation untouched: sx_relation "untouched view" for view
  by unfold_locales (auto simp: untouched_def)

lemma untouchedD: "untouched view s s' \<Longrightarrow> idle s \<Longrightarrow> view (st_tables s') = view (st_tables s)"
  by (simp add: untouched_def idle_base)

lemma untouched_statement: "within (untouched view) statement"
  by (auto simp: within_def statement_def untouched_def healthy_def base_def Let_def split: option.splits)

lemma untouched_query: "within (untouched view) (query f)"
  unfolding query_def by (intro untouched.within_rules untouched_statement)

lemma untouched_dml:
  assumes "\<And>t. view (snd (g t)) = view t"
  shows "within (untouched view) (dml g)"
  unfolding dml_def
proof (intro untouched.within_bind untouched_statement)
  show "within (untouched view) (\<lambda>s. let s1 = if st_begun s = None then s\<lparr>st_begun := Some (st_tables s)\<rparr> else s
      in case g (st_tables s1) of (Inl e, t) \<Rightarrow> (Inl e, s1) | (Inr v, t) \<Rightarrow> (Inr v, s1\<lparr>st_tables := t\<rparr>))"
  proof (rule withinI)
    fix s s' :: store and r
    assume run: "(let s1 = if st_begun s = None then s\<lparr>st_begun := Some (st_tables s)\<rparr> else s
      in case g (st_tables s1) of (Inl e, t) \<Rightarrow> (Inl e, s1) | (Inr v, t) \<Rightarrow> (Inr v, s1\<lparr>st_tables := t\<rparr>)) = (r, s')"
    obtain q t where g: "g (st_tables s) = (q, t)" by fastforce
    then have "view t = view (st_tables s)" using assms [of "st_tables s"] by simp
    then show "untouched view s s'" using run g
      by (auto simp: untouched_def healthy_def base_def Let_def split: option.splits if_splits sum.splits)
  qed
qed

lemma untouched_update: "(\<And>t. view (g t) = view t) \<Longrightarrow> within (untouched view) (update_tables g)"
  unfolding update_tables_def by (rule untouched_dml) simp

lemma untouched_ddl:
  assumes "\<And>t u. f t = Inr u \<Longrightarrow> view u = view t"
  shows "within (untouched view) (ddl f)"
  unfolding ddl_def
proof (intro untouched.within_bind untouched_statement)
  show "within (untouched view) (\<lambda>s. case f (st_tables s) of Inl e \<Rightarrow> (Inl e, s) | Inr t \<Rightarrow> (Inr (), s\<lparr>st_tables := t\<rparr>))"
    using assms by (auto simp: within_def untouched_def healthy_def base_def split: sum.splits option.splits)
qed

lemma untouched_rollback: "untouched view s t \<Longrightarrow> untouched view s (rollback t)"
  by (auto simp: untouched_def healthy_def rollback_def base_def)

lemma untouched_commit: "within (untouched view) commit"
  unfolding commit_def
proof (intro untouched.within_bind untouched_statement)
  show "within (untouched view) (\<lambda>s. if st_begun s = None then (Inl OperationalError, s) else (Inr (), s\<lparr>st_begun := None\<rparr>))"
    by (auto simp: within_def untouched_def healthy_def base_def)
qed

lemma untouched_with_conn:
  assumes "within (untouched view) m"
  shows "within (untouched view) (with_conn m)"
proof (rule withinI)
  fix s r s'
  assume run: "with_conn m s = (r, s')"
  obtain q t where m: "m s = (q, t)" by fastforce
  obtain q2 t2 where c: "commit t = (q2, t2)" by fastforce
  have "untouched view s t" "untouched view t t2"
    using withinD [OF assms m] withinD [OF untouched_commit c] by auto
  then have "untouched view s t" "untouched view s t2" using untouched.trans by blast+
  then show "untouched view s s'" using run m c untouched_rollback
    by (auto simp: with_conn_def split: sum.splits if_splits)
qed

lemma untouched_run_all: "(\<And>m. m \<in> set ms \<Longrightarrow> within (untouched view) m) \<Longrightarrow> within (untouched view) (run_all ms)"
  by (induction ms) (auto intro: untouched.within_rules)

text \<open>Everything but the versions and the meta table.\<close>

definition data_of where
  "data_of t = (t_sources t, t_tools t, t_assertions t, t_discoveries t, t_audit t, t_audit_seq t, t_grants t, t_redemptions t)"

abbreviation keeps_data :: "tables \<Rightarrow> tables \<Rightarrow> bool" where
  "keeps_data t u \<equiv> data_of u = data_of t"

lemma data_of_meta [simp]:
  "data_of (upsert_meta k v t) = data_of t" "data_of (seed_head_seq t) = data_of t" "data_of (seed_head_hash t) = data_of t"
  "data_of (set_version n t) = data_of t" "data_of (t\<lparr>t_has_label := b\<rparr>) = data_of t"
  "data_of (t\<lparr>t_has_grants := b\<rparr>) = data_of t" "data_of (t\<lparr>t_has_redemptions := b\<rparr>) = data_of t"
  by (auto simp: data_of_def upsert_meta_def seed_head_seq_def seed_head_hash_def set_version_def split: list.splits)

lemma untouched_migrate: "within (untouched data_of) (migrate v)"
proof -
  have "within (untouched data_of) m" if "m \<in> set (migration target)" for m target
    using that
    by (auto simp: migration_def add_label_column_def split: if_splits intro!: untouched_update untouched_ddl)
  then have "within (untouched data_of) (migrate_to target)" for target
    unfolding migrate_to_def by (intro untouched.within_bind untouched_run_all untouched_update) auto
  then show ?thesis unfolding migrate_def by (intro untouched_run_all) auto
qed

lemma untouched_open: "within (untouched data_of) open_store"
  unfolding open_store_def
  by (intro untouched_with_conn untouched.within_bind untouched_ddl untouched_query)
    (auto simp: untouched_migrate split: option.split intro!: untouched.within_rules untouched_update)

lemma with_conn_idle: "with_conn m s = (r, s') \<Longrightarrow> idle s'"
  by (auto simp: with_conn_def idle_def rollback_def commit_def sx_bind_def split: sum.splits prod.splits if_splits)

lemma open_data:
  assumes "open_store s = (r, s')" "idle s"
  shows "idle s'" "keeps_data (st_tables s) (st_tables s')" "healthy s \<Longrightarrow> healthy s'"
proof -
  show idle: "idle s'" using with_conn_idle assms(1) unfolding open_store_def by blast
  show "keeps_data (st_tables s) (st_tables s')"
    using withinD [OF untouched_open assms(1)] assms(2) by (auto dest: untouchedD)
  show "healthy s \<Longrightarrow> healthy s'" using withinD [OF untouched_open assms(1)] by (simp add: untouched_def)
qed


lemma sx_bind_lift: "sx_bind (sx_lift (Inr a)) f = f a"
  by (simp add: sx_bind_def sx_lift_def fun_eq_iff)

section \<open>Configuration only reads\<close>

lemma reads_only:
  "load_config env path w = (r, w') \<Longrightarrow> w' = w" "named_file env v w = (q, w') \<Longrightarrow> w' = w"
  "load_engine env v w = (z, w') \<Longrightarrow> w' = w" "exit_if b s = (u, s') \<Longrightarrow> s' = s"
  by (auto simp: load_config_def named_file_def load_engine_def exit_if_def sx_raise_def sx_return_def
      split: option.splits if_splits sum.splits)

lemma load_governance_reads: "load_governance env args cfg w = (r, w') \<Longrightarrow> w' = w"
  unfolding load_governance_def
  by (auto simp: sx_bind_def sx_return_def sx_raise_def split: sum.splits prod.splits option.splits if_splits dest: reads_only(2))

lemma exit_if_Inr [sx_simps]: "exit_if b s = (Inr u, s') \<longleftrightarrow> \<not> b \<and> s' = s"
  by (auto simp: exit_if_def sx_raise_def sx_return_def)

section \<open>A service on a database\<close>

lemma connect_props [simp]:
  "idle (connect path w)" "st_tables (connect path w) = db_tables path w"
  "healthy (connect path w) \<longleftrightarrow> (\<forall>n. \<not> wl_faults w n)"
  by (simp_all add: connect_def idle_def healthy_def)

lemma new_service_spec:
  assumes "new_service bus root revoked prov st = (Inr svc, st')" "idle st"
  shows "sv_store svc = st'" "idle st'" "keeps_data (st_tables st) (st_tables st')" "sv_trust_root svc = root"
    "sv_revocation_list svc = revoked" "sv_provider_id svc = prov" "sv_audit_log svc = []"
    "\<exists>st1. load_catalog st = (Inr (sv_catalog svc), st1)"
proof -
  define note_list where "note_list = (if revoked = JNull then sx_return ()
      else sx_bind (sx_lift (case revoked of JDict kvs \<Rightarrow> Inr kvs | _ \<Rightarrow> Inl AttributeError)) (\<lambda>kvs.
        sx_bind (set_meta ''gov_revocation_list_id'' (py_str (get_or kvs ''list_id'' (JStr [])))) (\<lambda>_.
        set_meta ''gov_revocation_list_issued_at'' (py_str (get_or kvs ''issued_at'' (JStr []))))))"
  obtain cat st1 where c: "load_catalog st = (Inr cat, st1)" and n: "note_list st1 = (Inr (), st')"
      and svc: "svc = \<lparr>sv_store = st', sv_catalog = cat, sv_audit_log = [], sv_bus = bus, sv_trust_root = root,
                   sv_revocation_list = revoked, sv_provider_id = prov\<rparr>"
    using assms(1) unfolding new_service_def note_list_def [symmetric] by (auto simp: sx_simps)
  have meta: "within (untouched data_of) (set_meta k v)" "set_meta k v s = (r, s') \<Longrightarrow> idle s'" for k v s r s'
    unfolding set_meta_def by (intro untouched_with_conn untouched_update data_of_meta) (rule with_conn_idle)
  have cat: "within (untouched data_of) load_catalog"
    unfolding load_catalog_def by (intro untouched.within_rules untouched_query)
  have cat_kept: "within kept load_catalog" unfolding load_catalog_def by (intro kept.within_rules evolves.store_query)
  have i1: "idle st1" using withinD [OF cat_kept c] assms(2) by (simp add: kept_def)
  have note_u: "within (untouched data_of) note_list"
    unfolding note_list_def by (auto intro!: untouched.within_rules meta(1))
  have i2: "idle st'" using n i1 meta(2) unfolding note_list_def by (auto simp: sx_simps split: if_splits)
  have "untouched data_of st st'" using withinD [OF cat c] withinD [OF note_u n] untouched.trans by blast
  then show "keeps_data (st_tables st) (st_tables st')" using assms(2) by (auto dest: untouchedD)
  show "\<exists>st1. load_catalog st = (Inr (sv_catalog svc), st1)" using c svc by auto
  show "sv_store svc = st'" "idle st'" "sv_trust_root svc = root" "sv_revocation_list svc = revoked"
    "sv_provider_id svc = prov" "sv_audit_log svc = []"
    using svc i2 by simp_all
qed

lemma on_db_service:
  assumes "on_db db (with_service env root revoked m) w = (Inr v, w')"
  obtains svc svc' st where "m svc = (Inr v, svc')" "idle (sv_store svc)" "keeps_data (db_tables db w) (st_tables (sv_store svc))"
    "sv_trust_root svc = root" "sv_revocation_list svc = revoked" "sv_provider_id svc = ''toolconnect''"
    "open_store (connect db w) = (Inr (), st)" "fst (load_catalog st) = Inr (sv_catalog svc)"
    "w' = disconnect db (sv_store svc') w"
proof -
  obtain st st2 where o: "open_store (connect db w) = (Inr (), st)"
      and ws: "with_service env root revoked m st = (Inr v, st2)" and w': "w' = disconnect db st2 w"
    using assms by (auto simp: on_db_def sx_simps split: prod.splits)
  obtain svc st1 svc' where n: "new_service (from_env (ce_float env) (ce_environ env)) root revoked ''toolconnect'' st = (Inr svc, st1)"
      and m: "m svc = (Inr v, svc')" "st2 = sv_store svc'"
    using ws by (auto simp: with_service_def split: prod.splits sum.splits)
  have od: "idle st" "keeps_data (db_tables db w) (st_tables st)" using open_data [OF o] by simp_all
  note ns = new_service_spec [OF n od(1)]
  have k: "keeps_data (db_tables db w) (st_tables (sv_store svc))"
    using od(2) ns(1,3) by simp
  have f: "fst (load_catalog st) = Inr (sv_catalog svc)" using ns(8) by auto
  show ?thesis by (rule that [OF m(1) _ k ns(4-6) o f]) (use ns w' m in simp_all)
qed

lemma disconnect_db [simp]: "dict_get (wl_dbs (disconnect db s w)) db = Some (base s)"
  by (simp add: disconnect_def dict_simps)

lemma disconnect_fields [simp]:
  "wl_sent (disconnect db s w) = wl_sent w" "wl_replies (disconnect db s w) = wl_replies w"
  "wl_answers (disconnect db s w) = wl_answers w" "wl_printed (disconnect db s w) = wl_printed w"
  "wl_files (disconnect db s w) = wl_files w"
  by (simp_all add: disconnect_def)

section \<open>The gateway process\<close>

definition redeemed_in :: "tables \<Rightarrow> string \<Rightarrow> bool" where
  "redeemed_in t gid \<longleftrightarrow> (\<exists>g. dict_get (t_grants t) gid = Some g \<and> gr_redeemed_at g \<noteq> None)"

text \<open>What a session leaves in the store, given that its service started on \<open>t\<close>.\<close>

lemma session_mediates:
  assumes "run_session env engine who sid downstream svc = (Inr (sent, replies), svc')" "idle (sv_store svc)"
  shows "idle (sv_store svc')" "list_all (\<lambda>m. plumbing m \<or> is_tool_call m) sent"
    "\<exists>gids. distinct gids \<and> list_all2 (backed (st_tables (sv_store svc')) who sid) (filter is_tool_call sent) gids \<and>
       list_all (\<lambda>gid. \<not> redeemed_in (st_tables (sv_store svc)) gid) gids"
proof -
  define genv where "genv = (ce_gateway env)\<lparr>ge_deps := with_engine engine (ge_deps (ce_gateway env))\<rparr>"
  obtain g where g: "new_gateway (ce_spawn env) svc who sid downstream (ce_out_fails env) = Inr g"
      and out: "sent = lk_sent (gw_link (run_gateway genv (ce_input env) g))" "svc' = gw_service (run_gateway genv (ce_input env) g)"
    using assms(1) unfolding run_session_def genv_def [symmetric] by (auto simp: Let_def split: sum.splits fault.splits)
  have g0: "gw_service g = svc" "gw_principal g = who" "gw_source_id g = sid" "lk_sent (gw_link g) = []"
    using g by (auto simp: new_gateway_def split: if_splits option.splits)
  obtain ms gids where f: "forwards g (run_gateway genv (ce_input env) g) ms gids"
      and e: "evolves (gw_service g) (gw_service (run_gateway genv (ce_input env) g))"
    using mediates_run [of g genv "ce_input env"] assms(2) g0(1) by (auto simp: mediates_def)
  show "idle (sv_store svc')" using evolves_idle [OF e] assms(2) g0(1) out(2) by simp
  show "list_all (\<lambda>m. plumbing m \<or> is_tool_call m) sent" using f g0(4) out(1) by (simp add: forwards_def)
  show "\<exists>gids. distinct gids \<and> list_all2 (backed (st_tables (sv_store svc')) who sid) (filter is_tool_call sent) gids \<and>
      list_all (\<lambda>gid. \<not> redeemed_in (st_tables (sv_store svc)) gid) gids"
    using f g0 out by (intro exI [of _ gids]) (auto simp: forwards_def redeemed_in_def list_all_iff)
qed

text \<open>C4: from the command line to the database file. Whatever the configuration, the client, the
  downstream server and the statements that fail: when \<open>toolconnect gateway\<close> ends, everything it
  sent downstream is plumbing or a tool call, and the tool calls are matched one to one by distinct
  grants in the file, redeemed for the principal and source of the command line, that tool and the
  digest of those arguments, none of which was redeemed in the file when the process started.\<close>

theorem gateway_command_mediates:
  assumes "cmd_gateway env args w = (Inr code, w')"
  shows "\<exists>cfg db pid sid t sent. code = 0 \<and> fst (load_config env (ns_config args) w) = Inr cfg \<and>
    path_of env (db_arg args cfg) = Inr db \<and> ns_principal_id args = Some pid \<and> ns_source_id args = Some sid \<and>
    dict_get (wl_dbs w') db = Some t \<and> wl_sent w' = wl_sent w @ sent \<and>
    list_all (\<lambda>m. plumbing m \<or> is_tool_call m) sent \<and>
    (\<exists>gids. distinct gids \<and>
       list_all2 (backed t [(''id'', JStr pid), (''kind'', JStr (ns_principal_kind args)), (''privacy_tier'', JStr (ns_privacy_tier args))] sid)
         (filter is_tool_call sent) gids \<and>
       list_all (\<lambda>gid. \<not> redeemed_in (db_tables db w) gid) gids)"
proof -
  obtain cfg db pid sid engine root revoked sent replies w1 where
      c: "load_config env (ns_config args) w = (Inr cfg, w)" and db: "path_of env (db_arg args cfg) = Inr db"
      and ids: "ns_principal_id args = Some pid" "ns_source_id args = Some sid"
      and run: "on_db db (with_service env root revoked (run_session env engine [(''id'', JStr pid), (''kind'', JStr (ns_principal_kind args)),
           (''privacy_tier'', JStr (ns_privacy_tier args))] sid (drop_separator (ns_downstream args)))) w = (Inr (sent, replies), w1)"
      and w': "w' = w1\<lparr>wl_sent := wl_sent w1 @ sent, wl_replies := wl_replies w1 @ replies\<rparr>" "code = 0"
    using assms unfolding cmd_gateway_def
    by (auto simp: sx_simps Let_def non_empty_def split: option.splits if_splits prod.splits dest!: reads_only(1,3) load_governance_reads)
  obtain svc svc' where s: "run_session env engine [(''id'', JStr pid), (''kind'', JStr (ns_principal_kind args)),
           (''privacy_tier'', JStr (ns_privacy_tier args))] sid (drop_separator (ns_downstream args)) svc = (Inr (sent, replies), svc')"
      and i: "idle (sv_store svc)" and k: "keeps_data (db_tables db w) (st_tables (sv_store svc))" and w1: "w1 = disconnect db (sv_store svc') w"
    using on_db_service [OF run] by metis
  note sm = session_mediates [OF s i]
  have t: "dict_get (wl_dbs w') db = Some (st_tables (sv_store svc'))" "wl_sent w' = wl_sent w @ sent"
    using w' w1 sm(1) by (simp_all add: idle_base)
  have "redeemed_in (st_tables (sv_store svc)) = redeemed_in (db_tables db w)"
    using k by (simp add: redeemed_in_def data_of_def fun_eq_iff)
  note matched = sm(3) [unfolded this]
  show ?thesis
    by (intro exI [of _ cfg] exI [of _ db] exI [of _ pid] exI [of _ sid] exI [of _ "st_tables (sv_store svc')"] exI [of _ sent] conjI
        w'(2) db ids t sm(2) matched) (simp add: c)
qed

section \<open>Checking the audit chain\<close>

definition openable :: "tables \<Rightarrow> bool" where
  "openable t \<longleftrightarrow> t = empty_tables \<or> (\<exists>v. 1 \<le> v \<and> v \<le> 5 \<and> at_version v t)"

lemma open_current:
  assumes "healthy s" "idle s" "at_version 5 (st_tables s)"
  shows "\<exists>s'. open_store s = (Inr (), s') \<and> st_tables s' = st_tables s \<and> idle s' \<and> healthy s'"
proof -
  obtain s' where o: "open_store s = (Inr (), s')" "st_tables s' = upgraded (nat (5 - 5)) 5 (st_tables s)"
    using open_body_healthy [OF assms(1,3)] by auto
  then show ?thesis using open_data [OF o(1) assms(2)] assms(1) by simp
qed

lemma open_fresh:
  assumes "healthy s" "idle s" "st_tables s = empty_tables"
  shows "\<exists>s'. open_store s = (Inr (), s') \<and> at_version 5 (st_tables s') \<and> audit_ok (st_tables s')"
proof -
  define s1 where "s1 = s\<lparr>st_faults := \<lambda>n. st_faults s (Suc (Suc (Suc n))), st_begun := Some empty_tables,
      st_tables := upsert_meta VERSION_KEY (show_int 1) empty_tables\<rparr>"
  define body where "body = sx_bind (ddl Inr) (\<lambda>_.
     sx_bind (query (\<lambda>t. dict_get (t_meta t) VERSION_KEY)) (\<lambda>row.
     sx_bind (case row of
                None \<Rightarrow> sx_bind (update_tables (upsert_meta VERSION_KEY (show_int BASELINE_VERSION)))
                          (\<lambda>_. sx_return BASELINE_VERSION)
              | Some v \<Rightarrow> sx_lift (py_int v)) (\<lambda>current.
     if current > SCHEMA_VERSION then sx_raise SchemaTooNewError
     else if current < SCHEMA_VERSION then migrate current
     else sx_return ())))"
  have no_version: "dict_get (t_meta empty_tables) VERSION_KEY = None" by (simp add: empty_tables_def)
  have "body s = migrate 1 s1"
    using assms no_version
    by (simp add: body_def s1_def sx_bind_def ddl_def query_def update_tables_def dml_def statement_def healthy_def idle_def Let_def
        sx_get_def sx_return_def BASELINE_VERSION_def SCHEMA_VERSION_def)
  moreover have h1: "healthy s1" "at_version 1 (st_tables s1)"
    using assms(1) by (simp_all add: s1_def healthy_def at_version_def upsert_meta_def empty_tables_def dict_simps)
  moreover obtain s2 where s2: "migrate 1 s1 = (Inr (), s2)" "healthy s2" "st_tables s2 = upgraded 4 1 (st_tables s1)"
    using migrate_healthy [OF h1, of 4] by auto
  ultimately have run: "body s = (Inr (), s2)" by simp
  have "st_tables s1 = v1_tables" by (simp add: s1_def v1_tables_def upsert_meta_def empty_tables_def)
  then have "at_version 5 (st_tables s2)" "audit_ok (st_tables s2)"
    using upgraded_props [OF h1(2), of 4] upgraded_chain [of 1 v1_tables 4] v1_at(2) s2(3) by simp_all
  then show ?thesis
    unfolding open_store_def body_def [symmetric] healthy_with_conn [where m = body, OF assms(1) run s2(2)] by auto
qed

lemma open_healthy:
  assumes "healthy s" "idle s" "openable (st_tables s)"
  obtains s' where "open_store s = (Inr (), s')" "idle s'" "healthy s'" "at_version 5 (st_tables s')"
    "keeps_data (st_tables s) (st_tables s')"
proof -
  obtain s' where o: "open_store s = (Inr (), s')" "at_version 5 (st_tables s')"
  proof (cases "st_tables s = empty_tables")
    case True
    then show ?thesis using open_fresh [OF assms(1,2)] that by blast
  next
    case False
    then obtain v where v: "1 \<le> v" "v \<le> 5" "at_version v (st_tables s)" using assms(3) by (auto simp: openable_def)
    obtain s' where "open_store s = (Inr (), s')" "st_tables s' = upgraded (nat (5 - v)) v (st_tables s)"
      using open_body_healthy [OF assms(1) v(3,1,2)] by blast
    then show ?thesis using that upgraded_props [OF v(3,1), of "nat (5 - v)"] v(2) by simp
  qed
  then show ?thesis using that open_data [OF o(1) assms(2)] assms(1) by blast
qed

text \<open>The chain links from its origin, and a recorded high-water mark names its end.\<close>

definition chain_intact :: "tables \<Rightarrow> bool" where
  "chain_intact t \<longleftrightarrow> linked GENESIS (t_audit t) \<and>
     (\<forall>q. dict_get (t_meta t) AUDIT_HEAD_SEQ = Some q \<longrightarrow>
        py_int q = Inr (if t_audit t = [] then 0 else au_seq (last (t_audit t))) \<and>
        (\<forall>h. dict_get (t_meta t) AUDIT_HEAD_HASH = Some h \<longrightarrow> h = tip GENESIS (t_audit t)))"

lemma check_chain_intact:
  "chain_intact t \<longleftrightarrow> (\<exists>cv. check_chain (t_audit t) (dict_get (t_meta t) AUDIT_HEAD_SEQ) (dict_get (t_meta t) AUDIT_HEAD_HASH) = Inr cv \<and> cv_ok cv)"
proof
  assume i: "chain_intact t"
  then have l: "linked GENESIS (t_audit t)" by (simp add: chain_intact_def)
  show "\<exists>cv. check_chain (t_audit t) (dict_get (t_meta t) AUDIT_HEAD_SEQ) (dict_get (t_meta t) AUDIT_HEAD_HASH) = Inr cv \<and> cv_ok cv"
    using i walk_chain_linked [OF l, of 0 None]
    by (cases "dict_get (t_meta t) AUDIT_HEAD_SEQ") (auto simp: check_chain_def chain_intact_def Let_def)
next
  assume "\<exists>cv. check_chain (t_audit t) (dict_get (t_meta t) AUDIT_HEAD_SEQ) (dict_get (t_meta t) AUDIT_HEAD_HASH) = Inr cv \<and> cv_ok cv"
  then show "chain_intact t" using check_chain_ok by (fastforce simp: chain_intact_def)
qed

lemma untouched_verify: "within (untouched view) verify_chain"
  unfolding verify_chain_def by (intro untouched.within_rules untouched_query)

text \<open>What \<open>SqliteStore(db).verify_chain()\<close> finds, and what it leaves in the file.\<close>

lemma on_db_verify:
  assumes "on_db db verify_chain w = (r, w')"
  obtains t where "dict_get (wl_dbs w') db = Some t" "keeps_data (db_tables db w) t"
    "\<And>cv. r = Inr cv \<Longrightarrow> cv_ok cv \<longleftrightarrow> chain_intact t"
    "(\<forall>n. \<not> wl_faults w n) \<Longrightarrow> openable (db_tables db w) \<Longrightarrow>
       at_version 5 t \<and> (chain_intact t \<longrightarrow> (\<exists>cv. r = Inr cv \<and> cv_ok cv)) \<and>
       (at_version 5 (db_tables db w) \<longrightarrow> t = db_tables db w)"
proof -
  obtain q s where o: "open_store (connect db w) = (q, s)" by fastforce
  note od = open_data [OF o connect_props(1), unfolded connect_props(2)]
  obtain s2 where run: "sx_bind open_store (\<lambda>_. verify_chain) (connect db w) = (r, s2)" and w': "w' = disconnect db s2 w"
    using assms by (auto simp: on_db_def split: prod.splits)
  have kept: "within kept verify_chain" by (rule evolves.store_reads)
  have s2: "idle s2 \<and> st_tables s2 = st_tables s \<and> (\<forall>cv. r = Inr cv \<longrightarrow> verify_chain s = (Inr cv, s2))"
  proof (cases q)
    case (Inl e)
    then show ?thesis using run o od(1) by (auto simp: sx_bind_def)
  next
    case (Inr u)
    then have v: "verify_chain s = (r, s2)" using run o by (simp add: sx_bind_def)
    have "untouched (\<lambda>t. t) s s2" using withinD [OF untouched_verify v] by blast
    then show ?thesis using v untouchedD [OF _ od(1)] withinD [OF kept v] od(1) by (auto simp: kept_def)
  qed
  have ok: "cv_ok cv \<longleftrightarrow> chain_intact (st_tables s)" if "r = Inr cv" for cv
    using s2 that verify_chain_run [of s cv s2] by (auto simp: check_chain_intact)
  have full: "at_version 5 (st_tables s) \<and> (chain_intact (st_tables s) \<longrightarrow> (\<exists>cv. r = Inr cv \<and> cv_ok cv)) \<and>
      (at_version 5 (db_tables db w) \<longrightarrow> st_tables s = db_tables db w)"
    if h: "\<forall>n. \<not> wl_faults w n" "openable (db_tables db w)"
  proof -
    obtain s' where s': "open_store (connect db w) = (Inr (), s')" "healthy s'" "at_version 5 (st_tables s')"
      using open_healthy [of "connect db w"] h by auto
    have "q = Inr ()" "s = s'" using o s'(1) by simp_all
    then have "fst (verify_chain s) = r" using run o by (simp add: sx_bind_def)
    then have "chain_intact (st_tables s) \<longrightarrow> (\<exists>cv. r = Inr cv \<and> cv_ok cv)"
      using verify_chain_healthy [OF s'(2)] \<open>s = s'\<close> by (simp add: check_chain_intact)
    moreover have "at_version 5 (db_tables db w) \<longrightarrow> st_tables s = db_tables db w"
      using open_current [of "connect db w"] h(1) o by auto
    ultimately show ?thesis using s'(3) \<open>s = s'\<close> by blast
  qed
  show ?thesis
    by (rule that [of "st_tables s"]) (use w' s2 od(2) ok full in \<open>auto simp: idle_base\<close>)
qed

text \<open>\<open>main\<close> changes neither the databases nor the status of a command.\<close>

lemma main_cmd_caught:
  "wl_dbs (snd (main_cmd c env args w)) = wl_dbs (snd (func c env args w))"
  "exit_status (fst (main_cmd c env args w)) = exit_status (fst (func c env args w))"
  by (cases "func c env args w"; cases "fst (func c env args w)";
      simp add: main_cmd_def sx_catch_def say_def sx_bind_def sx_modify_def sx_return_def sx_raise_def exit_status_def)+

lemma verify_audit_status:
  assumes "db_path env args w = (Inr db, w)"
  shows "\<exists>t. dict_get (wl_dbs (snd (main_cmd VerifyAudit env args w))) db = Some t \<and> keeps_data (db_tables db w) t \<and>
    (exit_status (fst (main_cmd VerifyAudit env args w)) = 0 \<longrightarrow> chain_intact t) \<and>
    ((\<forall>n. \<not> wl_faults w n) \<and> openable (db_tables db w) \<longrightarrow>
       (exit_status (fst (main_cmd VerifyAudit env args w)) = 0 \<longleftrightarrow> chain_intact t) \<and>
       (at_version 5 (db_tables db w) \<longrightarrow> t = db_tables db w))"
proof -
  obtain r w1 where run: "on_db db verify_chain w = (r, w1)" by fastforce
  obtain t where t: "dict_get (wl_dbs w1) db = Some t" "keeps_data (db_tables db w) t"
      "\<And>cv. r = Inr cv \<Longrightarrow> cv_ok cv \<longleftrightarrow> chain_intact t"
      "(\<forall>n. \<not> wl_faults w n) \<Longrightarrow> openable (db_tables db w) \<Longrightarrow>
        at_version 5 t \<and> (chain_intact t \<longrightarrow> (\<exists>cv. r = Inr cv \<and> cv_ok cv)) \<and> (at_version 5 (db_tables db w) \<longrightarrow> t = db_tables db w)"
    by (rule on_db_verify [OF run]) blast
  have out: "wl_dbs (snd (main_cmd VerifyAudit env args w)) = wl_dbs w1"
    "exit_status (fst (main_cmd VerifyAudit env args w)) = 0 \<longleftrightarrow> (\<exists>cv. r = Inr cv \<and> cv_ok cv)"
    unfolding main_cmd_caught using assms run
    by (cases r; simp add: cmd_verify_audit_def sx_bind_def say_def sx_modify_def sx_return_def exit_status_def)+
  show ?thesis using out t by (intro exI [of _ t]) auto
qed

text \<open>A database file that is absent, moved away or misspelt in the path, is created and found intact.\<close>

lemma missing_database_verifies:
  assumes "db_path env args w = (Inr db, w)" "dict_get (wl_dbs w) db = None" "\<forall>n. \<not> wl_faults w n"
  shows "exit_status (fst (main_cmd VerifyAudit env args w)) = 0"
proof -
  have e: "db_tables db w = empty_tables" using assms(2) by (simp add: db_tables_def)
  obtain s where o: "open_store (connect db w) = (Inr (), s)" "audit_ok (st_tables s)"
    using open_fresh [of "connect db w"] assms(3) e by auto
  have h: "healthy s" using open_data(3) [OF o(1)] assms(3) by simp
  have "fst (on_db db verify_chain w) = fst (verify_chain s)" using o(1) by (simp add: on_db_def sx_bind_def split: prod.split)
  then obtain cv where "fst (on_db db verify_chain w) = Inr cv" "cv_ok cv"
    using verify_chain_healthy [OF h] check_chain_audit_ok [OF o(2)] by auto
  then show ?thesis
    unfolding main_cmd_caught using assms(1)
    by (cases "on_db db verify_chain w") (simp add: cmd_verify_audit_def sx_bind_def say_def sx_modify_def sx_return_def exit_status_def)
qed

text \<open>C18: the operator's check is exact. Whatever statements fail, \<open>toolconnect verify-audit\<close> exits with 0
  only if the audit chain in the file is intact, and it changes no data; on a database of a
  supported version whose statements succeed it exits with 0 exactly then, and a database of the
  current version is not written at all. A database of a newer version gives status 1 and stays
  as it is.\<close>

theorem verify_audit_exact:
  assumes "db_path env args w = (Inr db, w)"
  shows "\<exists>t. dict_get (wl_dbs (snd (main_cmd VerifyAudit env args w))) db = Some t \<and> keeps_data (db_tables db w) t \<and>
    (exit_status (fst (main_cmd VerifyAudit env args w)) = 0 \<longrightarrow> chain_intact t) \<and>
    ((\<forall>n. \<not> wl_faults w n) \<and> openable (db_tables db w) \<longrightarrow>
       (exit_status (fst (main_cmd VerifyAudit env args w)) = 0 \<longleftrightarrow> chain_intact t) \<and>
       (at_version 5 (db_tables db w) \<longrightarrow> t = db_tables db w))"
  by (rule verify_audit_status [OF assms])

lemma on_db_backup:
  assumes "on_db db (sx_bind (sx_lift p) (\<lambda>dest. sx_bind statement (\<lambda>_. sx_get (\<lambda>s. (dest, backup s))))) w = (r, w')"
  obtains t where "dict_get (wl_dbs w') db = Some t" "keeps_data (db_tables db w) t" "\<And>dest copy. r = Inr (dest, copy) \<Longrightarrow> copy = t \<and> p = Inr dest"
    "wl_dbs w' = dict_set db t (wl_dbs w)"
    "(\<forall>n. \<not> wl_faults w n) \<Longrightarrow> openable (db_tables db w) \<Longrightarrow> p = Inr d \<Longrightarrow>
       at_version 5 t \<and> r = Inr (d, t) \<and> (\<forall>n. \<not> wl_faults w' n)"
proof -
  define copy where "copy = sx_bind (sx_lift p) (\<lambda>dest. sx_bind statement (\<lambda>_. sx_get (\<lambda>s. (dest, backup s))))"
  obtain q s where o: "open_store (connect db w) = (q, s)" by fastforce
  note od = open_data [OF o connect_props(1), unfolded connect_props(2)]
  obtain s2 where run: "sx_bind open_store (\<lambda>_. copy) (connect db w) = (r, s2)" and w': "w' = disconnect db s2 w"
    using assms by (auto simp: on_db_def copy_def split: prod.splits)
  have b: "base s = st_tables s" using od(1) by (rule idle_base)
  have s2: "base s2 = st_tables s" "\<And>dest c. r = Inr (dest, c) \<Longrightarrow> c = st_tables s \<and> p = Inr dest"
    using run o od(1)
    by (auto simp: idle_def sx_bind_def copy_def sx_lift_def statement_def sx_get_def backup_def base_def Let_def split: sum.splits if_splits prod.splits)
  have full: "at_version 5 (st_tables s) \<and> r = Inr (d, st_tables s) \<and> (\<forall>n. \<not> wl_faults w' n)"
    if h: "\<forall>n. \<not> wl_faults w n" "openable (db_tables db w)" "p = Inr d"
  proof -
    obtain s' where s': "open_store (connect db w) = (Inr (), s')" "healthy s'" "at_version 5 (st_tables s')"
      using open_healthy [of "connect db w"] h by auto
    have "q = Inr ()" "s = s'" using o s'(1) by simp_all
    then have "copy s = (r, s2)" using run o by (simp add: sx_bind_def)
    moreover have "copy s = (Inr (d, backup s), s\<lparr>st_faults := \<lambda>n. st_faults s (Suc n)\<rparr>)"
      using s'(2) \<open>s = s'\<close> h(3)
      by (simp add: copy_def sx_bind_def sx_lift_def sx_get_def healthy_run(1) backup_def base_def split: option.split)
    ultimately have "r = Inr (d, backup s)" "s2 = s\<lparr>st_faults := \<lambda>n. st_faults s (Suc n)\<rparr>" by simp_all
    then show ?thesis using s' \<open>s = s'\<close> b w' by (simp add: backup_def disconnect_def healthy_def)
  qed
  have stored_db: "dict_get (wl_dbs w') db = Some (st_tables s)" "wl_dbs w' = dict_set db (st_tables s) (wl_dbs w)"
    using w' s2(1) by (simp_all add: disconnect_def dict_simps)
  show ?thesis by (rule that [OF stored_db(1) od(2) s2(2) stored_db(2) full])
qed

lemma on_db_other: "on_db path m w = (r, w') \<Longrightarrow> db \<noteq> path \<Longrightarrow> dict_get (wl_dbs w') db = dict_get (wl_dbs w) db"
  by (auto simp: on_db_def disconnect_def dict_simps split: prod.splits)

text \<open>C19: a backup that reports success is one. Whatever statements fail, \<open>toolconnect backup\<close> leaves the data of
  the database alone, and exits with 0 only if the destination holds all of that data with an intact
  audit chain. When the statements succeed on a database of a supported version, the destination
  holds exactly the tables of the database, and the status is 0 exactly when their chain is intact.\<close>

theorem backup_exact:
  assumes "load_config env (ns_config args) w = (Inr cfg, w)" "truthy (db_arg args cfg)" "path_of env (db_arg args cfg) = Inr db"
    and "ns_out args = Some out" "out \<noteq> []" "ce_expand env out = Inr dest" "db \<noteq> dest" "dest \<noteq> '':memory:''"
  shows "\<exists>t. dict_get (wl_dbs (snd (main_cmd Backup env args w))) db = Some t \<and> keeps_data (db_tables db w) t \<and>
    (exit_status (fst (main_cmd Backup env args w)) = 0 \<longrightarrow>
       (\<exists>c. dict_get (wl_dbs (snd (main_cmd Backup env args w))) dest = Some c \<and> keeps_data (db_tables db w) c \<and> chain_intact c)) \<and>
    ((\<forall>n. \<not> wl_faults w n) \<and> openable (db_tables db w) \<longrightarrow>
       dict_get (wl_dbs (snd (main_cmd Backup env args w))) dest = Some t \<and>
       (exit_status (fst (main_cmd Backup env args w)) = 0 \<longleftrightarrow> chain_intact t))"
proof -
  define copy where "copy = sx_bind (sx_lift (path_of env (flag_or (ns_out args) JNull))) (\<lambda>dest. sx_bind statement (\<lambda>_. sx_get (\<lambda>s. (dest, backup s))))"
  have p: "path_of env (flag_or (ns_out args) JNull) = Inr dest" using assms(4-6) by (simp add: flag_or_def non_empty_def path_of_def)
  obtain r1 w1 where run1: "on_db db copy w = (r1, w1)" by fastforce
  obtain t where t: "dict_get (wl_dbs w1) db = Some t" "keeps_data (db_tables db w) t"
      "\<And>d c. r1 = Inr (d, c) \<Longrightarrow> c = t \<and> path_of env (flag_or (ns_out args) JNull) = Inr d"
      "(\<forall>n. \<not> wl_faults w n) \<Longrightarrow> openable (db_tables db w) \<Longrightarrow> path_of env (flag_or (ns_out args) JNull) = Inr dest \<Longrightarrow>
        at_version 5 t \<and> r1 = Inr (dest, t) \<and> (\<forall>n. \<not> wl_faults w1 n)"
    by (rule on_db_backup [OF run1 [unfolded copy_def], of dest]) blast
  define w2 where "w2 = w1\<lparr>wl_dbs := dict_set dest t (wl_dbs w1)\<rparr>"
  obtain r3 w3 where run3: "on_db dest verify_chain w2 = (r3, w3)" by fastforce
  have d2: "db_tables dest w2 = t" using assms(8) by (simp add: db_tables_def w2_def dict_simps)
  obtain u where u: "dict_get (wl_dbs w3) dest = Some u" "keeps_data t u" "\<And>cv. r3 = Inr cv \<Longrightarrow> cv_ok cv \<longleftrightarrow> chain_intact u"
      "(\<forall>n. \<not> wl_faults w2 n) \<Longrightarrow> openable t \<Longrightarrow>
        at_version 5 u \<and> (chain_intact u \<longrightarrow> (\<exists>cv. r3 = Inr cv \<and> cv_ok cv)) \<and> (at_version 5 t \<longrightarrow> u = t)"
    by (rule on_db_verify [OF run3, unfolded d2]) blast
  have db3: "dict_get (wl_dbs w3) db = Some t" using on_db_other [OF run3 assms(7)] t(1) assms(7) by (simp add: w2_def dict_simps)
  define report :: "ChainVerification \<Rightarrow> (world, int) sx" where "report = (\<lambda>chain. sx_bind (say (Line ''backed up'' [db_arg args cfg, JStr dest, JBool (cv_ok chain), JInt (int (cv_records chain))]))
      (\<lambda>_. sx_return (if cv_ok chain then 0 else 1)))"
  have cmd: "cmd_backup env args w = (case r1 of Inl e \<Rightarrow> (Inl e, w1) | Inr v \<Rightarrow> sx_bind (on_db dest verify_chain) report w2)"
  proof -
    have "cmd_backup env args w = sx_bind (on_db db copy) (\<lambda>(dest, copy).
        sx_bind (sx_modify (\<lambda>w. w\<lparr>wl_dbs := dict_set dest copy (wl_dbs w)\<rparr>)) (\<lambda>_.
        sx_bind (on_db dest verify_chain) (\<lambda>chain.
        sx_bind (say (Line ''backed up'' [db_arg args cfg, JStr dest, JBool (cv_ok chain), JInt (int (cv_records chain))])) (\<lambda>_.
        sx_return (if cv_ok chain then 0 else 1))))) w"
      unfolding cmd_backup_def copy_def [symmetric] sx_bind_run [where m = "load_config env (ns_config args)", OF assms(1)]
      using assms(2-5) by (simp add: exit_if_def non_empty_def sx_bind_lift)
    then show ?thesis
      using run1 t(3) p by (cases r1) (auto simp: sx_bind_def sx_modify_def w2_def report_def)
  qed
  have said: "report cv w = (Inr (if cv_ok cv then 0 else 1), w\<lparr>wl_printed := wl_printed w @ [Line ''backed up'' [db_arg args cfg, JStr dest, JBool (cv_ok cv), JInt (int (cv_records cv))]]\<rparr>)" for cv w
    by (simp add: report_def say_def sx_bind_def sx_modify_def sx_return_def)
  have out: "wl_dbs (snd (main_cmd Backup env args w)) = (case r1 of Inl e \<Rightarrow> wl_dbs w1 | Inr v \<Rightarrow> wl_dbs w3)"
    "exit_status (fst (main_cmd Backup env args w)) = 0 \<longleftrightarrow> (\<exists>v cv. r1 = Inr v \<and> r3 = Inr cv \<and> cv_ok cv)"
    unfolding main_cmd_caught func.simps cmd using run3 by (cases r1; cases r3; simp add: sx_bind_def said exit_status_def)+
  have db: "dict_get (wl_dbs (snd (main_cmd Backup env args w))) db = Some t"
    using out(1) t(1) db3 by (cases r1) auto
  moreover have "\<exists>c. dict_get (wl_dbs (snd (main_cmd Backup env args w))) dest = Some c \<and> keeps_data (db_tables db w) c \<and> chain_intact c"
    if "exit_status (fst (main_cmd Backup env args w)) = 0"
    using that out u(1-3) t(2) by auto
  moreover have "dict_get (wl_dbs (snd (main_cmd Backup env args w))) dest = Some t \<and>
      (exit_status (fst (main_cmd Backup env args w)) = 0 \<longleftrightarrow> chain_intact t)"
    if h: "(\<forall>n. \<not> wl_faults w n) \<and> openable (db_tables db w)"
  proof -
    have h1: "at_version 5 t" "r1 = Inr (dest, t)" "\<forall>n. \<not> wl_faults w2 n" using t(4) h p by (auto simp: w2_def)
    then have "openable t" by (auto simp: openable_def)
    then have "u = t" "chain_intact t \<longrightarrow> (\<exists>cv. r3 = Inr cv \<and> cv_ok cv)" using u(4) h1 by auto
    then show ?thesis using out h1(2) u(1,3) by auto
  qed
  ultimately show ?thesis using t(2) by blast
qed

section \<open>Drift on the command line and over HTTP\<close>

text \<open>The same finding: what the service answers, and what the command computes from the store.\<close>

definition same_drift :: "response result \<Rightarrow> (DriftReport \<times> string) result \<Rightarrow> bool" where
  "same_drift answer found \<longleftrightarrow>
     (case answer of
        Inr resp \<Rightarrow> \<exists>report observed_at. found = Inr (report, observed_at) \<and> resp = drift_payload report @ [(''observed_at'', JStr observed_at)]
      | Inl e \<Rightarrow> found = Inl e \<or> (\<exists>n. e = ServiceError n) \<and> found = Inl SystemExit)"

lemma drift_on_same:
  "same_drift (fst (with_service env root JNull (Service.drift source) st)) (fst (drift_on source st))"
proof -
  obtain q s1 where c: "load_catalog st = (q, s1)" by fastforce
  show ?thesis
  proof (cases q)
    case (Inl e)
    then show ?thesis using c by (simp add: with_service_def new_service_def drift_on_def sx_bind_def same_drift_def)
  next
    case (Inr cat)
    define svc where "svc = \<lparr>sv_store = s1, sv_catalog = cat, sv_audit_log = [], sv_bus = from_env (ce_float env) (ce_environ env),
        sv_trust_root = root, sv_revocation_list = JNull, sv_provider_id = ''toolconnect''\<rparr>"
    have n: "new_service (from_env (ce_float env) (ce_environ env)) root JNull ''toolconnect'' st = (Inr svc, s1)"
      using c Inr by (simp add: new_service_def sx_bind_def sx_return_def sx_get_def svc_def)
    obtain o2 s2 where l: "last_discovery source s1 = (o2, s2)" by fastforce
    have svc: "sv_store svc = s1" "sv_catalog svc = cat" by (simp_all add: svc_def)
    show ?thesis
    proof (cases "dict_get (cat_sources cat) source")
      case None
      then show ?thesis using n c Inr svc
        by (simp add: with_service_def drift_on_def Service.drift_def known_source_def sx_bind_def sx_get_def sx_raise_def exit_if_def
            same_drift_def)
    next
      case (Some src)
      have a: "fst (with_service env root JNull (Service.drift source) st) = (case o2 of Inl e \<Rightarrow> Inl e | Inr None \<Rightarrow> Inl (ServiceError 409)
          | Inr (Some (d, at)) \<Rightarrow> Inr (drift_payload (Catalog.drift cat source d) @ [(''observed_at'', JStr at)]))"
        using n l svc Some
        by (auto simp: with_service_def Service.drift_def known_source_def on_store_def sx_bind_def sx_get_def sx_raise_def sx_return_def
            split: sum.splits option.splits)
      have b: "fst (drift_on source st) = (case o2 of Inl e \<Rightarrow> Inl e | Inr None \<Rightarrow> Inl SystemExit
          | Inr (Some (d, at)) \<Rightarrow> Inr (Catalog.drift cat source d, at))"
        using c Inr l Some
        by (auto simp: drift_on_def exit_if_def sx_bind_def sx_raise_def sx_return_def split: sum.splits option.splits)
      show ?thesis unfolding a b by (auto simp: same_drift_def split: sum.splits option.splits)
    qed
  qed
qed

lemma on_db_drift_same:
  "same_drift (fst (on_db db (with_service env root JNull (Service.drift source)) w)) (fst (on_db db (drift_on source) w))"
proof -
  obtain q s where o: "open_store (connect db w) = (q, s)" by fastforce
  show ?thesis
  proof (cases q)
    case (Inl e)
    then show ?thesis using o by (simp add: on_db_def sx_bind_def same_drift_def)
  next
    case (Inr u)
    then have "fst (on_db db m w) = fst (m s)" for m :: "(store, 'z) sx"
      using o by (simp add: on_db_def sx_bind_def split: prod.split)
    then show ?thesis using drift_on_same by metis
  qed
qed

lemma drift_document_payload: "dict_get (drift_document report at) k = dict_get (drift_payload report @ [(''observed_at'', JStr at)]) k"
  by (simp add: drift_document_def drift_payload_def)

lemma drift_payload_clean: "get_or_null (drift_payload report @ rest) ''clean'' = JBool (drift_clean report)"
  by (simp add: drift_payload_def get_or_null_def)

text \<open>C21: the command line and the HTTP route report the same drift. Whatever the database holds and whatever
  statements fail, \<open>toolconnect drift\<close> finds exactly what a service started on that database answers on
  its drift route: the same fields in the printed document, status 0 for clean and 2 for drift, and a
  refusal of the route is a \<open>SystemExit\<close>.\<close>

theorem drift_command_agrees:
  assumes "db_path env args w = (Inr db, w)"
  shows "case fst (on_db db (with_service env root JNull (Service.drift (ns_source args))) w) of
      Inr answer \<Rightarrow>
        fst (cmd_drift env args w) = Inr (if get_or_null answer ''clean'' = JBool True then 0 else 2) \<and>
        (\<exists>d. (\<forall>k. dict_get d k = dict_get answer k) \<and> (ns_json args \<longrightarrow> wl_printed (snd (cmd_drift env args w)) = wl_printed w @ [Document (JDict d)]))
    | Inl e \<Rightarrow> fst (cmd_drift env args w) = Inl e \<or> (\<exists>n. e = ServiceError n) \<and> fst (cmd_drift env args w) = Inl SystemExit"
proof -
  obtain r w1 where run: "on_db db (drift_on (ns_source args)) w = (r, w1)" by fastforce
  have p: "wl_printed w1 = wl_printed w" using run by (auto simp: on_db_def split: prod.splits)
  have same: "same_drift (fst (on_db db (with_service env root JNull (Service.drift (ns_source args))) w)) r"
    using on_db_drift_same [of db env root "ns_source args" w] run by simp
  have cmd: "fst (cmd_drift env args w) = (case r of Inl e \<Rightarrow> Inl e | Inr (report, at) \<Rightarrow> Inr (if drift_clean report then 0 else 2))"
    "\<And>report at. r = Inr (report, at) \<Longrightarrow> ns_json args \<Longrightarrow>
       wl_printed (snd (cmd_drift env args w)) = wl_printed w @ [Document (JDict (drift_document report at))]"
    using assms run p
    by (auto simp: cmd_drift_def sx_bind_def say_def sx_modify_def sx_return_def split: sum.splits prod.splits)
  show ?thesis
  proof (cases "fst (on_db db (with_service env root JNull (Service.drift (ns_source args))) w)")
    case (Inl e)
    then show ?thesis using same cmd(1) by (auto simp: same_drift_def)
  next
    case (Inr answer)
    then obtain report at where r: "r = Inr (report, at)" "answer = drift_payload report @ [(''observed_at'', JStr at)]"
      using same by (auto simp: same_drift_def)
    then show ?thesis using Inr cmd drift_document_payload [of report at] by (auto simp: drift_payload_clean)
  qed
qed

section \<open>The server process\<close>

lemma load_engine_Inr:
  assumes "load_engine env v w = (Inr engine, w')"
  obtains p raw policies auth where "path_of env v = Inr p" "wl_files w p = Some (Inr raw)" "ce_text env raw = Inr policies"
    "ce_cedar env policies = Some auth" "engine = cedar_decide auth"
  using assms
  by (auto simp: load_engine_def read_text_def read_bytes_def new_engine_def result_simps split: sum.splits if_splits option.splits)

lemma token_text_nonempty: "token_text v = Some tk \<Longrightarrow> tk \<noteq> []"
  by (auto simp: token_text_def split: if_splits json.splits)

lemma run_server_guarded:
  assumes "run_server env engine v token rate svc = (Inr resps, svc')"
  obtains host where "v = JStr host" "host \<in> set LOOPBACK_HOSTS \<or> (\<exists>tk. token_text token = Some tk \<and> tk \<noteq> [])"
    "\<And>tk. token_text token = Some tk \<Longrightarrow> (\<forall>(req, body) \<in> set (ce_traffic env). \<not> presents tk req) \<Longrightarrow>
       svc' = svc \<and> (\<forall>r \<in> set resps. error_answer r \<and> hr_status r \<in> {401, 429})"
    "(\<And>c. within evolves (sd_untyped (ce_server env) c)) \<Longrightarrow> evolves svc svc'"
proof -
  define senv where "senv = (ce_server env)\<lparr>sd_deps := with_engine engine (sd_deps (ce_server env))\<rparr>"
  obtain host h where h: "v = JStr host" "make_server svc host (token_text token) rate (ce_monotonic env) = Inr h"
      "resps = hn_out (serve_all senv (ce_traffic env) h)" "svc' = hn_service (serve_all senv (ce_traffic env) h)"
    using assms unfolding run_server_def senv_def [symmetric] serve_forever_def by (auto split: json.splits sum.splits)
  have f: "hn_service h = svc" "hn_out h = []" "hn_token h = non_empty (token_text token)"
      "host \<in> set LOOPBACK_HOSTS \<or> non_empty (token_text token) \<noteq> None"
    using h(2) by (auto simp: make_server_def split: if_splits)
  show ?thesis
  proof (rule that [OF h(1)])
    show "host \<in> set LOOPBACK_HOSTS \<or> (\<exists>tk. token_text token = Some tk \<and> tk \<noteq> [])"
      using f(4) by (auto simp: non_empty_def split: option.splits if_splits)
    show "svc' = svc \<and> (\<forall>r \<in> set resps. error_answer r \<and> hr_status r \<in> {401, 429})"
      if tk: "token_text token = Some tk" "\<forall>(req, body) \<in> set (ce_traffic env). \<not> presents tk req" for tk
      using serve_all_unpresented [of h tk "ce_traffic env" senv] tk token_text_nonempty [OF tk(1)] f h(3,4)
      by (auto simp: non_empty_def)
    show "evolves svc svc'" if "\<And>c. within evolves (sd_untyped (ce_server env) c)"
      using serve_all_evolves [of senv h "ce_traffic env"] that f(1) h(4) by (simp add: senv_def)
  qed
qed


section \<open>Ingesting a document\<close>

text \<open>What an operator or a grant stands on; ingesting claims must not touch it.\<close>

definition authority_of where
  "authority_of t = (t_assertions t, t_grants t, t_redemptions t)"

definition spares :: "(tables \<Rightarrow> 'v) \<Rightarrow> service \<Rightarrow> service \<Rightarrow> bool" where
  "spares view s s' \<longleftrightarrow> untouched view (sv_store s) (sv_store s')"

interpretation spares: sx_relation "spares view" for view
  by unfold_locales (auto simp: spares_def untouched.refl intro: untouched.trans)

lemma spares_on_store: "within (untouched view) m \<Longrightarrow> within (spares view) (on_store m)"
  by (rule withinI) (auto simp: on_store_def spares_def split: prod.splits dest: withinD)

lemma spares_update_catalog: "within (spares view) (update_catalog f)"
  by (rule withinI) (auto simp: update_catalog_def spares_def untouched.refl split: sum.splits)

lemma untouched_now_text: "within (untouched view) now_text"
  by (rule withinI) (auto simp: now_text_run untouched_def healthy_def base_def split: option.splits)

lemma authority_of_puts [simp]:
  "authority_of (put_source src declares command registered t) = authority_of t" "authority_of (put_tool tv a updated t) = authority_of t"
  "authority_of (put_discovery sid names observed t) = authority_of t" "authority_of (upsert_meta k v t) = authority_of t"
  "authority_of (snd (insert_audit kind payload created prev record_hash t)) = authority_of t"
  by (simp_all add: authority_of_def put_source_def put_tool_def put_discovery_def upsert_meta_def insert_audit_def Let_def)

lemma untouched_append_audit:
  assumes "\<And>t k v. view (upsert_meta k v t) = view t"
    and "\<And>t kind payload created prev h. view (snd (insert_audit kind payload created prev h t)) = view t"
  shows "within (untouched view) (append_audit kind body)"
  unfolding append_audit_def append_audit_in_txn_def Let_def
  by (intro untouched_with_conn untouched.within_rules untouched_now_text untouched_query untouched_dml untouched_update assms)

lemma untouched_writes:
  "within (untouched authority_of) (upsert_source src declares command)" "within (untouched authority_of) (upsert_tool tv)"
  "within (untouched authority_of) (record_discovery sid names)" "within (untouched authority_of) (append_audit kind body)"
  unfolding upsert_source_def upsert_tool_def record_discovery_def
  by (auto intro!: untouched_with_conn untouched.within_rules untouched_now_text untouched_update untouched_append_audit split: option.split)

lemma spares_ingest_document: "within (spares authority_of) (ingest_document result args)"
proof -
  have "within (spares authority_of) (ingest_one sid name version claimed schema)" for sid name version claimed schema
    unfolding ingest_one_def
    by (auto intro!: spares.within_rules spares_update_catalog spares_on_store untouched_writes split: option.split)
  then show ?thesis
    unfolding ingest_document_def Service.register_source_def ingest_payload_def known_source_def Let_def
    by (auto intro!: spares.within_rules spares_update_catalog spares_on_store untouched_writes split: json.split)
qed

lemma untouched_with_service:
  assumes "within (spares view) m" "\<And>t k v. view (upsert_meta k v t) = view t"
  shows "within (untouched view) (with_service env root revoked m)"
proof (rule withinI)
  fix s r s'
  assume run: "with_service env root revoked m s = (r, s')"
  obtain q s1 where n: "new_service (from_env (ce_float env) (ce_environ env)) root revoked ''toolconnect'' s = (q, s1)" by fastforce
  have "within (untouched view) (new_service (from_env (ce_float env) (ce_environ env)) root revoked ''toolconnect'')"
    unfolding new_service_def load_catalog_def set_meta_def
    by (auto intro!: untouched.within_rules untouched_query untouched_with_conn untouched_update assms(2))
  then have u1: "untouched view s s1" using withinD n by fast
  show "untouched view s s'"
  proof (cases q)
    case (Inl e)
    then show ?thesis using run n u1 by (simp add: with_service_def)
  next
    case (Inr svc)
    then obtain svc' where m: "m svc = (r, svc')" "s' = sv_store svc'" using run n by (auto simp: with_service_def split: prod.splits)
    have "sv_store svc = s1" using n Inr by (auto simp: new_service_def sx_simps)
    then show ?thesis using withinD [OF assms(1) m(1)] u1 m(2) untouched.trans by (auto simp: spares_def)
  qed
qed

lemma on_db_untouched:
  assumes "on_db db m w = (r, w')" "within (untouched view) m" "within (\<lambda>s s'. idle s \<longrightarrow> idle s') m" "\<And>t u. data_of t = data_of u \<Longrightarrow> view t = view u"
  obtains t where "dict_get (wl_dbs w') db = Some t" "view t = view (db_tables db w)"
proof -
  obtain q s where o: "open_store (connect db w) = (q, s)" by fastforce
  note od = open_data [OF o connect_props(1), unfolded connect_props(2)]
  obtain s2 where run: "sx_bind open_store (\<lambda>_. m) (connect db w) = (r, s2)" and w': "w' = disconnect db s2 w"
    using assms(1) by (auto simp: on_db_def split: prod.splits)
  have "idle s2 \<and> view (st_tables s2) = view (st_tables s)"
  proof (cases q)
    case (Inl e)
    then show ?thesis using run o od(1) by (simp add: sx_bind_def)
  next
    case (Inr u)
    then have v: "m s = (r, s2)" using run o by (simp add: sx_bind_def)
    then show ?thesis using untouchedD [OF withinD [OF assms(2) v] od(1)] withinD [OF assms(3) v] od(1) by simp
  qed
  then show ?thesis using that [of "st_tables s2"] w' assms(4) [OF od(2)] by (simp add: idle_base)
qed

definition holds_claim :: "tables \<Rightarrow> string \<Rightarrow> DiscoveredTool \<Rightarrow> bool" where
  "holds_claim t sid tool \<longleftrightarrow>
     (\<exists>row. dict_get (t_tools t) (sid, dt_name tool) = Some row \<and> to_version row = dt_version tool \<and>
        to_claimed row = claimed_to_json (dt_claimed tool) \<and> to_input_schema row = stored (dt_input_schema tool))"

lemma upsert_tool_Inr:
  assumes "upsert_tool tv s = (Inr u, s')" "idle s"
  shows "idle s' \<and> (\<exists>a at. st_tables s' = put_tool tv a at (st_tables s))"
proof -
  define body where "body = sx_bind (case tv_asserted tv of None \<Rightarrow> sx_return None
      | Some a \<Rightarrow> sx_bind (sx_lift (asserted_to_json a)) (\<lambda>j. sx_return (Some j))) (\<lambda>asserted.
      sx_bind now_text (\<lambda>updated. update_tables (put_tool tv asserted updated)))"
  have "within same_base body" unfolding body_def by (auto intro!: txn_rules split: option.split)
  from with_conn_atomic [OF this assms(2) assms(1) [unfolded upsert_tool_def body_def [symmetric]]]
  obtain s1 where s1: "idle s'" "body s = (Inr u, s1)" "st_tables s' = st_tables s1" by auto
  have "\<exists>a. st_tables s1 = put_tool tv a (isoformat (st_clock s 0)) (st_tables s)"
  proof (cases "tv_asserted tv")
    case None
    then show ?thesis using s1(2) by (intro exI [of _ None]) (auto simp: body_def sx_simps)
  next
    case (Some d)
    then obtain j where "asserted_to_json d = Inr j" using s1(2) by (auto simp: body_def sx_simps)
    then show ?thesis using Some s1(2) by (intro exI [of _ "Some j"]) (auto simp: body_def sx_simps)
  qed
  then show ?thesis using s1 by auto
qed

lemma parsed_of_fields [simp]:
  "pt_name (parsed_of t) = dt_name t" "pt_version (parsed_of t) = dt_version t" "pt_claimed (parsed_of t) = dt_claimed t"
  by (simp_all add: parsed_of_def)

lemma ingest_one_Inr:
  assumes "ingest_one sid (dt_name tool) (dt_version tool) (dt_claimed tool) (Inr (dt_input_schema tool)) s = (Inr x, s')" "idle (sv_store s)"
  shows "x = dt_name tool \<and> idle (sv_store s') \<and> holds_claim (st_tables (sv_store s')) sid tool \<and>
    (\<forall>other. dt_name other \<noteq> dt_name tool \<longrightarrow> holds_claim (st_tables (sv_store s)) sid other \<longrightarrow> holds_claim (st_tables (sv_store s')) sid other)"
proof -
  obtain cat1 tv where ing: "ingest_claimed sid (dt_name tool) (dt_claimed tool) (dt_version tool) (sv_catalog s) = Inr (cat1, tv)"
    using assms(1) unfolding ingest_one_def by (auto simp: sx_bind_Inr update_catalog_def split: sum.splits)
  then have tv: "tv_source_id tv = sid" "tv_ref tv = \<lparr>tr_name = dt_name tool, tr_version = dt_version tool\<rparr>" "tv_claimed tv = dt_claimed tool"
      "catalog_get cat1 sid (dt_name tool) = Some tv"
    by (auto simp: ingest_claimed_Inr catalog_get_def dict_simps)
  obtain st2 where up: "upsert_tool (tv\<lparr>tv_input_schema := dt_input_schema tool\<rparr>) (sv_store s) = (Inr (), st2)"
      and out: "x = dt_name tool" "sv_store s' = st2"
    using assms(1) ing tv(4) unfolding ingest_one_def by (auto simp: sx_simps update_catalog_def)
  from upsert_tool_Inr [OF up assms(2)] obtain a at where
    t: "idle st2" "st_tables st2 = put_tool (tv\<lparr>tv_input_schema := dt_input_schema tool\<rparr>) a at (st_tables (sv_store s))" by auto
  show ?thesis using t tv(1-3) out by (auto simp: holds_claim_def put_tool_def dict_simps)
qed

lemma ingest_all_Inr:
  assumes "sx_map (\<lambda>pt. ingest_one sid (pt_name pt) (pt_version pt) (pt_claimed pt) (py_dict (pt_schema pt))) (map parsed_of tools) s = (Inr xs, s')"
    and "idle (sv_store s)" "distinct (map dt_name tools)" "\<forall>t \<in> set tools. py_dict (pt_schema (parsed_of t)) = Inr (dt_input_schema t)"
  shows "idle (sv_store s') \<and> (\<forall>t \<in> set tools. holds_claim (st_tables (sv_store s')) sid t) \<and>
    (\<forall>other. dt_name other \<notin> set (map dt_name tools) \<longrightarrow> holds_claim (st_tables (sv_store s)) sid other \<longrightarrow>
       holds_claim (st_tables (sv_store s')) sid other)"
  using assms
proof (induction tools arbitrary: s xs)
  case Nil
  then show ?case by (simp add: sx_return_def)
next
  case (Cons tool tools)
  obtain x s1 ys where one: "ingest_one sid (dt_name tool) (dt_version tool) (dt_claimed tool) (Inr (dt_input_schema tool)) s = (Inr x, s1)"
      and rest: "sx_map (\<lambda>pt. ingest_one sid (pt_name pt) (pt_version pt) (pt_claimed pt) (py_dict (pt_schema pt))) (map parsed_of tools) s1 = (Inr ys, s')"
    using Cons.prems(1,4) by (auto simp: sx_simps)
  note o = ingest_one_Inr [OF one Cons.prems(2)]
  have "idle (sv_store s1)" "distinct (map dt_name tools)" using o Cons.prems(3) by simp_all
  note r = Cons.IH [OF rest this] 
  have r': "idle (sv_store s')" "\<forall>t \<in> set tools. holds_claim (st_tables (sv_store s')) sid t"
    "\<forall>other. dt_name other \<notin> set (map dt_name tools) \<longrightarrow> holds_claim (st_tables (sv_store s1)) sid other \<longrightarrow> holds_claim (st_tables (sv_store s')) sid other"
    using r Cons.prems(4) by auto
  have "holds_claim (st_tables (sv_store s')) sid tool" using r'(3) o Cons.prems(3) by simp
  then show ?case using r' o by auto
qed

lemma load_openapi_Inr: "load_openapi raw decode yaml = Inr result \<Longrightarrow> \<exists>document. parse_openapi document = Inr result"
  by (auto simp: load_openapi_def split: sum.splits if_splits option.splits)

lemma tools_kept: "within (untouched t_tools) (record_discovery sid names)" "within (untouched t_tools) (append_audit kind body)"
  unfolding record_discovery_def
  by (auto intro!: untouched_with_conn untouched.within_rules untouched_now_text untouched_update untouched_append_audit
      simp: put_discovery_def upsert_meta_def insert_audit_def Let_def)

lemma ingest_document_Inr:
  assumes "ingest_document result args s = (Inr out, s')" "idle (sv_store s)" "parse_openapi document = Inr result"
  shows "\<forall>t \<in> set (dc_tools result). holds_claim (st_tables (sv_store s')) (ns_source args) t"
proof -
  note ok = payload_accepted [OF assms(3)] and tools = parse_openapi_tools [OF assms(3)]
  define conclude where "conclude = (\<lambda>ingested. sx_bind (on_store (record_discovery (ns_source args) ingested)) (\<lambda>_.
      sx_bind (on_store (append_audit ''ingest''
        [(''source_id'', JStr (ns_source args)), (''ok'', JBool True), (''push'', JBool True), (''tools'', str_list (sort ingested))])) (\<lambda>_.
      sx_return [(''source_id'', JStr (ns_source args)), (''ingested'', str_list (sort ingested))])))"
  define register where "register = (\<lambda>known :: TrustedSource option. if known = None
      then sx_bind (Service.register_source (ns_source args) (JStr (ns_tier args)) ''openapi'' None JNull) (\<lambda>_. sx_return ()) else sx_return ())"
  obtain known s1 where r: "register known s = (Inr (), s1)"
      and p: "ingest_payload (ns_source args) (JList (discovery_to_payload result)) s1 = (Inr out, s')"
    using assms(1) that [of "dict_get (cat_sources (sv_catalog s)) (ns_source args)"]
    unfolding ingest_document_def by (auto simp: register_def sx_bind_Inr sx_get_run)
  have "within evolves (register known)" unfolding register_def by (auto intro!: evolves.within_rules evolves.register_source)
  then have "evolves s s1" using withinD r by fast
  then have i1: "idle (sv_store s1)" using evolves_idle assms(2) by blast
  obtain names s2 where a: "sx_map (\<lambda>pt. ingest_one (ns_source args) (pt_name pt) (pt_version pt) (pt_claimed pt) (py_dict (pt_schema pt)))
        (map parsed_of (dc_tools result)) s1 = (Inr names, s2)" and rec: "conclude names s2 = (Inr out, s')"
    using p ok unfolding ingest_payload_def conclude_def [symmetric] by (auto simp: sx_simps known_source_def sx_bind_lift split: if_splits)
  have all: "idle (sv_store s2)" "\<forall>t \<in> set (dc_tools result). holds_claim (st_tables (sv_store s2)) (ns_source args) t"
    using ingest_all_Inr [OF a i1] tools ok by auto
  have "within (spares t_tools) (conclude names)"
    unfolding conclude_def by (intro spares.within_rules spares_on_store tools_kept)
  then have "spares t_tools s2 s'" using withinD rec by fast
  then have "t_tools (st_tables (sv_store s')) = t_tools (st_tables (sv_store s2))" using untouchedD all(1) by (auto simp: spares_def)
  then show ?thesis using all(2) by (simp add: holds_claim_def)
qed

lemma idle_with_service:
  assumes "within evolves m"
  shows "within (\<lambda>s s'. idle s \<longrightarrow> idle s') (with_service env root revoked m)"
proof (rule withinI, rule impI)
  fix s r s'
  assume run: "with_service env root revoked m s = (r, s')" and i: "idle s"
  define new where "new = new_service (from_env (ce_float env) (ce_environ env)) root revoked ''toolconnect''"
  have meta: "within (\<lambda>s s'. idle s \<longrightarrow> idle s') (set_meta k v)" for k v
    unfolding set_meta_def by (auto intro!: withinI dest: with_conn_idle)
  have reads: "within (\<lambda>s s'. idle s \<longrightarrow> idle s') (query f)" for f :: "tables \<Rightarrow> 'z"
    using withinD [OF evolves.store_query [of f]] by (intro withinI) (auto simp: kept_def)
  have "within (\<lambda>s s'. idle s \<longrightarrow> idle s') new"
    unfolding new_def new_service_def load_catalog_def
    by (auto intro!: invariant.within_rules meta reads)
  moreover obtain q s1 where n: "new s = (q, s1)" by fastforce
  ultimately have i1: "idle s1" using withinD i by fast
  show "idle s'"
  proof (cases q)
    case (Inl e)
    then show ?thesis using run n i1 by (simp add: with_service_def new_def)
  next
    case (Inr svc)
    then obtain svc' where m: "m svc = (r, svc')" "s' = sv_store svc'" using run n by (auto simp: with_service_def new_def split: prod.splits)
    have "sv_store svc = s1" using n Inr by (auto simp: new_def new_service_def sx_simps)
    then show ?thesis using evolves_idle [OF withinD [OF assms m(1)]] i1 m(2) by simp
  qed
qed

lemma with_service_Inr:
  assumes "with_service env root revoked m s = (Inr v, s')" "idle s"
  obtains svc svc' where "m svc = (Inr v, svc')" "idle (sv_store svc)" "s' = sv_store svc'"
proof -
  obtain svc st1 svc' where n: "new_service (from_env (ce_float env) (ce_environ env)) root revoked ''toolconnect'' s = (Inr svc, st1)"
      and m: "m svc = (Inr v, svc')" "s' = sv_store svc'"
    using assms(1) by (auto simp: with_service_def split: prod.splits sum.splits)
  show ?thesis using that [OF m(1) _ m(2)] new_service_spec(1,2) [OF n assms(2)] by simp
qed

lemma evolves_ingest_document: "within evolves (ingest_document result args)"
  unfolding ingest_document_def
  by (auto intro!: evolves.within_rules evolves.register_source evolves.ingest_payload)

lemma ingest_work_rules:
  assumes "sx_relation R" "\<And>root revoked result. within R (with_service env root revoked (ingest_document result args))"
  shows "within R (ingest_work env args cfg w)"
proof -
  note rules = sx_relation.within_lift [OF assms(1)] sx_relation.within_return [OF assms(1)] sx_relation.within_raise [OF assms(1)]
  have inner: "within R (case p of (root, revocation_list) \<Rightarrow> sx_bind (sx_lift (new_engine env [])) (\<lambda>engine.
        sx_bind (with_service env root revocation_list (ingest_document result args)) (\<lambda>out. sx_return (result, out))))" for p result
    unfolding prod.case_eq_if
    by (rule sx_relation.within_bind [OF assms(1) rules(1)], rule sx_relation.within_bind [OF assms(1) assms(2)], rule rules(2))
  show ?thesis unfolding ingest_work_def
    by (rule sx_relation.within_catch [OF assms(1)], rule sx_relation.within_bind [OF assms(1) rules(1)],
        rule sx_relation.within_bind [OF assms(1) rules(1)], rule inner, rule rules(3))
qed

lemma ingest_work_Inr:
  assumes "ingest_work env args cfg w s = (Inr (result, out), s')" "idle s"
  shows "load_openapi (read_bytes (ns_spec args) w) (ce_decode env) (ce_yaml env) = Inr result"
    "\<forall>t \<in> set (dc_tools result). holds_claim (st_tables s') (ns_source args) t"
proof -
  obtain root revoked where l: "load_openapi (read_bytes (ns_spec args) w) (ce_decode env) (ce_yaml env) = Inr result"
      and ws: "with_service env root revoked (ingest_document result args) s = (Inr out, s')"
    using assms(1) by (auto simp: ingest_work_def sx_catch_def sx_simps split: prod.splits sum.splits)
  show "load_openapi (read_bytes (ns_spec args) w) (ce_decode env) (ce_yaml env) = Inr result" by (rule l)
  obtain document where "parse_openapi document = Inr result" using load_openapi_Inr [OF l] by blast
  moreover obtain svc svc' where "ingest_document result args svc = (Inr out, svc')" "idle (sv_store svc)" "s' = sv_store svc'"
    by (rule with_service_Inr [OF ws assms(2)])
  ultimately show "\<forall>t \<in> set (dc_tools result). holds_claim (st_tables s') (ns_source args) t"
    using ingest_document_Inr by blast
qed

lemma ingest_work_refused:
  "load_openapi (read_bytes (ns_spec args) w) (ce_decode env) (ce_yaml env) = Inl e \<Longrightarrow> \<exists>e'. ingest_work env args cfg w s = (Inl e', s)"
  by (simp add: ingest_work_def sx_catch_def sx_bind_def sx_lift_def sx_raise_def)

text \<open>C20: ingesting an OpenAPI document records claims and nothing else. Whatever the document, the
  configuration and the statements that fail, \<open>toolconnect ingest-openapi\<close> changes no assertion, grant
  or redemption in the file. A document that is refused changes no data at all and gives status 1.
  With status 0 the document was parsed, and the file holds every one of its tools under the source
  with the version, the claim and the input schema of the document.\<close>

theorem ingest_openapi_claims_only:
  assumes "load_config env (ns_config args) w = (Inr cfg, w)" "truthy (db_arg args cfg)" "path_of env (db_arg args cfg) = Inr db"
  shows "\<exists>t. dict_get (wl_dbs (snd (main_cmd IngestOpenapi env args w))) db = Some t \<and> authority_of t = authority_of (db_tables db w) \<and>
    (\<forall>e. load_openapi (read_bytes (ns_spec args) w) (ce_decode env) (ce_yaml env) = Inl e \<longrightarrow>
       keeps_data (db_tables db w) t \<and> exit_status (fst (main_cmd IngestOpenapi env args w)) = 1) \<and>
    (exit_status (fst (main_cmd IngestOpenapi env args w)) = 0 \<longrightarrow>
       (\<exists>result. load_openapi (read_bytes (ns_spec args) w) (ce_decode env) (ce_yaml env) = Inr result \<and>
          (\<forall>tool \<in> set (dc_tools result). holds_claim t (ns_source args) tool)))"
proof -
  define work where "work = ingest_work env args cfg w"
  obtain r w1 where run: "on_db db work w = (r, w1)" by fastforce
  have idle: "within (\<lambda>s s'. idle s \<longrightarrow> idle s') work"
    unfolding work_def by (rule ingest_work_rules [OF invariant.sx_relation_axioms idle_with_service [OF evolves_ingest_document]])
  have spare: "within (untouched authority_of) work"
    unfolding work_def
    by (rule ingest_work_rules [OF untouched.sx_relation_axioms untouched_with_service [OF spares_ingest_document]]) simp
  obtain t where t: "dict_get (wl_dbs w1) db = Some t" "authority_of t = authority_of (db_tables db w)"
    by (rule on_db_untouched [OF run spare idle]) (auto simp: data_of_def authority_of_def)
  have out: "wl_dbs (snd (main_cmd IngestOpenapi env args w)) = wl_dbs w1"
    "exit_status (fst (main_cmd IngestOpenapi env args w)) = (case r of Inl e \<Rightarrow> 1 | Inr v \<Rightarrow> 0)"
  proof -
    define said where "said = (\<lambda>(result :: DiscoveryResult, out :: response). sx_bind (say (Line ''ingested'' [get_or_null out ''ingested'', JStr (ns_spec args),
        JStr (ns_source args), JStr (dc_server_name result), JStr (dc_server_version result), JStr (dc_protocol_version result)]))
        (\<lambda>_. sx_return (0 :: int)))"
    have cmd: "cmd_ingest_openapi env args w = sx_bind (on_db db work) said w"
      unfolding cmd_ingest_openapi_def sx_bind_run [where m = "load_config env (ns_config args)", OF assms(1)]
      using assms(2,3) by (simp add: exit_if_def sx_bind_lift said_def work_def sx_bind_def)
    have s: "wl_dbs (snd (said v x)) = wl_dbs x" "fst (said v x) = Inr 0" for v x
      by (cases v; simp add: said_def say_def sx_bind_def sx_modify_def sx_return_def)+
    show "wl_dbs (snd (main_cmd IngestOpenapi env args w)) = wl_dbs w1"
      "exit_status (fst (main_cmd IngestOpenapi env args w)) = (case r of Inl e \<Rightarrow> 1 | Inr v \<Rightarrow> 0)"
      unfolding main_cmd_caught func.simps cmd using run by (cases r; simp add: sx_bind_def s exit_status_def)+
  qed
  have refused: "keeps_data (db_tables db w) t \<and> (\<exists>e. r = Inl e)"
    if "load_openapi (read_bytes (ns_spec args) w) (ce_decode env) (ce_yaml env) = Inl e" for e
  proof -
    have w: "\<exists>e'. work s = (Inl e', s)" for s using ingest_work_refused [OF that] by (simp add: work_def)
    have "within (untouched data_of) work" using w by (intro withinI) (metis Pair_inject untouched.refl)
    from on_db_untouched [OF run this idle] t(1) have "keeps_data (db_tables db w) t" by (metis option.inject)
    moreover have "\<exists>e. r = Inl e" using run w by (auto simp: on_db_def sx_bind_def split: prod.splits sum.splits) (metis Pair_inject)+
    ultimately show ?thesis by blast
  qed
  have success: "load_openapi (read_bytes (ns_spec args) w) (ce_decode env) (ce_yaml env) = Inr result \<and>
      (\<forall>tool \<in> set (dc_tools result). holds_claim t (ns_source args) tool)" if r: "r = Inr (result, resp)" for result resp
  proof -
    obtain s s2 where o: "open_store (connect db w) = (Inr (), s)" and ws: "work s = (Inr (result, resp), s2)" and w1: "w1 = disconnect db s2 w"
      using run r by (auto simp: on_db_def sx_simps split: prod.splits)
    have i: "idle s" "idle s2" using open_data(1) [OF o] withinD [OF idle ws] by auto
    have "t = st_tables s2" using t(1) w1 i(2) by (simp add: idle_base)
    then show ?thesis using ingest_work_Inr [OF ws [unfolded work_def] i(1)] by simp
  qed
  show ?thesis
    using t out refused success by (intro exI [of _ t]) (cases r; auto)
qed

section \<open>Witnesses\<close>

definition demo_db :: tables where
  "demo_db = demo_tables\<lparr>t_meta := [(VERSION_KEY, show_int 5)], t_has_label := True, t_has_grants := True, t_has_redemptions := True\<rparr>"

definition demo_world :: world where
  "demo_world = \<lparr>wl_files = (\<lambda>p. if p = ''policies'' then Some (Inr []) else None), wl_dbs = [(''db'', demo_db)], wl_clock = (\<lambda>n. 0),
     wl_uuids = (\<lambda>n. ''u''), wl_faults = (\<lambda>n. False), wl_printed = [], wl_answers = [], wl_sent = [], wl_replies = []\<rparr>"

definition demo_cli :: cli_env where
  "demo_cli = \<lparr>ce_environ = [(''TOOLCONNECT_AUTH_TOKEN'', ''t'')], ce_expand = Inr, ce_text = (\<lambda>raw. Inr []), ce_toml = (\<lambda>raw. Inr []),
     ce_loads = (\<lambda>s. Inl JSONDecodeError), ce_decode = (\<lambda>raw. Inr JNull), ce_yaml = None, ce_float = (\<lambda>s. None),
     ce_cedar = (\<lambda>s. Some (\<lambda>req ents. Inl [])), ce_server = demo_server_env, ce_monotonic = (\<lambda>n. 0),
     ce_traffic = [(demo_http ''POST'' ''/authorize'' None, [])],
     ce_gateway = \<lparr>ge_deps = demo_deps, ge_decode = (\<lambda>raw. Inl JSONDecodeError), ge_loads = (\<lambda>s. Inl JSONDecodeError), ge_say = (\<lambda>e. []), ge_tell = (\<lambda>s. [])\<rparr>,
     ce_spawn = (\<lambda>c. Some demo_link), ce_input = ''x'', ce_out_fails = (\<lambda>n. False)\<rparr>"

definition demo_ns :: Namespace where
  "demo_ns = (argument_defaults ''spec'' ''docs'' [''--'', ''server''])\<lparr>ns_db := Some ''db'', ns_policies := Some ''policies'',
     ns_host := Some ''0.0.0.0'', ns_principal_id := Some ''p'', ns_source_id := Some ''docs'', ns_out := Some ''copy'', ns_json := True\<rparr>"

lemma demo_config [simp]:
  "load_config demo_cli (ns_config demo_ns) demo_world = (Inr [], demo_world)" "db_arg demo_ns [] = JStr ''db''"
  "path_of demo_cli (JStr s) = Inr s" "db_path demo_cli demo_ns demo_world = (Inr ''db'', demo_world)"
  by (simp_all add: load_config_def demo_ns_def argument_defaults_def demo_cli_def db_arg_def flag_or_def non_empty_def path_of_def db_path_def sx_bind_def
      exit_if_def sx_return_def sx_lift_def)

lemma demo_database:
  "db_tables ''db'' demo_world = demo_db" "at_version 5 demo_db" "chain_intact demo_db" "\<forall>n. \<not> wl_faults demo_world n"
  by (simp_all add: db_tables_def demo_world_def demo_db_def demo_tables_def empty_tables_def at_version_def chain_intact_def
      VERSION_KEY_def AUDIT_HEAD_SEQ_def AUDIT_HEAD_HASH_def)

theorem verify_audit_exact_witness: "exit_status (fst (main_cmd VerifyAudit demo_cli demo_ns demo_world)) = 0"
  using verify_audit_exact [OF demo_config(4)] demo_database by (auto simp: openable_def)

theorem backup_exact_witness:
  "\<exists>c. dict_get (wl_dbs (snd (main_cmd Backup demo_cli demo_ns demo_world))) ''copy'' = Some c \<and> data_of c = data_of demo_db \<and>
     (exit_status (fst (main_cmd Backup demo_cli demo_ns demo_world)) = 0 \<longleftrightarrow> chain_intact c)"
proof -
  have "ns_out demo_ns = Some ''copy''" "ce_expand demo_cli ''copy'' = Inr ''copy''" by (simp_all add: demo_ns_def argument_defaults_def demo_cli_def)
  from backup_exact [OF demo_config(1) _ _ this(1) _ this(2), of "''db''"] show ?thesis
    using demo_database by (auto simp: openable_def)
qed

theorem ingest_openapi_claims_only_witness:
  "exit_status (fst (main_cmd IngestOpenapi demo_cli demo_ns demo_world)) = 1 \<and>
   (\<exists>t. dict_get (wl_dbs (snd (main_cmd IngestOpenapi demo_cli demo_ns demo_world))) ''db'' = Some t \<and> data_of t = data_of demo_db)"
proof -
  have "load_openapi (read_bytes (ns_spec demo_ns) demo_world) (ce_decode demo_cli) (ce_yaml demo_cli) = Inl (OpenAPISpecError ''unreadable'')"
    by (simp add: load_openapi_def read_bytes_def demo_world_def demo_ns_def argument_defaults_def)
  then show ?thesis
    using ingest_openapi_claims_only [OF demo_config(1), of "''db''"] demo_database(1) by auto
qed

lemma demo_hydrated:
  obtains s s1 where "open_store (connect ''db'' demo_world) = (Inr (), s)" "load_catalog s = (Inr (normal_schemas demo_catalog), s1)"
proof -
  obtain s where s: "open_store (connect ''db'' demo_world) = (Inr (), s)" "st_tables s = demo_db" "healthy s"
    using open_current [of "connect ''db'' demo_world"] demo_database by auto
  have "mirrors demo_db demo_catalog" using demo_mirrors(1) by (simp add: mirrors_def demo_db_def)
  from load_catalog_of_mirror [OF this demo_mirrors(2) _ s(3,2)] reachable_wf [OF demo_reachable]
  have "fst (load_catalog s) = Inr (normal_schemas demo_catalog)" by simp
  then show ?thesis using that s(1) by (metis prod.collapse)
qed

lemma demo_service_runs:
  assumes "\<And>svc. \<exists>v svc'. m svc = (Inr v, svc')"
  shows "\<exists>v w'. on_db ''db'' (with_service env root JNull m) demo_world = (Inr v, w')"
proof -
  obtain s s1 where s: "open_store (connect ''db'' demo_world) = (Inr (), s)" "load_catalog s = (Inr (normal_schemas demo_catalog), s1)"
    by (rule demo_hydrated)
  then obtain svc where "new_service (from_env (ce_float env) (ce_environ env)) root JNull ''toolconnect'' s = (Inr svc, s1)"
    by (simp add: new_service_def sx_bind_def sx_return_def sx_get_def)
  then show ?thesis using s(1) assms [of svc] by (auto simp: on_db_def sx_bind_def with_service_def)
qed

lemma demo_material:
  "load_governance demo_cli demo_ns [] demo_world = (Inr (None, JNull), demo_world)"
  "\<exists>engine. load_engine demo_cli (JStr ''policies'') demo_world = (Inr engine, demo_world)"
  by (simp_all add: load_governance_def named_file_def gov_path_def flag_or_def non_empty_def demo_ns_def argument_defaults_def demo_cli_def demo_world_def
      get_or_null_def sx_bind_def sx_return_def load_engine_def path_of_def read_text_def read_bytes_def new_engine_def)

theorem gateway_command_mediates_witness:
  "\<exists>w' t. cmd_gateway demo_cli demo_ns demo_world = (Inr 0, w') \<and> dict_get (wl_dbs w') ''db'' = Some t \<and>
     (\<exists>gids :: string list. distinct gids \<and> length gids = length (filter is_tool_call (wl_sent w')))"
proof -
  obtain engine where e: "load_engine demo_cli (JStr ''policies'') demo_world = (Inr engine, demo_world)" using demo_material(2) by blast
  define who where "who = [(''id'', JStr ''p''), (''kind'', JStr ''agent''), (''privacy_tier'', JStr ''local'')]"
  have runs: "\<exists>v svc'. run_session demo_cli engine who ''docs'' [''server''] svc = (Inr v, svc')" for svc
    by (simp add: run_session_def new_gateway_def demo_cli_def Let_def)
  obtain sent replies w1 where on: "on_db ''db'' (with_service demo_cli None JNull (run_session demo_cli engine who ''docs'' [''server''])) demo_world =
      (Inr (sent, replies), w1)"
    using demo_service_runs [of "run_session demo_cli engine who ''docs'' [''server'']", OF runs] by fastforce
  have args: "ns_policies demo_ns = Some ''policies''" "ns_principal_id demo_ns = Some ''p''" "ns_source_id demo_ns = Some ''docs''"
    "drop_separator (ns_downstream demo_ns) = [''server'']" "ns_principal_kind demo_ns = ''agent''" "ns_privacy_tier demo_ns = ''local''"
    by (simp_all add: demo_ns_def argument_defaults_def drop_separator_def)
  have run: "cmd_gateway demo_cli demo_ns demo_world = (Inr 0, w1\<lparr>wl_sent := wl_sent w1 @ sent, wl_replies := wl_replies w1 @ replies\<rparr>)"
    unfolding cmd_gateway_def sx_bind_run [where m = "load_config demo_cli (ns_config demo_ns)", OF demo_config(1)]
    using e on demo_material(1) unfolding who_def
    by (simp add: args flag_or_def non_empty_def exit_if_def sx_bind_lift sx_bind_def sx_modify_def sx_return_def)
  obtain cfg db pid sid t new gids where m: "fst (load_config demo_cli (ns_config demo_ns) demo_world) = Inr cfg" "path_of demo_cli (db_arg demo_ns cfg) = Inr db"
      "dict_get (wl_dbs (w1\<lparr>wl_sent := wl_sent w1 @ sent, wl_replies := wl_replies w1 @ replies\<rparr>)) db = Some t"
      "wl_sent (w1\<lparr>wl_sent := wl_sent w1 @ sent, wl_replies := wl_replies w1 @ replies\<rparr>) = wl_sent demo_world @ new" "distinct gids"
      "list_all2 (backed t [(''id'', JStr pid), (''kind'', JStr (ns_principal_kind demo_ns)), (''privacy_tier'', JStr (ns_privacy_tier demo_ns))] sid)
         (filter is_tool_call new) gids"
    using gateway_command_mediates [OF run] by (elim exE conjE) (rule that; assumption)
  have "db = ''db''" using m(1,2) by simp
  moreover have "wl_sent demo_world = []" by (simp add: demo_world_def)
  ultimately have "dict_get (wl_dbs (w1\<lparr>wl_sent := wl_sent w1 @ sent, wl_replies := wl_replies w1 @ replies\<rparr>)) ''db'' = Some t"
    "length gids = length (filter is_tool_call (wl_sent (w1\<lparr>wl_sent := wl_sent w1 @ sent, wl_replies := wl_replies w1 @ replies\<rparr>)))"
    using m(3,4) list_all2_lengthD [OF m(6)] by simp_all
  then show ?thesis using run m(5) by blast
qed

theorem drift_command_agrees_witness:
  "fst (cmd_drift demo_cli (demo_ns\<lparr>ns_source := ''nope''\<rparr>) demo_world) = Inl SystemExit"
proof -
  obtain s s1 where s: "open_store (connect ''db'' demo_world) = (Inr (), s)" "load_catalog s = (Inr (normal_schemas demo_catalog), s1)"
    by (rule demo_hydrated)
  have "dict_get (cat_sources (normal_schemas demo_catalog)) ''nope'' = None" by (simp add: normal_schemas_def demo_catalog_def)
  then have "fst (on_db ''db'' (with_service demo_cli None JNull (Service.drift ''nope'')) demo_world) = Inl (ServiceError 404)"
    using s by (simp add: on_db_def sx_bind_def with_service_def new_service_def sx_return_def sx_get_def Service.drift_def known_source_def sx_raise_def)
  moreover have p: "db_path demo_cli (demo_ns\<lparr>ns_source := ''nope''\<rparr>) demo_world = (Inr ''db'', demo_world)"
    using demo_config(4) by (simp add: db_path_def db_arg_def)
  note drift_command_agrees [OF p, of None]
  ultimately have "fst (cmd_drift demo_cli (demo_ns\<lparr>ns_source := ''nope''\<rparr>) demo_world) \<in> {Inl (ServiceError 404), Inl SystemExit}" by simp
  moreover have "fst (on_db ''db'' (drift_on ''nope'') demo_world) = Inl SystemExit"
    using s \<open>dict_get (cat_sources (normal_schemas demo_catalog)) ''nope'' = None\<close>
    by (simp add: on_db_def sx_bind_def drift_on_def exit_if_def sx_raise_def)
  ultimately show ?thesis using p by (cases "on_db ''db'' (drift_on ''nope'') demo_world") (auto simp: cmd_drift_def sx_bind_def)
qed


end
