(* ===== verification/Experiments.thy ===== *)
theory Experiments
  imports Cli_Props
begin

text \<open>
  The scripts under \<open>experiments\<close>: each puts the program together on fixed data and prints what it
  finds. A script is a definition that returns the values it prints; sets of names are lists in the
  order of the source. The theorems say what the scripts print, which their comments quote.
\<close>

text \<open>A loop that updates a state and may raise.\<close>

fun each :: "('a \<Rightarrow> 's \<Rightarrow> 's result) \<Rightarrow> 'a list \<Rightarrow> 's \<Rightarrow> 's result" where
  "each f [] s = Inr s"
| "each f (x # xs) s = bind_result (f x s) (each f xs)"

definition ingested :: "string \<Rightarrow> string \<Rightarrow> ClaimedMetadata \<Rightarrow> Catalog \<Rightarrow> Catalog result" where
  "ingested sid name claim cat = bind_result (ingest_claimed sid name claim ''1.0.0'' cat) (\<lambda>(cat', tv). Inr cat')"

definition asserted :: "string \<Rightarrow> string \<Rightarrow> AssertedDescriptor \<Rightarrow> Catalog \<Rightarrow> Catalog result" where
  "asserted sid name d cat = bind_result (assert_descriptor sid name d cat) (\<lambda>(cat', tv). Inr cat')"

section \<open>\<open>drift_experiment.py\<close>\<close>

definition DECLARED_BY_SPEC :: "string list" where
  "DECLARED_BY_SPEC =
     [''claim_task'', ''release_task'', ''request_review'', ''claim_review'', ''complete_review'',
      ''record_decision'', ''record_attempt'', ''get_manager_inbox'', ''get_handoff_summary'']"

definition DISCOVERED_AT_RUNTIME :: "string list" where
  "DISCOVERED_AT_RUNTIME =
     [''create_task'', ''open_task'', ''get_handoff_summary'', ''claim_task'', ''release_task'',
      ''record_decision'', ''record_attempt'', ''request_review'', ''submit_subtask'',
      ''get_status'', ''list_artifacts'', ''read_artifact_chunk'', ''explain_route'',
      ''recall_memory'', ''capture_memory_candidate'', ''record_memory_feedback'',
      ''get_task_context_pack'']"

definition unreviewed :: "string list" where
  "unreviewed = [''get_task_context_pack'', ''record_memory_feedback'']"

definition harmless_claim :: ClaimedMetadata where
  "harmless_claim = \<lparr>cm_description = JStr [], cm_read_only_hint = JBool True, cm_destructive_hint = JNull,
     cm_idempotent_hint = JNull, cm_open_world_hint = JNull\<rparr>"

definition reviewed_descriptor :: AssertedDescriptor where
  "reviewed_descriptor = \<lparr>ad_effect = READ, ad_reads = {INTERNAL}, ad_writes = {}, ad_scopes = [],
     ad_reversible = JBool True, ad_idempotent = JBool False, ad_requires_approval = JBool False,
     ad_declassifies = JBool False, ad_asserted_by = JStr ''operator''\<rparr>"

definition drift_experiment :: "(nat \<times> nat \<times> DriftReport \<times> string) result" where
  "drift_experiment =
     (let cat = Catalog.register_source \<lparr>ts_source_id = ''agentconnect'', ts_tier = VERIFIED, ts_transport = ''mcp''\<rparr>
                  DECLARED_BY_SPEC empty_catalog
      in bind_result (each (\<lambda>name. ingested ''agentconnect'' name harmless_claim) (py_sorted_set DISCOVERED_AT_RUNTIME) cat) (\<lambda>cat.
         bind_result (each (\<lambda>name. asserted ''agentconnect'' name reviewed_descriptor)
                        (py_sorted_set (filter (\<lambda>n. n \<notin> set unreviewed) DISCOVERED_AT_RUNTIME)) cat) (\<lambda>cat.
         let report = Catalog.drift cat ''agentconnect'' DISCOVERED_AT_RUNTIME
         in Inr (length DECLARED_BY_SPEC, length DISCOVERED_AT_RUNTIME, report, drift_summary report))))"

text \<open>What the loops leave in the catalog.\<close>

definition unvouched :: "string \<Rightarrow> ClaimedMetadata \<Rightarrow> string \<Rightarrow> ToolVersion" where
  "unvouched sid claim name = \<lparr>tv_ref = \<lparr>tr_name = name, tr_version = ''1.0.0''\<rparr>, tv_source_id = sid, tv_claimed = claim,
     tv_asserted = None, tv_input_schema = JDict []\<rparr>"

lemma each_ingested:
  assumes "dict_get (cat_sources cat) sid \<noteq> None" "cat_assertions cat = []"
  shows "\<exists>cat'. each (\<lambda>n. ingested sid n claim) names cat = Inr cat' \<and> cat_declared cat' = cat_declared cat \<and>
    cat_assertions cat' = [] \<and>
    (\<forall>k. dict_get (cat_tools cat') k =
       (if fst k = sid \<and> snd k \<in> set names then Some (unvouched sid claim (snd k)) else dict_get (cat_tools cat) k))"
  using assms
proof (induction names arbitrary: cat)
  case (Cons n names)
  let ?cat = "cat\<lparr>cat_tools := dict_set (sid, n) (unvouched sid claim n) (cat_tools cat)\<rparr>"
  have one: "ingested sid n claim cat = Inr ?cat"
    using Cons.prems by (auto simp: ingested_def ingest_claimed_def unvouched_def Let_def)
  have IH: "\<exists>cat'. each (\<lambda>n. ingested sid n claim) names ?cat = Inr cat' \<and> cat_declared cat' = cat_declared ?cat \<and>
    cat_assertions cat' = [] \<and> (\<forall>k. dict_get (cat_tools cat') k =
       (if fst k = sid \<and> snd k \<in> set names then Some (unvouched sid claim (snd k)) else dict_get (cat_tools ?cat) k))"
    by (rule Cons.IH) (use Cons.prems in auto)
  then show ?case using one by (auto simp: dict_simps)
qed simp

lemma each_asserted:
  assumes "\<And>n. n \<in> set names \<Longrightarrow> dict_get (cat_tools cat) (sid, n) \<noteq> None" "truthy (ad_asserted_by d)"
  shows "\<exists>cat'. each (\<lambda>n. asserted sid n d) names cat = Inr cat' \<and> cat_declared cat' = cat_declared cat \<and>
    (\<forall>k. dict_get (cat_tools cat') k =
       (if fst k = sid \<and> snd k \<in> set names then map_option (\<lambda>tv. tv\<lparr>tv_asserted := Some d\<rparr>) (dict_get (cat_tools cat) k)
        else dict_get (cat_tools cat) k)) \<and>
    (\<forall>k. dict_get (cat_assertions cat') k \<noteq> None \<longleftrightarrow> fst k = sid \<and> snd k \<in> set names \<or> dict_get (cat_assertions cat) k \<noteq> None)"
  using assms(1)
proof (induction names arbitrary: cat)
  case (Cons n names)
  obtain tv where tv: "dict_get (cat_tools cat) (sid, n) = Some tv" using Cons.prems [of n] by auto
  let ?cat = "cat\<lparr>cat_tools := dict_set (sid, n) (tv\<lparr>tv_asserted := Some d\<rparr>) (cat_tools cat),
    cat_assertions := dict_set (sid, n) \<lparr>ar_descriptor = d, ar_fingerprint = fingerprint tv\<rparr> (cat_assertions cat)\<rparr>"
  have one: "asserted sid n d cat = Inr ?cat"
    using tv assms(2) by (simp add: asserted_def assert_descriptor_def Let_def)
  have "dict_get (cat_tools ?cat) (sid, m) \<noteq> None" if "m \<in> set names" for m
    using Cons.prems [of m] that by (auto simp: dict_simps)
  from Cons.IH [OF this] show ?case using one tv by (auto simp: dict_simps)
qed simp

lemma no_conflicts:
  "claim_conflicts (unvouched sid harmless_claim n) = []"
  "claim_conflicts (unvouched sid harmless_claim n\<lparr>tv_asserted := Some reviewed_descriptor\<rparr>) = []"
  by (simp_all add: claim_conflicts_def unvouched_def harmless_claim_def reviewed_descriptor_def implied_effect_def)

lemma fresh_drift:
  assumes "\<And>k. dict_get (cat_tools cat) k = (if fst k = sid \<and> snd k \<in> set names
      then Some (if snd k \<in> set vetted then unvouched sid harmless_claim (snd k)\<lparr>tv_asserted := Some reviewed_descriptor\<rparr>
                 else unvouched sid harmless_claim (snd k)) else None)"
    and "\<And>k. dict_get (cat_assertions cat) k \<noteq> None \<longleftrightarrow> fst k = sid \<and> snd k \<in> set vetted"
    and "set vetted \<subseteq> set names" "dict_get (cat_declared cat) sid = Some declared"
  shows "Catalog.drift cat sid names =
    \<lparr>dr_source_id = sid, dr_advertised_missing = py_sorted_set (filter (\<lambda>n. n \<notin> set names) declared),
     dr_undeclared_present = py_sorted_set (filter (\<lambda>n. n \<notin> set declared) names),
     dr_unasserted = py_sorted_set (filter (\<lambda>n. n \<notin> set vetted) names),
     dr_claim_conflicts = [], dr_redefined_after_assertion = []\<rparr>"
proof -
  have keys: "k \<in> set (dict_keys (cat_tools cat)) \<longleftrightarrow> dict_get (cat_tools cat) k \<noteq> None" for k
    by (simp add: map_of_eq_None_iff)
  have mine: "set (map snd (filter (\<lambda>tid. fst tid = sid) (dict_keys (cat_tools cat)))) = set names"
  proof (rule set_eqI)
    fix n
    have "n \<in> set (map snd (filter (\<lambda>tid. fst tid = sid) ids)) \<longleftrightarrow> (sid, n) \<in> set ids" for ids :: "ToolId list"
      by (induction ids) auto
    then have "n \<in> set (map snd (filter (\<lambda>tid. fst tid = sid) (dict_keys (cat_tools cat)))) \<longleftrightarrow>
        dict_get (cat_tools cat) (sid, n) \<noteq> None"
      using keys by blast
    also have "\<dots> \<longleftrightarrow> n \<in> set names" using assms(1) [of "(sid, n)"] by simp
    finally show "n \<in> set (map snd (filter (\<lambda>tid. fst tid = sid) (dict_keys (cat_tools cat)))) \<longleftrightarrow> n \<in> set names" .
  qed
  have status: "assertion_status cat sid n = (if n \<in> set vetted then ASSERTED else NEVER)" for n
    using assms(1) [of "(sid, n)"] assms(2) [of "(sid, n)"] assms(3)
    by (auto simp: assertion_status_def is_asserted_def Let_def)
  have conflicts: "(case dict_get (cat_tools cat) (sid, n) of Some tv \<Rightarrow> map (Pair n) (claim_conflicts tv) | None \<Rightarrow> []) = []" for n
    using assms(1) [of "(sid, n)"] by (auto simp: no_conflicts split: option.split)
  have "concat (map (\<lambda>n. []) ns) = []" for ns :: "string list" by (induction ns) auto
  then show ?thesis
    using assms(4) by (simp add: Catalog.drift_def Let_def mine status conflicts py_sorted_set_def cong: filter_cong)
qed

text \<open>The script finds what its comments quote: three primitives of the specification are missing from the
  adapter, eleven of its tools are not among the primitives, and two are quarantined.\<close>

theorem drift_experiment_report:
  "drift_experiment = Inr (9, 17,
     \<lparr>dr_source_id = ''agentconnect'',
      dr_advertised_missing = [''claim_review'', ''complete_review'', ''get_manager_inbox''],
      dr_undeclared_present = [''capture_memory_candidate'', ''create_task'', ''explain_route'', ''get_status'',
        ''get_task_context_pack'', ''list_artifacts'', ''open_task'', ''read_artifact_chunk'', ''recall_memory'',
        ''record_memory_feedback'', ''submit_subtask''],
      dr_unasserted = [''get_task_context_pack'', ''record_memory_feedback''],
      dr_claim_conflicts = [], dr_redefined_after_assertion = []\<rparr>,
     ''agentconnect: 3 advertised-missing, 11 undeclared-present, 2 unasserted'')"
proof -
  let ?src = "\<lparr>ts_source_id = ''agentconnect'', ts_tier = VERIFIED, ts_transport = ''mcp''\<rparr>"
  let ?cat0 = "Catalog.register_source ?src DECLARED_BY_SPEC empty_catalog"
  let ?vetted = "filter (\<lambda>n. n \<notin> set unreviewed) DISCOVERED_AT_RUNTIME"
  have start: "dict_get (cat_sources ?cat0) ''agentconnect'' \<noteq> None" "cat_assertions ?cat0 = []" "cat_tools ?cat0 = []"
    "dict_get (cat_declared ?cat0) ''agentconnect'' = Some (py_sorted_set DECLARED_BY_SPEC)"
    by (simp_all add: Catalog.register_source_def empty_catalog_def)
  obtain cat1 where cat1: "each (\<lambda>n. ingested ''agentconnect'' n harmless_claim) (py_sorted_set DISCOVERED_AT_RUNTIME) ?cat0 = Inr cat1"
      "cat_declared cat1 = cat_declared ?cat0" "cat_assertions cat1 = []"
      "\<And>k. dict_get (cat_tools cat1) k = (if fst k = ''agentconnect'' \<and> snd k \<in> set DISCOVERED_AT_RUNTIME
         then Some (unvouched ''agentconnect'' harmless_claim (snd k)) else None)"
    using each_ingested [OF start(1,2), of harmless_claim "py_sorted_set DISCOVERED_AT_RUNTIME"] start(3)
    by (auto simp: py_sorted_set_props)
  have "truthy (ad_asserted_by reviewed_descriptor)" by (simp add: reviewed_descriptor_def)
  then obtain cat2 where cat2: "each (\<lambda>n. asserted ''agentconnect'' n reviewed_descriptor) (py_sorted_set ?vetted) cat1 = Inr cat2"
      "cat_declared cat2 = cat_declared cat1"
      "\<And>k. dict_get (cat_tools cat2) k = (if fst k = ''agentconnect'' \<and> snd k \<in> set ?vetted
         then map_option (\<lambda>tv. tv\<lparr>tv_asserted := Some reviewed_descriptor\<rparr>) (dict_get (cat_tools cat1) k) else dict_get (cat_tools cat1) k)"
      "\<And>k. dict_get (cat_assertions cat2) k \<noteq> None \<longleftrightarrow> fst k = ''agentconnect'' \<and> snd k \<in> set ?vetted"
    using each_asserted [of "py_sorted_set ?vetted" cat1 "''agentconnect''" reviewed_descriptor] cat1(3,4)
    by (auto simp: py_sorted_set_props simp del: not_None_eq)
  note report = fresh_drift [of cat2 "''agentconnect''" DISCOVERED_AT_RUNTIME ?vetted "py_sorted_set DECLARED_BY_SPEC", OF _ cat2(4)]
  have "Catalog.drift cat2 ''agentconnect'' DISCOVERED_AT_RUNTIME = \<lparr>dr_source_id = ''agentconnect'',
     dr_advertised_missing = py_sorted_set (filter (\<lambda>n. n \<notin> set DISCOVERED_AT_RUNTIME) (py_sorted_set DECLARED_BY_SPEC)),
     dr_undeclared_present = py_sorted_set (filter (\<lambda>n. n \<notin> set (py_sorted_set DECLARED_BY_SPEC)) DISCOVERED_AT_RUNTIME),
     dr_unasserted = py_sorted_set (filter (\<lambda>n. n \<notin> set ?vetted) DISCOVERED_AT_RUNTIME),
     dr_claim_conflicts = [], dr_redefined_after_assertion = []\<rparr>"
    by (rule report) (auto simp: cat2 cat1 start)
  then show ?thesis
    using cat1(1) cat2(1) by (simp add: drift_experiment_def Let_def) code_simp
qed

end
