(* ===== verification/Service_Restart.thy ===== *)
theory Service_Restart
  imports Service_Props
begin

text \<open>
  The promise of \<open>store.py\<close> that a restarted service continues where the old one left off. The
  catalog in memory and the tables are in step after every request that was answered, that is, that
  returned or raised a \<open>ServiceError\<close>, whichever requests, discoveries and restarts came before; so
  hydration rebuilds the catalog, and with it every decision. A request that ends in any other
  exception may leave the two apart, as the last section shows for a pushed schema.
\<close>

section \<open>Handlers that leave the catalog and its tables alone\<close>

definition cat_tables :: "tables \<Rightarrow> (string, source_row) dict \<times> (ToolId, tool_row) dict \<times> (ToolId, assertion_row) dict" where
  "cat_tables t = (t_sources t, t_tools t, t_assertions t)"

definition still :: "store \<Rightarrow> store \<Rightarrow> bool" where
  "still s s' \<longleftrightarrow> (idle s \<longrightarrow> idle s' \<and> cat_tables (st_tables s') = cat_tables (st_tables s))"

interpretation still: sx_relation still
  by unfold_locales (auto simp: still_def)

lemma cat_tables_simps [simp]:
  "cat_tables (t\<lparr>t_grants := g\<rparr>) = cat_tables t" "cat_tables (t\<lparr>t_redemptions := r\<rparr>) = cat_tables t"
  "cat_tables (t\<lparr>t_discoveries := d\<rparr>) = cat_tables t" "cat_tables (t\<lparr>t_meta := m\<rparr>) = cat_tables t"
  "cat_tables (appended kind body c t) = cat_tables t" "cat_tables (close_open_grant gid at t) = cat_tables t"
  by (auto simp: cat_tables_def appended_tables close_open_grant_def split: option.splits)

lemma still_with_conn:
  assumes "within same_base m" "\<And>s v s'. m s = (Inr v, s') \<Longrightarrow> cat_tables (st_tables s') = cat_tables (st_tables s)"
  shows "within still (with_conn m)"
proof (rule withinI)
  fix s r s' assume run: "with_conn m s = (r, s')"
  show "still s s'"
    unfolding still_def
  proof
    assume "idle s"
    from with_conn_atomic [OF assms(1) this run] assms(2)
    show "idle s' \<and> cat_tables (st_tables s') = cat_tables (st_tables s)" by (auto split: sum.splits)
  qed
qed

lemma still_writes:
  "within still (record_discovery sid names)" "within still (set_meta k v)"
  unfolding record_discovery_def set_meta_def
  by (rule still_with_conn; (intro txn_rules)?;
      auto simp: sx_simps put_discovery_def upsert_meta_def)+

lemma still_append_audit: "within still (append_audit kind body)"
  unfolding append_audit_def
  by (rule still_with_conn [OF within_append_in_txn]) (auto dest!: append_in_txn_Inr(1))

lemma still_grants:
  "within still (issue_grant gid did pid sid name ahash issued expires ttl)"
  "within still (Store_Grants.redeem_grant gid ahash pid chk)"
  "within still (Store_Grants.close_grant gid reason)"
  "within still (record_govgrant_redemption gid' row_at body)"
proof -
  show "within still (issue_grant gid did pid sid name ahash issued expires ttl)"
  proof (rule withinI)
    fix s r s' assume "issue_grant gid did pid sid name ahash issued expires ttl s = (r, s')"
    from issue_grant_spec [OF _ this] show "still s s'" by (auto simp: still_def split: sum.splits)
  qed
  show "within still (Store_Grants.redeem_grant gid ahash pid chk)"
  proof (rule withinI)
    fix s r s' assume "Store_Grants.redeem_grant gid ahash pid chk s = (r, s')"
    from redeem_grant_spec [OF _ this] show "still s s'"
      by (auto simp: still_def redeem_effect_def split: sum.splits if_splits)
  qed
  show "within still (Store_Grants.close_grant gid reason)"
  proof (rule withinI)
    fix s r s' assume "Store_Grants.close_grant gid reason s = (r, s')"
    from close_grant_spec [OF _ this] show "still s s'" by (auto simp: still_def split: sum.splits option.splits)
  qed
  show "within still (record_govgrant_redemption gid' row_at body)"
  proof (rule withinI)
    fix s r s' assume "record_govgrant_redemption gid' row_at body s = (r, s')"
    from govgrant_spec [OF _ this] show "still s s'" by (auto simp: still_def split: sum.splits if_splits)
  qed
qed

definition quiet :: "service \<Rightarrow> service \<Rightarrow> bool" where
  "quiet s s' \<longleftrightarrow> still (sv_store s) (sv_store s') \<and> sv_catalog s' = sv_catalog s"

interpretation quiet: service_relation quiet still
proof unfold_locales
  show "quiet s s" for s by (simp add: quiet_def still.refl)
  show "quiet s t \<Longrightarrow> quiet t u \<Longrightarrow> quiet s u" for s t u
    by (auto simp: quiet_def intro: still.trans)
  show "st_tables t = st_tables u \<Longrightarrow> st_begun t = st_begun u \<Longrightarrow> still u t" for t u
    by (simp add: still_def idle_def)
  show "still (sv_store s) t \<Longrightarrow> quiet s (s\<lparr>sv_store := t\<rparr>)" for s t
    by (simp add: quiet_def)
  show "quiet s (s\<lparr>sv_audit_log := l\<rparr>)" "quiet s (s\<lparr>sv_bus := b\<rparr>)" for s l b
    by (simp_all add: quiet_def still.refl)
qed (simp_all add: still_append_audit still_grants)

section \<open>Memory and database in step\<close>

definition in_step :: "service \<Rightarrow> bool" where
  "in_step s \<longleftrightarrow> idle (sv_store s) \<and> mirrors (st_tables (sv_store s)) (sv_catalog s)"

text \<open>A request is answered when it returns or raises a \<open>ServiceError\<close>, a refusal with a status.\<close>

definition answered :: "'a result \<Rightarrow> bool" where
  "answered r \<longleftrightarrow> (case r of Inr a \<Rightarrow> True | Inl e \<Rightarrow> \<exists>n. e = ServiceError n)"

definition keeps_step :: "(service, 'a) sx \<Rightarrow> bool" where
  "keeps_step m \<longleftrightarrow> (\<forall>s r s'. m s = (r, s') \<longrightarrow> in_step s \<longrightarrow> answered r \<longrightarrow> in_step s')"

lemma keeps_stepI: "(\<And>s r s'. m s = (r, s') \<Longrightarrow> in_step s \<Longrightarrow> answered r \<Longrightarrow> in_step s') \<Longrightarrow> keeps_step m"
  by (simp add: keeps_step_def)

lemma keeps_stepD: "keeps_step m \<Longrightarrow> m s = (r, s') \<Longrightarrow> in_step s \<Longrightarrow> answered r \<Longrightarrow> in_step s'"
  by (simp add: keeps_step_def)

lemma answered_simps [simp]: "answered (Inr a)" "answered (Inl e) \<longleftrightarrow> (\<exists>n. e = ServiceError n)"
  by (simp_all add: answered_def)

lemma mirrors_cong: "cat_tables t' = cat_tables t \<Longrightarrow> mirrors t' cat = mirrors t cat"
  by (simp add: mirrors_def cat_tables_def)

lemma in_step_quiet: "quiet s s' \<Longrightarrow> in_step s \<Longrightarrow> in_step s'"
  using mirrors_cong [of "st_tables (sv_store s')" "st_tables (sv_store s)"]
  by (simp add: in_step_def quiet_def still_def)

lemma keeps_quiet: "within quiet m \<Longrightarrow> keeps_step m"
  by (rule keeps_stepI) (auto dest: withinD in_step_quiet)

lemma keeps_bind:
  assumes "keeps_step m" "\<And>a. keeps_step (f a)"
  shows "keeps_step (sx_bind m f)"
proof (rule keeps_stepI)
  fix s r s' assume run: "sx_bind m f s = (r, s')" and s: "in_step s" and r: "answered r"
  obtain q t where m: "m s = (q, t)" by fastforce
  show "in_step s'"
  proof (cases q)
    case (Inl e)
    then have "r = Inl e" "s' = t" using run m by (auto simp: sx_bind_def)
    then show ?thesis using r keeps_stepD [OF assms(1) m s] Inl by simp
  next
    case (Inr a)
    then show ?thesis using run keeps_stepD [OF assms(1) m s] keeps_stepD [OF assms(2), of a t] m s r
      by (simp add: sx_bind_def)
  qed
qed

lemma keeps_map: "(\<And>x. keeps_step (f x)) \<Longrightarrow> keeps_step (sx_map f xs)"
  by (induction xs) (auto intro: keeps_bind keeps_quiet quiet.within_return)

section \<open>Writing through\<close>

lemma with_conn_raises:
  assumes "with_conn m s = (Inl e, s')" "\<And>t. m s \<noteq> (Inl (ServiceError n), t)"
  shows "e \<noteq> ServiceError n"
  using assms by (auto simp: with_conn_def commit_def sx_simps split: prod.splits sum.splits if_splits)

lemma asserted_to_json_raises: "asserted_to_json a \<noteq> Inl (ServiceError n)"
  by (auto simp: asserted_to_json_def py_sorted_def)

lemma update_tables_raises: "update_tables f s \<noteq> (Inl (ServiceError n), t)"
  by (auto simp: update_tables_def dml_def sx_simps Let_def)

lemma upserts_raise:
  "upsert_source src declares cmd s \<noteq> (Inl (ServiceError n), s')"
  "upsert_tool tv s \<noteq> (Inl (ServiceError n), s')"
  "upsert_assertion sid name rec s \<noteq> (Inl (ServiceError n), s')"
  unfolding upsert_source_def upsert_tool_def upsert_assertion_def
  by (rule notI, drule with_conn_raises [where n = n];
      auto simp: sx_simps update_tables_raises asserted_to_json_raises split: option.splits)+

lemma upsert_source_run:
  assumes "idle s" "upsert_source src declares cmd s = (Inr u, s')"
  shows "idle s' \<and> (\<exists>at. st_tables s' = put_source src declares cmd at (st_tables s))"
  using with_conn_atomic [OF _ assms(1) assms(2) [unfolded upsert_source_def]]
  by (auto simp: sx_simps intro: txn_rules)

lemma upsert_tool_run:
  assumes "idle s" "upsert_tool tv s = (Inr u, s')"
  shows "idle s' \<and> (\<exists>asserted at. st_tables s' = put_tool tv asserted at (st_tables s))"
proof -
  have "within same_base (sx_bind (case tv_asserted tv of None \<Rightarrow> sx_return None
      | Some a \<Rightarrow> sx_bind (sx_lift (asserted_to_json a)) (\<lambda>j. sx_return (Some j)))
      (\<lambda>asserted. sx_bind now_text (\<lambda>updated. update_tables (put_tool tv asserted updated))))"
    by (auto intro!: txn_rules split: option.split)
  from with_conn_atomic [OF this assms(1) assms(2) [unfolded upsert_tool_def]] show ?thesis
    by (cases "tv_asserted tv") (auto simp: sx_simps, metis+)
qed

lemma upsert_assertion_run:
  assumes "idle s" "upsert_assertion sid name rec s = (Inr u, s')"
  shows "idle s' \<and> (\<exists>j at. asserted_to_json (ar_descriptor rec) = Inr j \<and>
    st_tables s' = put_assertion (sid, name) j (show_int (ar_fingerprint rec)) at (st_tables s))"
proof -
  have "within same_base (sx_bind (sx_lift (asserted_to_json (ar_descriptor rec))) (\<lambda>descriptor.
      sx_bind now_text (\<lambda>at. update_tables
        (put_assertion (sid, name) descriptor (show_int (ar_fingerprint rec)) at))))"
    by (intro txn_rules)
  from with_conn_atomic [OF this assms(1) assms(2) [unfolded upsert_assertion_def]] show ?thesis
    by (auto simp: sx_simps)
qed

section \<open>Each write keeps the mirror\<close>

lemma py_sorted_set_sort: "py_sorted_set (sort xs) = py_sorted_set xs"
  by (rule py_sorted_set_cong) simp

lemma map_dict_set: "map (\<lambda>kr. (fst kr, g (snd kr))) (dict_set k v kvs) = dict_set k (g v) (map (\<lambda>kr. (fst kr, g (snd kr))) kvs)"
  by (induction kvs) auto

lemma mirrors_register:
  "mirrors t cat \<Longrightarrow> mirrors (put_source src declares cmd at t) (Catalog.register_source src declares cat)"
proof -
  assume m: "mirrors t cat"
  have "map load_declared (dict_set (ts_source_id src) row (t_sources t)) =
      dict_set (ts_source_id src) (py_sorted_set declares) (cat_declared cat)"
    if "sr_declared row = sort declares" for row
    using m map_dict_set [of "\<lambda>row. py_sorted_set (sr_declared row)" "ts_source_id src" row "t_sources t"] that
    by (simp add: mirrors_def load_declared_def [abs_def] py_sorted_set_sort)
  then show ?thesis
    using m by (auto simp: mirrors_def put_source_def Catalog.register_source_def source_mirror_def
        intro!: list_all2_update)
qed

lemma mirrors_tool:
  assumes "mirrors t cat" "tool_id tv = tid"
  shows "mirrors (put_tool tv asserted at t) (cat\<lparr>cat_tools := dict_set tid tv (cat_tools cat)\<rparr>)"
proof -
  have "list_all2 tool_mirror (t_tools t) (cat_tools cat)" using assms(1) by (simp add: mirrors_def)
  then show ?thesis
    using assms by (auto simp: mirrors_def put_tool_def tool_mirror_def tool_id_def intro!: list_all2_update)
qed

lemma mirrors_assertion:
  assumes "mirrors t cat" "asserted_to_json (ar_descriptor rec) = Inr j"
  shows "mirrors (put_assertion tid j (show_int (ar_fingerprint rec)) at t)
    (cat\<lparr>cat_assertions := dict_set tid rec (cat_assertions cat)\<rparr>)"
proof -
  have "list_all2 assertion_mirror (t_assertions t) (cat_assertions cat)" using assms(1) by (simp add: mirrors_def)
  then show ?thesis
    using assms by (auto simp: mirrors_def put_assertion_def assertion_mirror_def intro!: list_all2_update)
qed

section \<open>Each handler keeps memory and database in step\<close>

lemma keeps_update_catalog:
  assumes "\<And>s cat a r s'. in_step s \<Longrightarrow> f (sv_catalog s) = Inr (cat, a) \<Longrightarrow> g a (s\<lparr>sv_catalog := cat\<rparr>) = (r, s') \<Longrightarrow>
      answered r \<Longrightarrow> in_step s'"
  shows "keeps_step (sx_bind (update_catalog f) g)"
proof (rule keeps_stepI)
  fix s r s' assume run: "sx_bind (update_catalog f) g s = (r, s')" and s: "in_step s" and r: "answered r"
  show "in_step s'"
  proof (cases "f (sv_catalog s)")
    case (Inl e)
    then show ?thesis using run s by (simp add: sx_bind_def update_catalog_def)
  next
    case (Inr ca)
    then show ?thesis using run assms [OF s _ _ r] by (cases ca) (simp add: sx_bind_def update_catalog_def)
  qed
qed

text \<open>After a write, the rest of a handler runs from a state that is in step again.\<close>

lemma written_through:
  assumes "sx_bind (on_store w) k s = (r, s')" "answered r"
    and "\<And>n t. w (sv_store s) \<noteq> (Inl (ServiceError n), t)" "\<And>u. within quiet (k u)"
    and "\<And>u t. w (sv_store s) = (Inr u, t) \<Longrightarrow> in_step (s\<lparr>sv_store := t\<rparr>)"
  shows "in_step s'"
proof -
  obtain q t where w: "w (sv_store s) = (q, t)" by fastforce
  show ?thesis
  proof (cases q)
    case (Inl e)
    then have "r = Inl e" using assms(1) w by (simp add: sx_bind_def on_store_def)
    then show ?thesis using assms(2) assms(3) w Inl by simp blast
  next
    case (Inr u)
    then have "k u (s\<lparr>sv_store := t\<rparr>) = (r, s')" using assms(1) w by (simp add: sx_bind_def on_store_def)
    then show ?thesis using withinD [OF assms(4)] in_step_quiet assms(5) w Inr by blast
  qed
qed

lemma keeps_lift: "(\<And>a. keeps_step (f a)) \<Longrightarrow> keeps_step (sx_bind (sx_lift r) f)"
  by (rule keeps_bind [OF keeps_quiet [OF quiet.within_lift]])

lemma keeps_get: "(\<And>a. keeps_step (f a)) \<Longrightarrow> keeps_step (sx_bind (sx_get g) f)"
  by (rule keeps_bind [OF keeps_quiet [OF quiet.within_get]])

lemma keeps_raise: "keeps_step (sx_raise e)"
  by (rule keeps_quiet [OF quiet.within_raise])

lemmas keeps_rules = keeps_lift keeps_get keeps_raise

lemma keeps_register_write:
  assumes "\<And>u. within quiet (k u)"
  shows "keeps_step (sx_bind (update_catalog (\<lambda>cat. Inr (Catalog.register_source src dec cat, ())))
    (\<lambda>u. sx_bind (on_store (upsert_source src dec cmd)) k))"
proof (rule keeps_update_catalog)
  fix s cat a r s'
  assume s: "in_step s" and cat: "Inr (Catalog.register_source src dec (sv_catalog s), ()) = (Inr (cat, a) :: (Catalog \<times> unit) result)"
    and run: "sx_bind (on_store (upsert_source src dec cmd)) k (s\<lparr>sv_catalog := cat\<rparr>) = (r, s')" and r: "answered r"
  show "in_step s'"
  proof (rule written_through [OF run r _ assms])
    fix u t assume "upsert_source src dec cmd (sv_store (s\<lparr>sv_catalog := cat\<rparr>)) = (Inr u, t)"
    then show "in_step (s\<lparr>sv_catalog := cat, sv_store := t\<rparr>)"
      using s cat upsert_source_run [of "sv_store s"] mirrors_register by (fastforce simp: in_step_def)
  qed (rule upserts_raise)
qed

lemma keeps_register_source: "keeps_step (register_source sid tier transport declares command)"
  unfolding register_source_def Let_def
  by (auto intro!: keeps_rules keeps_register_write quiet.rules)

lemma mirrors_ingest:
  assumes "mirrors t cat" "ingest_claimed sid name claimed version cat = Inr (cat', tv)"
  shows "mirrors (put_tool (tv\<lparr>tv_input_schema := sch\<rparr>) asserted at t) (set_schema (sid, name) sch cat')"
proof -
  have "tool_id (tv\<lparr>tv_input_schema := sch\<rparr>) = (sid, name)" "cat' = cat\<lparr>cat_tools := dict_set (sid, name) tv (cat_tools cat)\<rparr>"
    using assms(2) unfolding ingest_claimed_Inr by (auto simp: tool_id_def)
  then have "set_schema (sid, name) sch cat' = cat\<lparr>cat_tools := dict_set (sid, name) (tv\<lparr>tv_input_schema := sch\<rparr>) (cat_tools cat)\<rparr>"
    by (simp add: set_schema_def dict_simps)
  then show ?thesis using mirrors_tool [OF assms(1)] \<open>tool_id _ = _\<close> by simp
qed

lemma keeps_ingest_one:
  assumes "\<And>n. schema \<noteq> Inl (ServiceError n)"
  shows "keeps_step (ingest_one sid name version claimed schema)"
  unfolding ingest_one_def
proof (rule keeps_update_catalog)
  fix s cat tv r s'
  let ?put = "\<lambda>tv sch. sx_bind (on_store (upsert_tool (tv\<lparr>tv_input_schema := sch\<rparr>))) (\<lambda>u. sx_return name)"
  assume s: "in_step s" and ingest: "ingest_claimed sid name claimed version (sv_catalog s) = Inr (cat, tv)"
    and run: "sx_bind (sx_get (\<lambda>s. catalog_get (sv_catalog s) sid name)) (\<lambda>tv. case tv of None \<Rightarrow> sx_raise AssertionError
      | Some tv \<Rightarrow> sx_bind (sx_lift schema) (\<lambda>sch. sx_bind (update_catalog (\<lambda>cat. Inr (set_schema (sid, name) sch cat, ())))
          (\<lambda>u. ?put tv sch))) (s\<lparr>sv_catalog := cat\<rparr>) = (r, s')"
    and r: "answered r"
  have "catalog_get cat sid name = Some tv"
    using ingest unfolding ingest_claimed_Inr by (auto simp: catalog_get_def dict_simps)
  then obtain sch where put: "?put tv sch (s\<lparr>sv_catalog := set_schema (sid, name) sch cat\<rparr>) = (r, s')"
    using run r assms
    by (cases schema) (auto simp: sx_bind_get sx_bind_def [of "sx_lift q" for q] sx_bind_def [of "update_catalog q" for q]
        sx_lift_def update_catalog_def)
  show "in_step s'"
  proof (rule written_through [OF put r])
    fix u t assume "upsert_tool (tv\<lparr>tv_input_schema := sch\<rparr>) (sv_store (s\<lparr>sv_catalog := set_schema (sid, name) sch cat\<rparr>)) = (Inr u, t)"
    then show "in_step (s\<lparr>sv_catalog := set_schema (sid, name) sch cat, sv_store := t\<rparr>)"
      using s upsert_tool_run [of "sv_store s"] mirrors_ingest [OF _ ingest] by (fastforce simp: in_step_def)
  qed (simp_all add: upserts_raise quiet.rules)
qed

lemma keeps_recorded: "within quiet (on_store (record_discovery sid names))"
  by (rule quiet.on_store [OF still_writes(1)])

lemma keeps_caught:
  assumes "\<And>e. within quiet (h e)" "\<And>a. keeps_step (f a)"
  shows "keeps_step (sx_bind (sx_catch (sx_lift r) h) f)"
  by (intro keeps_bind keeps_quiet quiet.within_catch quiet.within_lift assms)

lemma keeps_each:
  "(\<And>x. keeps_step (f x)) \<Longrightarrow> (\<And>ys. within quiet (g ys)) \<Longrightarrow> keeps_step (sx_bind (sx_map f xs) g)"
  by (rule keeps_bind [OF keeps_map keeps_quiet])

lemma keeps_on_store: "within still m \<Longrightarrow> (\<And>a. keeps_step (f a)) \<Longrightarrow> keeps_step (sx_bind (on_store m) f)"
  by (rule keeps_bind [OF keeps_quiet [OF quiet.on_store]])

lemma keeps_known_source: "(\<And>u. keeps_step (f u)) \<Longrightarrow> keeps_step (sx_bind (known_source sid) f)"
  by (rule keeps_bind [OF keeps_quiet [OF quiet.known_source]])

lemmas keeps_heads = keeps_rules keeps_caught keeps_each keeps_on_store keeps_known_source

lemma keeps_ingest: "keeps_step (ingest dp text_of sid)"
  unfolding ingest_def Let_def
  by (auto intro!: keeps_heads keeps_ingest_one quiet.rules quiet.discovery_failed keeps_recorded split: option.split)

lemma key_text_raises: "key_text v \<noteq> Inl (ServiceError n)"
  by (cases v) auto

lemma py_dict_raises: "py_dict v \<noteq> Inl (ServiceError n)"
proof -
  have iter: "py_iter w \<noteq> Inl (ServiceError n)" for w by (cases w) auto
  have "pair_of w \<noteq> Inl (ServiceError n)" for w
    using iter key_text_raises by (auto simp: pair_of_def result_simps split: list.splits)
  then have "map_result pair_of ws \<noteq> Inl (ServiceError n)" for ws
    by (induction ws) (auto simp: result_simps)
  then show ?thesis
    using iter by (cases v) (auto simp: py_dict_def result_simps)
qed

lemma keeps_ingest_payload: "keeps_step (ingest_payload sid tools)"
  unfolding ingest_payload_def
  by (auto intro!: keeps_heads keeps_ingest_one quiet.rules keeps_recorded simp: py_dict_raises split: json.split)

lemma mirrors_tool_id:
  assumes "mirrors t cat" "dict_get (cat_tools cat) tid = Some tv"
  shows "tool_id tv = tid"
proof -
  have "list_all2 tool_mirror (t_tools t) (cat_tools cat)" using assms(1) by (simp add: mirrors_def)
  then have "\<forall>kv \<in> set (cat_tools cat). tool_id (snd kv) = fst kv"
    by (induction rule: list_all2_induct) (auto simp: tool_mirror_def)
  then show ?thesis using map_of_SomeD [OF assms(2)] by auto
qed

lemma mirrors_assert:
  assumes "mirrors t cat" "assert_descriptor sid name desc cat = Inr (cat', tv)"
    and "dict_get (cat_assertions cat') (sid, name) = Some rec" "asserted_to_json (ar_descriptor rec) = Inr j"
  shows "mirrors (put_assertion (sid, name) j (show_int (ar_fingerprint rec)) at (put_tool tv asserted at' t)) cat'"
proof -
  obtain old where old: "dict_get (cat_tools cat) (sid, name) = Some old" "tv = old\<lparr>tv_asserted := Some desc\<rparr>"
      "cat' = cat\<lparr>cat_tools := dict_set (sid, name) tv (cat_tools cat),
         cat_assertions := dict_set (sid, name) \<lparr>ar_descriptor = desc, ar_fingerprint = fingerprint old\<rparr> (cat_assertions cat)\<rparr>"
    using assms(2) unfolding assert_descriptor_Inr by blast
  have "tool_id tv = (sid, name)" using mirrors_tool_id [OF assms(1) old(1)] old(2) by simp
  note tool = mirrors_tool [OF assms(1) this, of asserted at']
  have "rec = \<lparr>ar_descriptor = desc, ar_fingerprint = fingerprint old\<rparr>" using assms(3) old(3) by (simp add: dict_simps)
  then show ?thesis using mirrors_assertion [OF tool assms(4), of "(sid, name)" at] old(3) by simp
qed

lemma keeps_assert_tool: "keeps_step (assert_tool sid name descriptor)"
proof -
  let ?rest = "\<lambda>desc (rec :: AssertionRecord option). case rec of None \<Rightarrow> sx_raise KeyError
    | Some rec \<Rightarrow> sx_bind (on_store (upsert_assertion sid name rec)) (\<lambda>_.
        sx_bind (on_store (append_audit ''assertion''
          [(''source_id'', JStr sid), (''name'', JStr name), (''asserted_by'', ad_asserted_by desc),
           (''effect'', JStr (effect_value (ad_effect desc))),
           (''fingerprint'', JStr (show_int (ar_fingerprint rec)))])) (\<lambda>_. get_tool sid name))"
  have "keeps_step (sx_bind (update_catalog (\<lambda>cat. convert P n (convert Q m (assert_descriptor sid name desc cat)))) (\<lambda>tv.
      sx_bind (on_store (upsert_tool tv)) (\<lambda>_.
      sx_bind (sx_get (\<lambda>s. dict_get (cat_assertions (sv_catalog s)) (sid, name))) (?rest desc))))" for P n Q m desc
  proof (rule keeps_update_catalog)
    fix s cat tv r s'
    assume s: "in_step s" and r: "answered r"
      and "convert P n (convert Q m (assert_descriptor sid name desc (sv_catalog s))) = Inr (cat, tv)"
      and run: "sx_bind (on_store (upsert_tool tv)) (\<lambda>_.
        sx_bind (sx_get (\<lambda>s. dict_get (cat_assertions (sv_catalog s)) (sid, name))) (?rest desc)) (s\<lparr>sv_catalog := cat\<rparr>) = (r, s')"
    then have assert: "assert_descriptor sid name desc (sv_catalog s) = Inr (cat, tv)" by (simp add: convert_Inr)
    obtain q t where tool: "upsert_tool tv (sv_store s) = (q, t)" by fastforce
    obtain u where q: "q = Inr u"
    proof (cases q)
      case (Inl e)
      then show ?thesis using run tool r upserts_raise(2) by (auto simp: sx_bind_def on_store_def)
    qed
    have t: "idle t" "\<exists>asserted at. st_tables t = put_tool tv asserted at (st_tables (sv_store s))"
      using upsert_tool_run [of "sv_store s" tv u t] tool q s by (auto simp: in_step_def)
    obtain rec where rec: "dict_get (cat_assertions cat) (sid, name) = Some rec"
      using assert unfolding assert_descriptor_Inr by (auto simp: dict_simps)
    have rest: "?rest desc (Some rec) (s\<lparr>sv_catalog := cat, sv_store := t\<rparr>) = (r, s')"
      using run tool q rec by (simp add: sx_bind_def [of "on_store w" for w] on_store_def sx_bind_get)
    show "in_step s'"
    proof (rule written_through [OF rest [simplified option.case] r])
      fix v t' assume w: "upsert_assertion sid name rec (sv_store (s\<lparr>sv_catalog := cat, sv_store := t\<rparr>)) = (Inr v, t')"
      then show "in_step (s\<lparr>sv_catalog := cat, sv_store := t, sv_store := t'\<rparr>)"
        using upsert_assertion_run [of t sid name rec v t'] t s mirrors_assert [OF _ assert rec]
        by (fastforce simp: in_step_def)
    qed (auto simp: upserts_raise intro!: quiet.rules quiet.get_tool)
  qed
  then show ?thesis
    unfolding assert_tool_def by (auto intro!: keeps_heads split: option.split)
qed

section \<open>A service and its restarts\<close>

fun request_answered :: "deps \<Rightarrow> (exn \<Rightarrow> string) \<Rightarrow> service_request \<Rightarrow> service \<Rightarrow> bool" where
  "request_answered dp say (ReqRegister sid tier transport declares command) s =
     answered (fst (register_source sid tier transport declares command s))"
| "request_answered dp say (ReqIngest sid) s = answered (fst (ingest dp say sid s))"
| "request_answered dp say (ReqPush sid tools) s = answered (fst (ingest_payload sid tools s))"
| "request_answered dp say (ReqAssert sid name descriptor) s = answered (fst (assert_tool sid name descriptor s))"
| "request_answered dp say req s = True"

lemma serve_in_step:
  assumes "serve_request dp say req s = (evs, s')" "in_step s" "request_answered dp say req s"
  shows "in_step s'"
proof -
  have keeps: "in_step (snd (m s))" if "keeps_step m" "answered (fst (m s))" for m :: "(service, 'a) sx"
    using that keeps_stepD [OF that(1) _ assms(2)] by (metis prod.collapse)
  have quiet: "in_step (snd (m s))" if "within quiet m" for m :: "(service, 'a) sx"
    using within_snd [OF that] in_step_quiet assms(2) by blast
  show ?thesis
    using assms(1,3)
    by (cases req) (auto split: prod.splits intro: keeps keeps_register_source keeps_ingest keeps_ingest_payload keeps_assert_tool
      in_step_quiet [OF withinD [OF quiet.redeem_grant] assms(2)] in_step_quiet [OF withinD [OF quiet.redeem_governance] assms(2)]
      quiet quiet.get_tool quiet.authorize quiet.close_grant quiet.record_outcome quiet.reading)
qed

text \<open>
  What a deployment does with one database: it starts a service on tables without sources, tools and
  evidence, serves requests, and restarts on the tables the last service left. The engine, the
  platform, the trust root and the clocks may change at any restart; the connection is a new one.
\<close>

inductive lifetime :: "service \<Rightarrow> bool" where
  boot: "idle st \<Longrightarrow> cat_tables (st_tables st) = ([], [], []) \<Longrightarrow>
    new_service bus root revocations provider_id st = (Inr s, st') \<Longrightarrow> lifetime s"
| request: "lifetime s \<Longrightarrow> request_answered dp say req s \<Longrightarrow> serve_request dp say req s = (evs, s') \<Longrightarrow> lifetime s'"
| restart: "lifetime s \<Longrightarrow> storable (sv_catalog s) \<Longrightarrow> idle st \<Longrightarrow> st_tables st = st_tables (sv_store s) \<Longrightarrow>
    new_service bus root revocations provider_id st = (Inr s', st') \<Longrightarrow> lifetime s'"

lemma sort_key_fst_id: "sorted (map fst kvs) \<Longrightarrow> sort_key fst kvs = (kvs :: ('a::linorder \<times> 'b) list)"
proof (induction kvs)
  case (Cons kv kvs)
  then show ?case by (cases kvs) auto
qed simp

lemma sort_keys_idem [simp]: "sort_keys (sort_keys v) = sort_keys v"
proof (induction v)
  case (JDict kvs)
  have "map (map_prod id sort_keys) (sort_key fst (map (map_prod id sort_keys) kvs)) = sort_key fst (map (map_prod id sort_keys) kvs)"
  proof (rule map_idI)
    fix kv assume "kv \<in> set (sort_key fst (map (map_prod id sort_keys) kvs))"
    then obtain k w where kw: "(k, w) \<in> set kvs" "kv = (k, sort_keys w)" by auto
    then have "sort_keys (sort_keys w) = sort_keys w" using JDict [OF kw(1)] by (simp add: Basic_BNFs.snds.simps)
    then show "map_prod id sort_keys kv = kv" using kw(2) by simp
  qed
  then show ?case by (simp add: sort_key_fst_id)
qed (auto simp: comp_def)

lemma normal_schemas_simps [simp]:
  "cat_sources (normal_schemas cat) = cat_sources cat" "cat_declared (normal_schemas cat) = cat_declared cat"
  "cat_assertions (normal_schemas cat) = cat_assertions cat"
  "dict_get (cat_tools (normal_schemas cat)) tid =
     map_option (\<lambda>tv. tv\<lparr>tv_input_schema := sort_keys (tv_input_schema tv)\<rparr>) (dict_get (cat_tools cat) tid)"
  "map fst (cat_tools (normal_schemas cat)) = map fst (cat_tools cat)"
  by (simp_all add: normal_schemas_def comp_def case_prod_beta)

lemma mirrors_normal:
  assumes "mirrors t cat"
  shows "mirrors t (normal_schemas cat)"
proof -
  have "list_all2 tool_mirror (t_tools t) (cat_tools cat)" using assms by (simp add: mirrors_def)
  then have "list_all2 tool_mirror (t_tools t) (cat_tools (normal_schemas cat))"
    unfolding normal_schemas_def
    by (induction rule: list_all2_induct) (auto simp: tool_mirror_def stored_def)
  then show ?thesis using assms by (simp add: mirrors_def)
qed

lemma vouched_normal [simp]: "vouched (normal_schemas cat) = vouched cat"
  by (simp add: vouched_def [abs_def])

lemma wf_normal: "wf_catalog cat \<Longrightarrow> wf_catalog (normal_schemas cat)"
proof -
  assume wf: "wf_catalog cat"
  have "wf_dict (cat_tools (normal_schemas cat))" using wf by (simp add: wf_catalog_def wf_dict_def)
  then show ?thesis using wf by (auto simp: wf_catalog_def)
qed

lemma load_catalog_answer:
  assumes "load_catalog s = (Inr cat', s')" "mirrors (st_tables s) cat" "storable cat" "wf_catalog cat"
  shows "cat' = normal_schemas cat"
proof -
  let ?h = "s\<lparr>st_faults := \<lambda>n. False\<rparr>"
  have h: "healthy ?h" by (simp add: healthy_def)
  have "fst (load_catalog ?h) = Inr cat'"
    using load_catalog_run [OF assms(1)] by (auto simp: load_catalog_healthy [OF h])
  then show ?thesis using load_catalog_of_mirror [OF _ assms(3,4) h] assms(2) by simp
qed

lemma within_load_catalog: "within still load_catalog"
  unfolding load_catalog_def by (intro still.within_rules quiet.store_query)

lemma new_service_run:
  assumes "new_service bus root revocations provider_id st = (Inr s, st')"
  shows "sv_store s = st' \<and> still st st' \<and> (\<exists>st1. load_catalog st = (Inr (sv_catalog s), st1))"
proof -
  define note_list where "note_list = (if revocations = JNull then sx_return ()
              else
                sx_bind (sx_lift (case revocations of JDict kvs \<Rightarrow> Inr kvs | _ \<Rightarrow> Inl AttributeError)) (\<lambda>kvs.
                sx_bind (set_meta ''gov_revocation_list_id'' (py_str (get_or kvs ''list_id'' (JStr [])))) (\<lambda>_.
                set_meta ''gov_revocation_list_issued_at'' (py_str (get_or kvs ''issued_at'' (JStr []))))))"
  have w: "within still note_list"
    unfolding note_list_def by (auto intro!: still.within_rules still_writes)
  obtain cat st1 where "load_catalog st = (Inr cat, st1)" "note_list st1 = (Inr (), st')"
      "s = \<lparr>sv_store = st', sv_catalog = cat, sv_audit_log = [], sv_bus = bus, sv_trust_root = root,
                   sv_revocation_list = revocations, sv_provider_id = provider_id\<rparr>"
    using assms unfolding new_service_def note_list_def [symmetric] by (auto simp: sx_simps)
  then show ?thesis
    using withinD [OF within_load_catalog] withinD [OF w] still.trans by fastforce
qed

lemma restarted:
  assumes "new_service bus root revocations provider_id st = (Inr s, st')" "idle st"
    and "mirrors (st_tables st) cat" "storable cat" "wf_catalog cat"
  shows "sv_catalog s = normal_schemas cat" "in_step s"
proof -
  note run = new_service_run [OF assms(1)]
  show cat: "sv_catalog s = normal_schemas cat" using run load_catalog_answer [OF _ assms(3-5)] by blast
  have "still st (sv_store s)" using run by simp
  then show "in_step s"
    using assms(2) mirrors_normal [OF assms(3)] mirrors_cong [of "st_tables (sv_store s)" "st_tables st"]
    by (simp add: in_step_def still_def cat)
qed

lemma lifetime_in_step: "lifetime s \<Longrightarrow> in_step s \<and> wf_catalog (sv_catalog s)"
proof (induction rule: lifetime.induct)
  case (boot st bus root revocations provider_id s st')
  have m: "mirrors (st_tables st) empty_catalog" "storable empty_catalog"
    using boot(2) by (simp_all add: mirrors_def cat_tables_def empty_catalog_def storable_def)
  show ?case
    using restarted [OF boot(3,1) m wf_empty_catalog] wf_normal [OF wf_empty_catalog] by simp
next
  case (request s dp say req evs s')
  have "cat_step\<^sup>*\<^sup>* (sv_catalog s) (sv_catalog s')"
    using serve_evolves [OF request(3)] by (simp add: evolves_def)
  then have "wf_catalog (sv_catalog s')"
    using request(4) by (induction rule: rtranclp_induct) (auto intro: wf_cat_step)
  then show ?case using serve_in_step [OF request(3) _ request(2)] request(4) by blast
next
  case (restart s st bus root revocations provider_id s' st')
  then show ?case
    using restarted [OF restart(5,3)] wf_normal by (fastforce simp: in_step_def)
qed

section \<open>What a restart changes for a caller\<close>

lemma cedar_ignores_schema: "cedar_decide f p (tv\<lparr>tv_input_schema := v\<rparr>) ctx = cedar_decide f p tv ctx"
proof -
  have "cedar_request p (tv\<lparr>tv_input_schema := v\<rparr>) ctx = cedar_request p tv ctx"
    "entities p (tv\<lparr>tv_input_schema := v\<rparr>) d = entities p tv d" for d
    by (simp_all add: cedar_request_def entities_def)
  then show ?thesis by (simp add: cedar_decide_def cong: option.case_cong)
qed

lemma invocable_normal [simp]: "invocable (normal_schemas cat) = invocable cat"
  by (intro ext) (auto simp: invocable_def catalog_get_def is_asserted_def split: option.splits)

lemma status_normal [simp]: "assertion_status (normal_schemas cat) = assertion_status cat"
  by (intro ext) (auto simp: assertion_status_def is_asserted_def Let_def split: option.splits)

lemma decision_normal: "broker_decision (cedar_decide f) (normal_schemas cat) = broker_decision (cedar_decide f) cat"
proof (intro ext)
  show "broker_decision (cedar_decide f) (normal_schemas cat) p sid name ctx = broker_decision (cedar_decide f) cat p sid name ctx" for p sid name ctx
    by (cases "dict_get (cat_tools cat) (sid, name)"; cases "invocable cat sid name")
      (auto simp: broker_decision_def catalog_get_def is_asserted_def cedar_ignores_schema split: option.split)
qed

lemma drift_normal: "Catalog.drift (normal_schemas cat) sid names = Catalog.drift cat sid names"
proof -
  have "dict_keys (cat_tools (normal_schemas cat)) = dict_keys (cat_tools cat)" by simp
  moreover have "(case dict_get (cat_tools (normal_schemas cat)) (sid, n) of Some tv \<Rightarrow> map (Pair n) (claim_conflicts tv) | None \<Rightarrow> []) =
      (case dict_get (cat_tools cat) (sid, n) of Some tv \<Rightarrow> map (Pair n) (claim_conflicts tv) | None \<Rightarrow> [])" for n
    by (auto simp: claim_conflicts_def split: option.split)
  ultimately show ?thesis by (simp add: Catalog.drift_def Let_def)
qed

lemma set_meta_healthy:
  assumes "healthy s"
  shows "\<exists>t. set_meta k v s = (Inr (), t) \<and> healthy t"
proof -
  have upd: "healthy (s\<lparr>st_tables := upsert_meta k v (st_tables s), st_begun := Some (base s), st_faults := \<lambda>n. st_faults s (Suc n)\<rparr>)"
    by (rule healthy_update [OF assms])
  show ?thesis
    unfolding set_meta_def healthy_with_conn [where m = "update_tables (upsert_meta k v)", OF assms healthy_run(3) [OF assms] upd]
    using assms by (simp add: healthy_def)
qed

lemma new_service_healthy:
  assumes "healthy st" "fst (load_catalog st) = Inr cat" "revocations = JNull \<or> is_dict revocations"
  shows "\<exists>s st'. new_service bus root revocations provider_id st = (Inr s, st')"
proof -
  have "within (\<lambda>s s'. healthy s \<longrightarrow> healthy s') load_catalog"
    unfolding load_catalog_def query_def
    by (intro invariant.within_rules) (auto simp: within_def statement_def Let_def)
  then obtain st1 where st1: "load_catalog st = (Inr cat, st1)" "healthy st1"
    using assms(1,2) invariantD by (metis prod.collapse)
  show ?thesis
  proof (cases revocations)
    case JNull
    then show ?thesis by (simp add: new_service_def sx_bind_run [where m = load_catalog, OF st1(1)]) (simp add: sx_get_def)
  next
    case (JDict kvs)
    let ?lid = "py_str (get_or kvs ''list_id'' (JStr []))" and ?issued = "py_str (get_or kvs ''issued_at'' (JStr []))"
    obtain t where t: "set_meta ''gov_revocation_list_id'' ?lid st1 = (Inr (), t)" "healthy t"
      using set_meta_healthy [OF st1(2)] by blast
    obtain u where u: "set_meta ''gov_revocation_list_issued_at'' ?issued t = (Inr (), u)"
      using set_meta_healthy [OF t(2)] by blast
    have m: "sx_bind (sx_lift (Inr kvs)) (\<lambda>kvs. sx_bind (set_meta ''gov_revocation_list_id'' (py_str (get_or kvs ''list_id'' (JStr []))))
        (\<lambda>_. set_meta ''gov_revocation_list_issued_at'' (py_str (get_or kvs ''issued_at'' (JStr []))))) st1 = (Inr (), u)"
      using t(1) u by (simp add: sx_bind_def sx_lift_def)
    show ?thesis
      by (simp add: new_service_def JDict sx_bind_run [where m = load_catalog, OF st1(1)] sx_bind_run [where m = "sx_bind q k" for q k, OF m]) (simp add: sx_get_def)
  qed (use assms(3) in auto)
qed


lemma upsert_source_healthy:
  assumes "healthy s" "idle s"
  shows "\<exists>t. upsert_source src declares cmd s = (Inr (), t) \<and> healthy t \<and> idle t"
proof -
  let ?m = "sx_bind now_text (\<lambda>registered. update_tables (put_source src declares cmd registered))"
  let ?s1 = "s\<lparr>st_clock := \<lambda>n. st_clock s (Suc n), st_begun := Some (base s), st_faults := \<lambda>n. st_faults s (Suc n),
    st_tables := put_source src declares cmd (isoformat (st_clock s 0)) (st_tables s)\<rparr>"
  have m: "?m s = (Inr (), ?s1)" using assms(1) by (auto simp: sx_simps healthy_def)
  have h: "healthy ?s1" using assms(1) by (simp add: healthy_def)
  show ?thesis
    unfolding upsert_source_def healthy_with_conn [where m = ?m, OF assms(1) m h]
    using assms(1) by (simp add: idle_def healthy_def)
qed

lemma demo_boot:
  "\<exists>s st'. new_service (new_publisher None None (FFin False 2 0)) None JNull ''toolconnect'' (fresh_store empty_tables) = (Inr s, st') \<and>
     lifetime s \<and> sv_catalog s = empty_catalog \<and> healthy (sv_store s) \<and> idle (sv_store s)"
proof -
  have load: "load_catalog (fresh_store empty_tables) = (Inr empty_catalog, fresh_store empty_tables)"
    by (simp add: load_catalog_def sx_bind_def query_def statement_def sx_get_def sx_lift_def sx_return_def
        fresh_store_def empty_tables_def empty_catalog_def)
  let ?s = "\<lparr>sv_store = fresh_store empty_tables, sv_catalog = empty_catalog, sv_audit_log = [],
    sv_bus = new_publisher None None (FFin False 2 0), sv_trust_root = None, sv_revocation_list = JNull, sv_provider_id = ''toolconnect''\<rparr>"
  have new: "new_service (new_publisher None None (FFin False 2 0)) None JNull ''toolconnect'' (fresh_store empty_tables) =
      (Inr ?s, fresh_store empty_tables)"
    by (simp add: new_service_def sx_bind_def load) (simp add: sx_get_def sx_return_def)
  have "lifetime ?s" by (rule lifetime.boot [OF _ _ new]) (simp_all add: cat_tables_def empty_tables_def)
  then show ?thesis using new by auto
qed


section \<open>A request that fails halfway\<close>

text \<open>
  \<open>ingest_payload\<close> puts the new claim into the catalog before \<open>dict(schema)\<close> may raise, and only
  writes the tool to the store afterwards. The payload below announces one tool with such a schema.
\<close>

definition broken_push :: "string \<Rightarrow> string \<Rightarrow> json \<Rightarrow> json" where
  "broken_push name version schema =
     JList [JDict [(''name'', JStr name), (''version'', JStr version), (''input_schema'', schema)]]"

lemma broken_push_run:
  assumes "dict_get (cat_sources (sv_catalog s)) sid \<noteq> None" "name \<noteq> []" "truthy schema" "py_dict schema = Inl e"
  shows "\<exists>cat tv. ingest_payload sid (broken_push name version schema) s = (Inl e, s\<lparr>sv_catalog := cat\<rparr>) \<and>
    catalog_get cat sid name = Some tv \<and> tr_version (tv_ref tv) = version \<and>
    cat_sources cat = cat_sources (sv_catalog s)"
proof -
  let ?c = "\<lparr>cm_description = JStr [], cm_read_only_hint = JNull, cm_destructive_hint = JNull,
    cm_idempotent_hint = JNull, cm_open_world_hint = JNull\<rparr>"
  have parsed: "parse_tools [] [JDict [(''name'', JStr name), (''version'', JStr version), (''input_schema'', schema)]] =
      Inr [\<lparr>pt_name = name, pt_version = version, pt_claimed = ?c, pt_schema = schema\<rparr>]"
    using assms(2,3) by (simp add: parse_tool_def get_or_null_def get_or_def or_else_def py_str_def Let_def)
  obtain cat tv where ingest: "ingest_claimed sid name ?c version (sv_catalog s) = Inr (cat, tv)"
    using assms(1) by (auto simp: ingest_claimed_def Let_def)
  then have cat: "catalog_get cat sid name = Some tv" "tr_version (tv_ref tv) = version" "cat_sources cat = cat_sources (sv_catalog s)"
    unfolding ingest_claimed_Inr by (auto simp: catalog_get_def dict_simps)
  have one: "ingest_one sid name version ?c (Inl e) s = (Inl e, s\<lparr>sv_catalog := cat\<rparr>)"
    using ingest cat(1) by (simp add: ingest_one_def sx_bind_def update_catalog_def sx_get_def sx_lift_def)
  obtain src where "dict_get (cat_sources (sv_catalog s)) sid = Some src" using assms(1) by blast
  then have "ingest_payload sid (broken_push name version schema) s = (Inl e, s\<lparr>sv_catalog := cat\<rparr>)"
    using assms(4) parsed one
    by (simp add: ingest_payload_def broken_push_def known_source_def sx_bind_def sx_get_def sx_return_def sx_lift_def)
  then show ?thesis using cat by blast
qed

lemma mirrored_version:
  assumes "mirrors t cat"
  shows "(\<exists>row. dict_get (t_tools t) (sid, name) = Some row \<and> to_version row = v) \<longleftrightarrow>
    (\<exists>tv. catalog_get cat sid name = Some tv \<and> tr_version (tv_ref tv) = v)"
proof -
  have "list_all2 tool_mirror (t_tools t) (cat_tools cat)" using assms by (simp add: mirrors_def)
  then show ?thesis
    unfolding catalog_get_def by (induction rule: list_all2_induct) (auto simp: tool_mirror_def)
qed

text \<open>C34: a request that fails halfway leaves memory and database apart. Pushing a tool whose schema
  \<open>dict()\<close> refuses raises, so the caller sees an internal error, yet the catalog in memory already has
  the pushed version, unvouched when its fingerprint is new, while the tables are untouched: every
  service started on them has the old version and, when it was invocable, calls it so again.\<close>

theorem failed_push_diverges:
  assumes "in_step s" "wf_catalog (sv_catalog s)" "storable (sv_catalog s)"
    and "dict_get (cat_sources (sv_catalog s)) sid \<noteq> None" "name \<noteq> []" "truthy schema" "py_dict schema = Inl e"
    and "\<forall>old. catalog_get (sv_catalog s) sid name = Some old \<longrightarrow> tr_version (tv_ref old) \<noteq> version"
    and "new_service bus root revocations provider_id st = (Inr s2, st2)" "idle st" "st_tables st = st_tables (sv_store s)"
  shows "\<exists>s' tv. ingest_payload sid (broken_push name version schema) s = (Inl e, s') \<and> sv_store s' = sv_store s \<and>
    catalog_get (sv_catalog s') sid name = Some tv \<and> tr_version (tv_ref tv) = version \<and>
    (tv_asserted tv = None \<longrightarrow> invocable (sv_catalog s') sid name = Inr False) \<and>
    \<not> in_step s' \<and> invocable (sv_catalog s2) sid name = invocable (sv_catalog s) sid name"
proof -
  obtain cat tv where push: "ingest_payload sid (broken_push name version schema) s = (Inl e, s\<lparr>sv_catalog := cat\<rparr>)"
      "catalog_get cat sid name = Some tv" "tr_version (tv_ref tv) = version"
    using broken_push_run [OF assms(4-7)] by blast
  have mirror: "mirrors (st_tables (sv_store s)) (sv_catalog s)" using assms(1) by (simp add: in_step_def)
  have "\<not> mirrors (st_tables (sv_store s)) cat"
  proof
    assume "mirrors (st_tables (sv_store s)) cat"
    then obtain row where "dict_get (t_tools (st_tables (sv_store s))) (sid, name) = Some row" "to_version row = version"
      using push(2,3) mirrored_version by blast
    then obtain old where "catalog_get (sv_catalog s) sid name = Some old" "tr_version (tv_ref old) = version"
      using mirrored_version [OF mirror] by blast
    then show False using assms(8) by blast
  qed
  moreover have "sv_catalog s2 = normal_schemas (sv_catalog s)"
    using restarted [OF assms(9,10)] mirror assms(2,3,11) by simp
  ultimately show ?thesis
    using push by (auto simp: in_step_def invocable_def is_asserted_def)
qed

theorem failed_push_diverges_witness:
  "\<exists>s' s2 st2. ingest_payload ''docs'' (broken_push ''search'' ''2.0.0'' (JList [JInt 1])) demo_service = (Inl TypeError, s') \<and>
     sv_store s' = sv_store demo_service \<and> \<not> in_step s' \<and>
     new_service (new_publisher None None (FFin False 2 0)) None JNull ''toolconnect'' (fresh_store demo_tables) = (Inr s2, st2) \<and>
     invocable (sv_catalog s2) ''docs'' ''search'' = Inr True"
proof -
  have demo: "sv_store demo_service = fresh_store demo_tables" "sv_catalog demo_service = demo_catalog" "wf_catalog demo_catalog"
    using reachable_wf [OF demo_reachable] by (simp_all add: demo_service_def)
  obtain s2 st2 where new: "new_service (new_publisher None None (FFin False 2 0)) None JNull ''toolconnect'' (fresh_store demo_tables) = (Inr s2, st2)"
    using new_service_healthy [OF _ load_catalog_of_mirror [OF demo_mirrors demo(3)]] by fastforce
  have inv: "invocable demo_catalog ''docs'' ''search'' = Inr True"
    by (simp add: invocable_def catalog_get_def demo_catalog_def demo_tool_def is_asserted_def demo_source_def tier_invocable_def)
  have hyp: "in_step demo_service" "storable (sv_catalog demo_service)" "dict_get (cat_sources (sv_catalog demo_service)) ''docs'' \<noteq> None"
    "truthy (JList [JInt 1])" "py_dict (JList [JInt 1]) = Inl TypeError"
    "\<forall>old. catalog_get (sv_catalog demo_service) ''docs'' ''search'' = Some old \<longrightarrow> tr_version (tv_ref old) \<noteq> ''2.0.0''"
    using demo_mirrors by (simp_all add: in_step_def demo(1,2) demo_catalog_def py_dict_def pair_of_def catalog_get_def demo_tool_def)
  from failed_push_diverges [where name = "''search''", OF hyp(1) demo(3) [folded demo(2)] hyp(2,3) _ hyp(4-6) new] demo inv new
  show ?thesis by auto
qed

end
