(* ===== verification/Audit_Demo.thy ===== *)
theory Audit_Demo
  imports Experiments Service_Restart
begin

text \<open>
  \<open>audit_tail_truncation_demo.py\<close>: a service fills a database, its newest audit record is deleted from a
  copy behind the service's back, and \<open>verify-audit\<close> is run on an untouched and on the shortened copy.
  The theorem says that the demonstration succeeds, whatever the policy engine decides.

  The tables of a database file stand for the file with its \<open>-wal\<close> and \<open>-shm\<close> companions. The name of
  the working directory, which \<open>mkdtemp\<close> chooses, is a parameter.
\<close>

section \<open>The script\<close>

definition ALLOW_READS :: string where
  "ALLOW_READS =
     CHR 0x0A # ''@id('' @ CHR 0x22 # ''allow-reads'' @ CHR 0x22 # '')'' @
     CHR 0x0A # ''permit(principal, action == Action::'' @ CHR 0x22 # ''invoke'' @ CHR 0x22 # '', resource)'' @
     CHR 0x0A # ''when { resource.effect == '' @ CHR 0x22 # ''read'' @ CHR 0x22 # '' };'' @ [CHR 0x0A]"

text \<open>One iteration: a decision without arguments, and the outcome reported for it.\<close>

definition decide_and_report :: "deps \<Rightarrow> (service, response) sx" where
  "decide_and_report dp =
     sx_bind (authorize dp (JDict [(''id'', JStr ''a'')]) ''io.demo/s'' ''reader'' JNull None JNull) (\<lambda>d.
     sx_bind (sx_lift (case dict_get d ''decision_id'' of Some v \<Rightarrow> Inr (str_of v) | None \<Rightarrow> Inl KeyError)) (\<lambda>did.
     record_outcome did ''success'' JNull None))"

definition live_requests :: "deps \<Rightarrow> (service, unit) sx" where
  "live_requests dp =
     sx_bind (register_source ''io.demo/s'' (JStr ''known'') ''mcp'' (Some [''reader'']) JNull) (\<lambda>_.
     sx_bind (ingest_payload ''io.demo/s''
       (JList [JDict [(''name'', JStr ''reader''), (''claimed'', JDict [(''read_only_hint'', JBool True)])]])) (\<lambda>_.
     sx_bind (assert_tool ''io.demo/s'' ''reader'' (JDict [(''effect'', JStr ''read''), (''asserted_by'', JStr ''op'')])) (\<lambda>_.
     sx_bind (sx_map (\<lambda>i. decide_and_report dp) [0..<3]) (\<lambda>_.
     sx_return ()))))"

definition build_live_db :: "cli_env \<Rightarrow> string \<Rightarrow> (world, unit) sx" where
  "build_live_db env path =
     on_db path (sx_bind (sx_lift (new_engine env ALLOW_READS)) (\<lambda>engine.
       with_service env None JNull (live_requests (with_engine engine (sd_deps (ce_server env))))))"

text \<open>A file that does not exist is not copied.\<close>

definition copy_with_wal :: "string \<Rightarrow> string \<Rightarrow> string \<Rightarrow> (world, string) sx" where
  "copy_with_wal src_dir name dst_dir w =
     (let dst = dst_dir @ ''/'' @ name in
      (Inr dst, case dict_get (wl_dbs w) (src_dir @ ''/'' @ name) of
                  Some t \<Rightarrow> w\<lparr>wl_dbs := dict_set dst t (wl_dbs w)\<rparr>
                | None \<Rightarrow> w))"

text \<open>\<open>DELETE FROM audit WHERE seq = (SELECT MAX(seq) FROM audit)\<close>; a database that was never opened by
  the store has no such table.\<close>

definition delete_newest :: "tables \<Rightarrow> unit result \<times> tables" where
  "delete_newest t =
     (if t = empty_tables then (Inl OperationalError, t)
      else (Inr (), t\<lparr>t_audit := filter (\<lambda>r. \<exists>q \<in> set (t_audit t). au_seq r < au_seq q) (t_audit t)\<rparr>))"

definition truncate_tail :: "string \<Rightarrow> (world, unit) sx" where
  "truncate_tail db w =
     (case sx_bind (dml delete_newest) (\<lambda>_. commit) (connect db w) of (r, s) \<Rightarrow> (r, disconnect db s w))"

definition verify_args :: "string \<Rightarrow> Namespace" where
  "verify_args db = (argument_defaults [] [] [])\<lparr>ns_db := Some db\<rparr>"

definition demo_steps :: "cli_env \<Rightarrow> string \<Rightarrow> (world, int) sx" where
  "demo_steps env work =
     sx_bind (build_live_db env (work @ ''/live.db'')) (\<lambda>_.
     sx_bind (copy_with_wal work ''live.db'' (work @ ''/clean'')) (\<lambda>clean.
     sx_bind (main_cmd VerifyAudit env (verify_args clean)) (\<lambda>rc_clean.
     sx_bind (say (Line ''clean copy'' [JInt rc_clean])) (\<lambda>_.
     sx_bind (copy_with_wal work ''live.db'' (work @ ''/truncated'')) (\<lambda>trunc.
     sx_bind (truncate_tail trunc) (\<lambda>_.
     sx_bind (main_cmd VerifyAudit env (verify_args trunc)) (\<lambda>rc_trunc.
     sx_bind (say (Line ''truncated copy'' [JInt rc_trunc])) (\<lambda>_.
     let ok = (rc_clean = 0 \<and> rc_trunc = 1) in
     sx_bind (say (Line ''RESULT'' [JBool ok])) (\<lambda>_.
     sx_return (if ok then 0 else 1))))))))))"

definition remove_tree :: "string \<Rightarrow> world \<Rightarrow> world" where
  "remove_tree work w =
     (let under = (\<lambda>p. take (length work + 1) p = work @ ''/'')
      in w\<lparr>wl_dbs := filter (\<lambda>(p, t). \<not> under p) (wl_dbs w), wl_files := (\<lambda>p. if under p then None else wl_files w p)\<rparr>)"

definition main_demo :: "cli_env \<Rightarrow> string \<Rightarrow> (world, int) sx" where
  "main_demo env work w = (case demo_steps env work w of (r, w') \<Rightarrow> (r, remove_tree work w'))"

section \<open>A store on which nothing fails\<close>

text \<open>Between the requests of the script: statements succeed, no transaction is open, identifiers are
  not empty, the schema is current, the chain intact, and the decisions are readable objects.\<close>

definition readable :: "audit_row \<Rightarrow> bool" where
  "readable r \<longleftrightarrow> (\<exists>kvs. json_loads (au_body r) = Inr (JDict kvs))"

definition ready :: "store \<Rightarrow> bool" where
  "ready s \<longleftrightarrow> healthy s \<and> idle s \<and> (\<forall>n. st_uuids s n \<noteq> []) \<and> at_version 5 (st_tables s) \<and> audit_ok (st_tables s) \<and>
     (\<forall>r \<in> set (t_audit (st_tables s)). au_kind r = ''decision'' \<longrightarrow> readable r)"

lemma ready_write:
  assumes "ready s" "\<And>t n. t_audit (g t n) = t_audit n \<and> t_audit_seq (g t n) = t_audit_seq n \<and> t_meta (g t n) = t_meta n \<and>
      t_has_label (g t n) = t_has_label n \<and> t_has_grants (g t n) = t_has_grants n \<and> t_has_redemptions (g t n) = t_has_redemptions n"
  shows "\<exists>s'. with_conn (sx_bind now_text (\<lambda>t. update_tables (g t))) s = (Inr (), s') \<and> ready s' \<and>
    t_audit (st_tables s') = t_audit (st_tables s)"
proof -
  let ?m = "sx_bind now_text (\<lambda>t. update_tables (g t))"
  let ?s1 = "s\<lparr>st_clock := \<lambda>n. st_clock s (Suc n), st_begun := Some (base s), st_faults := \<lambda>n. st_faults s (Suc n),
    st_tables := g (isoformat (st_clock s 0)) (st_tables s)\<rparr>"
  have h: "healthy s" "healthy ?s1" using assms(1) by (simp_all add: ready_def healthy_def)
  have m: "?m s = (Inr (), ?s1)" using h(1) by (auto simp: sx_simps healthy_def)
  show ?thesis
    unfolding healthy_with_conn [where m = ?m, OF h(1) m h(2)]
    using assms by (simp add: ready_def idle_def healthy_def at_version_def audit_ok_def)
qed

lemma lift_ahead: "with_conn (sx_bind (sx_lift (Inr a)) f) = with_conn (f a)"
  by (simp add: sx_bind_lift)

lemma ready_upserts:
  assumes "ready s"
  shows "\<exists>s'. upsert_source src declares cmd s = (Inr (), s') \<and> ready s' \<and> t_audit (st_tables s') = t_audit (st_tables s)"
    and "\<exists>s'. record_discovery sid names s = (Inr (), s') \<and> ready s' \<and> t_audit (st_tables s') = t_audit (st_tables s)"
    and "(case tv_asserted tv of None \<Rightarrow> True | Some a \<Rightarrow> ad_scopes a = []) \<Longrightarrow>
      \<exists>s'. upsert_tool tv s = (Inr (), s') \<and> ready s' \<and> t_audit (st_tables s') = t_audit (st_tables s)"
    and "ad_scopes (ar_descriptor rec) = [] \<Longrightarrow>
      \<exists>s'. upsert_assertion sid name rec s = (Inr (), s') \<and> ready s' \<and> t_audit (st_tables s') = t_audit (st_tables s)"
proof -
  note stored = ready_write [OF assms]
  have json: "\<exists>j. asserted_to_json a = Inr j" if "ad_scopes a = []" for a
    using that by (simp add: asserted_to_json_def py_sorted_def)
  show "\<exists>s'. upsert_source src declares cmd s = (Inr (), s') \<and> ready s' \<and> t_audit (st_tables s') = t_audit (st_tables s)"
    unfolding upsert_source_def by (rule stored) (simp add: put_source_def)
  show "\<exists>s'. record_discovery sid names s = (Inr (), s') \<and> ready s' \<and> t_audit (st_tables s') = t_audit (st_tables s)"
    unfolding record_discovery_def by (rule stored) (simp add: put_discovery_def)
  show "\<exists>s'. upsert_tool tv s = (Inr (), s') \<and> ready s' \<and> t_audit (st_tables s') = t_audit (st_tables s)"
    if scopes: "case tv_asserted tv of None \<Rightarrow> True | Some a \<Rightarrow> ad_scopes a = []"
  proof -
    obtain asserted where "(case tv_asserted tv of None \<Rightarrow> sx_return None
        | Some a \<Rightarrow> sx_bind (sx_lift (asserted_to_json a)) (\<lambda>j. sx_return (Some j))) = (sx_return asserted :: (store, json option) sx)"
      using scopes json by (cases "tv_asserted tv") (auto simp: sx_bind_lift, metis sx_bind_lift)
    then show ?thesis unfolding upsert_tool_def by (simp add: stored put_tool_def)
  qed
  show "\<exists>s'. upsert_assertion sid name rec s = (Inr (), s') \<and> ready s' \<and> t_audit (st_tables s') = t_audit (st_tables s)"
    if "ad_scopes (ar_descriptor rec) = []"
    using json [OF that] unfolding upsert_assertion_def by (auto simp: lift_ahead put_assertion_def intro!: stored)
qed

text \<open>An append adds one record whose body reads back.\<close>

lemma ready_append:
  assumes "ready s" "plain kind" "wf_json (JDict body)"
  shows "\<exists>s' row. append_audit kind body s = (Inr (t_audit_seq (st_tables s')), s') \<and> ready s' \<and>
    t_audit (st_tables s') = t_audit (st_tables s) @ [row] \<and> au_kind row = kind \<and>
    json_loads (au_body row) = Inr (sort_keys (JDict body)) \<and>
    st_uuids s' = st_uuids s"
proof -
  obtain s' where s': "append_audit kind body s = (Inr (t_audit_seq (st_tables s')), s')" "healthy s'" "idle s'"
      "st_tables s' = appended kind body (isoformat (st_clock s 0)) (st_tables s)" "st_uuids s' = st_uuids s"
    using append_audit_ticks [of s kind body] assms(1) by (auto simp: ready_def)
  obtain row where row: "t_audit (st_tables s') = t_audit (st_tables s) @ [row]" "au_kind row = kind"
      "json_loads (au_body row) = Inr (sort_keys (JDict body))" "audit_ok (st_tables s')"
    using append_audit_atomic [OF _ _ assms(2,3) s'(1)] assms(1) by (auto simp: ready_def)
  have "at_version 5 (st_tables s')"
    using assms(1) by (simp add: ready_def at_version_def s'(4) appended_def insert_audit_def upsert_meta_def Let_def dict_simps
        AUDIT_HEAD_SEQ_def AUDIT_HEAD_HASH_def VERSION_KEY_def)
  moreover have "readable row" using row(3) by (simp add: readable_def)
  ultimately have "ready s'" using assms(1) s'(2,3,5) row by (auto simp: ready_def)
  then show ?thesis using s'(1,5) row by blast
qed

section \<open>The requests of the script return\<close>

lemma on_store_run: "m (sv_store s) = (r, t) \<Longrightarrow> on_store m s = (r, s\<lparr>sv_store := t\<rparr>)"
  by (simp add: on_store_def)

lemma ready_publish: "within (\<lambda>s s'. ready (sv_store s) \<longrightarrow> ready (sv_store s')) (publish kind outcome actor tier payload)"
  by (rule withinI) (auto simp: publish_def sx_bind_def sx_get_def sx_return_def sx_modify_def on_store_def uuid4_hex_def
      ready_def healthy_def idle_def split: if_splits)

lemma ready_publish_decision:
  "within (\<lambda>s s'. ready (sv_store s) \<longrightarrow> ready (sv_store s')) (publish_decision p sid name d did bound grant)"
  unfolding publish_decision_def Let_def
  by (auto intro!: invariant.within_rules ready_publish split: option.split)

text \<open>Where the service stands: nothing fails, the catalog is well formed, and something was recorded.\<close>

definition standing :: "service \<Rightarrow> bool" where
  "standing s \<longleftrightarrow> ready (sv_store s) \<and> wf_catalog (sv_catalog s) \<and> t_audit (st_tables (sv_store s)) \<noteq> []"

lemma wf_decision_record: "wf_json (JDict (decision_record p sid name d @ [(''decision_id'', JStr did)]))"
  by (simp add: decision_record_def wf_dict_def list_all_iff)

lemma reads_back_field:
  assumes "json_loads text = Inr (sort_keys (JDict body))" "wf_json (JDict body)" "dict_get body k = Some (JStr v)"
  shows "\<exists>kvs. json_loads text = Inr (JDict kvs) \<and> dict_get kvs k = Some (JStr v)"
proof -
  obtain kvs where kvs: "stored (JDict body) = JDict kvs" using stored_JDict assms(2) by auto
  have "wf_dict body" using assms(2) by simp
  from get_stored(3) [OF kvs this assms(3)] kvs assms(1) show ?thesis by (simp add: stored_def)
qed

lemma broker_call_ready:
  assumes "ready (sv_store s)" "wf_catalog (sv_catalog s)" "dp_engine dp = cedar_decide auth"
  shows "\<exists>d s' row kvs. broker_call dp p sid name ctx s = (Inr d, s') \<and> ready (sv_store s') \<and> sv_catalog s' = sv_catalog s \<and>
    last_decision_id s' = (Inr (st_uuids (sv_store s) 0), s') \<and>
    row \<in> set (t_audit (st_tables (sv_store s'))) \<and> au_kind row = ''decision'' \<and>
    json_loads (au_body row) = Inr (JDict kvs) \<and> dict_get kvs ''decision_id'' = Some (JStr (st_uuids (sv_store s) 0))"
proof -
  let ?did = "st_uuids (sv_store s) 0" and ?t = "(sv_store s)\<lparr>st_uuids := \<lambda>n. st_uuids (sv_store s) (Suc n)\<rparr>"
  obtain d where d: "broker_decision (dp_engine dp) (sv_catalog s) p sid name ctx = Inr d"
    unfolding assms(3) using cedar.broker_total [OF assms(2)] by blast
  let ?body = "decision_record p sid name d @ [(''decision_id'', JStr ?did)]"
  have t: "ready ?t" using assms(1) by (simp add: ready_def idle_def)
  obtain t' row where t': "append_audit ''decision'' ?body ?t = (Inr (t_audit_seq (st_tables t')), t')" "ready t'"
      "t_audit (st_tables t') = t_audit (st_tables ?t) @ [row]" "au_kind row = ''decision''"
      "json_loads (au_body row) = Inr (sort_keys (JDict ?body))"
    using ready_append [OF t _ wf_decision_record [of p sid name d ?did], of "''decision''"] by (auto simp del: sort_keys.simps)
  obtain kvs where kvs: "json_loads (au_body row) = Inr (JDict kvs)" "dict_get kvs ''decision_id'' = Some (JStr ?did)"
    using reads_back_field [OF t'(5) wf_decision_record, of "''decision_id''" ?did] by (auto simp: decision_record_def)
  let ?s' = "s\<lparr>sv_store := t', sv_audit_log := sv_audit_log s @ [?body]\<rparr>"
  have "broker_call dp p sid name ctx s = (Inr d, ?s')"
    using d t'(1)
    by (simp add: broker_call_def audit_log_append_def sx_bind_def sx_get_def sx_lift_def sx_return_def sx_modify_def
        on_store_def uuid4_hex_def decision_id_unset update_new Let_def)
  moreover have "last_decision_id ?s' = (Inr ?did, ?s')"
    by (rule last_decision_id_run [OF _ decision_id_unset]) simp
  ultimately show ?thesis using t'(2-4) kvs by force
qed

text \<open>A decision record of the store is found again by its identifier.\<close>

lemma decision_found:
  assumes "\<forall>r \<in> set rows. readable r" "row \<in> set rows" "json_loads (au_body row) = Inr (JDict kvs)"
    "dict_get kvs ''decision_id'' = Some (JStr did)"
  shows "\<exists>q body. first_decision did rows = Inr (Some (q, JDict body))"
  using assms(1,2)
proof (induction rows)
  case (Cons r rs)
  obtain body where r: "json_loads (au_body r) = Inr (JDict body)" using Cons.prems(1) by (auto simp: readable_def)
  show ?case
  proof (cases "get_or_null body ''decision_id'' = JStr did")
    case False
    have "get_or_null kvs ''decision_id'' = JStr did" using assms(4) by (simp add: get_or_null_def)
    with False r assms(3) have "r \<noteq> row" by auto
    then have "\<exists>q b. first_decision did rs = Inr (Some (q, JDict b))" using Cons by auto
    then show ?thesis using r False by simp
  qed (use r in simp)
qed simp

lemma record_outcome_ready:
  assumes "ready (sv_store s)" "did \<noteq> []"
    and "row \<in> set (t_audit (st_tables (sv_store s)))" "au_kind row = ''decision''"
    and "json_loads (au_body row) = Inr (JDict kvs)" "dict_get kvs ''decision_id'' = Some (JStr did)"
  shows "\<exists>resp s'. record_outcome did outcome JNull None s = (Inr resp, s') \<and> ready (sv_store s')"
proof -
  let ?rows = "filter (\<lambda>r. au_kind r = ''decision'') (t_audit (st_tables (sv_store s)))"
  let ?t = "(sv_store s)\<lparr>st_faults := \<lambda>n. st_faults (sv_store s) (Suc n)\<rparr>"
  obtain q body where found: "first_decision did ?rows = Inr (Some (q, JDict body))"
    using decision_found [of ?rows row kvs did] assms by (auto simp: ready_def)
  have h: "healthy (sv_store s)" and t: "ready ?t" using assms(1) by (simp_all add: ready_def idle_def)
  have find: "find_decision did (sv_store s) = (Inr (Some (q, JDict body)), ?t)"
    using found by (simp add: find_decision_def sx_bind_def healthy_run(2) [OF h] sx_lift_def)
  let ?body = "[(''decision_id'', JStr did), (''decision_seq'', JInt q), (''outcome'', JStr outcome), (''detail'', context_or_empty JNull)]"
  obtain t' where t': "append_audit ''outcome'' ?body ?t = (Inr (t_audit_seq (st_tables t')), t')" "ready t'"
    using ready_append [OF t, of "''outcome''" ?body] by (auto simp: context_or_empty_def wf_dict_def)
  define post where "post = publish ''tool.executed'' (Some (bus_outcome_for_execution outcome))
     (py_str (get_or body ''principal'' (JStr []))) NO_PRINCIPAL_BUS_TIER
     [(''principal_id'', get_or_null body ''principal''), (''source_id'', get_or_null body ''source''),
      (''tool'', get_or_null body ''tool''), (''qualified_name'', get_or_null body ''qualified''),
      (''decision_id'', JStr did), (''grant_id'', opt_str None)]"
  obtain s2 where s2: "post (s\<lparr>sv_store := t'\<rparr>) = (Inr (), s2)" using publish_returns unfolding post_def by blast
  have "ready (sv_store s2)" using invariantD [OF ready_publish s2 [unfolded post_def]] t'(2) by simp
  moreover have "record_outcome did outcome JNull None s =
      (Inr [(''decision_id'', JStr did), (''audit_seq'', JInt (t_audit_seq (st_tables t')))], s2)"
    using assms(2) find t'(1) s2
    by (simp add: record_outcome_def sx_bind_def on_store_def close_reported_def sx_return_def sx_lift_def post_def)
  ultimately show ?thesis by blast
qed

lemma decide_and_report_ready:
  assumes "ready (sv_store s)" "wf_catalog (sv_catalog s)" "dp_engine dp = cedar_decide auth"
  shows "\<exists>resp s'. decide_and_report dp s = (Inr resp, s') \<and> ready (sv_store s')"
proof -
  let ?did = "st_uuids (sv_store s) 0" and ?p = "Principal ''a'' ''local'' ''agent'' None"
  have p: "parse_principal (JDict [(''id'', JStr ''a'')]) = Inr ?p"
    by (simp add: parse_principal.simps get_or_null_def get_or_def py_str_def)
  have req: "check_request JNull None JNull = Inr None" by (simp add: check_request_def)
  obtain d s1 row kvs where s1: "broker_call dp ?p ''io.demo/s'' ''reader'' (context_or_empty JNull) s = (Inr d, s1)" "ready (sv_store s1)"
      "last_decision_id s1 = (Inr ?did, s1)"
      "row \<in> set (t_audit (st_tables (sv_store s1)))" "au_kind row = ''decision''"
      "json_loads (au_body row) = Inr (JDict kvs)" "dict_get kvs ''decision_id'' = Some (JStr ?did)"
    using broker_call_ready [OF assms] by metis
  let ?s2 = "snd (publish_decision ?p ''io.demo/s'' ''reader'' d ?did None None s1)"
  have run: "authorize dp (JDict [(''id'', JStr ''a'')]) ''io.demo/s'' ''reader'' JNull None JNull s = (Inr (decision_payload d ?did), ?s2)"
    using authorize_run [OF req p s1(1,3)] by (simp add: grant_step_def sx_return_def)
  have s2: "ready (sv_store ?s2)" using ready_publish_decision s1(2) by (simp add: within_def)
  have "same_data s1 ?s2" using same_data_publish_decision by (simp add: within_def)
  then have row: "row \<in> set (t_audit (st_tables (sv_store ?s2)))" using s1(4) by (simp add: same_data_def)
  have "?did \<noteq> []" using assms(1) by (simp add: ready_def)
  from record_outcome_ready [OF s2 this row s1(5-7)] obtain resp s' where
    "record_outcome ?did ''success'' JNull None ?s2 = (Inr resp, s')" "ready (sv_store s')" by blast
  then show ?thesis
    by (simp add: decide_and_report_def sx_bind_run [where m = "authorize dp v sid name ctx args ttl" for v sid name ctx args ttl, OF run]
        decision_payload_def sx_bind_lift)
qed

lemma evolves_wf: "evolves s s' \<Longrightarrow> wf_catalog (sv_catalog s) \<Longrightarrow> wf_catalog (sv_catalog s')"
proof -
  assume e: "evolves s s'" and wf: "wf_catalog (sv_catalog s)"
  have "cat_step\<^sup>*\<^sup>* (sv_catalog s) (sv_catalog s')" using e by (simp add: evolves_def)
  then show ?thesis using wf by (induction rule: rtranclp_induct) (auto intro: wf_cat_step)
qed

lemma evolves_decide_and_report: "within evolves (decide_and_report dp)"
  unfolding decide_and_report_def by (intro evolves.within_rules evolves.authorize evolves.record_outcome)

lemma decisions_ready:
  assumes "dp_engine dp = cedar_decide auth"
  shows "ready (sv_store s) \<Longrightarrow> wf_catalog (sv_catalog s) \<Longrightarrow>
    \<exists>resps s'. sx_map (\<lambda>i. decide_and_report dp) is s = (Inr resps, s') \<and> ready (sv_store s')"
proof (induction "is" arbitrary: s)
  case (Cons i "is")
  obtain resp s1 where s1: "decide_and_report dp s = (Inr resp, s1)" "ready (sv_store s1)"
    using decide_and_report_ready [OF Cons.prems assms] by blast
  have "wf_catalog (sv_catalog s1)" by (rule evolves_wf [OF withinD [OF evolves_decide_and_report s1(1)] Cons.prems(2)])
  from Cons.IH [OF s1(2) this] obtain resps s' where
    "sx_map (\<lambda>i. decide_and_report dp) is s1 = (Inr resps, s')" "ready (sv_store s')" by blast
  then show ?case using s1(1) by (simp add: sx_bind_def sx_return_def)
qed (simp add: sx_return_def)

abbreviation reader_src :: TrustedSource where
  "reader_src \<equiv> \<lparr>ts_source_id = ''io.demo/s'', ts_tier = KNOWN, ts_transport = ''mcp''\<rparr>"

lemma register_ready:
  assumes "ready (sv_store s)"
  shows "\<exists>resp s'. register_source ''io.demo/s'' (JStr ''known'') ''mcp'' (Some [''reader'']) JNull s = (Inr resp, s') \<and>
    ready (sv_store s') \<and> sv_catalog s' = Catalog.register_source reader_src [''reader''] (sv_catalog s) \<and>
    t_audit (st_tables (sv_store s')) \<noteq> []"
proof -
  obtain t where t: "upsert_source reader_src [''reader''] None (sv_store s) = (Inr (), t)" "ready t"
    using ready_upserts(1) [OF assms] by blast
  let ?body = "[(''event'', JStr ''registered''), (''source_id'', JStr ''io.demo/s''), (''tier'', JStr (tier_value KNOWN)),
      (''transport'', JStr ''mcp''), (''declares'', str_list (sort [''reader''])), (''has_command'', JBool (None \<noteq> (None :: string list option)))]"
  obtain u row where u: "append_audit ''source'' ?body t = (Inr (t_audit_seq (st_tables u)), u)" "ready u"
      "t_audit (st_tables u) = t_audit (st_tables t) @ [row]"
    using ready_append [OF t(2), of "''source''" ?body] by (auto simp: wf_dict_def)
  let ?s' = "s\<lparr>sv_catalog := Catalog.register_source reader_src [''reader''] (sv_catalog s), sv_store := u\<rparr>"
  have "register_source ''io.demo/s'' (JStr ''known'') ''mcp'' (Some [''reader'']) JNull s =
      (Inr [(''source_id'', JStr ''io.demo/s''), (''tier'', JStr (tier_value KNOWN)), (''transport'', JStr ''mcp'')], ?s')"
    using t(1) u(1)
    by (simp add: register_source_def command_of_def convert_def enum_of_def all_tiers_def sx_bind_def sx_lift_def update_catalog_def
        on_store_def sx_return_def Let_def)
  then show ?thesis using u(2,3) by fastforce
qed

abbreviation reader_claim :: ClaimedMetadata where
  "reader_claim \<equiv> \<lparr>cm_description = JStr [], cm_read_only_hint = JBool True, cm_destructive_hint = JNull,
     cm_idempotent_hint = JNull, cm_open_world_hint = JNull\<rparr>"

text \<open>The tool is new to the catalog, so the push leaves it without an assertion.\<close>

lemma push_ready:
  assumes "ready (sv_store s)" "dict_get (cat_sources (sv_catalog s)) ''io.demo/s'' \<noteq> None"
    and "cat_tools (sv_catalog s) = []" "cat_assertions (sv_catalog s) = []"
  shows "\<exists>resp s' tv. ingest_payload ''io.demo/s''
      (JList [JDict [(''name'', JStr ''reader''), (''claimed'', JDict [(''read_only_hint'', JBool True)])]]) s = (Inr resp, s') \<and>
    ready (sv_store s') \<and> catalog_get (sv_catalog s') ''io.demo/s'' ''reader'' = Some tv \<and> tv_input_schema tv = JDict [] \<and>
    tv_source_id tv = ''io.demo/s'' \<and> cat_sources (sv_catalog s') = cat_sources (sv_catalog s)"
proof -
  have parsed: "parse_tools [] [JDict [(''name'', JStr ''reader''), (''claimed'', JDict [(''read_only_hint'', JBool True)])]] =
      Inr [\<lparr>pt_name = ''reader'', pt_version = ''0.0.0'', pt_claimed = reader_claim, pt_schema = JDict []\<rparr>]"
    by (simp add: parse_tool_def get_or_null_def get_or_def or_else_def py_str_def Let_def)
  obtain cat tv where ingest: "ingest_claimed ''io.demo/s'' ''reader'' reader_claim ''0.0.0'' (sv_catalog s) = Inr (cat, tv)"
    using assms(2) by (auto simp: ingest_claimed_def Let_def)
  then have cat: "catalog_get cat ''io.demo/s'' ''reader'' = Some tv" "tv_asserted tv = None" "tv_source_id tv = ''io.demo/s''"
      "cat_sources cat = cat_sources (sv_catalog s)"
    using assms(3,4) unfolding ingest_claimed_Inr by (auto simp: catalog_get_def dict_simps vouched_def)
  let ?tv = "tv\<lparr>tv_input_schema := JDict []\<rparr>" and ?cat = "set_schema (''io.demo/s'', ''reader'') (JDict []) cat"
  obtain t where t: "upsert_tool ?tv (sv_store s) = (Inr (), t)" "ready t"
    using ready_upserts(3) [OF assms(1), of ?tv] cat(2) by auto
  obtain u where u: "record_discovery ''io.demo/s'' [''reader''] t = (Inr (), u)" "ready u"
    using ready_upserts(2) [OF t(2)] by blast
  let ?body = "[(''source_id'', JStr ''io.demo/s''), (''ok'', JBool True), (''push'', JBool True), (''tools'', str_list (sort [''reader'']))]"
  obtain v where v: "append_audit ''ingest'' ?body u = (Inr (t_audit_seq (st_tables v)), v)" "ready v"
    using ready_append [OF u(2), of "''ingest''" ?body] by (auto simp: wf_dict_def)
  let ?s1 = "s\<lparr>sv_catalog := ?cat, sv_store := t\<rparr>"
  have one: "ingest_one ''io.demo/s'' ''reader'' ''0.0.0'' reader_claim (py_dict (JDict [])) s = (Inr ''reader'', ?s1)"
    using ingest cat(1) t(1)
    by (simp add: ingest_one_def sx_bind_def update_catalog_def sx_get_def sx_lift_def py_dict_def on_store_def sx_return_def)
  have "ingest_payload ''io.demo/s''
      (JList [JDict [(''name'', JStr ''reader''), (''claimed'', JDict [(''read_only_hint'', JBool True)])]]) s =
      (Inr [(''source_id'', JStr ''io.demo/s''), (''ingested'', str_list (sort [''reader'']))], ?s1\<lparr>sv_store := v\<rparr>)"
    using assms(2) parsed one u(1) v(1)
    by (auto simp: ingest_payload_def known_source_def sx_bind_def sx_get_def sx_return_def sx_lift_def on_store_def)
  moreover have "catalog_get ?cat ''io.demo/s'' ''reader'' = Some ?tv" "cat_sources ?cat = cat_sources (sv_catalog s)"
    using cat(1,4) by (simp_all add: set_schema_def catalog_get_def dict_simps)
  ultimately show ?thesis using v(2) cat(3) by fastforce
qed

lemma assert_ready:
  assumes "ready (sv_store s)" "wf_catalog (sv_catalog s)"
    and "catalog_get (sv_catalog s) ''io.demo/s'' ''reader'' = Some tv" "tv_input_schema tv = JDict []"
  shows "\<exists>resp s'. assert_tool ''io.demo/s'' ''reader'' (JDict [(''effect'', JStr ''read''), (''asserted_by'', JStr ''op'')]) s = (Inr resp, s') \<and>
    ready (sv_store s')"
proof -
  let ?desc = "\<lparr>ad_effect = READ, ad_reads = {}, ad_writes = {}, ad_scopes = [], ad_reversible = JBool True, ad_idempotent = JBool False,
    ad_requires_approval = JBool False, ad_declassifies = JBool False, ad_asserted_by = JStr ''op''\<rparr>"
  let ?tv = "tv\<lparr>tv_asserted := Some ?desc\<rparr>" and ?rec = "\<lparr>ar_descriptor = ?desc, ar_fingerprint = fingerprint tv\<rparr>"
  have desc: "asserted_from_json (JDict [(''effect'', JStr ''read''), (''asserted_by'', JStr ''op'')]) = Inr ?desc"
    by (simp add: asserted_from_json_def enum_of_def all_effects_def classes_of_def get_or_def py_frozenset_def)
  obtain cat where cat: "assert_descriptor ''io.demo/s'' ''reader'' ?desc (sv_catalog s) = Inr (cat, ?tv)"
      "catalog_get cat ''io.demo/s'' ''reader'' = Some ?tv" "dict_get (cat_assertions cat) (''io.demo/s'', ''reader'') = Some ?rec"
      "cat_step (sv_catalog s) cat"
    using assms(3) cat_step.assertion [of "''io.demo/s''" "''reader''" ?desc "sv_catalog s"]
    by (auto simp: assert_descriptor_def catalog_get_def dict_simps Let_def)
  have wf: "wf_catalog cat" by (rule wf_cat_step [OF cat(4) assms(2)])
  obtain t where t: "upsert_tool ?tv (sv_store s) = (Inr (), t)" "ready t" using ready_upserts(3) [OF assms(1), of ?tv] by auto
  obtain u where u: "upsert_assertion ''io.demo/s'' ''reader'' ?rec t = (Inr (), u)" "ready u"
    using ready_upserts(4) [OF t(2), of ?rec] by auto
  let ?body = "[(''source_id'', JStr ''io.demo/s''), (''name'', JStr ''reader''), (''asserted_by'', ad_asserted_by ?desc),
      (''effect'', JStr (effect_value (ad_effect ?desc))), (''fingerprint'', JStr (show_int (ar_fingerprint ?rec)))]"
  obtain v where v: "append_audit ''assertion'' ?body u = (Inr (t_audit_seq (st_tables v)), v)" "ready v"
    using ready_append [OF u(2), of "''assertion''" ?body] by (auto simp: wf_dict_def)
  let ?s' = "s\<lparr>sv_catalog := cat, sv_store := v\<rparr>"
  obtain b where "invocable cat ''io.demo/s'' ''reader'' = Inr b" using invocable_defined [OF wf] by blast
  then obtain resp where resp: "tool_payload cat ''io.demo/s'' ''reader'' = Inr resp"
    using cat(2) by (auto simp: tool_payload_def asserted_payload_def py_sorted_def)
  have schema: "validate_input_schema (JDict []) = Inr ()" by (simp add: validate_input_schema_def)
  have "assert_tool ''io.demo/s'' ''reader'' (JDict [(''effect'', JStr ''read''), (''asserted_by'', JStr ''op'')]) s = (Inr resp, ?s')"
    using desc cat(1-3) t(1) u(1) v(1) resp assms(3,4) schema
    by (simp add: assert_tool_def convert_def sx_bind_def sx_lift_def sx_get_def sx_return_def update_catalog_def on_store_def get_tool_def)
  then show ?thesis using v(2) by fastforce
qed

text \<open>On an empty service the whole script returns.\<close>

lemma live_requests_ready:
  assumes "ready (sv_store s)" "sv_catalog s = empty_catalog" "dp_engine dp = cedar_decide auth"
  shows "\<exists>s'. live_requests dp s = (Inr (), s') \<and> ready (sv_store s') \<and> t_audit (st_tables (sv_store s')) \<noteq> []"
proof -
  obtain r1 s1 where s1: "register_source ''io.demo/s'' (JStr ''known'') ''mcp'' (Some [''reader'']) JNull s = (Inr r1, s1)"
      "ready (sv_store s1)" "sv_catalog s1 = Catalog.register_source reader_src [''reader''] empty_catalog"
      "t_audit (st_tables (sv_store s1)) \<noteq> []"
    using register_ready [OF assms(1)] assms(2) by auto
  have cat1: "dict_get (cat_sources (sv_catalog s1)) ''io.demo/s'' \<noteq> None" "cat_tools (sv_catalog s1) = []"
      "cat_assertions (sv_catalog s1) = []"
    by (simp_all add: s1(3) Catalog.register_source_def empty_catalog_def)
  have wf: "wf_catalog (sv_catalog s)" using assms(2) by simp
  obtain r2 s2 tv where s2: "ingest_payload ''io.demo/s''
      (JList [JDict [(''name'', JStr ''reader''), (''claimed'', JDict [(''read_only_hint'', JBool True)])]]) s1 = (Inr r2, s2)"
      "ready (sv_store s2)" "catalog_get (sv_catalog s2) ''io.demo/s'' ''reader'' = Some tv" "tv_input_schema tv = JDict []"
    using push_ready [OF s1(2) cat1] by blast
  note wf1 = evolves_wf [OF withinD [OF evolves.register_source s1(1)] wf]
  note wf2 = evolves_wf [OF withinD [OF evolves.ingest_payload s2(1)] wf1]
  obtain r3 s3 where s3: "assert_tool ''io.demo/s'' ''reader'' (JDict [(''effect'', JStr ''read''), (''asserted_by'', JStr ''op'')]) s2 = (Inr r3, s3)"
      "ready (sv_store s3)" using assert_ready [OF s2(2) wf2 s2(3,4)] by blast
  note wf3 = evolves_wf [OF withinD [OF evolves.assert_tool s3(1)] wf2]
  obtain r4 s4 where s4: "sx_map (\<lambda>i. decide_and_report dp) [0..<3] s3 = (Inr r4, s4)" "ready (sv_store s4)"
    using decisions_ready [OF assms(3) s3(2) wf3] by blast
  have "evolves s1 s4"
    using withinD [OF evolves.ingest_payload s2(1)] withinD [OF evolves.assert_tool s3(1)]
      withinD [OF evolves.within_map [OF evolves_decide_and_report] s4(1)] evolves.trans by blast
  then have "t_audit (st_tables (sv_store s4)) \<noteq> []"
    using s1(2,4) by (auto simp: evolves_def kept_def tables_kept_def ready_def)
  moreover have "live_requests dp s = (Inr (), s4)"
    using s1(1) s2(1) s3(1) s4(1) by (simp add: live_requests_def sx_bind_def sx_return_def del: sx_map.simps upt_rec_numeral)
  ultimately show ?thesis using s4(2) by blast
qed

section \<open>The database it leaves\<close>

text \<open>Opening a database draws no identifiers.\<close>

abbreviation same_ids :: "store \<Rightarrow> store \<Rightarrow> bool" where
  "same_ids \<equiv> \<lambda>s s'. st_uuids s' = st_uuids s"

interpretation same_ids: sx_relation same_ids
  by unfold_locales auto

lemma ids_statement: "within same_ids statement"
  by (rule withinI) (auto simp: sx_simps)

lemma ids_steps: "within same_ids (query f)" "within same_ids (ddl g)" "within same_ids (update_tables h)"
  unfolding query_def ddl_def update_tables_def dml_def
  by (intro same_ids.within_rules ids_statement;
      rule withinI; auto simp: Let_def split: sum.splits prod.splits if_splits)+

lemma ids_with_conn: "within same_ids m \<Longrightarrow> within same_ids (with_conn m)"
  unfolding within_def
  by (auto simp: with_conn_def rollback_def commit_def sx_bind_def statement_def Let_def split: prod.split sum.split; metis snd_conv)

lemma ids_run_all: "(\<And>m. m \<in> set ms \<Longrightarrow> within same_ids m) \<Longrightarrow> within same_ids (run_all ms)"
  by (induction ms) (auto intro: same_ids.within_rules)

lemma ids_open: "within same_ids open_store"
proof -
  have "within same_ids m" if "m \<in> set (migration target)" for m target
    using that by (auto simp: migration_def split: if_splits intro: ids_steps)
  then have "within same_ids (migrate_to target)" for target
    unfolding migrate_to_def by (intro same_ids.within_bind ids_run_all ids_steps) auto
  then have "within same_ids (migrate v)" for v
    unfolding migrate_def by (intro ids_run_all) auto
  then show ?thesis
    unfolding open_store_def
    by (intro ids_with_conn same_ids.within_bind ids_steps) (auto split: option.split intro!: same_ids.within_rules ids_steps)
qed

lemma fresh_service:
  assumes "ready st" "data_of (st_tables st) = data_of empty_tables"
  shows "\<exists>svc st'. new_service bus root JNull prov st = (Inr svc, st') \<and> ready (sv_store svc) \<and> sv_catalog svc = empty_catalog"
proof -
  let ?st' = "st\<lparr>st_faults := \<lambda>n. st_faults st (Suc (Suc (Suc n)))\<rparr>"
  have h: "\<not> st_faults st n" for n using assms(1) by (simp add: ready_def healthy_def)
  have t: "t_sources (st_tables st) = []" "t_tools (st_tables st) = []" "t_assertions (st_tables st) = []"
    using assms(2) by (simp_all add: data_of_def empty_tables_def)
  have "load_catalog st = (Inr empty_catalog, ?st')"
    by (simp add: load_catalog_def sx_bind_def query_def statement_def sx_get_def sx_lift_def sx_return_def h t empty_catalog_def)
  then have "new_service bus root JNull prov st = (Inr \<lparr>sv_store = ?st', sv_catalog = empty_catalog, sv_audit_log = [],
      sv_bus = bus, sv_trust_root = root, sv_revocation_list = JNull, sv_provider_id = prov\<rparr>, ?st')"
    by (simp add: new_service_def sx_bind_def) (simp add: sx_get_def sx_return_def)
  moreover have "ready ?st'" using assms(1) by (simp add: ready_def healthy_def idle_def)
  ultimately show ?thesis by auto
qed

text \<open>A database file with an intact, non-empty chain in the current schema.\<close>

definition recorded :: "tables \<Rightarrow> bool" where
  "recorded t \<longleftrightarrow> at_version 5 t \<and> audit_ok t \<and> t_audit t \<noteq> []"

abbreviation sound_world :: "world \<Rightarrow> bool" where
  "sound_world w \<equiv> (\<forall>n. \<not> wl_faults w n)"

lemma build_live_db_runs:
  assumes "sound_world w" "\<forall>n. wl_uuids w n \<noteq> []" "ce_cedar env ALLOW_READS = Some auth" "db_tables path w = empty_tables"
  shows "\<exists>w' t. build_live_db env path w = (Inr (), w') \<and> sound_world w' \<and> recorded t \<and> wl_dbs w' = dict_set path t (wl_dbs w)"
proof -
  let ?c = "connect path w" and ?dp = "with_engine (cedar_decide auth) (sd_deps (ce_server env))"
  obtain st where st: "open_store ?c = (Inr (), st)" "at_version 5 (st_tables st)" "audit_ok (st_tables st)"
    using open_fresh [of ?c] assms(1,4) by auto
  note od = open_data [OF st(1) connect_props(1), unfolded connect_props(2)]
  have data: "data_of (st_tables st) = data_of empty_tables" using od(2) assms(4) by simp
  have "st_uuids st = wl_uuids w" using withinD [OF ids_open st(1)] by (simp add: connect_def)
  then have r: "ready st"
    using st od(1,3) assms(1,2) data by (auto simp: ready_def data_of_def empty_tables_def)
  let ?bus = "from_env (ce_float env) (ce_environ env)"
  obtain svc st' where new: "new_service ?bus None JNull ''toolconnect'' st = (Inr svc, st')" "ready (sv_store svc)" "sv_catalog svc = empty_catalog"
    using fresh_service [OF r data] by blast
  obtain svc' where run: "live_requests ?dp svc = (Inr (), svc')" "ready (sv_store svc')" "t_audit (st_tables (sv_store svc')) \<noteq> []"
    using live_requests_ready [OF new(2,3), of ?dp auth] by (auto simp: with_engine_def)
  have engine: "new_engine env ALLOW_READS = Inr (cedar_decide auth)" using assms(3) by (simp add: new_engine_def)
  have "build_live_db env path w = (Inr (), disconnect path (sv_store svc') w)"
    using st(1) new(1) run(1)
    by (simp add: build_live_db_def on_db_def engine sx_bind_lift) (simp add: sx_bind_def with_service_def)
  moreover have "base (sv_store svc') = st_tables (sv_store svc')" using run(2) idle_base by (simp add: ready_def)
  ultimately show ?thesis
    using run(2,3) by (auto simp: disconnect_def recorded_def ready_def healthy_def)
qed

text \<open>\<open>verify-audit\<close> on a file of the current schema answers what the chain says.\<close>

lemma verify_returns:
  assumes "sound_world w" "dict_get (wl_dbs w) db = Some t" "db \<noteq> '':memory:''" "db \<noteq> []" "ce_expand env db = Inr db" "at_version 5 t"
    and "check_chain (t_audit t) (dict_get (t_meta t) AUDIT_HEAD_SEQ) (dict_get (t_meta t) AUDIT_HEAD_HASH) = Inr cv"
  shows "\<exists>w'. main_cmd VerifyAudit env (verify_args db) w = (Inr (if cv_ok cv then 0 else 1), w') \<and> sound_world w' \<and>
    (\<forall>p. p \<noteq> db \<longrightarrow> dict_get (wl_dbs w') p = dict_get (wl_dbs w) p)"
proof -
  have tables: "db_tables db w = t" using assms(2,3) by (simp add: db_tables_def)
  obtain s where s: "open_store (connect db w) = (Inr (), s)" "st_tables s = t" "healthy s"
    using open_current [of "connect db w"] assms(1,6) tables by auto
  obtain q s2 where v: "verify_chain s = (q, s2)" by fastforce
  have "q = Inr cv" using verify_chain_healthy [OF s(3)] v s(2) assms(7) by simp
  moreover have "healthy s2" using withinD [OF untouched_verify v] s(3) by (auto simp: untouched_def)
  ultimately have run: "on_db db verify_chain w = (Inr cv, disconnect db s2 w)" "sound_world (disconnect db s2 w)"
    using s(1) v by (simp_all add: on_db_def sx_bind_def disconnect_def healthy_def)
  have path: "db_path env (verify_args db) w = (Inr db, w)"
    using assms(4,5) by (simp add: db_path_def verify_args_def argument_defaults_def load_config_def db_arg_def flag_or_def non_empty_def
        path_of_def sx_bind_def exit_if_def sx_return_def sx_lift_def)
  have "dict_get (wl_dbs (disconnect db s2 w)) p = dict_get (wl_dbs w) p" if "p \<noteq> db" for p
    using that by (simp add: disconnect_def dict_simps)
  then show ?thesis
    using run path
    by (simp add: main_cmd_def sx_catch_def cmd_verify_audit_def sx_bind_def say_def sx_modify_def sx_return_def)
qed

lemma newest_last:
  "sorted_wrt (<) (map f xs) \<Longrightarrow> filter (\<lambda>r. \<exists>q \<in> set xs. f r < f q) xs = butlast (xs :: 'a list)" for f :: "'a \<Rightarrow> int"
proof (induction xs rule: rev_induct)
  case (snoc x xs)
  have less: "f r < f x" if "r \<in> set xs" for r using snoc.prems that by (auto simp: sorted_wrt_append)
  then have "filter (\<lambda>r. \<exists>q \<in> set (xs @ [x]). f r < f q) xs = xs" by (auto simp: filter_id_conv)
  moreover have "\<not> (\<exists>q \<in> set (xs @ [x]). f x < f q)" using less by fastforce
  ultimately show ?case by simp
qed simp

lemma truncate_tail_runs:
  assumes "sound_world w" "dict_get (wl_dbs w) db = Some t" "db \<noteq> '':memory:''" "recorded t"
  shows "\<exists>w'. truncate_tail db w = (Inr (), w') \<and> sound_world w' \<and>
    wl_dbs w' = dict_set db (t\<lparr>t_audit := butlast (t_audit t)\<rparr>) (wl_dbs w)"
proof -
  have tables: "db_tables db w = t" using assms(2,3) by (simp add: db_tables_def)
  have ne: "t \<noteq> empty_tables" using assms(4) by (auto simp: recorded_def)
  have del: "delete_newest t = (Inr (), t\<lparr>t_audit := butlast (t_audit t)\<rparr>)"
    using assms(4) newest_last [of au_seq "t_audit t"] ne by (simp add: delete_newest_def recorded_def audit_ok_def)
  show ?thesis
    using assms(1) tables del
    by (auto simp: truncate_tail_def sx_bind_def dml_def statement_def commit_def connect_def disconnect_def base_def Let_def)
qed

lemma shortened:
  assumes "recorded t"
  shows "\<exists>cv. check_chain (butlast (t_audit t)) (dict_get (t_meta t) AUDIT_HEAD_SEQ) (dict_get (t_meta t) AUDIT_HEAD_HASH) = Inr cv \<and> \<not> cv_ok cv"
proof -
  let ?n = "length (t_audit t) - 1"
  have "audit_ok t" "?n < length (t_audit t)" using assms by (auto simp: recorded_def)
  from truncation_detected [OF this]
  show ?thesis
    using verify_chain_healthy [of "fresh_store (t\<lparr>t_audit := take ?n (t_audit t)\<rparr>)"] by (auto simp: butlast_conv_take)
qed

lemma under_not_memory: "work @ ''/'' @ name \<noteq> '':memory:''"
proof
  assume "work @ ''/'' @ name = '':memory:''"
  then have "CHR ''/'' \<in> set '':memory:''" by (metis UnCI list.set_intros(1) set_append append_Cons)
  then show False by simp
qed

lemma remove_tree_other:
  "take (length work + 1) p \<noteq> work @ ''/'' \<Longrightarrow> dict_get (wl_dbs (remove_tree work w)) p = dict_get (wl_dbs w) p"
proof -
  assume "take (length work + 1) p \<noteq> work @ ''/''"
  then have "map_of (filter (\<lambda>(p, t). take (length work + 1) p \<noteq> work @ ''/'') kvs) p = map_of kvs p" for kvs :: "(string, tables) dict"
    by (induction kvs) auto
  then show ?thesis by (simp add: remove_tree_def)
qed

text \<open>C36: the demonstration against tail truncation succeeds end to end. In a world where no statement
  fails, with any engine that the policy text parses to, the script builds its database through
  registration, push, assertion, decisions and reported outcomes; \<open>verify-audit\<close> exits with 0 on the
  copy and with 1 on the copy whose newest audit record was deleted; the script returns 0 and leaves
  every database outside its working directory as it was.\<close>

theorem audit_demo_detects:
  assumes "\<forall>n. \<not> wl_faults w n" "\<forall>n. wl_uuids w n \<noteq> []" "ce_cedar env ALLOW_READS = Some auth"
    and "dict_get (wl_dbs w) (work @ ''/live.db'') = None"
    and "ce_expand env (work @ ''/clean/live.db'') = Inr (work @ ''/clean/live.db'')"
    and "ce_expand env (work @ ''/truncated/live.db'') = Inr (work @ ''/truncated/live.db'')"
  shows "\<exists>w'. main_demo env work w = (Inr 0, w') \<and>
    (\<forall>p. take (length work + 1) p \<noteq> work @ ''/'' \<longrightarrow> dict_get (wl_dbs w') p = dict_get (wl_dbs w) p)"
proof -
  let ?live = "work @ ''/live.db''" and ?clean = "work @ ''/clean/live.db''" and ?trunc = "work @ ''/truncated/live.db''"
  have under: "take (length work + 1) ?live = work @ ''/''" "take (length work + 1) ?clean = work @ ''/''"
    "take (length work + 1) ?trunc = work @ ''/''" by simp_all
  have mem: "?live \<noteq> '':memory:''" "?clean \<noteq> '':memory:''" "?trunc \<noteq> '':memory:''"
    using under_not_memory [of work "''live.db''"] under_not_memory [of work "''clean/live.db''"]
      under_not_memory [of work "''truncated/live.db''"] by simp_all
  have "db_tables ?live w = empty_tables" using assms(4) mem(1) by (simp add: db_tables_def)
  then obtain w1 t where w1: "build_live_db env ?live w = (Inr (), w1)" "sound_world w1" "recorded t" "wl_dbs w1 = dict_set ?live t (wl_dbs w)"
    using build_live_db_runs [OF assms(1-3)] by blast
  define w2 where "w2 = w1\<lparr>wl_dbs := dict_set ?clean t (wl_dbs w1)\<rparr>"
  have copy1: "copy_with_wal work ''live.db'' (work @ ''/clean'') w1 = (Inr ?clean, w2)"
    using w1(4) by (simp add: copy_with_wal_def w2_def dict_simps Let_def)
  have at5: "at_version 5 t" and ok: "audit_ok t" using w1(3) by (simp_all add: recorded_def)
  obtain w3 where w3: "main_cmd VerifyAudit env (verify_args ?clean) w2 = (Inr 0, w3)" "sound_world w3"
      "\<forall>p. p \<noteq> ?clean \<longrightarrow> dict_get (wl_dbs w3) p = dict_get (wl_dbs w2) p"
    using verify_returns [OF _ _ mem(2) _ assms(5) at5 check_chain_audit_ok [OF ok], of w2] w1(2) by (auto simp: w2_def dict_simps)
  define w4 where "w4 = snd (say (Line ''clean copy'' [JInt 0]) w3)"
  have live: "dict_get (wl_dbs w4) ?live = Some t" using w3(3) w1(4) by (simp add: w4_def say_def sx_modify_def w2_def dict_simps)
  define w5 where "w5 = w4\<lparr>wl_dbs := dict_set ?trunc t (wl_dbs w4)\<rparr>"
  have copy2: "copy_with_wal work ''live.db'' (work @ ''/truncated'') w4 = (Inr ?trunc, w5)"
    using live by (simp add: copy_with_wal_def w5_def Let_def)
  have "sound_world w5" "dict_get (wl_dbs w5) ?trunc = Some t"
    using w3(2) by (simp_all add: w5_def w4_def say_def sx_modify_def dict_simps)
  then obtain w6 where w6: "truncate_tail ?trunc w5 = (Inr (), w6)" "sound_world w6"
      "wl_dbs w6 = dict_set ?trunc (t\<lparr>t_audit := butlast (t_audit t)\<rparr>) (wl_dbs w5)"
    using truncate_tail_runs [OF _ _ mem(3) w1(3)] by blast
  let ?t = "t\<lparr>t_audit := butlast (t_audit t)\<rparr>"
  obtain cv where cv: "check_chain (t_audit ?t) (dict_get (t_meta ?t) AUDIT_HEAD_SEQ) (dict_get (t_meta ?t) AUDIT_HEAD_HASH) = Inr cv" "\<not> cv_ok cv"
    using shortened [OF w1(3)] by auto
  have "at_version 5 ?t" "dict_get (wl_dbs w6) ?trunc = Some ?t" using at5 w6(3) by (simp_all add: at_version_def dict_simps)
  then obtain w7 where w7: "main_cmd VerifyAudit env (verify_args ?trunc) w6 = (Inr 1, w7)"
      "\<forall>p. p \<noteq> ?trunc \<longrightarrow> dict_get (wl_dbs w7) p = dict_get (wl_dbs w6) p"
    using verify_returns [OF w6(2) _ mem(3) _ assms(6) _ cv(1)] cv(2) by auto
  have steps: "\<exists>w'. demo_steps env work w = (Inr 0, w') \<and> wl_dbs w' = wl_dbs w7"
    using w1(1) copy1 w3(1) copy2 w6(1) w7(1)
    by (simp add: demo_steps_def sx_bind_def w4_def say_def sx_modify_def sx_return_def Let_def)
  have "dict_get (wl_dbs w7) p = dict_get (wl_dbs w) p" if "take (length work + 1) p \<noteq> work @ ''/''" for p
  proof -
    have "p \<noteq> ?live" "p \<noteq> ?clean" "p \<noteq> ?trunc" using that under by metis+
    then show ?thesis
      using w7(2) w6(3) w3(3) w1(4) by (simp add: w5_def w4_def w2_def say_def sx_modify_def dict_simps)
  qed
  then show ?thesis using steps remove_tree_other by (fastforce simp: main_demo_def)
qed

theorem audit_demo_detects_witness:
  "\<exists>w'. main_demo demo_cli ''/tmp/d'' demo_world = (Inr 0, w') \<and> dict_get (wl_dbs w') ''db'' = Some demo_db"
proof -
  have "\<exists>w'. main_demo demo_cli ''/tmp/d'' demo_world = (Inr 0, w') \<and>
      (\<forall>p. take (length ''/tmp/d'' + 1) p \<noteq> ''/tmp/d'' @ ''/'' \<longrightarrow> dict_get (wl_dbs w') p = dict_get (wl_dbs demo_world) p)"
    by (rule audit_demo_detects) (simp_all add: demo_world_def demo_cli_def)
  then show ?thesis by (auto simp: demo_world_def)
qed

end
