(* ===== verification/Flow_Experiment.thy ===== *)
theory Flow_Experiment
  imports Experiments "HOL-Library.Multiset"
begin

text \<open>
  \<open>fixtures/real_catalog.py\<close> and \<open>flow_experiment.py\<close>: a catalog of real tools with an operator's labels,
  and what flow analysis says about it. The numbers the script prints are computed from the list of
  tools alone: the lemmas reduce building, selecting and re-asserting to it, since the fingerprints of
  the evidence play no part. Quotients that are only displayed are left out, their terms are kept.
\<close>

section \<open>The fixture\<close>

type_synonym labelled_tool = "string \<times> string \<times> Effect \<times> DataClass list \<times> DataClass list"

definition TOOLS :: "labelled_tool list" where
  "TOOLS =
     [(''agentconnect'', ''create_task'', WRITE, [INTERNAL], [INTERNAL]),
      (''agentconnect'', ''open_task'', READ, [INTERNAL], []),
      (''agentconnect'', ''get_handoff_summary'', READ, [INTERNAL], []),
      (''agentconnect'', ''claim_task'', WRITE, [INTERNAL], [INTERNAL]),
      (''agentconnect'', ''release_task'', WRITE, [INTERNAL], [INTERNAL]),
      (''agentconnect'', ''record_decision'', WRITE, [INTERNAL], [INTERNAL]),
      (''agentconnect'', ''record_attempt'', WRITE, [INTERNAL], [INTERNAL]),
      (''agentconnect'', ''request_review'', WRITE, [INTERNAL], [INTERNAL]),
      (''agentconnect'', ''submit_subtask'', WRITE, [INTERNAL], [INTERNAL]),
      (''agentconnect'', ''get_status'', READ, [INTERNAL], []),
      (''agentconnect'', ''list_artifacts'', READ, [INTERNAL], []),
      (''agentconnect'', ''read_artifact_chunk'', READ, [INTERNAL, SECRET], []),
      (''agentconnect'', ''explain_route'', READ, [INTERNAL], []),
      (''agentconnect'', ''recall_memory'', READ, [INTERNAL], []),
      (''agentconnect'', ''capture_memory_candidate'', WRITE, [INTERNAL], [INTERNAL]),
      (''agentconnect'', ''record_memory_feedback'', WRITE, [INTERNAL], [INTERNAL]),
      (''agentconnect'', ''get_task_context_pack'', READ, [INTERNAL, SECRET], []),
      (''brainconnect'', ''brain_recall'', READ, [INTERNAL], []),
      (''brainconnect'', ''brain_search'', READ, [INTERNAL], []),
      (''brainconnect'', ''brain_hybrid'', READ, [INTERNAL], []),
      (''brainconnect'', ''brain_graph'', READ, [INTERNAL], []),
      (''brainconnect'', ''brain_pending'', READ, [INTERNAL], []),
      (''brainconnect'', ''brain_capture'', WRITE, [INTERNAL], [INTERNAL]),
      (''brainconnect'', ''brain_feedback'', WRITE, [INTERNAL], [INTERNAL]),
      (''brainconnect'', ''brain_promote'', WRITE, [INTERNAL], [INTERNAL]),
      (''brainconnect'', ''brain_reject'', WRITE, [INTERNAL], [INTERNAL]),
      (''filesystem'', ''read_file'', READ, [INTERNAL, SECRET, CREDENTIAL], []),
      (''filesystem'', ''read_multiple_files'', READ, [INTERNAL, SECRET, CREDENTIAL], []),
      (''filesystem'', ''write_file'', WRITE, [], [INTERNAL]),
      (''filesystem'', ''edit_file'', WRITE, [INTERNAL], [INTERNAL]),
      (''filesystem'', ''create_directory'', WRITE, [], [INTERNAL]),
      (''filesystem'', ''list_directory'', READ, [INTERNAL], []),
      (''filesystem'', ''directory_tree'', READ, [INTERNAL], []),
      (''filesystem'', ''move_file'', DESTRUCTIVE, [INTERNAL], [INTERNAL]),
      (''filesystem'', ''search_files'', READ, [INTERNAL], []),
      (''filesystem'', ''get_file_info'', READ, [INTERNAL], []),
      (''filesystem'', ''list_allowed_directories'', READ, [PUBLIC], []),
      (''github'', ''get_file_contents'', READ, [EXTERNAL_CLASS, PUBLIC], []),
      (''github'', ''search_repositories'', READ, [EXTERNAL_CLASS, PUBLIC], []),
      (''github'', ''create_or_update_file'', EXTERNAL, [], [EXTERNAL_CLASS]),
      (''github'', ''push_files'', EXTERNAL, [], [EXTERNAL_CLASS]),
      (''github'', ''create_repository'', EXTERNAL, [], [EXTERNAL_CLASS]),
      (''github'', ''create_issue'', EXTERNAL, [], [EXTERNAL_CLASS]),
      (''github'', ''create_pull_request'', EXTERNAL, [], [EXTERNAL_CLASS]),
      (''github'', ''fork_repository'', EXTERNAL, [], [EXTERNAL_CLASS]),
      (''github'', ''create_branch'', EXTERNAL, [], [EXTERNAL_CLASS]),
      (''slack'', ''slack_list_channels'', READ, [EXTERNAL_CLASS], []),
      (''slack'', ''slack_get_channel_history'', READ, [EXTERNAL_CLASS, PII], []),
      (''slack'', ''slack_post_message'', EXTERNAL, [], [EXTERNAL_CLASS]),
      (''slack'', ''slack_reply_to_thread'', EXTERNAL, [], [EXTERNAL_CLASS]),
      (''fetch'', ''fetch'', EXTERNAL, [EXTERNAL_CLASS, PUBLIC], [EXTERNAL_CLASS]),
      (''postgres'', ''query'', READ, [INTERNAL, PII], []),
      (''shell'', ''run_command'', DESTRUCTIVE, [INTERNAL, SECRET, CREDENTIAL], [INTERNAL, EXTERNAL_CLASS])]"

definition AMBIGUOUS :: "string list" where
  "AMBIGUOUS =
     [''read_artifact_chunk'', ''get_task_context_pack'', ''recall_memory'', ''fetch'', ''move_file'',
      ''brain_recall'']"

definition ARG_DEPENDENT :: "string list" where
  "ARG_DEPENDENT =
     [''read_file'', ''read_multiple_files'', ''run_command'', ''query'', ''fetch'', ''read_artifact_chunk'',
      ''write_file'']"

definition SOURCES :: "(string \<times> TrustTier) list" where
  "SOURCES =
     [(''agentconnect'', VERIFIED), (''brainconnect'', VERIFIED), (''filesystem'', KNOWN), (''github'', KNOWN),
      (''slack'', KNOWN), (''fetch'', UNTRUSTED), (''postgres'', KNOWN), (''shell'', KNOWN)]"

definition CODING_AGENT_TOOLSET :: "string list" where
  "CODING_AGENT_TOOLSET =
     [''read_file'', ''write_file'', ''edit_file'', ''list_directory'', ''search_files'', ''create_task'',
      ''record_decision'', ''read_artifact_chunk'', ''get_task_context_pack'', ''brain_recall'',
      ''brain_capture'', ''create_or_update_file'', ''push_files'', ''create_pull_request'',
      ''create_issue'', ''fetch'']"

definition server_claim :: "string \<Rightarrow> Effect \<Rightarrow> ClaimedMetadata" where
  "server_claim name effect =
     \<lparr>cm_description = JStr (name @ '' (server-supplied)''), cm_read_only_hint = JBool (effect = READ),
      cm_destructive_hint = JBool (effect = DESTRUCTIVE), cm_idempotent_hint = JNull, cm_open_world_hint = JBool (effect = EXTERNAL)\<rparr>"

definition operator_label :: "string \<Rightarrow> string \<Rightarrow> Effect \<Rightarrow> DataClass list \<Rightarrow> DataClass list \<Rightarrow> AssertedDescriptor" where
  "operator_label sid name effect reads written =
     \<lparr>ad_effect = effect, ad_reads = set reads, ad_writes = set written, ad_scopes = [JStr sid],
      ad_reversible = JBool (effect \<noteq> DESTRUCTIVE), ad_idempotent = JBool False,
      ad_requires_approval = JBool (name \<in> {''brain_promote'', ''run_command''}), ad_declassifies = JBool False,
      ad_asserted_by = JStr ''fixture-operator''\<rparr>"

definition add_tool :: "bool \<Rightarrow> labelled_tool \<Rightarrow> Catalog \<Rightarrow> Catalog result" where
  "add_tool assert_all row cat =
     (case row of (sid, name, effect, reads, written) \<Rightarrow>
        bind_result (ingested sid name (server_claim name effect) cat) (\<lambda>cat.
        if assert_all then asserted sid name (operator_label sid name effect reads written) cat else Inr cat))"

definition add_source :: "string \<times> TrustTier \<Rightarrow> Catalog \<Rightarrow> Catalog" where
  "add_source st cat =
     Catalog.register_source \<lparr>ts_source_id = fst st, ts_tier = snd st, ts_transport = ''mcp''\<rparr>
       (map (fst \<circ> snd) (filter (\<lambda>t. fst t = fst st) TOOLS)) cat"

definition build_catalog :: "bool \<Rightarrow> Catalog result" where
  "build_catalog assert_all = each (add_tool assert_all) TOOLS (fold add_source SOURCES empty_catalog)"

section \<open>The experiment\<close>

text \<open>\<open>replace_reads\<close>: the same descriptor with narrower reads under a narrower scope.\<close>

definition replace_reads :: "AssertedDescriptor \<Rightarrow> DataClass set \<Rightarrow> string \<Rightarrow> AssertedDescriptor" where
  "replace_reads d reads scope =
     \<lparr>ad_effect = ad_effect d, ad_reads = reads, ad_writes = ad_writes d, ad_scopes = [JStr scope],
      ad_reversible = ad_reversible d, ad_idempotent = ad_idempotent d, ad_requires_approval = ad_requires_approval d,
      ad_declassifies = ad_declassifies d, ad_asserted_by = JStr ''fixture-operator''\<rparr>"

text \<open>An iteration of the loop of section 6: an unresolved or absent tool, or one without a label, raises.\<close>

definition rescope :: "string \<times> DataClass list \<Rightarrow> Catalog \<Rightarrow> Catalog result" where
  "rescope row cat =
     bind_result (resolve cat (fst row)) (\<lambda>tid.
     case catalog_get cat (fst tid) (fst row) of
       None \<Rightarrow> Inl AttributeError
     | Some tv \<Rightarrow>
         (case tv_asserted tv of
            None \<Rightarrow> Inl AttributeError
          | Some old \<Rightarrow> asserted (fst tid) (fst row) (replace_reads old (set (snd row)) ''project-root'') cat))"

definition narrowed :: "(string \<times> DataClass list) list" where
  "narrowed = [(''read_file'', [INTERNAL]), (''read_artifact_chunk'', [INTERNAL]), (''get_task_context_pack'', [INTERNAL])]"

text \<open>What the sections of the script print.\<close>

record flow_output =
  fo_catalog :: "nat \<times> nat"
  fo_full :: "string list \<times> nat \<times> nat"
  fo_grant :: "nat \<times> (string \<times> string list \<times> string list) list \<times> nat \<times> nat"
  fo_accepted :: "int \<times> int \<times> string list"
  fo_trace :: "(string \<times> bool \<times> bool) list \<times> nat \<times> nat"
  fo_cut :: "string list \<times> string list \<times> nat"
  fo_burden :: "nat \<times> nat \<times> nat \<times> string list"
  fo_scoped :: "nat \<times> nat"
  fo_raw :: "nat \<times> nat"

definition sizes :: "FlowReport \<Rightarrow> nat \<times> nat" where
  "sizes r = (length (fr_findings r), length (fr_pairwise_paths r))"

definition finding_readers :: "FlowReport \<Rightarrow> string list" where
  "finding_readers r = py_sorted_set (concat (map ff_readers (fr_findings r)))"

definition finding_sinks :: "FlowReport \<Rightarrow> string list" where
  "finding_sinks r = py_sorted_set (concat (map ff_sinks (fr_findings r)))"

definition printed_sections ::
  "nat \<times> nat \<Rightarrow> ToolVersion list \<Rightarrow> ToolVersion list \<Rightarrow> ToolVersion list \<Rightarrow> ToolVersion list \<Rightarrow> flow_output" where
  "printed_sections counts everything grant scoped raw =
     (let full = analyze_toolset everything {};
          sub = analyze_toolset grant {};
          sup = analyze_toolset grant {(SECRET, EXTERNAL_CLASS)};
          readers = finding_readers sub;
          shaky = filter (\<lambda>r. r \<in> set ARG_DEPENDENT \<or> r \<in> set AMBIGUOUS) readers;
          without_sinks = analyze_toolset (filter (\<lambda>t. tr_name (tv_ref t) \<notin> set (finding_sinks sub)) grant) {};
          unl = analyze_toolset raw {}
      in \<lparr>fo_catalog = counts,
          fo_full = (map flow_describe (fr_findings full), sizes full),
          fo_grant = (length CODING_AGENT_TOOLSET,
            map (\<lambda>f. (flow_describe f, ff_readers f, ff_sinks f)) (fr_findings sub), sizes sub),
          fo_accepted = (int (length (fr_findings sub)) - int (length (fr_findings sup)),
            int (length (fr_pairwise_paths sub)) - int (length (fr_pairwise_paths sup)),
            map (class_value \<circ> ff_source_class) (fr_findings sup)),
          fo_trace = (map (\<lambda>r. (r, r \<in> set ARG_DEPENDENT, r \<in> set AMBIGUOUS)) readers, length shaky, length readers),
          fo_cut = (finding_sinks sub, readers, length (fr_findings without_sinks)),
          fo_burden = (length TOOLS, length AMBIGUOUS, length ARG_DEPENDENT, py_sorted_set ARG_DEPENDENT),
          fo_scoped = sizes (analyze_toolset scoped {}),
          fo_raw = (length (fr_findings unl), length (fr_unlabeled unl))\<rparr>)"

definition flow_experiment :: "flow_output result" where
  "flow_experiment =
     bind_result (build_catalog True) (\<lambda>cat.
     bind_result (select cat CODING_AGENT_TOOLSET) (\<lambda>grant.
     bind_result (build_catalog True) (\<lambda>cat'.
     bind_result (each rescope narrowed cat') (\<lambda>scoped.
     bind_result (select scoped CODING_AGENT_TOOLSET) (\<lambda>after.
     bind_result (build_catalog False) (\<lambda>raw.
     bind_result (select raw CODING_AGENT_TOOLSET) (\<lambda>unl.
     Inr (printed_sections (length (cat_tools cat), length (cat_sources cat))
            (toolset cat (dict_keys (cat_tools cat))) grant after unl))))))))"

section \<open>Building the catalog\<close>

definition tool_entry :: "bool \<Rightarrow> labelled_tool \<Rightarrow> ToolId \<times> ToolVersion" where
  "tool_entry assert_all row =
     (case row of (sid, name, effect, reads, written) \<Rightarrow>
        ((sid, name), (unvouched sid (server_claim name effect) name)\<lparr>tv_asserted :=
           if assert_all then Some (operator_label sid name effect reads written) else None\<rparr>))"

lemma dict_set_new: "k \<notin> fst ` set kvs \<Longrightarrow> dict_set k v kvs = kvs @ [(k, v)]"
  by (induction kvs) auto

lemma dict_set_last: "k \<notin> fst ` set kvs \<Longrightarrow> dict_set k v (kvs @ [(k, w)]) = kvs @ [(k, v)]"
  by (induction kvs) auto

lemma add_tool_entry:
  assumes "dict_get (cat_sources cat) (fst row) \<noteq> None" "dict_get (cat_assertions cat) (fst row, fst (snd row)) = None"
    and "fst (tool_entry b row) \<notin> fst ` set (cat_tools cat)"
  shows "\<exists>cat'. add_tool b row cat = Inr cat' \<and> cat_tools cat' = cat_tools cat @ [tool_entry b row] \<and>
    cat_sources cat' = cat_sources cat \<and>
    (\<forall>k. dict_get (cat_assertions cat') k \<noteq> None \<longrightarrow> dict_get (cat_assertions cat) k \<noteq> None \<or> k = (fst row, fst (snd row)))"
proof -
  obtain sid name effect reads written where row: "row = (sid, name, effect, reads, written)" by (cases row)
  let ?tv = "unvouched sid (server_claim name effect) name"
  have one: "ingested sid name (server_claim name effect) cat =
      Inr (cat\<lparr>cat_tools := cat_tools cat @ [((sid, name), ?tv)]\<rparr>)"
    using assms row by (auto simp: ingested_def ingest_claimed_def unvouched_def tool_entry_def Let_def dict_set_new)
  have fresh: "(sid, name) \<notin> fst ` set (cat_tools cat)" using assms(3) row by (simp add: tool_entry_def)
  then have "dict_get (cat_tools cat) (sid, name) = None" by (simp add: map_of_eq_None_iff)
  then have found: "dict_get (cat_tools cat @ [((sid, name), ?tv)]) (sid, name) = Some ?tv" by (simp add: map_add_def)
  show ?thesis
  proof (cases b)
    case True
    then show ?thesis
      using one found fresh
      by (auto simp: row add_tool_def asserted_def assert_descriptor_def tool_entry_def operator_label_def dict_set_last dict_simps Let_def)
  next
    case False
    then show ?thesis using one by (auto simp: row add_tool_def tool_entry_def unvouched_def)
  qed
qed

definition tool_key :: "labelled_tool \<Rightarrow> ToolId" where
  "tool_key row = (fst row, fst (snd row))"

lemma tool_entry_key [simp]: "fst (tool_entry b row) = tool_key row"
  by (cases row) (simp add: tool_entry_def tool_key_def)

lemma each_add_tool:
  assumes "\<forall>row \<in> set rows. dict_get (cat_sources cat) (fst row) \<noteq> None" "distinct (map tool_key rows)"
    and "\<forall>row \<in> set rows. tool_key row \<notin> fst ` set (cat_tools cat) \<and> dict_get (cat_assertions cat) (tool_key row) = None"
  shows "\<exists>cat'. each (add_tool b) rows cat = Inr cat' \<and> cat_tools cat' = cat_tools cat @ map (tool_entry b) rows \<and>
    cat_sources cat' = cat_sources cat"
  using assms
proof (induction rows arbitrary: cat)
  case (Cons row rows)
  obtain cat1 where one: "add_tool b row cat = Inr cat1" "cat_tools cat1 = cat_tools cat @ [tool_entry b row]"
      "cat_sources cat1 = cat_sources cat"
      "\<And>k. dict_get (cat_assertions cat1) k \<noteq> None \<Longrightarrow> dict_get (cat_assertions cat) k \<noteq> None \<or> k = tool_key row"
    using add_tool_entry [of cat row b] Cons.prems by (auto simp: tool_key_def)
  have "\<exists>cat'. each (add_tool b) rows cat1 = Inr cat' \<and> cat_tools cat' = cat_tools cat1 @ map (tool_entry b) rows \<and>
    cat_sources cat' = cat_sources cat1"
  proof (rule Cons.IH)
    show "\<forall>row \<in> set rows. dict_get (cat_sources cat1) (fst row) \<noteq> None" using Cons.prems(1) one(3) by simp
    show "distinct (map tool_key rows)" using Cons.prems(2) by simp
    show "\<forall>row \<in> set rows. tool_key row \<notin> fst ` set (cat_tools cat1) \<and> dict_get (cat_assertions cat1) (tool_key row) = None"
    proof
      fix other assume other: "other \<in> set rows"
      have "tool_key row \<notin> tool_key ` set rows" using Cons.prems(2) by simp
      then have "tool_key other \<noteq> tool_key row" using other by (metis imageI)
      then show "tool_key other \<notin> fst ` set (cat_tools cat1) \<and> dict_get (cat_assertions cat1) (tool_key other) = None"
        using one(2) one(4) [of "tool_key other"] Cons.prems(3) other by auto
    qed
  qed
  then show ?case using one by auto
qed simp

definition source_entries :: "(string, TrustedSource) dict" where
  "source_entries = map (\<lambda>(sid, tier). (sid, \<lparr>ts_source_id = sid, ts_tier = tier, ts_transport = ''mcp''\<rparr>)) SOURCES"

lemma add_sources:
  "cat_sources (fold add_source sts cat) =
     fold (\<lambda>(sid, tier). dict_set sid \<lparr>ts_source_id = sid, ts_tier = tier, ts_transport = ''mcp''\<rparr>) sts (cat_sources cat)"
  "cat_tools (fold add_source sts cat) = cat_tools cat" "cat_assertions (fold add_source sts cat) = cat_assertions cat"
  by (induction sts arbitrary: cat) (auto simp: add_source_def Catalog.register_source_def)

lemma sources_built: "cat_sources (fold add_source SOURCES empty_catalog) = source_entries"
  unfolding add_sources by (simp add: empty_catalog_def source_entries_def SOURCES_def)

lemma tools_distinct: "distinct (map tool_key TOOLS)"
  by code_simp

lemma tools_sourced: "\<forall>row \<in> set TOOLS. dict_get source_entries (fst row) \<noteq> None"
  by code_simp

lemma build_catalog_tools:
  "\<exists>cat. build_catalog b = Inr cat \<and> cat_tools cat = map (tool_entry b) TOOLS \<and> cat_sources cat = source_entries"
  using each_add_tool [of TOOLS "fold add_source SOURCES empty_catalog" b] tools_distinct tools_sourced sources_built
  by (simp add: build_catalog_def add_sources(2,3) empty_catalog_def)

section \<open>Reading the list of tools only\<close>

definition holding :: "(ToolId, ToolVersion) dict \<Rightarrow> Catalog" where
  "holding tools = empty_catalog\<lparr>cat_tools := tools\<rparr>"

lemma resolve_tools: "resolve cat = resolve (holding (cat_tools cat))"
  by (intro ext) (simp add: resolve_def find_all_def holding_def)

lemma toolset_tools: "toolset cat = toolset (holding (cat_tools cat))"
  by (intro ext) (simp add: toolset_def holding_def)

lemma select_tools: "select cat names = select (holding (cat_tools cat)) names"
  unfolding select_def resolve_tools [of cat] toolset_tools [of cat] by (simp add: holding_def)

definition rescope_in :: "string \<times> DataClass list \<Rightarrow> (ToolId, ToolVersion) dict \<Rightarrow> (ToolId, ToolVersion) dict result" where
  "rescope_in row tools =
     bind_result (resolve (holding tools) (fst row)) (\<lambda>tid.
     case dict_get tools (fst tid, fst row) of
       None \<Rightarrow> Inl AttributeError
     | Some tv \<Rightarrow>
         (case tv_asserted tv of
            None \<Rightarrow> Inl AttributeError
          | Some old \<Rightarrow> Inr (dict_set (fst tid, fst row)
              (tv\<lparr>tv_asserted := Some (replace_reads old (set (snd row)) ''project-root'')\<rparr>) tools)))"

lemma rescope_tools: "bind_result (rescope row cat) (\<lambda>c. Inr (cat_tools c)) = rescope_in row (cat_tools cat)"
  unfolding rescope_def rescope_in_def resolve_tools [of cat]
  by (cases "resolve (holding (cat_tools cat)) (fst row)")
    (auto simp: catalog_get_def asserted_def assert_descriptor_def replace_reads_def Let_def split: option.split)

lemma each_rescope_tools: "bind_result (each rescope rows cat) (\<lambda>c. Inr (cat_tools c)) = each rescope_in rows (cat_tools cat)"
proof (induction rows arbitrary: cat)
  case (Cons row rows)
  show ?case
  proof (cases "rescope row cat")
    case (Inl e)
    then show ?thesis using rescope_tools [of row cat, symmetric] by simp
  next
    case (Inr c)
    then show ?thesis using rescope_tools [of row cat, symmetric] Cons.IH [of c] by simp
  qed
qed simp

definition flow_sections :: "flow_output result" where
  "flow_sections =
     (let labelled = map (tool_entry True) TOOLS; bare = map (tool_entry False) TOOLS in
     bind_result (select (holding labelled) CODING_AGENT_TOOLSET) (\<lambda>grant.
     bind_result (each rescope_in narrowed labelled) (\<lambda>rescoped.
     bind_result (select (holding rescoped) CODING_AGENT_TOOLSET) (\<lambda>after.
     bind_result (select (holding bare) CODING_AGENT_TOOLSET) (\<lambda>unl.
     Inr (printed_sections (length TOOLS, length SOURCES) (toolset (holding labelled) (map fst labelled)) grant after unl))))))"

lemma flow_experiment_sections: "flow_experiment = flow_sections"
proof -
  obtain cat raw where built: "build_catalog True = Inr cat" "cat_tools cat = map (tool_entry True) TOOLS"
      "cat_sources cat = source_entries" "build_catalog False = Inr raw" "cat_tools raw = map (tool_entry False) TOOLS"
    using build_catalog_tools by metis
  have again: "bind_result (each rescope narrowed cat) (\<lambda>scoped. bind_result (select scoped CODING_AGENT_TOOLSET) k) =
      bind_result (each rescope_in narrowed (cat_tools cat)) (\<lambda>tools. bind_result (select (holding tools) CODING_AGENT_TOOLSET) k)"
    for k :: "ToolVersion list \<Rightarrow> flow_output result"
    unfolding each_rescope_tools [symmetric]
  proof (cases "each rescope narrowed cat")
    case (Inr c)
    then show "bind_result (each rescope narrowed cat) (\<lambda>scoped. bind_result (select scoped CODING_AGENT_TOOLSET) k) =
        bind_result (bind_result (each rescope narrowed cat) (\<lambda>c. Inr (cat_tools c)))
          (\<lambda>tools. bind_result (select (holding tools) CODING_AGENT_TOOLSET) k)"
      using select_tools [of c CODING_AGENT_TOOLSET] by simp
  qed simp
  have "length source_entries = length SOURCES" by (simp add: source_entries_def)
  then show ?thesis
    unfolding flow_experiment_def flow_sections_def Let_def
    by (simp add: built again select_tools [of cat] select_tools [of raw] toolset_tools [of cat] comp_def)
qed

section \<open>The report of a list of labels\<close>

text \<open>\<open>D\<close> holds the reads that re-assertions replaced, by tool.\<close>

definition entry_over :: "(ToolId \<times> DataClass list) list \<Rightarrow> labelled_tool \<Rightarrow> ToolId \<times> ToolVersion" where
  "entry_over D row =
     (case map_of D (tool_key row) of
        None \<Rightarrow> tool_entry True row
      | Some reads \<Rightarrow>
          (tool_key row, (snd (tool_entry True row))\<lparr>tv_asserted := Some (replace_reads
             (operator_label (fst row) (fst (snd row)) (fst (snd (snd row))) (fst (snd (snd (snd row)))) (snd (snd (snd (snd row)))))
             (set reads) ''project-root'')\<rparr>))"

definition row_reads :: "(ToolId \<times> DataClass list) list \<Rightarrow> labelled_tool \<Rightarrow> DataClass list" where
  "row_reads D row = (case map_of D (tool_key row) of None \<Rightarrow> fst (snd (snd (snd row))) | Some reads \<Rightarrow> reads)"

definition row_sinks :: "labelled_tool \<Rightarrow> bool" where
  "row_sinks row \<longleftrightarrow> EXTERNAL_CLASS \<in> set (snd (snd (snd (snd row))))"

definition row_names :: "labelled_tool list \<Rightarrow> string list" where
  "row_names rows = sort (map (fst \<circ> snd) rows)"

definition row_finding ::
  "(ToolId \<times> DataClass list) list \<Rightarrow> labelled_tool list \<Rightarrow> (DataClass \<times> DataClass) set \<Rightarrow> DataClass \<Rightarrow> FlowFinding option" where
  "row_finding D rows accepted c =
     (if (c, EXTERNAL_CLASS) \<in> accepted then None
      else let readers = row_names (filter (\<lambda>r. c \<in> set (row_reads D r)) rows); sinks = row_names (filter row_sinks rows)
           in if readers = [] \<or> sinks = [] then None
              else Some \<lparr>ff_source_class = c, ff_sink_class = EXTERNAL_CLASS, ff_readers = readers, ff_sinks = sinks\<rparr>)"

lemma entry_over_key [simp]: "fst (entry_over D row) = tool_key row"
  by (simp add: entry_over_def split: option.split)

lemma entry_over_tool:
  "tr_name (tv_ref (snd (entry_over D row))) = fst (snd row)" "is_asserted (snd (entry_over D row))"
  "reads_class c (snd (entry_over D row)) \<longleftrightarrow> c \<in> set (row_reads D row)"
  "sinks_external (snd (entry_over D row)) \<longleftrightarrow> row_sinks row"
  "tool_id (snd (entry_over D row)) = tool_key row"
  by (cases row; auto simp: entry_over_def tool_entry_def operator_label_def replace_reads_def unvouched_def is_asserted_def
      reads_class_def sinks_external_def is_external_sink_def row_reads_def row_sinks_def tool_id_def tool_key_def split: option.split)+

lemma tool_names_mset: "mset ts = mset us \<Longrightarrow> tool_names ts = tool_names us"
  unfolding tool_names_def by (metis mset_map sorted_list_of_multiset_mset)

lemma class_finding_names:
  "class_finding (filter is_asserted ts) accepted (filter sinks_external (filter is_asserted ts)) c =
     (if (c, EXTERNAL_CLASS) \<in> accepted then None
      else let readers = tool_names (filter (reads_class c) ts); sinks = tool_names (filter sinks_external ts)
           in if readers = [] \<or> sinks = [] then None
              else Some \<lparr>ff_source_class = c, ff_sink_class = EXTERNAL_CLASS, ff_readers = readers, ff_sinks = sinks\<rparr>)"
  unfolding class_finding_def Let_def filter_labeled tool_names_Nil ..

lemma analyze_rows:
  assumes "mset ts = mset (map (snd \<circ> entry_over D) rows)"
  shows "fr_findings (analyze_toolset ts accepted) = List.map_filter (row_finding D rows accepted) tracked_sources"
proof -
  have "tool_names (filter P ts) = tool_names (filter P (map (snd \<circ> entry_over D) rows))" for P
    by (rule tool_names_mset) (simp add: assms)
  then have names: "tool_names (filter P ts) = row_names (filter (\<lambda>r. P (snd (entry_over D r))) rows)" for P
    by (simp add: filter_map tool_names_def row_names_def comp_def entry_over_tool)
  have "class_finding (filter is_asserted ts) accepted (filter sinks_external (filter is_asserted ts)) = row_finding D rows accepted"
    unfolding class_finding_names [abs_def] row_finding_def [abs_def] names entry_over_tool ..
  then show ?thesis unfolding analyze_toolset_def Let_def by simp
qed

lemma analyze_paths: "fr_pairwise_paths (analyze_toolset ts accepted) = concat (map finding_paths (fr_findings (analyze_toolset ts accepted)))"
  by (simp add: analyze_toolset_def Let_def)

lemma distinct_keys: "distinct (map f xs) \<Longrightarrow> distinct xs"
  by (simp add: distinct_map)

lemma toolset_mset:
  assumes "distinct (map tool_key rows)" "set ids \<subseteq> set (map tool_key rows)" "\<And>row. fst (e row) = tool_key row"
    "\<And>row. tool_id (snd (e row)) = tool_key row"
  shows "mset (toolset (holding (map e rows)) ids) = mset (map (snd \<circ> e) (filter (\<lambda>row. tool_key row \<in> set ids) rows))"
proof -
  have get: "dict_get (map e rows) (tool_key row) = Some (snd (e row))" if "row \<in> set rows" for row
  proof (rule map_of_is_SomeI)
    have "map fst (map e rows) = map tool_key rows" by (simp add: comp_def assms(3))
    then show "distinct (map fst (map e rows))" using assms(1) by (simp only:)
    have "e row = (tool_key row, snd (e row))" using assms(3) by (metis prod.collapse)
    then show "(tool_key row, snd (e row)) \<in> set (map e rows)" using that by (metis image_eqI set_map)
  qed
  have key: "\<exists>row \<in> set rows. tool_key row = tid" if "tid \<in> set ids" for tid using assms(2) that by auto
  have ids: "set (sort_ids ids) = set ids" "distinct (sort_ids ids)" by (simp_all add: sort_ids_def)
  have tools: "toolset (holding (map e rows)) ids = map (\<lambda>tid. the (dict_get (map e rows) tid)) (sort_ids ids)"
  proof -
    have "List.map_filter (dict_get (map e rows)) tids = map (\<lambda>tid. the (dict_get (map e rows) tid)) tids"
      if "set tids \<subseteq> set ids" for tids
      using that by (induction tids) (use get key in \<open>auto simp: List.map_filter_simps, force\<close>)
    then show ?thesis using ids(1) by (simp add: toolset_def holding_def)
  qed
  have d1: "distinct (map (\<lambda>tid. the (dict_get (map e rows) tid)) (sort_ids ids))"
  proof (rule distinct_keys)
    have "tool_id (the (dict_get (map e rows) tid)) = tid" if "tid \<in> set ids" for tid
      using key [OF that] get assms(4) by auto
    then have "map tool_id (map (\<lambda>tid. the (dict_get (map e rows) tid)) (sort_ids ids)) = sort_ids ids"
      unfolding map_map by (intro map_idI) (simp add: ids(1))
    then show "distinct (map tool_id (map (\<lambda>tid. the (dict_get (map e rows) tid)) (sort_ids ids)))" using ids(2) by (simp only:)
  qed
  have d2: "distinct (map (snd \<circ> e) (filter (\<lambda>row. tool_key row \<in> set ids) rows))"
  proof (rule distinct_keys)
    have "map tool_id (map (snd \<circ> e) xs) = map tool_key xs" for xs by (simp add: assms(4))
    then show "distinct (map tool_id (map (snd \<circ> e) (filter (\<lambda>row. tool_key row \<in> set ids) rows)))"
      using distinct_map_filter [OF assms(1)] by (simp only:)
  qed
  have "(\<lambda>tid. the (dict_get (map e rows) tid)) ` set ids = (snd \<circ> e) ` {row \<in> set rows. tool_key row \<in> set ids}"
  proof (intro equalityI subsetI)
    fix tv assume "tv \<in> (\<lambda>tid. the (dict_get (map e rows) tid)) ` set ids"
    then obtain tid row where "tid \<in> set ids" "tv = the (dict_get (map e rows) tid)" "row \<in> set rows" "tool_key row = tid"
      using key by blast
    then show "tv \<in> (snd \<circ> e) ` {row \<in> set rows. tool_key row \<in> set ids}" using get [of row] by auto
  next
    fix tv assume "tv \<in> (snd \<circ> e) ` {row \<in> set rows. tool_key row \<in> set ids}"
    then obtain row where "row \<in> set rows" "tool_key row \<in> set ids" "tv = snd (e row)" by auto
    then show "tv \<in> (\<lambda>tid. the (dict_get (map e rows) tid)) ` set ids"
      using get [of row] by (intro image_eqI [of _ _ "tool_key row"]) simp_all
  qed
  then have "set (map (\<lambda>tid. the (dict_get (map e rows) tid)) (sort_ids ids)) =
      set (map (snd \<circ> e) (filter (\<lambda>row. tool_key row \<in> set ids) rows))"
    using ids(1) by simp
  then show ?thesis unfolding tools set_eq_iff_mset_eq_distinct [OF d1 d2] .
qed

section \<open>Resolving and re-asserting on the fixture\<close>

definition grant_ids :: "ToolId list" where
  "grant_ids = map (\<lambda>name. the (List.find (\<lambda>tid. snd tid = name) (map tool_key TOOLS))) CODING_AGENT_TOOLSET"

lemma keys_entries: "(\<And>row. fst (e row) = tool_key row) \<Longrightarrow> dict_keys (map e rows) = map tool_key rows"
  by simp

lemma resolve_rows:
  assumes "\<And>row. fst (e row) = tool_key row"
  shows "resolve (holding (map e TOOLS)) name =
    (case filter (\<lambda>tid. snd tid = name) (map tool_key TOOLS) of [] \<Rightarrow> Inl KeyError | [tid] \<Rightarrow> Inr tid | _ \<Rightarrow> Inl AmbiguousToolName)"
proof -
  have "find_all (holding (map e TOOLS)) name = filter (\<lambda>tid. snd tid = name) (map tool_key TOOLS)"
    unfolding find_all_def holding_def by (simp add: comp_def assms)
  then show ?thesis by (simp add: resolve_def)
qed

lemma unique_names:
  "map_result (\<lambda>name. case filter (\<lambda>tid. snd tid = name) (map tool_key TOOLS) of
     [] \<Rightarrow> Inl KeyError | [tid] \<Rightarrow> Inr tid | _ \<Rightarrow> Inl AmbiguousToolName) CODING_AGENT_TOOLSET = Inr grant_ids"
  by code_simp

lemma grant_ids_known: "set grant_ids \<subseteq> set (map tool_key TOOLS)"
  by code_simp

lemma select_rows:
  assumes "\<And>row. fst (e row) = tool_key row" "\<And>row. tool_id (snd (e row)) = tool_key row"
  shows "\<exists>ts. select (holding (map e TOOLS)) CODING_AGENT_TOOLSET = Inr ts \<and>
    mset ts = mset (map (snd \<circ> e) (filter (\<lambda>row. tool_key row \<in> set grant_ids) TOOLS))"
proof -
  have "map_result (resolve (holding (map e TOOLS))) CODING_AGENT_TOOLSET = Inr grant_ids"
    using unique_names unfolding resolve_rows [where e = e, OF assms(1), abs_def] .
  then show ?thesis
    using toolset_mset [OF tools_distinct grant_ids_known assms] by (simp add: select_def)
qed

definition grant_rows :: "labelled_tool list" where
  "grant_rows = filter (\<lambda>row. tool_key row \<in> set grant_ids) TOOLS"

lemma dict_set_rows:
  assumes "distinct (map tool_key rows)" "row \<in> set rows"
  shows "dict_set (tool_key row) v (map (entry_over D) rows) =
    map (\<lambda>r. if tool_key r = tool_key row then (tool_key row, v) else entry_over D r) rows"
  using assms
proof (induction rows)
  case (Cons r rows)
  obtain k w where r: "entry_over D r = (k, w)" by fastforce
  then have k: "k = tool_key r" by (metis entry_over_key fst_conv)
  show ?case
  proof (cases "tool_key r = tool_key row")
    case True
    then have "tool_key row \<notin> tool_key ` set rows" using Cons.prems(1) by auto
    then have "map (\<lambda>r. if tool_key r = tool_key row then (tool_key row, v) else entry_over D r) rows = map (entry_over D) rows"
      by (intro map_cong refl) (metis imageI)
    then show ?thesis using True r k by simp
  next
    case False
    then show ?thesis using Cons r k by auto
  qed
qed simp

lemma rescope_rows:
  assumes "row \<in> set TOOLS" "map_of D (tool_key row) = None"
    and "filter (\<lambda>tid. snd tid = fst (snd row)) (map tool_key TOOLS) = [tool_key row]"
  shows "rescope_in (fst (snd row), reads) (map (entry_over D) TOOLS) = Inr (map (entry_over ((tool_key row, reads) # D)) TOOLS)"
proof -
  have res: "resolve (holding (map (entry_over D) TOOLS)) (fst (snd row)) = Inr (tool_key row)"
    by (simp add: resolve_rows assms(3))
  have key: "(fst (tool_key row), fst (snd row)) = tool_key row" by (simp add: tool_key_def)
  have entry: "entry_over D row = tool_entry True row" using assms(2) by (simp add: entry_over_def)
  have "dict_get (map (entry_over D) TOOLS) (tool_key row) = Some (snd (tool_entry True row))"
  proof (rule map_of_is_SomeI)
    show "distinct (map fst (map (entry_over D) TOOLS))" using tools_distinct by (simp add: comp_def)
    have "entry_over D row = (tool_key row, snd (tool_entry True row))" using entry by (metis entry_over_key prod.collapse)
    then show "(tool_key row, snd (tool_entry True row)) \<in> set (map (entry_over D) TOOLS)" using assms(1) by (metis image_eqI set_map)
  qed
  moreover have "map (\<lambda>r. if tool_key r = tool_key row then (tool_key row, (snd (tool_entry True row))\<lparr>tv_asserted := Some (replace_reads
      (operator_label (fst row) (fst (snd row)) (fst (snd (snd row))) (fst (snd (snd (snd row)))) (snd (snd (snd (snd row))))) (set reads) ''project-root'')\<rparr>)
      else entry_over D r) TOOLS = map (entry_over ((tool_key row, reads) # D)) TOOLS"
  proof (rule map_cong [OF refl])
    fix r assume "r \<in> set TOOLS"
    then have "tool_key r = tool_key row \<Longrightarrow> r = row" using tools_distinct assms(1) by (auto simp: distinct_map dest: inj_onD)
    then show "(if tool_key r = tool_key row then (tool_key row, (snd (tool_entry True row))\<lparr>tv_asserted := Some (replace_reads
      (operator_label (fst row) (fst (snd row)) (fst (snd (snd row))) (fst (snd (snd (snd row)))) (snd (snd (snd (snd row))))) (set reads) ''project-root'')\<rparr>)
      else entry_over D r) = entry_over ((tool_key row, reads) # D) r"
      by (auto simp: entry_over_def)
  qed
  moreover have "tv_asserted (snd (tool_entry True row)) = Some
      (operator_label (fst row) (fst (snd row)) (fst (snd (snd row))) (fst (snd (snd (snd row)))) (snd (snd (snd (snd row)))))"
    by (cases row) (simp add: tool_entry_def)
  ultimately show ?thesis
    by (simp add: rescope_in_def res key dict_set_rows [OF tools_distinct assms(1)])
qed

definition project_root :: "(ToolId \<times> DataClass list) list" where
  "project_root = [((''agentconnect'', ''get_task_context_pack''), [INTERNAL]), ((''agentconnect'', ''read_artifact_chunk''), [INTERNAL]),
     ((''filesystem'', ''read_file''), [INTERNAL])]"

lemma tool_entry_over: "tool_entry True = entry_over []"
  by (intro ext) (simp add: entry_over_def)

lemma rescope_fixture: "each rescope_in narrowed (map (tool_entry True) TOOLS) = Inr (map (entry_over project_root) TOOLS)"
proof -
  let ?file = "(''filesystem'', ''read_file'', READ, [INTERNAL, SECRET, CREDENTIAL], []) :: labelled_tool"
  let ?chunk = "(''agentconnect'', ''read_artifact_chunk'', READ, [INTERNAL, SECRET], []) :: labelled_tool"
  let ?pack = "(''agentconnect'', ''get_task_context_pack'', READ, [INTERNAL, SECRET], []) :: labelled_tool"
  have rows: "?file \<in> set TOOLS" "?chunk \<in> set TOOLS" "?pack \<in> set TOOLS" by (simp_all add: TOOLS_def)
  have names: "filter (\<lambda>tid. snd tid = ''read_file'') (map tool_key TOOLS) = [tool_key ?file]"
    "filter (\<lambda>tid. snd tid = ''read_artifact_chunk'') (map tool_key TOOLS) = [tool_key ?chunk]"
    "filter (\<lambda>tid. snd tid = ''get_task_context_pack'') (map tool_key TOOLS) = [tool_key ?pack]" by code_simp+
  show ?thesis
    unfolding tool_entry_over narrowed_def project_root_def
    using rescope_rows [OF rows(1), of "[]" "[INTERNAL]"] rescope_rows [OF rows(2), of "[(tool_key ?file, [INTERNAL])]" "[INTERNAL]"]
      rescope_rows [OF rows(3), of "[(tool_key ?chunk, [INTERNAL]), (tool_key ?file, [INTERNAL])]" "[INTERNAL]"] names
    by (simp add: tool_key_def)
qed

definition full_findings :: "FlowFinding list" where
  "full_findings = List.map_filter (row_finding [] TOOLS {}) tracked_sources"

definition grant_findings :: "(ToolId \<times> DataClass list) list \<Rightarrow> (DataClass \<times> DataClass) set \<Rightarrow> string list \<Rightarrow> FlowFinding list" where
  "grant_findings D accepted removed =
     List.map_filter (row_finding D (filter (\<lambda>r. fst (snd r) \<notin> set removed) grant_rows) accepted) tracked_sources"

lemma grant_rows_eval: "grant_rows =
  [(''agentconnect'', ''create_task'', WRITE, [INTERNAL], [INTERNAL]), (''agentconnect'', ''record_decision'', WRITE, [INTERNAL], [INTERNAL]),
   (''agentconnect'', ''read_artifact_chunk'', READ, [INTERNAL, SECRET], []),
   (''agentconnect'', ''get_task_context_pack'', READ, [INTERNAL, SECRET], []),
   (''brainconnect'', ''brain_recall'', READ, [INTERNAL], []), (''brainconnect'', ''brain_capture'', WRITE, [INTERNAL], [INTERNAL]),
   (''filesystem'', ''read_file'', READ, [INTERNAL, SECRET, CREDENTIAL], []), (''filesystem'', ''write_file'', WRITE, [], [INTERNAL]),
   (''filesystem'', ''edit_file'', WRITE, [INTERNAL], [INTERNAL]), (''filesystem'', ''list_directory'', READ, [INTERNAL], []),
   (''filesystem'', ''search_files'', READ, [INTERNAL], []), (''github'', ''create_or_update_file'', EXTERNAL, [], [EXTERNAL_CLASS]),
   (''github'', ''push_files'', EXTERNAL, [], [EXTERNAL_CLASS]), (''github'', ''create_issue'', EXTERNAL, [], [EXTERNAL_CLASS]),
   (''github'', ''create_pull_request'', EXTERNAL, [], [EXTERNAL_CLASS]), (''fetch'', ''fetch'', EXTERNAL, [EXTERNAL_CLASS, PUBLIC], [EXTERNAL_CLASS])]"
  by code_simp

lemma full_eval:
  "map flow_describe full_findings = [''secret -> external: 5 reader(s) x 11 sink(s) = 55 path(s)'',
     ''credential -> external: 3 reader(s) x 11 sink(s) = 33 path(s)'', ''pii -> external: 2 reader(s) x 11 sink(s) = 22 path(s)'']"
  "length (concat (map finding_paths full_findings)) = 110"
  by code_simp+

definition five_sinks :: "string list" where
  "five_sinks = [''create_issue'', ''create_or_update_file'', ''create_pull_request'', ''fetch'', ''push_files'']"

definition secret_finding :: FlowFinding where
  "secret_finding = \<lparr>ff_source_class = SECRET, ff_sink_class = EXTERNAL_CLASS,
     ff_readers = [''get_task_context_pack'', ''read_artifact_chunk'', ''read_file''], ff_sinks = five_sinks\<rparr>"

definition credential_finding :: FlowFinding where
  "credential_finding = \<lparr>ff_source_class = CREDENTIAL, ff_sink_class = EXTERNAL_CLASS, ff_readers = [''read_file''], ff_sinks = five_sinks\<rparr>"

lemma grant_eval:
  "grant_findings [] {} [] = [secret_finding, credential_finding]"
  "grant_findings [] {(SECRET, EXTERNAL_CLASS)} [] = [credential_finding]"
  "grant_findings [] {} five_sinks = []"
  "grant_findings project_root {} [] = []"
  unfolding grant_findings_def grant_rows_eval by code_simp+

lemma grant_analysis:
  assumes "mset ts = mset (map (snd \<circ> entry_over D) grant_rows)"
  shows "fr_findings (analyze_toolset ts accepted) = grant_findings D accepted []"
    and "fr_findings (analyze_toolset (filter (\<lambda>t. tr_name (tv_ref t) \<notin> set removed) ts) accepted) = grant_findings D accepted removed"
proof -
  show "fr_findings (analyze_toolset ts accepted) = grant_findings D accepted []"
    using analyze_rows [OF assms] by (simp add: grant_findings_def)
  have "mset (filter (\<lambda>t. tr_name (tv_ref t) \<notin> set removed) ts) =
      mset (map (snd \<circ> entry_over D) (filter (\<lambda>r. fst (snd r) \<notin> set removed) grant_rows))"
    using arg_cong [OF assms, of "filter_mset (\<lambda>t. tr_name (tv_ref t) \<notin> set removed)"]
    by (simp only: mset_filter [symmetric] filter_map comp_def entry_over_tool)
  from analyze_rows [OF this] show "fr_findings (analyze_toolset (filter (\<lambda>t. tr_name (tv_ref t) \<notin> set removed) ts) accepted) =
      grant_findings D accepted removed" by (simp add: grant_findings_def)
qed

lemma raw_analysis:
  assumes "mset ts = mset (map (snd \<circ> tool_entry False) grant_rows)"
  shows "fr_findings (analyze_toolset ts {}) = []" "length (fr_unlabeled (analyze_toolset ts {})) = 16"
proof -
  have "set ts = (snd \<circ> tool_entry False) ` set grant_rows" using arg_cong [OF assms, of set_mset] by simp
  then have bare: "\<not> is_asserted t" if "t \<in> set ts" for t
    using that by (auto simp: tool_entry_def is_asserted_def unvouched_def)
  then have none: "filter is_asserted ts = []" "filter (\<lambda>t. \<not> is_asserted t) ts = ts" by (auto simp: filter_empty_conv filter_id_conv)
  have "length ts = 16" using arg_cong [OF assms, of size] by (simp add: grant_rows_eval)
  then show "fr_findings (analyze_toolset ts {}) = []" "length (fr_unlabeled (analyze_toolset ts {})) = 16"
    unfolding analyze_toolset_def Let_def none by (auto simp: List.map_filter_def class_finding_def tracked_sources_def)
qed

text \<open>
  What the script prints. The full catalog has 110 reader-sink pairs in three findings, a realistic grant
  20 in two; accepting one class pair removes 15 of them, narrowing the scope of three readers all, and
  without labels there is silence. The numbers are those of the code, computed from the fixture.
\<close>

theorem flow_experiment_output:
  "flow_experiment = Inr
     \<lparr>fo_catalog = (53, 8),
      fo_full = ([''secret -> external: 5 reader(s) x 11 sink(s) = 55 path(s)'',
                  ''credential -> external: 3 reader(s) x 11 sink(s) = 33 path(s)'',
                  ''pii -> external: 2 reader(s) x 11 sink(s) = 22 path(s)''], 3, 110),
      fo_grant = (16,
        [(''secret -> external: 3 reader(s) x 5 sink(s) = 15 path(s)'',
          [''get_task_context_pack'', ''read_artifact_chunk'', ''read_file''],
          [''create_issue'', ''create_or_update_file'', ''create_pull_request'', ''fetch'', ''push_files'']),
         (''credential -> external: 1 reader(s) x 5 sink(s) = 5 path(s)'', [''read_file''],
          [''create_issue'', ''create_or_update_file'', ''create_pull_request'', ''fetch'', ''push_files''])], 2, 20),
      fo_accepted = (1, 15, [''credential'']),
      fo_trace = ([(''get_task_context_pack'', False, True), (''read_artifact_chunk'', True, True), (''read_file'', True, False)], 3, 3),
      fo_cut = ([''create_issue'', ''create_or_update_file'', ''create_pull_request'', ''fetch'', ''push_files''],
                [''get_task_context_pack'', ''read_artifact_chunk'', ''read_file''], 0),
      fo_burden = (53, 6, 7, [''fetch'', ''query'', ''read_artifact_chunk'', ''read_file'', ''read_multiple_files'',
                             ''run_command'', ''write_file'']),
      fo_scoped = (0, 0), fo_raw = (0, 16)\<rparr>"
proof -
  let ?all = "toolset (holding (map (entry_over []) TOOLS)) (map tool_key TOOLS)"
  have all: "mset ?all = mset (map (snd \<circ> entry_over []) TOOLS)"
  proof -
    have "filter (\<lambda>row. tool_key row \<in> set (map tool_key TOOLS)) TOOLS = TOOLS" by (simp add: filter_id_conv)
    then show ?thesis
      using toolset_mset [OF tools_distinct subset_refl, of "entry_over []"] by (simp only: entry_over_key entry_over_tool simp_thms)
  qed
  obtain grant scoped raw where sel:
      "select (holding (map (entry_over []) TOOLS)) CODING_AGENT_TOOLSET = Inr grant" "mset grant = mset (map (snd \<circ> entry_over []) grant_rows)"
      "select (holding (map (entry_over project_root) TOOLS)) CODING_AGENT_TOOLSET = Inr scoped"
      "mset scoped = mset (map (snd \<circ> entry_over project_root) grant_rows)"
      "select (holding (map (tool_entry False) TOOLS)) CODING_AGENT_TOOLSET = Inr raw" "mset raw = mset (map (snd \<circ> tool_entry False) grant_rows)"
  proof -
    have plain: "tool_id (snd (tool_entry False row)) = tool_key row" for row
      by (cases row) (simp add: tool_entry_def unvouched_def tool_id_def tool_key_def)
    show ?thesis
      using that select_rows [of "entry_over []"] select_rows [of "entry_over project_root"] select_rows [of "tool_entry False", OF _ plain]
      unfolding grant_rows_def by (auto simp: entry_over_tool)
  qed
  have keys: "map fst (map (entry_over []) TOOLS) = map tool_key TOOLS" by simp
  have full: "fr_findings (analyze_toolset ?all {}) = full_findings" by (simp add: full_findings_def analyze_rows [OF all])
  have sections: "flow_experiment = Inr (printed_sections (length TOOLS, length SOURCES) ?all grant scoped raw)"
    unfolding flow_experiment_sections flow_sections_def Let_def rescope_fixture
    by (simp only: tool_entry_over keys sel bind_result.simps)
  have sizes: "length TOOLS = 53" "length SOURCES = 8" "length CODING_AGENT_TOOLSET = 16" "length AMBIGUOUS = 6" "length ARG_DEPENDENT = 7"
    "length full_findings = 3" by code_simp+
  have sinks: "finding_sinks (analyze_toolset grant {}) = five_sinks"
    "finding_readers (analyze_toolset grant {}) = [''get_task_context_pack'', ''read_artifact_chunk'', ''read_file'']"
    unfolding finding_sinks_def finding_readers_def grant_analysis [OF sel(2)] grant_eval by code_simp+
  have burden: "py_sorted_set ARG_DEPENDENT = [''fetch'', ''query'', ''read_artifact_chunk'', ''read_file'', ''read_multiple_files'',
      ''run_command'', ''write_file'']" by code_simp
  have described: "map (\<lambda>f. (flow_describe f, ff_readers f, ff_sinks f)) [secret_finding, credential_finding] =
        [(''secret -> external: 3 reader(s) x 5 sink(s) = 15 path(s)'',
          [''get_task_context_pack'', ''read_artifact_chunk'', ''read_file''],
          [''create_issue'', ''create_or_update_file'', ''create_pull_request'', ''fetch'', ''push_files'']),
         (''credential -> external: 1 reader(s) x 5 sink(s) = 5 path(s)'', [''read_file''],
          [''create_issue'', ''create_or_update_file'', ''create_pull_request'', ''fetch'', ''push_files''])]"
    "length (concat (map finding_paths [secret_finding, credential_finding])) = 20"
    "length (concat (map finding_paths [credential_finding])) = 5"
    "map (class_value \<circ> ff_source_class) [credential_finding] = [''credential'']"
    by code_simp+
  have traced: "map (\<lambda>r. (r, r \<in> set ARG_DEPENDENT, r \<in> set AMBIGUOUS)) [''get_task_context_pack'', ''read_artifact_chunk'', ''read_file''] =
      [(''get_task_context_pack'', False, True), (''read_artifact_chunk'', True, True), (''read_file'', True, False)]"
    "filter (\<lambda>r. r \<in> set ARG_DEPENDENT \<or> r \<in> set AMBIGUOUS) [''get_task_context_pack'', ''read_artifact_chunk'', ''read_file''] =
      [''get_task_context_pack'', ''read_artifact_chunk'', ''read_file'']"
    by code_simp+
  show ?thesis
    unfolding sections printed_sections_def Let_def sizes_def analyze_paths full grant_analysis [OF sel(2)] grant_analysis [OF sel(4)]
      raw_analysis [OF sel(6)] grant_eval full_eval sizes sinks burden described traced
    by (simp add: five_sinks_def)
qed

end
