(* ===== verification/Interleaving.thy ===== *)
theory Interleaving
  imports Service_Authorize
begin

text \<open>
  Several threads in one process. \<open>ToolConnectService.authorize\<close> takes \<open>_authz_lock\<close> from the broker call
  to the insertion of the grant; every method of the store takes a lock of its own, and no other
  handler takes \<open>_authz_lock\<close>. A thread that authorizes is therefore a machine whose steps are the
  operations between which another thread can run, and all that other handlers do, whole or in part,
  is a step that keeps what every store operation keeps and leaves the list of decisions alone
  (\<open>bystander\<close>). The broker's reads of the catalog are one step. Parsing the request and publishing the events happen before and after, outside the lock.
\<close>

section \<open>The steps of an authorization under the lock\<close>

text \<open>A request that passed its checks: the principal, the tool, the context, and the bound hash and ttl.\<close>

record call =
  ca_principal :: Principal
  ca_source :: string
  ca_name :: string
  ca_context :: json
  ca_bound :: "(string \<times> int) option"

datatype phase =
    Waiting call
  | Deciding call
  | Recording call Decision
  | Logging call Decision "(string \<times> json) list"
  | Reading call Decision
  | Issuing call Decision string
  | Returned call Decision string "IssuedGrant option"
  | Raised call exn

text \<open>The phases in which the thread holds \<open>_authz_lock\<close>.\<close>

fun critical :: "phase \<Rightarrow> bool" where
  "critical (Deciding c) = True"
| "critical (Recording c d) = True"
| "critical (Logging c d body) = True"
| "critical (Reading c d) = True"
| "critical (Issuing c d did) = True"
| "critical ph = False"

text \<open>\<open>_PersistentAuditLog.append\<close> up to the list: the record with its identifier is in the store.\<close>

definition record_decision :: "call \<Rightarrow> Decision \<Rightarrow> (service, (string \<times> json) list) sx" where
  "record_decision c d =
     sx_bind (on_store uuid4_hex) (\<lambda>u.
     let rec = decision_record (ca_principal c) (ca_source c) (ca_name c) d;
         body = (if dict_get rec ''decision_id'' = None then dict_set ''decision_id'' (JStr u) rec else rec)
     in sx_bind (on_store (append_audit ''decision'' body)) (\<lambda>_. sx_return body))"

definition proceed :: "call \<Rightarrow> ('a \<Rightarrow> phase) \<Rightarrow> 'a result \<times> service \<Rightarrow> phase \<times> service" where
  "proceed c next_phase rs = (case rs of (Inl e, s) \<Rightarrow> (Raised c e, s) | (Inr a, s) \<Rightarrow> (next_phase a, s))"

text \<open>One step of the holder; the last one, and any that raises, also releases the lock.\<close>

fun advance :: "deps \<Rightarrow> phase \<Rightarrow> service \<Rightarrow> phase \<times> service" where
  "advance dp (Deciding c) s =
     proceed c (Recording c)
       (broker_decision (dp_engine dp) (sv_catalog s) (ca_principal c) (ca_source c) (ca_name c) (ca_context c), s)"
| "advance dp (Recording c d) s = proceed c (Logging c d) (record_decision c d s)"
| "advance dp (Logging c d body) s = (Reading c d, s\<lparr>sv_audit_log := sv_audit_log s @ [body]\<rparr>)"
| "advance dp (Reading c d) s = proceed c (Issuing c d) (last_decision_id s)"
| "advance dp (Issuing c d did) s =
     proceed c (Returned c d did) (grant_step (ca_bound c) (ca_principal c) (ca_source c) (ca_name c) d did s)"
| "advance dp ph s = (ph, s)"

section \<open>Interleaving\<close>

text \<open>What any step of another handler does to the service.\<close>

definition bystander :: "service \<Rightarrow> service \<Rightarrow> bool" where
  "bystander s s' \<longleftrightarrow> evolves s s' \<and> sv_audit_log s' = sv_audit_log s"

record process =
  pr_service :: service
  pr_owner :: "nat option"
  pr_phase :: "nat \<Rightarrow> phase"

inductive thread_step :: "deps \<Rightarrow> process \<Rightarrow> process \<Rightarrow> bool" for dp :: deps where
  acquire: "pr_phase x i = Waiting c \<Longrightarrow> pr_owner x = None \<Longrightarrow>
     thread_step dp x (x\<lparr>pr_owner := Some i, pr_phase := (pr_phase x)(i := Deciding c)\<rparr>)"
| holder: "pr_owner x = Some i \<Longrightarrow> advance dp (pr_phase x i) (pr_service x) = (ph, s) \<Longrightarrow>
     thread_step dp x (x\<lparr>pr_service := s, pr_owner := (if critical ph then Some i else None), pr_phase := (pr_phase x)(i := ph)\<rparr>)"
| other: "bystander (pr_service x) s \<Longrightarrow> thread_step dp x (x\<lparr>pr_service := s\<rparr>)"

text \<open>Threads about to authorize, the lock free, no transaction open.\<close>

definition started :: "(nat \<Rightarrow> call) \<Rightarrow> process \<Rightarrow> bool" where
  "started calls x \<longleftrightarrow> pr_owner x = None \<and> (\<forall>i. pr_phase x i = Waiting (calls i)) \<and> idle (sv_store (pr_service x))"

section \<open>Every other handler is a bystander\<close>

interpretation bystander: catalog_handlers bystander kept
proof unfold_locales
  show "bystander s s" for s by (simp add: bystander_def evolves.refl)
  show "bystander s t \<Longrightarrow> bystander t u \<Longrightarrow> bystander s u" for s t u
    unfolding bystander_def using evolves.trans by auto
  show "kept (sv_store s) t \<Longrightarrow> bystander s (s\<lparr>sv_store := t\<rparr>)" for s t
    using evolves.store_lift by (simp add: bystander_def)
  show "bystander s (s\<lparr>sv_bus := b\<rparr>)" for s b
    using evolves.bus_aside by (simp add: bystander_def)
  show "cat_step (sv_catalog s) cat \<Longrightarrow> bystander s (s\<lparr>sv_catalog := cat\<rparr>)" for s cat
    using evolves.catalog_aside by (simp add: bystander_def)
qed (rule kept_upserts evolves.on_tables evolves.append_audit evolves.issue_grant evolves.redeem_store_grant
    evolves.close_store_grant evolves.govgrant; assumption?)+

fun authorizes :: "service_request \<Rightarrow> bool" where
  "authorizes (ReqAuthorize p sid name context args ttl) = True"
| "authorizes req = False"

lemmas bystander_handlers = bystander.register_source bystander.ingest bystander.ingest_payload bystander.get_tool
  bystander.assert_tool bystander.redeem_grant bystander.redeem_governance bystander.close_grant bystander.record_outcome
  bystander.reading

lemma bystander_request: "\<not> authorizes req \<Longrightarrow> serve_request dp say req s = (evs, s') \<Longrightarrow> bystander s s'"
  by (cases req) (auto split: prod.splits dest: withinD [OF bystander.redeem_grant] withinD [OF bystander.redeem_governance]
      intro: bystander_handlers [unfolded within_def, rule_format])

section \<open>Without interruption the steps are \<open>authorize\<close>\<close>

abbreviation steps :: "deps \<Rightarrow> nat \<Rightarrow> phase \<times> service \<Rightarrow> phase \<times> service" where
  "steps dp n \<equiv> (\<lambda>(ph, s). advance dp ph s) ^^ n"

text \<open>Five steps from the acquired lock are the handler between its checks and its publications.\<close>

theorem authorize_alone:
  assumes "check_request ctx args ttl = Inr req" "parse_principal pv = Inr p"
  shows "\<exists>ph s'. steps dp 5 (Deciding \<lparr>ca_principal = p, ca_source = sid, ca_name = name, ca_context = context_or_empty ctx, ca_bound = req\<rparr>, s)
      = (ph, s') \<and>
    (case ph of
       Returned c d did g \<Rightarrow> authorize dp pv sid name ctx args ttl s =
         (Inr (decision_payload d did @ (if req = None then [] else [(''grant'', grant_json g)])),
          snd (publish_decision p sid name d did (map_option fst req) g s'))
     | Raised c e \<Rightarrow> authorize dp pv sid name ctx args ttl s = (Inl e, s')
     | _ \<Rightarrow> False)"
proof -
  let ?c = "\<lparr>ca_principal = p, ca_source = sid, ca_name = name, ca_context = context_or_empty ctx, ca_bound = req\<rparr>"
  have auth: "authorize dp pv sid name ctx args ttl s =
      sx_bind (broker_call dp p sid name (context_or_empty ctx)) (\<lambda>d.
      sx_bind last_decision_id (\<lambda>did.
      sx_bind (grant_step req p sid name d did) (\<lambda>g.
      sx_bind (publish_decision p sid name d did (map_option fst req) g) (\<lambda>_.
      sx_return (decision_payload d did @ (if req = None then [] else [(''grant'', grant_json g)])))))) s"
    using assms unfolding authorize_def grant_step_def [symmetric] by (simp add: sx_bind_def sx_lift_def)
  have call: "broker_call dp p sid name (context_or_empty ctx) s =
     (case broker_decision (dp_engine dp) (sv_catalog s) p sid name (context_or_empty ctx) of
        Inl e \<Rightarrow> (Inl e, s)
      | Inr d \<Rightarrow> (case record_decision ?c d s of
          (Inl e, t) \<Rightarrow> (Inl e, t)
        | (Inr body, t) \<Rightarrow> (Inr d, t\<lparr>sv_audit_log := sv_audit_log t @ [body]\<rparr>)))"
    by (auto simp: broker_call_def audit_log_append_def record_decision_def sx_bind_def sx_get_def sx_lift_def sx_return_def
        sx_modify_def Let_def split: sum.split prod.split)
  have published: "\<exists>s3. publish_decision p sid name d did b g s2 = (Inr (), s3)" for d did b g s2 by (rule publish_decision_returns)
  obtain q d where q: "q = broker_decision (dp_engine dp) (sv_catalog s) p sid name (context_or_empty ctx)" "q = Inr d \<or> (\<exists>e. q = Inl e)"
    by (cases "broker_decision (dp_engine dp) (sv_catalog s) p sid name (context_or_empty ctx)") auto
  obtain z t where z: "record_decision ?c d s = (z, t)" by fastforce
  obtain body where body: "z = Inr body \<or> (\<exists>e. z = Inl e)" by (cases z) auto
  obtain l t2 where l: "last_decision_id (t\<lparr>sv_audit_log := sv_audit_log t @ [body]\<rparr>) = (l, t2)" by fastforce
  obtain did where did: "l = Inr did \<or> (\<exists>e. l = Inl e)" by (cases l) auto
  obtain g t3 where g: "grant_step req p sid name d did t2 = (g, t3)" by fastforce
  obtain ig where ig: "g = Inr ig \<or> (\<exists>e. g = Inl e)" by (cases g) auto
  obtain s3 where s3: "publish_decision p sid name d did (map_option fst req) ig t3 = (Inr (), s3)" using published by blast
  show ?thesis
    unfolding auth using q(2) body did ig
    by (elim disjE exE; simp add: call q(1) [symmetric] z l g s3 proceed_def eval_nat_numeral sx_bind_def sx_return_def)
qed

section \<open>What holds between the steps\<close>

text \<open>The decision with this identifier is in the audit table, for this principal and tool.\<close>

definition decided :: "tables \<Rightarrow> call \<Rightarrow> Decision \<Rightarrow> string \<Rightarrow> bool" where
  "decided t c d did \<longleftrightarrow> (\<exists>row \<in> set (t_audit t). au_kind row = ''decision'' \<and>
     au_body row = canonical (JDict (decision_record (ca_principal c) (ca_source c) (ca_name c) d @ [(''decision_id'', JStr did)])))"

text \<open>It is what the broker says on a catalog the service went through.\<close>

definition justified :: "deps \<Rightarrow> Catalog \<Rightarrow> Catalog \<Rightarrow> call \<Rightarrow> Decision \<Rightarrow> bool" where
  "justified dp first_cat last_cat c d \<longleftrightarrow> (\<exists>cat. cat_step\<^sup>*\<^sup>* first_cat cat \<and> cat_step\<^sup>*\<^sup>* cat last_cat \<and>
     broker_decision (dp_engine dp) cat (ca_principal c) (ca_source c) (ca_name c) (ca_context c) = Inr d)"

text \<open>A grant was issued exactly for an allowed call that bound arguments; its row names the decision,
  the principal, the tool and the digest of the very call.\<close>

definition granted :: "tables \<Rightarrow> call \<Rightarrow> Decision \<Rightarrow> string \<Rightarrow> IssuedGrant option \<Rightarrow> bool" where
  "granted t c d did g \<longleftrightarrow>
     (case g of
        None \<Rightarrow> ca_bound c = None \<or> \<not> d_allowed d
      | Some ig \<Rightarrow> d_allowed d \<and> (\<exists>h ttl row. ca_bound c = Some (h, ttl) \<and> dict_get (t_grants t) (ig_grant_id ig) = Some row \<and>
          gr_decision_id row = did \<and> gr_principal_id row = p_id (ca_principal c) \<and> gr_source_id row = ca_source c \<and>
          gr_name row = ca_name c \<and> gr_args_hash row = h))"

fun phase_call :: "phase \<Rightarrow> call" where
  "phase_call (Waiting c) = c"
| "phase_call (Deciding c) = c"
| "phase_call (Recording c d) = c"
| "phase_call (Logging c d body) = c"
| "phase_call (Reading c d) = c"
| "phase_call (Issuing c d did) = c"
| "phase_call (Returned c d did g) = c"
| "phase_call (Raised c e) = c"

abbreviation named_record :: "call \<Rightarrow> Decision \<Rightarrow> string \<Rightarrow> (string \<times> json) list" where
  "named_record c d did \<equiv> decision_record (ca_principal c) (ca_source c) (ca_name c) d @ [(''decision_id'', JStr did)]"

abbreviation service_tables :: "service \<Rightarrow> tables" where
  "service_tables s \<equiv> st_tables (sv_store s)"

fun phase_ok :: "deps \<Rightarrow> Catalog \<Rightarrow> service \<Rightarrow> phase \<Rightarrow> bool" where
  "phase_ok dp cat s (Recording c d) = justified dp cat (sv_catalog s) c d"
| "phase_ok dp cat s (Logging c d body) = (justified dp cat (sv_catalog s) c d \<and>
     (\<exists>did. body = named_record c d did \<and> decided (service_tables s) c d did))"
| "phase_ok dp cat s (Reading c d) = (justified dp cat (sv_catalog s) c d \<and>
     (\<exists>log did. sv_audit_log s = log @ [named_record c d did] \<and> decided (service_tables s) c d did))"
| "phase_ok dp cat s (Issuing c d did) = (justified dp cat (sv_catalog s) c d \<and> decided (service_tables s) c d did)"
| "phase_ok dp cat s (Returned c d did g) = (justified dp cat (sv_catalog s) c d \<and> decided (service_tables s) c d did \<and>
     granted (service_tables s) c d did g)"
| "phase_ok dp cat s ph = True"

lemma decided_evolves: "evolves s s' \<Longrightarrow> idle (sv_store s) \<Longrightarrow> decided (service_tables s) c d did \<Longrightarrow> decided (service_tables s') c d did"
  by (auto simp: decided_def evolves_def kept_def tables_kept_def)

lemma granted_evolves:
  assumes "evolves s s'" "idle (sv_store s)" "granted (service_tables s) c d did g"
  shows "granted (service_tables s') c d did g"
proof (cases g)
  case (Some ig)
  then obtain row where row: "dict_get (t_grants (service_tables s)) (ig_grant_id ig) = Some row" using assms(3) by (auto simp: granted_def)
  have "grants_kept (t_grants (service_tables s)) (t_grants (service_tables s'))"
    using assms(1,2) by (simp add: evolves_def kept_def tables_kept_def)
  from grants_keptD [OF this row] obtain row' where
    "dict_get (t_grants (service_tables s')) (ig_grant_id ig) = Some row'" "binding row' = binding row" by blast
  then show ?thesis using assms(3) Some row by (auto simp: granted_def dest: binding_fields)
qed (use assms(3) in \<open>simp add: granted_def\<close>)

lemma justified_evolves: "evolves s s' \<Longrightarrow> justified dp cat (sv_catalog s) c d \<Longrightarrow> justified dp cat (sv_catalog s') c d"
  unfolding justified_def evolves_def by (meson rtranclp_trans)

lemma phase_ok_evolves:
  assumes "evolves s s'" "idle (sv_store s)" "phase_ok dp cat s ph" "critical ph \<longrightarrow> sv_audit_log s' = sv_audit_log s"
  shows "phase_ok dp cat s' ph"
  using assms(3,4) decided_evolves [OF assms(1,2)] granted_evolves [OF assms(1,2)] justified_evolves [OF assms(1)]
  by (cases ph) (simp; blast)+

text \<open>A step of the holder keeps what every handler keeps, and leads to a phase whose facts hold.\<close>

lemma advance_evolves: "advance dp ph s = (ph', s') \<Longrightarrow> evolves s s'"
proof -
  have rec: "within evolves (record_decision c d)" for c d
    unfolding record_decision_def Let_def by (intro evolves.rules) simp
  have grant: "within evolves (grant_step req p sid name d did)" for req p sid name d did
    unfolding grant_step_def by (auto intro!: evolves.rules evolves.issue_for split: option.split)
  show "advance dp ph s = (ph', s') \<Longrightarrow> evolves s s'"
    by (cases ph) (auto simp: proceed_def evolves.refl evolves.log_aside split: sum.splits prod.splits
        dest: withinD [OF rec] withinD [OF grant] withinD [OF evolves.last_decision_id])
qed

lemma record_decision_Inr:
  assumes "idle (sv_store s)" "record_decision c d s = (Inr body, s')"
  shows "\<exists>did. body = named_record c d did \<and> decided (service_tables s') c d did"
proof -
  let ?did = "st_uuids (sv_store s) 0" and ?t = "(sv_store s)\<lparr>st_uuids := \<lambda>n. st_uuids (sv_store s) (Suc n)\<rparr>"
  obtain seq t where t: "append_audit ''decision'' (named_record c d ?did) ?t = (Inr seq, t)" "body = named_record c d ?did" "sv_store s' = t"
    using assms(2) by (auto simp: record_decision_def sx_simps on_store_def uuid4_hex_def decision_id_unset update_new Let_def
        split: prod.splits)
  have "idle ?t" using assms(1) by (simp add: idle_def)
  then have "decided (st_tables t) c d ?did"
    using append_audit_spec [OF _ t(1)] by (auto simp: decided_def appended_tables)
  then show ?thesis using t by blast
qed

lemma advance_ok:
  assumes "advance dp ph s = (ph', s')" "idle (sv_store s)" "phase_ok dp cat s ph" "critical ph" "cat_step\<^sup>*\<^sup>* cat (sv_catalog s)"
  shows "phase_ok dp cat s' ph' \<and> phase_call ph' = phase_call ph"
proof -
  note e = advance_evolves [OF assms(1)]
  note keep = decided_evolves [OF e assms(2)] justified_evolves [OF e]
  show ?thesis
  proof (cases ph)
    case (Deciding c)
    then show ?thesis using assms(1,5) by (auto simp: proceed_def justified_def split: sum.splits)
  next
    case (Recording c d)
    then show ?thesis
      using assms(1,3) keep record_decision_Inr [OF assms(2)]
      by (cases "fst (record_decision c d s)") (auto simp: proceed_def split: prod.splits)
  next
    case (Logging c d body)
    then show ?thesis using assms(1,3) keep by auto
  next
    case (Reading c d)
    then obtain log did where last: "sv_audit_log s = log @ [named_record c d did]" "decided (service_tables s) c d did"
      using assms(3) by auto
    then show ?thesis
      using Reading assms(1,3) last_decision_id_run [OF last(1) decision_id_unset] by (auto simp: proceed_def)
  next
    case (Issuing c d did)
    obtain q t where q: "grant_step (ca_bound c) (ca_principal c) (ca_source c) (ca_name c) d did s = (q, t)" by fastforce
    show ?thesis
    proof (cases q)
      case (Inr g)
      have "granted (service_tables t) c d did g"
        using grant_step_spec [OF assms(2) q] Inr
        by (auto simp: granted_def grant_tables_def granted_row_def appended_tables dict_simps split: option.splits)
      then show ?thesis using Issuing assms(1,3) q Inr keep by (auto simp: proceed_def)
    qed (use Issuing assms(1) q in \<open>auto simp: proceed_def\<close>)
  qed (use assms(4) in auto)
qed

definition thread_ok :: "deps \<Rightarrow> (nat \<Rightarrow> call) \<Rightarrow> Catalog \<Rightarrow> process \<Rightarrow> bool" where
  "thread_ok dp calls cat x \<longleftrightarrow> idle (sv_store (pr_service x)) \<and> cat_step\<^sup>*\<^sup>* cat (sv_catalog (pr_service x)) \<and>
     (\<forall>i. (critical (pr_phase x i) \<longleftrightarrow> pr_owner x = Some i) \<and> phase_call (pr_phase x i) = calls i \<and>
        phase_ok dp cat (pr_service x) (pr_phase x i))"

lemma evolves_keeps: "evolves s s' \<Longrightarrow> idle (sv_store s) \<Longrightarrow> cat_step\<^sup>*\<^sup>* cat (sv_catalog s) \<Longrightarrow>
    idle (sv_store s') \<and> cat_step\<^sup>*\<^sup>* cat (sv_catalog s')"
  unfolding evolves_def kept_def by (meson rtranclp_trans)

lemma thread_step_ok: "thread_step dp x y \<Longrightarrow> thread_ok dp calls cat x \<Longrightarrow> thread_ok dp calls cat y"
proof (induction rule: thread_step.induct)
  case (acquire x i c)
  have ok: "(critical (pr_phase x j) \<longleftrightarrow> pr_owner x = Some j) \<and> phase_call (pr_phase x j) = calls j \<and>
      phase_ok dp cat (pr_service x) (pr_phase x j)" for j
    using acquire(3) by (simp add: thread_ok_def)
  show ?case using acquire ok [of i] ok by (auto simp: thread_ok_def)
next
  case (holder x i ph s)
  have x: "idle (sv_store (pr_service x))" "cat_step\<^sup>*\<^sup>* cat (sv_catalog (pr_service x))"
    and ok: "\<And>j. (critical (pr_phase x j) \<longleftrightarrow> pr_owner x = Some j) \<and> phase_call (pr_phase x j) = calls j \<and>
      phase_ok dp cat (pr_service x) (pr_phase x j)"
    using holder(3) by (simp_all add: thread_ok_def)
  note e = advance_evolves [OF holder(2)]
  have own: "phase_ok dp cat s ph \<and> phase_call ph = calls i"
    using advance_ok [OF holder(2) x(1) _ _ x(2)] ok [of i] holder(1) by auto
  have others: "phase_ok dp cat s (pr_phase x j)" if "j \<noteq> i" for j
    using phase_ok_evolves [OF e x(1)] ok [of j] holder(1) that by auto
  show ?case
    using evolves_keeps [OF e x] own others ok holder(1) by (auto simp: thread_ok_def)
next
  case (other x s)
  have x: "idle (sv_store (pr_service x))" "cat_step\<^sup>*\<^sup>* cat (sv_catalog (pr_service x))"
    and ok: "\<And>j. (critical (pr_phase x j) \<longleftrightarrow> pr_owner x = Some j) \<and> phase_call (pr_phase x j) = calls j \<and>
      phase_ok dp cat (pr_service x) (pr_phase x j)"
    using other(2) by (simp_all add: thread_ok_def)
  have e: "evolves (pr_service x) s" "sv_audit_log s = sv_audit_log (pr_service x)" using other(1) by (simp_all add: bystander_def)
  have "phase_ok dp cat s (pr_phase x j)" for j
    using phase_ok_evolves [OF e(1) x(1)] ok [of j] e(2) by blast
  then show ?case using evolves_keeps [OF e(1) x] ok by (simp add: thread_ok_def)
qed

lemma threads_ok:
  assumes "started calls x" "(thread_step dp)\<^sup>*\<^sup>* x y"
  shows "thread_ok dp calls (sv_catalog (pr_service x)) y"
  using assms(2)
proof (induction rule: rtranclp_induct)
  case base
  then show ?case using assms(1) by (simp add: started_def thread_ok_def)
qed (rule thread_step_ok)

lemma at_most_one_holder:
  assumes "started calls x" "(thread_step dp)\<^sup>*\<^sup>* x y" "critical (pr_phase y i)" "critical (pr_phase y j)"
  shows "i = j"
  using threads_ok [OF assms(1,2)] assms(3,4) by (auto simp: thread_ok_def)

text \<open>C26: concurrent authorizations do not mix. In every interleaving of any number of threads that
  authorize with each other and with steps of all other handlers, whatever statements fail, a thread
  that returned did so with the identifier of the record of its own decision, which is the broker's for
  its own call on a catalog the service went through; and it has a grant exactly when that decision is
  an allow and arguments were bound, whose row names this decision, principal, tool and digest.\<close>

theorem authorizations_do_not_mix:
  assumes "started calls x" "(thread_step dp)\<^sup>*\<^sup>* x y" "pr_phase y i = Returned c d did g"
  shows "c = calls i \<and> decided (st_tables (sv_store (pr_service y))) c d did \<and>
    granted (st_tables (sv_store (pr_service y))) c d did g \<and>
    justified dp (sv_catalog (pr_service x)) (sv_catalog (pr_service y)) c d"
proof -
  have "phase_call (pr_phase y i) = calls i \<and> phase_ok dp (sv_catalog (pr_service x)) (pr_service y) (pr_phase y i)"
    using threads_ok [OF assms(1,2)] by (simp add: thread_ok_def)
  then show ?thesis using assms(3) by auto
qed

section \<open>The lock is released\<close>

lemma advance_done: "\<not> critical ph \<Longrightarrow> advance dp ph s = (ph, s)"
  by (cases ph) auto

lemma steps_done: "\<not> critical (fst z) \<Longrightarrow> steps dp n z = z"
  by (induction n) (cases z; simp add: advance_done)+

fun rank :: "phase \<Rightarrow> nat" where
  "rank (Deciding c) = 5"
| "rank (Recording c d) = 4"
| "rank (Logging c d body) = 3"
| "rank (Reading c d) = 2"
| "rank (Issuing c d did) = 1"
| "rank ph = 0"

lemma critical_rank: "critical ph \<longleftrightarrow> 0 < rank ph"
  by (cases ph) auto

lemma advance_rank: "critical ph \<Longrightarrow> rank (fst (advance dp ph s)) < rank ph"
  by (cases ph) (auto simp: proceed_def split: prod.splits sum.splits)

text \<open>The holder can always run to its end on its own.\<close>

lemma holder_runs:
  assumes "pr_owner x = Some i" "critical (pr_phase x i)"
  shows "\<exists>y. (thread_step dp)\<^sup>*\<^sup>* x y \<and> pr_owner y = None \<and> \<not> critical (pr_phase y i) \<and>
    (pr_phase y i, pr_service y) = steps dp (rank (pr_phase x i)) (pr_phase x i, pr_service x)"
  using assms
proof (induction "rank (pr_phase x i)" arbitrary: x rule: less_induct)
  case less
  let ?ph = "pr_phase x i"
  obtain ph s where a: "advance dp ?ph (pr_service x) = (ph, s)" by fastforce
  let ?y = "x\<lparr>pr_service := s, pr_owner := (if critical ph then Some i else None), pr_phase := (pr_phase x)(i := ph)\<rparr>"
  have step: "thread_step dp x ?y" by (rule thread_step.holder [OF less.prems(1) a])
  have smaller: "rank ph < rank ?ph" using advance_rank [OF less.prems(2), of dp "pr_service x"] a by simp
  obtain n where n: "rank ?ph = Suc n" using less.prems(2) critical_rank by (metis gr0_implies_Suc)
  have one: "steps dp (rank ?ph) (?ph, pr_service x) = steps dp n (ph, s)"
    unfolding n funpow_Suc_right by (simp add: a)
  show ?case
  proof (cases "critical ph")
    case False
    then show ?thesis using step one steps_done [where z = "(ph, s)"] by (intro exI [of _ ?y]) auto
  next
    case True
    then obtain z where z: "(thread_step dp)\<^sup>*\<^sup>* ?y z" "pr_owner z = None" "\<not> critical (pr_phase z i)"
        "(pr_phase z i, pr_service z) = steps dp (rank ph) (ph, s)"
      using less.hyps [of ?y] smaller by auto
    have "steps dp n (ph, s) = steps dp (n - rank ph) (steps dp (rank ph) (ph, s))"
      using smaller n by (simp add: funpow_add [symmetric, THEN fun_cong, unfolded comp_def])
    also have "\<dots> = steps dp (rank ph) (ph, s)" using z(3,4) by (intro steps_done) (metis fst_conv)
    finally have "(pr_phase z i, pr_service z) = steps dp (rank ?ph) (?ph, pr_service x)" using one z(4) by simp
    then show ?thesis using step z(1-3) by (metis converse_rtranclp_into_rtranclp)
  qed
qed

text \<open>Whatever fails, the lock is free after at most five steps of the thread that holds it.\<close>

theorem lock_released:
  assumes "started calls x" "(thread_step dp)\<^sup>*\<^sup>* x y" "pr_owner y = Some i"
  shows "\<exists>z. (thread_step dp)\<^sup>*\<^sup>* y z \<and> pr_owner z = None \<and> \<not> critical (pr_phase z i) \<and>
    (\<exists>n \<le> 5. (pr_phase z i, pr_service z) = steps dp n (pr_phase y i, pr_service y))"
proof -
  have c: "critical (pr_phase y i)" using threads_ok [OF assms(1,2)] assms(3) by (auto simp: thread_ok_def)
  have "rank (pr_phase y i) \<le> 5" by (cases "pr_phase y i") auto
  then show ?thesis using holder_runs [OF assms(3) c] by blast
qed

section \<open>A run\<close>

definition demo_call :: call where
  "demo_call = \<lparr>ca_principal = Principal ''p'' ''local'' ''agent'' None, ca_source = ''docs'', ca_name = ''search'',
     ca_context = context_or_empty JNull, ca_bound = Some (sha256_hexdigest (dumps_sorted (JDict [])), 60)\<rparr>"

definition demo_threads :: process where
  "demo_threads = \<lparr>pr_service = demo_service, pr_owner = None, pr_phase = (\<lambda>i. Waiting demo_call)\<rparr>"

lemma demo_started: "started (\<lambda>i. demo_call) demo_threads"
  using demo_service_sound(1) by (simp add: started_def demo_threads_def)

lemma demo_run:
  "\<exists>y c d did ig. (thread_step demo_deps)\<^sup>*\<^sup>* demo_threads y \<and> pr_phase y 0 = Returned c d did (Some ig)"
proof -
  let ?x = "demo_threads\<lparr>pr_owner := Some 0, pr_phase := (pr_phase demo_threads)(0 := Deciding demo_call)\<rparr>"
  have acq: "thread_step demo_deps demo_threads ?x" by (rule thread_step.acquire) (simp_all add: demo_threads_def)
  obtain y where y: "(thread_step demo_deps)\<^sup>*\<^sup>* ?x y" "(pr_phase y 0, pr_service y) = steps demo_deps 5 (Deciding demo_call, demo_service)"
    using holder_runs [of ?x 0 demo_deps] by (auto simp: demo_threads_def)
  obtain d where d: "broker_decision (dp_engine demo_deps) (sv_catalog demo_service) (Principal ''p'' ''local'' ''agent'' None)
      ''docs'' ''search'' (context_or_empty JNull) = Inr d" "d_allowed d"
    using demo_allowed by blast
  have st: "healthy (sv_store demo_service)" "dict_get (t_grants (st_tables (sv_store demo_service))) (st_uuids (sv_store demo_service) 1) = None"
    by (simp_all add: demo_service_def demo_tables_def empty_tables_def)
  obtain resp s' ig where auth: "authorize demo_deps demo_principal ''docs'' ''search'' JNull (Some (JDict [])) JNull demo_service = (Inr resp, s')"
      "get_or_null resp ''grant'' = grant_json (Some ig)"
    using authorize_issues [OF st(1) demo_service_sound(1) demo_request demo_principal d st(2)] by blast
  obtain ph t where alone: "steps demo_deps 5 (Deciding demo_call, demo_service) = (ph, t)" by fastforce
  note whole = authorize_alone [OF demo_request demo_principal, of demo_deps "''docs''" "''search''" demo_service, folded demo_call_def, unfolded alone]
  have "\<exists>c d did ig. ph = Returned c d did (Some ig)"
  proof (cases ph)
    case (Returned c d did g)
    then have "grant_json g = grant_json (Some ig)" using whole auth by (auto simp: decision_payload_def get_or_null_def)
    then show ?thesis using Returned by (cases g) (auto simp: grant_json_def)
  qed (use whole auth(1) in auto)
  then show ?thesis using y acq alone by (metis converse_rtranclp_into_rtranclp fst_conv)
qed

theorem authorizations_do_not_mix_witness:
  "\<exists>y d did ig. (thread_step demo_deps)\<^sup>*\<^sup>* demo_threads y \<and> pr_phase y 0 = Returned demo_call d did (Some ig) \<and> d_allowed d \<and>
     decided (st_tables (sv_store (pr_service y))) demo_call d did"
proof -
  obtain y c d did ig where y: "(thread_step demo_deps)\<^sup>*\<^sup>* demo_threads y" "pr_phase y 0 = Returned c d did (Some ig)"
    using demo_run by blast
  then show ?thesis using authorizations_do_not_mix [OF demo_started y] by (auto simp: granted_def)
qed

end
