(* ===== verification/Spec2Isabelle.thy ===== *)
theory Spec2Isabelle
  imports Audit_Demo Flow_Experiment Interleaving
begin

text \<open>
  A verification development for ToolConnect, a governance decision point for tools: it records what
  tool servers claim, lets an operator vouch for a tool, decides whether a principal may call it,
  binds a permitted call to its exact arguments by a one-use grant, and keeps a hash-chained audit.

  \<^bold>\<open>The parts and how they interact.\<close>
  A request enters through the HTTP server (\<open>server.py\<close>), the enforcement gateway (\<open>gateway.py\<close>) or the
  command line. They call the service (\<open>service.py\<close>), which owns the in-memory catalog (\<open>catalog.py\<close>,
  \<open>descriptor.py\<close>), the broker over a Cedar engine (\<open>policy.py\<close>), the SQLite store (\<open>store.py\<close>) and the
  bus publisher (\<open>buspublish.py\<close>). Tools come from MCP discovery (\<open>mcp_source.py\<close>), a pushed payload, or
  an OpenAPI document (\<open>openapi_source.py\<close>), and an operator may vouch only for a tool that passes the
  schema gate (\<open>schema.py\<close>). Arguments are bound by \<open>hashing.py\<close>; grants of an external issuer are verified
  by \<open>govgrants.py\<close>. A caller uses \<open>client.py\<close>, whose \<open>governed_invoke\<close> authorizes, redeems, runs the
  caller's executor and reports. \<open>flow.py\<close> analyses which data a toolset can carry out.

  \<^bold>\<open>Which theory models which part.\<close> Definitions keep the names of the code where they can; the record
  of a class is named after it, its fields carry a two-letter prefix.
  \<^item> \<open>Prelude\<close>: exceptions as values (\<open>exn\<close>, \<open>result\<close>), dictionaries as association lists in insertion order
    with the locale \<open>keyed_table\<close>, texts, integers. \<open>Sx\<close>: computations on a state that may raise, keeping
    the state they reached (\<open>sx_bind\<close>, \<open>sx_catch\<close>); the locale \<open>sx_relation\<close> lifts a reflexive and
    transitive relation between states through them, and \<open>one_use_ledger\<close> turns a spent-set that only
    grows into \<^emph>\<open>at most once\<close>.
  \<^item> \<open>Json\<close>, \<open>Json_Reader\<close>, \<open>Sha256\<close>: JSON values, \<open>json.dumps\<close>, the reader of what it writes, and the
    digest on 32-bit words.
  \<^item> \<open>Hashing\<close>, \<open>Descriptor\<close>, \<open>Flow\<close>, \<open>Schema\<close>, \<open>Catalog\<close>, \<open>Policy\<close>, \<open>Govgrants\<close>, \<open>Mcp_Source\<close>, \<open>Buspublish\<close>,
    \<open>Openapi_Source\<close>: the files of the same name. The locale \<open>policy_engine\<close> is what the broker needs of
    an engine; the Cedar adapter is its interpretation.
  \<^item> \<open>Store_Db\<close> (tables, connection, transactions with failing statements), \<open>Store_Audit\<close> (the chain),
    \<open>Store_Catalog\<close> (rows, codecs, hydration), \<open>Store_Open\<close> (opening and migrations), \<open>Store_Grants\<close>:
    \<open>store.py\<close>.
  \<^item> \<open>Service\<close> with \<open>Service_Relation\<close>, \<open>Service_Props\<close>, \<open>Service_Restart\<close>, \<open>Service_Authorize\<close>,
    \<open>Service_Governance\<close>, \<open>Interleaving\<close>: \<open>service.py\<close>. The locales of \<open>Service_Relation\<close> check the
    handlers once for any relation on services; they are interpreted by what every request keeps
    (\<open>Service_Props\<close>), by what leaves the rows of the catalog alone (\<open>Service_Restart\<close>, restarts as steps
    of \<open>lifetime\<close>) and by what a thread does beside an authorization (\<open>Interleaving\<close>, threads as steps of
    \<open>thread_step\<close>). The other two hold the refinements of authorization and of governance redemption.
  \<^item> \<open>Gateway\<close> with \<open>Gateway_Props\<close>: \<open>gateway.py\<close>, complete mediation and its answers.
  \<^item> \<open>Rate_Limiter\<close>, \<open>Server\<close> with \<open>Server_Props\<close>: \<open>server.py\<close>. \<open>Client\<close> with \<open>Client_Props\<close>: \<open>client.py\<close>.
  \<^item> \<open>Cli\<close> with \<open>Cli_Props\<close>: \<open>cli.py\<close>, every command over files, environment and database files.
  \<^item> \<open>Deployment\<close>: client, server and service composed by a wire, with traffic of other clients between
    any two calls.
  \<^item> \<open>Experiments\<close>, \<open>Flow_Experiment\<close>, \<open>Audit_Demo\<close>: the scripts of \<open>experiments\<close> and the labelled catalog
    \<open>fixtures/real_catalog.py\<close>.

  \<^bold>\<open>What the groups of theorems show.\<close>
  \<^item> \<^emph>\<open>Binding.\<close> Equal digests mean equal arguments up to key order or a SHA-256 collision; every input
    that cannot be bound is refused with one exception.
  \<^item> \<^emph>\<open>Vouching.\<close> In every reachable catalog, and after hydration from the store, a tool is invocable exactly
    on standing evidence for its current claim and a trusted source; a changed claim loses it.
  \<^item> \<^emph>\<open>Decisions.\<close> The broker allows exactly what is vouched, trusted and permitted by Cedar. \<open>authorize\<close>
    refines a function of the decision: one record, and one bound grant for an allowed call.
  \<^item> \<^emph>\<open>Grants.\<close> Redemption succeeds exactly under its conditions, is atomic under failing statements, and
    over any sequence of requests no grant is redeemed twice; the same for governance grants.
  \<^item> \<^emph>\<open>Audit.\<close> Appends are atomic and keep the chain verifiable; an altered or truncated chain is noticed,
    up to a collision. Opening an older database upgrades it without touching data.
  \<^item> \<^emph>\<open>Mediation.\<close> Whatever crosses the gateway is plumbing or a call backed by a redemption of its own;
    whatever a deployed client executes is backed by a grant redeemed for that caller, tool and digest; a
    permitted call goes through. The server answers nothing but errors without its token.
  \<^item> \<^emph>\<open>Commands.\<close> The same mediation from the command line to the database file; opening a database
    changes no data whatever fails; the checks (\<open>verify-audit\<close>, \<open>backup\<close>, \<open>drift\<close>) exit with 0 exactly
    when they should; ingesting a document changes claims only.
  \<^item> \<^emph>\<open>Restarts.\<close> After any answered requests and restarts a new service on the same tables continues where
    the last one stopped; a push that raises halfway is where memory and tables part.
  \<^item> \<^emph>\<open>Threads.\<close> However threads interleave, an authorization returns its own decision and a grant bound to
    its own call, and the lock is free after at most five steps of its holder.
  \<^item> \<^emph>\<open>Experiments.\<close> The scripts print the numbers their comments and documents quote, and the
    demonstration against tail truncation returns 0 whatever the policy engine decides.
  \<^item> \<^emph>\<open>Faults.\<close> Exactly which exceptions leave discovery, OpenAPI loading, grant verification and the
    client, including those the documentation rules out.

  \<^bold>\<open>Termination and bounds.\<close> Every loop is a total function. Reading from a process recurs on the list of
  poll results before the deadline, request loops on the input left in them (\<open>input_left\<close>, \<open>frames_left\<close>),
  the session loop and the body drain on the length of their input, listings on the code's own page
  bounds, and the JSON reader on fuel that the length of the text is proved to cover.

  \<^bold>\<open>Parameters.\<close> The Cedar library, PEM loading and Ed25519, \<open>datetime.fromisoformat\<close>, JSON decoders of
  foreign bytes, \<open>float\<close> of a text, \<open>urllib.parse\<close>, PyYAML, the network between client and server, the
  executor, spawned processes, files, environment variables, TOML, clocks, random identifiers and
  which statement fails are arguments; what a property needs of one is a hypothesis of it, with a
  concrete instance in its witness.

  \<^bold>\<open>Modelling decisions.\<close> Texts are lists of code points 0 to 255. Messages of exceptions are dropped or
  parameters. Arguments annotated as texts are texts; what the service does with a JSON value outside
  an annotation is a parameter of the server. JSON columns are kept decoded, audit bodies as text.
  Instants are integers in microseconds, and so is the limiter's clock. SQL is modelled by its effect.
  Calls run one at a time, except in \<open>Interleaving\<close>; the locks of the store and of the HTTP server, which
  make that so, are left out. The bus publisher's posts, whose
  failures are all swallowed, are the list of bodies handed over.

  \<^bold>\<open>Not modelled.\<close> Option parsing by \<open>argparse\<close> and the wording of printed lines, the accept loop
  and threads of the HTTP server, starting and stopping of processes, the HTTP post of the bus
  publisher, display values such as \<open>collapse_ratio\<close>, and the example MCP servers under \<open>fixtures\<close>.
\<close>

end
